(* ===== verification/Prelude.thy ===== *)
theory Prelude
  imports Main "HOL-Library.Word"
begin

unbundle bit_operations_syntax

text \<open>
  Shared vocabulary of the development: the widths of the machine integers, the values an
  exceptional C++ computation can produce, sequencing of computations that may fail, the
  host's 64-bit \<open>size_t\<close> arithmetic with its wrap-around written out, the comparison macros
  of \<open>sim/include/compare.hpp\<close>, and the generic list and word facts that several
  components use.  The collection \<open>res_simps\<close> holds the equations of the failure type,
  \<open>sz_simps\<close> the side-condition-free facts on \<open>size_t\<close>.
\<close>

named_theorems res_simps
named_theorems sz_simps

type_synonym u8 = "8 word"
type_synonym u16 = "16 word"
type_synonym u32 = "32 word"
type_synonym u64 = "64 word"

section \<open>Failing computations\<close>

text \<open>
  \<open>RangeError i n\<close> is the \<open>std::range_error\<close> thrown for index \<open>i\<close> of a container of size
  \<open>n\<close>, \<open>RangeErrorMsg m\<close> one with a fixed message, \<open>RuntimeError m\<close> a \<open>std::runtime_error\<close> with message \<open>m\<close>, and \<open>OutOfBounds\<close> an
  unchecked access outside an object or after the end of its lifetime, which is undefined
  behaviour in C++.
\<close>

datatype cpp_error = RangeError nat nat | RangeErrorMsg string | RuntimeError string | OutOfBounds

type_synonym 'a result = "cpp_error + 'a"

fun res_bind :: "'e + 'a \<Rightarrow> ('a \<Rightarrow> 'e + 'b) \<Rightarrow> 'e + 'b" where
  "res_bind (Inl e) f = Inl e"
| "res_bind (Inr x) f = f x"

declare res_bind.simps [res_simps]

lemma res_bind_eq_Inr [res_simps]:
  "res_bind m f = Inr y \<longleftrightarrow> (\<exists>x. m = Inr x \<and> f x = Inr y)"
  by (cases m) auto

lemma res_bind_eq_Inl [res_simps]:
  "res_bind m f = Inl e \<longleftrightarrow> m = Inl e \<or> (\<exists>x. m = Inr x \<and> f x = Inl e)"
  by (cases m) auto

lemma res_bind_assoc: "res_bind (res_bind m f) g = res_bind m (\<lambda>x. res_bind (f x) g)"
  by (cases m) simp_all

lemma res_bind_cong [fundef_cong]:
  "m = m' \<Longrightarrow> (\<And>x. m' = Inr x \<Longrightarrow> f x = f' x) \<Longrightarrow> res_bind m f = res_bind m' f'"
  by (cases m') auto

section \<open>Arithmetic on the host's size type\<close>

text \<open>
  The simulator runs on a 64-bit host.  A \<open>size_t\<close> is a natural number below
  \<open>SIZE_MOD\<close>; sums and differences wrap around.
\<close>

definition SIZE_MOD :: nat where
  "SIZE_MOD = 2 ^ 64"

definition sz_add :: "nat \<Rightarrow> nat \<Rightarrow> nat" where
  "sz_add a b = (a + b) mod SIZE_MOD"

definition sz_sub :: "nat \<Rightarrow> nat \<Rightarrow> nat" where
  "sz_sub a b = (a + SIZE_MOD - b mod SIZE_MOD) mod SIZE_MOD"

lemma SIZE_MOD_pos [sz_simps]: "0 < SIZE_MOD"
  by (simp add: SIZE_MOD_def)

lemma sz_add_less [sz_simps]: "sz_add a b < SIZE_MOD"
  by (simp add: sz_add_def SIZE_MOD_def)

lemma sz_add_exact: "a + b < SIZE_MOD \<Longrightarrow> sz_add a b = a + b"
  by (simp add: sz_add_def)

lemma sz_sub_exact: "b \<le> a \<Longrightarrow> a < SIZE_MOD \<Longrightarrow> sz_sub a b = a - b"
proof -
  assume "b \<le> a" "a < SIZE_MOD"
  then have "a + SIZE_MOD - b mod SIZE_MOD = (a - b) + SIZE_MOD" by simp
  with \<open>a < SIZE_MOD\<close> show ?thesis by (simp add: sz_sub_def)
qed

lemma sz_sub_wrap: "a < b \<Longrightarrow> b < SIZE_MOD \<Longrightarrow> sz_sub a b = SIZE_MOD - (b - a)"
  by (simp add: sz_sub_def)

text \<open>The macros of \<open>compare.hpp\<close>, over unsigned operands.\<close>

definition MIN_macro :: "nat \<Rightarrow> nat \<Rightarrow> nat" where
  "MIN_macro a b = (if a < b then a else b)"

definition MAX_macro :: "nat \<Rightarrow> nat \<Rightarrow> nat" where
  "MAX_macro a b = (if a > b then a else b)"

definition U_SUBCLAMP0 :: "nat \<Rightarrow> nat \<Rightarrow> nat" where
  "U_SUBCLAMP0 v d = (if v > d then v - d else 0)"

lemma MIN_macro_eq [simp]: "MIN_macro a b = min a b"
  by (simp add: MIN_macro_def min_def)

lemma MAX_macro_eq [simp]: "MAX_macro a b = max a b"
  by (simp add: MAX_macro_def max_def)

lemma U_SUBCLAMP0_eq [simp]: "U_SUBCLAMP0 v d = v - d"
  by (simp add: U_SUBCLAMP0_def)

section \<open>Lists\<close>

lemma map_const_upt: "map (\<lambda>_. c) [a..<b] = replicate (b - a) c"
  by (simp add: map_replicate_const)

lemma all_set_list_update:
  "(\<forall>x \<in> set xs. P x) \<Longrightarrow> P y \<Longrightarrow> \<forall>x \<in> set (xs[i := y]). P x"
  by (auto dest: set_update_subset_insert [THEN subsetD])

section \<open>Words\<close>

lemma bit_ff: "bit (0xff :: 'a::len word) i \<longleftrightarrow> i < 8 \<and> i < LENGTH('a)"
proof -
  have "(0xff :: 'a word) = mask 8" by (simp add: mask_eq_exp_minus_1)
  then show ?thesis by (simp only: bit_mask_iff) (auto simp: possible_bit_word)
qed

lemma take_bit_word_add: "take_bit n (a + b) = take_bit n (take_bit n a + take_bit n (b::'a::len word))"
  by transfer (simp add: take_bit_add)

lemma take_bit_word_diff: "take_bit n (a - b) = take_bit n (take_bit n a - take_bit n (b::'a::len word))"
  by transfer (simp add: take_bit_diff)

lemma unat_take_bit_mod: "unat (take_bit n (w :: 'a::len word)) = unat w mod 2 ^ n"
  unfolding unsigned_take_bit_eq by (rule take_bit_eq_mod)

lemma u32_shift_unat:
  "unat (addr :: u32) + j < 2 ^ 32 \<Longrightarrow> unat (addr + of_nat j) = unat addr + j"
  by (simp add: unat_word_ariths unat_of_nat)

lemma align_down4: "(x :: u32) AND 0xfffffffc = x - take_bit 2 x"
proof -
  have m: "(0xfffffffc :: u32) = NOT (mask 2)" by (simp add: mask_eq_exp_minus_1)
  have "(x AND NOT (mask 2)) AND (x AND mask 2) = 0" by (rule bit_word_eqI) (simp add: bit_simps)
  moreover have "(x AND NOT (mask 2)) OR (x AND mask 2) = x" by (rule bit_word_eqI) (auto simp: bit_simps)
  ultimately have "(x AND NOT (mask 2)) + (x AND mask 2) = x"
    using word_plus_and_or [of "x AND NOT (mask 2)" "x AND mask 2"] by simp
  then show ?thesis by (simp add: m take_bit_eq_mask eq_diff_eq)
qed

lemma take2_small: "(j :: u32) < 4 \<Longrightarrow> take_bit 2 j = j"
  by (simp add: word_unat_eq_iff unat_take_bit_mod word_less_nat_alt)

lemma take2_add: 
  assumes "take_bit 2 base = 0" "(j :: u32) < 4" shows "take_bit 2 (base + j) = j"
proof -
  have "take_bit 2 (base + j) = take_bit 2 (take_bit 2 base + take_bit 2 j)" by (rule take_bit_word_add)
  then show ?thesis using assms take2_small [of j] by simp
qed

lemma bit_byte_of: "bit (ucast (ucast (drop_bit n t AND 0xff) :: u8) AND 0xff :: u32) i \<longleftrightarrow> i < 8 \<and> bit (t :: u32) (n + i)"
proof -
  have "bit (0xff :: u32) i \<longleftrightarrow> i < 8" for i :: nat using bit_ff [where 'a = 32, of i] by auto
  then show ?thesis by (simp only: bit_and_iff bit_ucast_iff bit_drop_bit_eq o_apply) auto
qed

lemma bytes_join: "push_bit 24 (ucast (ucast (drop_bit 24 t AND 0xff) :: u8) AND 0xff) OR
   push_bit 16 (ucast (ucast (drop_bit 16 t AND 0xff) :: u8) AND 0xff) OR
   push_bit 8 (ucast (ucast (drop_bit 8 t AND 0xff) :: u8) AND 0xff) OR
   (ucast (ucast (drop_bit 0 t AND 0xff) :: u8) AND 0xff) = (t :: u32)"
proof (rule bit_word_eqI)
  fix i :: nat assume "i < LENGTH(32)"
  then have i: "i < 32" by simp
  then have "i < 8 \<or> 8 \<le> i \<and> i < 16 \<or> 16 \<le> i \<and> i < 24 \<or> 24 \<le> i \<and> i < 32" by arith
  then show "bit (push_bit 24 (ucast (ucast (drop_bit 24 t AND 0xff) :: u8) AND 0xff) OR
   push_bit 16 (ucast (ucast (drop_bit 16 t AND 0xff) :: u8) AND 0xff) OR
   push_bit 8 (ucast (ucast (drop_bit 8 t AND 0xff) :: u8) AND 0xff) OR
   (ucast (ucast (drop_bit 0 t AND 0xff) :: u8) AND 0xff) :: u32) i = bit t i"
    unfolding bit_or_iff bit_push_bit_iff bit_byte_of using i by auto
qed

end
