(* ===== verification/Display_Format.thy ===== *)
theory Display_Format
  imports Prelude
begin

text \<open>
  The conversions of \<open>printf\<close> that the debugger windows use: \<open>%d\<close>, \<open>%x\<close> with a fixed number of
  digits, and padding to a width, as functions to strings.
\<close>

definition digit_char :: "nat \<Rightarrow> char" where
  "digit_char d = ''0123456789abcdef'' ! d"

text \<open>\<open>%0nx\<close> of a value below \<open>16^n\<close>.\<close>

fun hex_digits :: "nat \<Rightarrow> nat \<Rightarrow> string" where
  "hex_digits 0 x = ''''"
| "hex_digits (Suc n) x = hex_digits n (x div 16) @ [digit_char (x mod 16)]"

fun dec_nat :: "nat \<Rightarrow> string" where
  "dec_nat n = (if n < 10 then [digit_char n] else dec_nat (n div 10) @ [digit_char (n mod 10)])"

declare dec_nat.simps [simp del]

definition dec_int :: "int \<Rightarrow> string" where
  "dec_int i = (if i < 0 then CHR 0x2d # dec_nat (nat (- i)) else dec_nat (nat i))"

definition pad_left :: "nat \<Rightarrow> string \<Rightarrow> string" where
  "pad_left n s = replicate (n - length s) CHR 0x20 @ s"

definition hex8 :: "u32 \<Rightarrow> string" where "hex8 w = ''0x'' @ hex_digits 8 (unat w)"

section \<open>What was printed can be read back\<close>

definition digit_val :: "char \<Rightarrow> nat" where
  "digit_val c = (if of_char c < (58 :: nat) then of_char c - 48 else of_char c - 87)"

definition read_digits :: "nat \<Rightarrow> string \<Rightarrow> nat" where
  "read_digits b s = foldl (\<lambda>n c. b * n + digit_val c) 0 s"

lemma all_digits: "list_all (\<lambda>d. digit_val (digit_char d) = d \<and> digit_char d \<noteq> CHR 0x2d) [0..<16]"
  by code_simp

lemma digit_val_char: "d < 16 \<Longrightarrow> digit_val (digit_char d) = d"
  using all_digits by (simp add: list_all_iff del: upt_rec_numeral upt.simps)

lemma read_hex_digits: "x < 16 ^ n \<Longrightarrow> read_digits 16 (hex_digits n x) = x"
proof (induction n arbitrary: x)
  case (Suc n)
  then have "read_digits 16 (hex_digits n (x div 16)) = x div 16" by (intro Suc.IH) (simp add: less_mult_imp_div_less mult.commute)
  then show ?case by (simp add: read_digits_def digit_val_char)
qed (simp add: read_digits_def)

lemma read_dec_nat: "read_digits 10 (dec_nat n) = n"
proof (induction n rule: dec_nat.induct)
  case (1 n)
  show ?case
  proof (cases "n < 10")
    case True
    then show ?thesis by (simp add: dec_nat.simps [of n] read_digits_def digit_val_char)
  next
    case False
    then have "read_digits 10 (dec_nat (n div 10)) = n div 10" by (rule "1.IH")
    then show ?thesis using False by (subst dec_nat.simps) (simp add: read_digits_def digit_val_char)
  qed
qed

lemma read_hex8: "read_digits 16 (drop 2 (hex8 w)) = unat w"
proof -
  have "unat w < 16 ^ 8" using unsigned_less [where 'a = nat and w = w] by simp
  then have "read_digits 16 (hex_digits 8 (unat w)) = unat w" by (rule read_hex_digits)
  moreover have "drop 2 (hex8 w) = hex_digits 8 (unat w)" unfolding hex8_def by (simp only: append_Cons append_Nil numeral_2_eq_2 drop_Suc_Cons drop_0)
  ultimately show ?thesis by (simp only:)
qed

lemma hex8_inject: "hex8 v = hex8 w \<longleftrightarrow> v = w"
  using read_hex8 word_unat_eq_iff by metis

lemma digit_char_not_minus: "d < 16 \<Longrightarrow> digit_char d \<noteq> CHR 0x2d"
  using all_digits by (simp add: list_all_iff del: upt_rec_numeral upt.simps)

lemma dec_nat_head: "hd (dec_nat n) \<noteq> CHR 0x2d \<and> dec_nat n \<noteq> []"
proof (induction n rule: dec_nat.induct)
  case (1 n)
  then show ?case using digit_char_not_minus [of n] by (cases "n < 10") (simp_all add: dec_nat.simps [of n])
qed

lemma dec_int_inject: "dec_int i = dec_int j \<longleftrightarrow> i = j"
proof
  assume e: "dec_int i = dec_int j"
  have n: "dec_nat a = dec_nat b \<Longrightarrow> a = b" for a b by (metis read_dec_nat)
  have "i < 0 \<longleftrightarrow> j < 0" using e dec_nat_head by (metis dec_int_def list.sel(1))
  then show "i = j" using e n by (auto simp: dec_int_def split: if_splits dest!: n)
qed simp

end
