(* ===== verification/Cotm32_Defs.thy ===== *)
theory Cotm32_Defs
  imports Prelude
begin

text \<open>
  The constants and enumerations of \<open>sim/include/cotm32_defs.hpp\<close>.  A C++ enumeration without
  a fixed underlying type holds any value of its bit range, and the views cast raw signals to
  it; each datatype therefore has, beside the enumerators, one constructor \<open>..._raw\<close> for a value
  that no enumerator names.  \<open>to_...\<close> is the \<open>static_cast\<close> from the signal, \<open>of_...\<close> the
  integer value of the enumeration; the locale \<open>code_enum\<close> states how the two relate.
\<close>

section \<open>Sizes and address ranges\<close>

definition NUM_REGS :: int where "NUM_REGS = 32"

definition IMEM_MEM_SIZE :: u32 where "IMEM_MEM_SIZE = 8192"

definition CLINT_MEM_SIZE :: u32 where "CLINT_MEM_SIZE = 65536"

definition UART_MEM_SIZE :: u32 where "UART_MEM_SIZE = 256"

definition DATA_MEM_SIZE :: u32 where "DATA_MEM_SIZE = 65536"

definition IMEM_MEM_START :: u32 where "IMEM_MEM_START = 0x00000000"

definition IMEM_MEM_END :: u32 where "IMEM_MEM_END = IMEM_MEM_START + IMEM_MEM_SIZE - 1"

definition CLINT_MEM_START :: u32 where "CLINT_MEM_START = 0x02000000"

definition CLINT_MEM_END :: u32 where "CLINT_MEM_END = CLINT_MEM_START + CLINT_MEM_SIZE - 1"

definition UART_MEM_START :: u32 where "UART_MEM_START = 0x10000000"

definition UART_MEM_END :: u32 where "UART_MEM_END = UART_MEM_START + UART_MEM_SIZE - 1"

definition DATA_MEM_START :: u32 where "DATA_MEM_START = 0x80000000"

definition DATA_MEM_END :: u32 where "DATA_MEM_END = DATA_MEM_START + DATA_MEM_SIZE - 1"

lemmas mem_map_defs = IMEM_MEM_SIZE_def CLINT_MEM_SIZE_def UART_MEM_SIZE_def DATA_MEM_SIZE_def
  IMEM_MEM_START_def IMEM_MEM_END_def CLINT_MEM_START_def CLINT_MEM_END_def
  UART_MEM_START_def UART_MEM_END_def DATA_MEM_START_def DATA_MEM_END_def

section \<open>Enumerations\<close>

text \<open>What a cast and the enumeration's value owe each other.\<close>

locale code_enum =
  fixes to_enum :: "u32 \<Rightarrow> 'e"
    and of_enum :: "'e \<Rightarrow> u32"
    and named :: "'e list"
  assumes of_to: "of_enum (to_enum w) = w"
    and to_of_named: "e \<in> set named \<Longrightarrow> to_enum (of_enum e) = e"
    and distinct_named: "distinct named"
begin

lemma to_enum_inj: "to_enum v = to_enum w \<longleftrightarrow> v = w"
  by (metis of_to)

lemma of_enum_inj_on_named: "inj_on of_enum (set named)"
  by (rule inj_onI) (metis to_of_named)

text \<open>A raw value is a named enumerator exactly when it is one of the enumerators' values.\<close>

lemma to_enum_named_iff: "to_enum w \<in> set named \<longleftrightarrow> w \<in> of_enum ` set named"
  by (metis image_iff of_to to_of_named)

lemma distinct_values: "distinct (map of_enum named)"
  using distinct_named of_enum_inj_on_named by (simp add: distinct_map)

end

datatype alu_op = AluOp_ADD | AluOp_SUB | AluOp_OR | AluOp_AND | AluOp_XOR | AluOp_SLT | AluOp_SLTU | AluOp_SLL | AluOp_SRL | AluOp_SRA | AluOp_raw u32

definition to_alu_op :: "u32 \<Rightarrow> alu_op" where
  "to_alu_op w = (
     if w = 0 then AluOp_ADD else
     if w = 1 then AluOp_SUB else
     if w = 2 then AluOp_OR else
     if w = 3 then AluOp_AND else
     if w = 4 then AluOp_XOR else
     if w = 5 then AluOp_SLT else
     if w = 6 then AluOp_SLTU else
     if w = 7 then AluOp_SLL else
     if w = 8 then AluOp_SRL else
     if w = 9 then AluOp_SRA else AluOp_raw w)"

fun of_alu_op :: "alu_op \<Rightarrow> u32" where
  "of_alu_op AluOp_ADD = 0"
| "of_alu_op AluOp_SUB = 1"
| "of_alu_op AluOp_OR = 2"
| "of_alu_op AluOp_AND = 3"
| "of_alu_op AluOp_XOR = 4"
| "of_alu_op AluOp_SLT = 5"
| "of_alu_op AluOp_SLTU = 6"
| "of_alu_op AluOp_SLL = 7"
| "of_alu_op AluOp_SRL = 8"
| "of_alu_op AluOp_SRA = 9"
| "of_alu_op (AluOp_raw w) = w"

definition alu_op_all :: "alu_op list" where
  "alu_op_all = [AluOp_ADD, AluOp_SUB, AluOp_OR, AluOp_AND, AluOp_XOR, AluOp_SLT, AluOp_SLTU, AluOp_SLL, AluOp_SRL, AluOp_SRA]"

interpretation alu_op: code_enum to_alu_op of_alu_op alu_op_all
  by unfold_locales (auto simp: to_alu_op_def alu_op_all_def)

datatype bu_op = BuOp_NEVER | BuOp_ALWAYS | BuOp_EQ | BuOp_NE | BuOp_LT | BuOp_GE | BuOp_LTU | BuOp_GEU | BuOp_raw u32

definition to_bu_op :: "u32 \<Rightarrow> bu_op" where
  "to_bu_op w = (
     if w = 0 then BuOp_NEVER else
     if w = 1 then BuOp_ALWAYS else
     if w = 2 then BuOp_EQ else
     if w = 3 then BuOp_NE else
     if w = 4 then BuOp_LT else
     if w = 5 then BuOp_GE else
     if w = 6 then BuOp_LTU else
     if w = 7 then BuOp_GEU else BuOp_raw w)"

fun of_bu_op :: "bu_op \<Rightarrow> u32" where
  "of_bu_op BuOp_NEVER = 0"
| "of_bu_op BuOp_ALWAYS = 1"
| "of_bu_op BuOp_EQ = 2"
| "of_bu_op BuOp_NE = 3"
| "of_bu_op BuOp_LT = 4"
| "of_bu_op BuOp_GE = 5"
| "of_bu_op BuOp_LTU = 6"
| "of_bu_op BuOp_GEU = 7"
| "of_bu_op (BuOp_raw w) = w"

definition bu_op_all :: "bu_op list" where
  "bu_op_all = [BuOp_NEVER, BuOp_ALWAYS, BuOp_EQ, BuOp_NE, BuOp_LT, BuOp_GE, BuOp_LTU, BuOp_GEU]"

interpretation bu_op: code_enum to_bu_op of_bu_op bu_op_all
  by unfold_locales (auto simp: to_bu_op_def bu_op_all_def)

datatype alu_a = AluPortA_RS1 | AluPortA_PC | AluPortA_raw u32

definition to_alu_a :: "u32 \<Rightarrow> alu_a" where
  "to_alu_a w = (
     if w = 0 then AluPortA_RS1 else
     if w = 1 then AluPortA_PC else AluPortA_raw w)"

fun of_alu_a :: "alu_a \<Rightarrow> u32" where
  "of_alu_a AluPortA_RS1 = 0"
| "of_alu_a AluPortA_PC = 1"
| "of_alu_a (AluPortA_raw w) = w"

definition alu_a_all :: "alu_a list" where
  "alu_a_all = [AluPortA_RS1, AluPortA_PC]"

interpretation alu_a: code_enum to_alu_a of_alu_a alu_a_all
  by unfold_locales (auto simp: to_alu_a_def alu_a_all_def)

datatype alu_b = AluPortB_RS2 | AluPortB_IMM | AluPortB_raw u32

definition to_alu_b :: "u32 \<Rightarrow> alu_b" where
  "to_alu_b w = (
     if w = 0 then AluPortB_RS2 else
     if w = 1 then AluPortB_IMM else AluPortB_raw w)"

fun of_alu_b :: "alu_b \<Rightarrow> u32" where
  "of_alu_b AluPortB_RS2 = 0"
| "of_alu_b AluPortB_IMM = 1"
| "of_alu_b (AluPortB_raw w) = w"

definition alu_b_all :: "alu_b list" where
  "alu_b_all = [AluPortB_RS2, AluPortB_IMM]"

interpretation alu_b: code_enum to_alu_b of_alu_b alu_b_all
  by unfold_locales (auto simp: to_alu_b_def alu_b_all_def)

datatype lsu_ls = LsuLoadStoreOp_NONE | LsuLoadStoreOp_LOAD_B | LsuLoadStoreOp_LOAD_H | LsuLoadStoreOp_LOAD_W | LsuLoadStoreOp_LOAD_BU | LsuLoadStoreOp_LOAD_HU | LsuLoadStoreOp_STORE_B | LsuLoadStoreOp_STORE_H | LsuLoadStoreOp_STORE_W | LsuLoadStoreOp_raw u32

definition to_lsu_ls :: "u32 \<Rightarrow> lsu_ls" where
  "to_lsu_ls w = (
     if w = 0 then LsuLoadStoreOp_NONE else
     if w = 1 then LsuLoadStoreOp_LOAD_B else
     if w = 2 then LsuLoadStoreOp_LOAD_H else
     if w = 3 then LsuLoadStoreOp_LOAD_W else
     if w = 4 then LsuLoadStoreOp_LOAD_BU else
     if w = 5 then LsuLoadStoreOp_LOAD_HU else
     if w = 6 then LsuLoadStoreOp_STORE_B else
     if w = 7 then LsuLoadStoreOp_STORE_H else
     if w = 8 then LsuLoadStoreOp_STORE_W else LsuLoadStoreOp_raw w)"

fun of_lsu_ls :: "lsu_ls \<Rightarrow> u32" where
  "of_lsu_ls LsuLoadStoreOp_NONE = 0"
| "of_lsu_ls LsuLoadStoreOp_LOAD_B = 1"
| "of_lsu_ls LsuLoadStoreOp_LOAD_H = 2"
| "of_lsu_ls LsuLoadStoreOp_LOAD_W = 3"
| "of_lsu_ls LsuLoadStoreOp_LOAD_BU = 4"
| "of_lsu_ls LsuLoadStoreOp_LOAD_HU = 5"
| "of_lsu_ls LsuLoadStoreOp_STORE_B = 6"
| "of_lsu_ls LsuLoadStoreOp_STORE_H = 7"
| "of_lsu_ls LsuLoadStoreOp_STORE_W = 8"
| "of_lsu_ls (LsuLoadStoreOp_raw w) = w"

definition lsu_ls_all :: "lsu_ls list" where
  "lsu_ls_all = [LsuLoadStoreOp_NONE, LsuLoadStoreOp_LOAD_B, LsuLoadStoreOp_LOAD_H, LsuLoadStoreOp_LOAD_W, LsuLoadStoreOp_LOAD_BU, LsuLoadStoreOp_LOAD_HU, LsuLoadStoreOp_STORE_B, LsuLoadStoreOp_STORE_H, LsuLoadStoreOp_STORE_W]"

interpretation lsu_ls: code_enum to_lsu_ls of_lsu_ls lsu_ls_all
  by unfold_locales (auto simp: to_lsu_ls_def lsu_ls_all_def)

datatype reg_wb = RegWritebackSrc_ZERO | RegWritebackSrc_ALU | RegWriteBackSrc_MU | RegWritebackSrc_PC4 | RegWritebackSrc_LSU | RegWritebackSrc_CSR | RegWritebackSrc_raw u32

definition to_reg_wb :: "u32 \<Rightarrow> reg_wb" where
  "to_reg_wb w = (
     if w = 0 then RegWritebackSrc_ZERO else
     if w = 1 then RegWritebackSrc_ALU else
     if w = 2 then RegWriteBackSrc_MU else
     if w = 3 then RegWritebackSrc_PC4 else
     if w = 4 then RegWritebackSrc_LSU else
     if w = 5 then RegWritebackSrc_CSR else RegWritebackSrc_raw w)"

fun of_reg_wb :: "reg_wb \<Rightarrow> u32" where
  "of_reg_wb RegWritebackSrc_ZERO = 0"
| "of_reg_wb RegWritebackSrc_ALU = 1"
| "of_reg_wb RegWriteBackSrc_MU = 2"
| "of_reg_wb RegWritebackSrc_PC4 = 3"
| "of_reg_wb RegWritebackSrc_LSU = 4"
| "of_reg_wb RegWritebackSrc_CSR = 5"
| "of_reg_wb (RegWritebackSrc_raw w) = w"

definition reg_wb_all :: "reg_wb list" where
  "reg_wb_all = [RegWritebackSrc_ZERO, RegWritebackSrc_ALU, RegWriteBackSrc_MU, RegWritebackSrc_PC4, RegWritebackSrc_LSU, RegWritebackSrc_CSR]"

interpretation reg_wb: code_enum to_reg_wb of_reg_wb reg_wb_all
  by unfold_locales (auto simp: to_reg_wb_def reg_wb_all_def)

datatype csr_id = CsrId_MSTATUS | CsrId_MIE | CsrId_MTVEC | CsrId_MSCRATCH | CsrId_MEPC | CsrId_MCAUSE | CsrId_MTVAL | CsrId_MIP | CsrId_raw u32

definition to_csr_id :: "u32 \<Rightarrow> csr_id" where
  "to_csr_id w = (
     if w = 0x300 then CsrId_MSTATUS else
     if w = 0x304 then CsrId_MIE else
     if w = 0x305 then CsrId_MTVEC else
     if w = 0x340 then CsrId_MSCRATCH else
     if w = 0x341 then CsrId_MEPC else
     if w = 0x342 then CsrId_MCAUSE else
     if w = 0x343 then CsrId_MTVAL else
     if w = 0x344 then CsrId_MIP else CsrId_raw w)"

fun of_csr_id :: "csr_id \<Rightarrow> u32" where
  "of_csr_id CsrId_MSTATUS = 0x300"
| "of_csr_id CsrId_MIE = 0x304"
| "of_csr_id CsrId_MTVEC = 0x305"
| "of_csr_id CsrId_MSCRATCH = 0x340"
| "of_csr_id CsrId_MEPC = 0x341"
| "of_csr_id CsrId_MCAUSE = 0x342"
| "of_csr_id CsrId_MTVAL = 0x343"
| "of_csr_id CsrId_MIP = 0x344"
| "of_csr_id (CsrId_raw w) = w"

definition csr_id_all :: "csr_id list" where
  "csr_id_all = [CsrId_MSTATUS, CsrId_MIE, CsrId_MTVEC, CsrId_MSCRATCH, CsrId_MEPC, CsrId_MCAUSE, CsrId_MTVAL, CsrId_MIP]"

interpretation csr_id: code_enum to_csr_id of_csr_id csr_id_all
  by unfold_locales (auto simp: to_csr_id_def csr_id_all_def)

datatype csr_op = CsrOp_NONE | CsrOp_RW | CsrOp_RS | CsrOp_RC | CsrOp_raw u32

definition to_csr_op :: "u32 \<Rightarrow> csr_op" where
  "to_csr_op w = (
     if w = 0 then CsrOp_NONE else
     if w = 1 then CsrOp_RW else
     if w = 2 then CsrOp_RS else
     if w = 3 then CsrOp_RC else CsrOp_raw w)"

fun of_csr_op :: "csr_op \<Rightarrow> u32" where
  "of_csr_op CsrOp_NONE = 0"
| "of_csr_op CsrOp_RW = 1"
| "of_csr_op CsrOp_RS = 2"
| "of_csr_op CsrOp_RC = 3"
| "of_csr_op (CsrOp_raw w) = w"

definition csr_op_all :: "csr_op list" where
  "csr_op_all = [CsrOp_NONE, CsrOp_RW, CsrOp_RS, CsrOp_RC]"

interpretation csr_op: code_enum to_csr_op of_csr_op csr_op_all
  by unfold_locales (auto simp: to_csr_op_def csr_op_all_def)

datatype csr_write = CsrWriteSrc_RS1 | CsrWriteSrc_IMM | CsrWriteSrc_raw u32

definition to_csr_write :: "u32 \<Rightarrow> csr_write" where
  "to_csr_write w = (
     if w = 0 then CsrWriteSrc_RS1 else
     if w = 1 then CsrWriteSrc_IMM else CsrWriteSrc_raw w)"

fun of_csr_write :: "csr_write \<Rightarrow> u32" where
  "of_csr_write CsrWriteSrc_RS1 = 0"
| "of_csr_write CsrWriteSrc_IMM = 1"
| "of_csr_write (CsrWriteSrc_raw w) = w"

definition csr_write_all :: "csr_write list" where
  "csr_write_all = [CsrWriteSrc_RS1, CsrWriteSrc_IMM]"

interpretation csr_write: code_enum to_csr_write of_csr_write csr_write_all
  by unfold_locales (auto simp: to_csr_write_def csr_write_all_def)

datatype fwd_src = FwdSrc_NONE | FwdSrc_EXMEM | FwdSrc_MEMWB | FwdSrc_raw u32

definition to_fwd_src :: "u32 \<Rightarrow> fwd_src" where
  "to_fwd_src w = (
     if w = 0 then FwdSrc_NONE else
     if w = 1 then FwdSrc_EXMEM else
     if w = 2 then FwdSrc_MEMWB else FwdSrc_raw w)"

fun of_fwd_src :: "fwd_src \<Rightarrow> u32" where
  "of_fwd_src FwdSrc_NONE = 0"
| "of_fwd_src FwdSrc_EXMEM = 1"
| "of_fwd_src FwdSrc_MEMWB = 2"
| "of_fwd_src (FwdSrc_raw w) = w"

definition fwd_src_all :: "fwd_src list" where
  "fwd_src_all = [FwdSrc_NONE, FwdSrc_EXMEM, FwdSrc_MEMWB]"

interpretation fwd_src: code_enum to_fwd_src of_fwd_src fwd_src_all
  by unfold_locales (auto simp: to_fwd_src_def fwd_src_all_def)

datatype mu_op = MuOp_NOP | MuOp_MUL | MuOp_MULH | MuOp_MULHU | MuOp_MULHSU | MuOp_DIV | MuOp_DIVU | MuOp_REM | MuOp_REMU | MuOp_raw u32

definition to_mu_op :: "u32 \<Rightarrow> mu_op" where
  "to_mu_op w = (
     if w = 0 then MuOp_NOP else
     if w = 1 then MuOp_MUL else
     if w = 2 then MuOp_MULH else
     if w = 3 then MuOp_MULHU else
     if w = 4 then MuOp_MULHSU else
     if w = 5 then MuOp_DIV else
     if w = 6 then MuOp_DIVU else
     if w = 7 then MuOp_REM else
     if w = 8 then MuOp_REMU else MuOp_raw w)"

fun of_mu_op :: "mu_op \<Rightarrow> u32" where
  "of_mu_op MuOp_NOP = 0"
| "of_mu_op MuOp_MUL = 1"
| "of_mu_op MuOp_MULH = 2"
| "of_mu_op MuOp_MULHU = 3"
| "of_mu_op MuOp_MULHSU = 4"
| "of_mu_op MuOp_DIV = 5"
| "of_mu_op MuOp_DIVU = 6"
| "of_mu_op MuOp_REM = 7"
| "of_mu_op MuOp_REMU = 8"
| "of_mu_op (MuOp_raw w) = w"

definition mu_op_all :: "mu_op list" where
  "mu_op_all = [MuOp_NOP, MuOp_MUL, MuOp_MULH, MuOp_MULHU, MuOp_MULHSU, MuOp_DIV, MuOp_DIVU, MuOp_REM, MuOp_REMU]"

interpretation mu_op: code_enum to_mu_op of_mu_op mu_op_all
  by unfold_locales (auto simp: to_mu_op_def mu_op_all_def)

datatype priv_mode = PrivMode_U | PrivMode_M | PrivMode_raw u32

definition to_priv_mode :: "u32 \<Rightarrow> priv_mode" where
  "to_priv_mode w = (
     if w = 0 then PrivMode_U else
     if w = 3 then PrivMode_M else PrivMode_raw w)"

fun of_priv_mode :: "priv_mode \<Rightarrow> u32" where
  "of_priv_mode PrivMode_U = 0"
| "of_priv_mode PrivMode_M = 3"
| "of_priv_mode (PrivMode_raw w) = w"

definition priv_mode_all :: "priv_mode list" where
  "priv_mode_all = [PrivMode_U, PrivMode_M]"

interpretation priv_mode: code_enum to_priv_mode of_priv_mode priv_mode_all
  by unfold_locales (auto simp: to_priv_mode_def priv_mode_all_def)

text \<open>The array of the implemented CSRs, in the order of the header.\<close>

definition CSR_IDS :: "csr_id list" where
  "CSR_IDS = [CsrId_MSTATUS, CsrId_MIE, CsrId_MTVEC, CsrId_MSCRATCH, CsrId_MEPC, CsrId_MCAUSE,
     CsrId_MTVAL, CsrId_MIP]"

lemma CSR_IDS_all: "CSR_IDS = csr_id_all"
  by (simp add: CSR_IDS_def csr_id_all_def)

end
