(* ===== verification/Ring_Buffer.thy ===== *)
theory Ring_Buffer
  imports Prelude
begin

text \<open>
  \<open>RingBuffer<T>\<close> of \<open>sim/include/struct/ring_buffer.hpp\<close>: a fixed array with a head (next
  slot to write), a tail (oldest element) and a count.  The abstraction \<open>rb_abs\<close> reads the
  stored elements from oldest to newest; the locale \<open>bounded_fifo\<close> is the contract the
  terminal relies on, and it is interpreted on this implementation.
\<close>

record 'a ring =
  rb_buf :: "'a list"
  rb_head :: nat
  rb_tail :: nat
  rb_size :: nat
  rb_cap :: nat

text \<open>The constructor; \<open>d\<close> is the default-constructed element the vector is filled with.\<close>

definition rb_new :: "'a \<Rightarrow> nat \<Rightarrow> 'a ring" where
  "rb_new d cap = \<lparr>rb_buf = replicate cap d, rb_head = 0, rb_tail = 0, rb_size = 0, rb_cap = cap\<rparr>"

definition rb_push_back :: "'a \<Rightarrow> 'a ring \<Rightarrow> bool \<times> 'a ring" where
  "rb_push_back item rb =
     (if rb_size rb = rb_cap rb then (False, rb)
      else (True, rb\<lparr>rb_buf := (rb_buf rb)[rb_head rb := item],
                     rb_head := (rb_head rb + 1) mod rb_cap rb,
                     rb_size := rb_size rb + 1\<rparr>))"

text \<open>
  \<open>pop_front\<close> reports \<open>None\<close> for its \<open>false\<close> and \<open>Some x\<close> for \<open>true\<close>, with \<open>x\<close> the element it
  stores through a non-null pointer.
\<close>

definition rb_pop_front :: "'a ring \<Rightarrow> 'a option \<times> 'a ring" where
  "rb_pop_front rb =
     (if rb_size rb = 0 then (None, rb)
      else (Some (rb_buf rb ! rb_tail rb),
            rb\<lparr>rb_tail := (rb_tail rb + 1) mod rb_cap rb, rb_size := rb_size rb - 1\<rparr>))"

definition rb_clear :: "'a ring \<Rightarrow> 'a ring" where
  "rb_clear rb = rb\<lparr>rb_head := 0, rb_tail := 0, rb_size := 0\<rparr>"

definition rb_empty :: "'a ring \<Rightarrow> bool" where
  "rb_empty rb = (rb_size rb = 0)"

definition rb_full :: "'a ring \<Rightarrow> bool" where
  "rb_full rb = (rb_size rb = rb_cap rb)"

text \<open>
  \<open>operator[]\<close> yields a reference.  A reference into the buffer is the index of the slot it
  designates, so that two references to one slot alias, as they do in the code.
\<close>

definition rb_ref :: "'a ring \<Rightarrow> nat \<Rightarrow> nat result" where
  "rb_ref rb i =
     (if i \<ge> rb_size rb then Inl (RangeError i (rb_size rb))
      else Inr ((rb_tail rb + i) mod rb_cap rb))"

definition rb_load :: "'a ring \<Rightarrow> nat \<Rightarrow> 'a" where
  "rb_load rb p = rb_buf rb ! p"

definition rb_store :: "nat \<Rightarrow> 'a \<Rightarrow> 'a ring \<Rightarrow> 'a ring" where
  "rb_store p x rb = rb\<lparr>rb_buf := (rb_buf rb)[p := x]\<rparr>"

definition rb_at :: "'a ring \<Rightarrow> nat \<Rightarrow> 'a result" where
  "rb_at rb i = res_bind (rb_ref rb i) (\<lambda>p. Inr (rb_load rb p))"

section \<open>Abstraction and invariant\<close>

definition rb_slot :: "'a ring \<Rightarrow> nat \<Rightarrow> nat" where
  "rb_slot rb i = (rb_tail rb + i) mod rb_cap rb"

definition rb_abs :: "'a ring \<Rightarrow> 'a list" where
  "rb_abs rb = map (\<lambda>i. rb_buf rb ! rb_slot rb i) [0..<rb_size rb]"

definition rb_inv :: "'a ring \<Rightarrow> bool" where
  "rb_inv rb \<longleftrightarrow>
     length (rb_buf rb) = rb_cap rb \<and> rb_size rb \<le> rb_cap rb \<and>
     (if rb_cap rb = 0 then rb_tail rb = 0 \<and> rb_head rb = 0
      else rb_tail rb < rb_cap rb \<and> rb_head rb = (rb_tail rb + rb_size rb) mod rb_cap rb)"

lemma length_rb_abs [simp]: "length (rb_abs rb) = rb_size rb"
  by (simp add: rb_abs_def)

lemma nth_rb_abs: "i < rb_size rb \<Longrightarrow> rb_abs rb ! i = rb_buf rb ! rb_slot rb i"
  by (simp add: rb_abs_def)

lemma rb_slot_less: "rb_inv rb \<Longrightarrow> i < rb_size rb \<Longrightarrow> rb_slot rb i < length (rb_buf rb)"
  by (auto simp: rb_inv_def rb_slot_def split: if_splits)

lemma add_mod_inj:
  assumes "i < c" "j < c" "(t + i) mod c = (t + j) mod (c::nat)"
  shows "i = j"
  using assms
proof (induction i j rule: linorder_wlog)
  case (le i j)
  then have "c dvd (t + j) - (t + i)"
    by (subst mod_eq_dvd_iff_nat [symmetric]) simp_all
  then have "c dvd j - i" by simp
  moreover have "j - i < c" using le by simp
  ultimately have "j - i = 0" by (metis nat_dvd_not_less not_gr_zero)
  with le show ?case by simp
next
  case (sym i j)
  then show ?case by simp
qed

lemma rb_slot_inj:
  "rb_inv rb \<Longrightarrow> i < rb_size rb \<Longrightarrow> j < rb_size rb \<Longrightarrow> rb_slot rb i = rb_slot rb j \<Longrightarrow> i = j"
  unfolding rb_slot_def
  by (rule add_mod_inj [of i "rb_cap rb" j "rb_tail rb"]) (auto simp: rb_inv_def)

lemma rb_inv_new [simp]: "rb_inv (rb_new d c)"
  by (simp add: rb_inv_def rb_new_def)

lemma rb_abs_new [simp]: "rb_abs (rb_new d c) = []"
  by (simp add: rb_abs_def rb_new_def)

lemma rb_cap_new [simp]: "rb_cap (rb_new d c) = c"
  by (simp add: rb_new_def)

lemma rb_inv_clear: "rb_inv rb \<Longrightarrow> rb_inv (rb_clear rb)"
  by (simp add: rb_inv_def rb_clear_def split: if_splits)

lemma rb_abs_clear [simp]: "rb_abs (rb_clear rb) = []"
  by (simp add: rb_abs_def rb_clear_def)

lemma rb_full_iff: "rb_full rb \<longleftrightarrow> length (rb_abs rb) = rb_cap rb"
  by (simp add: rb_full_def)

lemma rb_push_full: "rb_full rb \<Longrightarrow> rb_push_back x rb = (False, rb)"
  by (simp add: rb_push_back_def rb_full_def)

lemma rb_push_back_correct:
  assumes inv: "rb_inv rb" and room: "\<not> rb_full rb" and eq: "rb_push_back x rb = (ok, rb')"
  shows "ok \<and> rb_inv rb' \<and> rb_abs rb' = rb_abs rb @ [x] \<and> rb_cap rb' = rb_cap rb"
proof -
  from inv room have lt: "rb_size rb < rb_cap rb" and len: "length (rb_buf rb) = rb_cap rb"
    and hd: "rb_head rb = rb_slot rb (rb_size rb)"
    by (auto simp: rb_inv_def rb_full_def rb_slot_def split: if_splits)
  from room eq have ok: "ok" and rb': "rb' = rb\<lparr>rb_buf := (rb_buf rb)[rb_head rb := x],
      rb_head := (rb_head rb + 1) mod rb_cap rb, rb_size := rb_size rb + 1\<rparr>"
    by (auto simp: rb_push_back_def rb_full_def)
  have inv': "rb_inv rb'"
    using inv lt by (auto simp: rb_inv_def rb' mod_Suc_eq split: if_splits)
  have slot: "rb_slot rb' = rb_slot rb"
    by (simp add: fun_eq_iff rb_slot_def rb')
  have "rb_abs rb' = map (\<lambda>i. rb_buf rb' ! rb_slot rb i) [0..<rb_size rb] @ [rb_buf rb' ! rb_head rb]"
    by (simp add: rb_abs_def slot hd) (simp add: rb')
  also have "rb_buf rb' ! rb_head rb = x"
    using len lt by (simp add: rb' hd rb_slot_def)
  also have "map (\<lambda>i. rb_buf rb' ! rb_slot rb i) [0..<rb_size rb] = rb_abs rb"
  proof -
    have "rb_slot rb i \<noteq> rb_head rb" if "i < rb_size rb" for i
      using that lt add_mod_inj [of i "rb_cap rb" "rb_size rb" "rb_tail rb"]
      by (auto simp: hd rb_slot_def)
    then show ?thesis by (auto simp: rb_abs_def rb' nth_list_update_neq [OF not_sym])
  qed
  finally show ?thesis using ok inv' by (simp add: rb')
qed

lemma rb_pop_empty: "rb_abs rb = [] \<Longrightarrow> rb_pop_front rb = (None, rb)"
  by (simp add: rb_abs_def rb_pop_front_def)

lemma rb_pop_front_correct:
  assumes inv: "rb_inv rb" and ne: "rb_abs rb \<noteq> []" and eq: "rb_pop_front rb = (r, rb')"
  shows "r = Some (hd (rb_abs rb)) \<and> rb_inv rb' \<and> rb_abs rb' = tl (rb_abs rb) \<and> rb_cap rb' = rb_cap rb"
proof -
  from ne have pos: "0 < rb_size rb" by (simp add: rb_abs_def)
  with eq have r: "r = Some (rb_buf rb ! rb_tail rb)"
    and rb': "rb' = rb\<lparr>rb_tail := (rb_tail rb + 1) mod rb_cap rb, rb_size := rb_size rb - 1\<rparr>"
    by (auto simp: rb_pop_front_def)
  have slot: "rb_slot rb' i = rb_slot rb (Suc i)" for i
    by (simp add: rb_slot_def rb' mod_simps)
  have upt: "[0..<rb_size rb] = 0 # map Suc [0..<rb_size rb - 1]"
    using pos by (metis One_nat_def Suc_pred map_Suc_upt upt_conv_Cons)
  have "rb_abs rb = rb_buf rb ! rb_slot rb 0 # rb_abs rb'"
    by (simp add: rb_abs_def upt slot) (simp add: rb')
  moreover have "rb_slot rb 0 = rb_tail rb"
    using inv pos by (auto simp: rb_inv_def rb_slot_def split: if_splits)
  moreover have "rb_inv rb'"
  proof -
    have "((rb_tail rb + 1) mod rb_cap rb + (rb_size rb - 1)) mod rb_cap rb
        = (rb_tail rb + rb_size rb) mod rb_cap rb"
      using pos by (cases "rb_size rb") (simp_all add: mod_simps)
    then show ?thesis using inv pos by (auto simp: rb_inv_def rb' split: if_splits)
  qed
  ultimately show ?thesis by (simp add: r rb')
qed

lemma rb_ref_cases: "rb_ref rb i =
    (if i < length (rb_abs rb) then Inr (rb_slot rb i) else Inl (RangeError i (length (rb_abs rb))))"
  by (simp add: rb_ref_def rb_slot_def)

lemma rb_load_slot: "i < length (rb_abs rb) \<Longrightarrow> rb_load rb (rb_slot rb i) = rb_abs rb ! i"
  by (simp add: rb_load_def nth_rb_abs)

lemma rb_at_cases: "rb_at rb i =
    (if i < length (rb_abs rb) then Inr (rb_abs rb ! i) else Inl (RangeError i (length (rb_abs rb))))"
  by (simp add: rb_at_def rb_ref_cases rb_load_slot)

lemma rb_store_slot:
  assumes inv: "rb_inv rb" and i: "i < length (rb_abs rb)"
  shows "rb_inv (rb_store (rb_slot rb i) x rb) \<and>
    rb_abs (rb_store (rb_slot rb i) x rb) = (rb_abs rb)[i := x] \<and>
    rb_slot (rb_store (rb_slot rb i) x rb) = rb_slot rb \<and>
    rb_cap (rb_store (rb_slot rb i) x rb) = rb_cap rb"
proof -
  let ?rb = "rb_store (rb_slot rb i) x rb"
  have slot: "rb_slot ?rb = rb_slot rb"
    by (simp add: fun_eq_iff rb_slot_def rb_store_def)
  have "rb_abs ?rb ! j = (rb_abs rb)[i := x] ! j" if j: "j < rb_size rb" for j
  proof -
    have "rb_abs ?rb ! j = (rb_buf rb)[rb_slot rb i := x] ! rb_slot rb j"
      using j by (simp add: nth_rb_abs slot rb_store_def) (simp add: nth_rb_abs rb_store_def rb_slot_def)
    also have "\<dots> = (rb_abs rb)[i := x] ! j"
      using i j rb_slot_less [OF inv, of i] rb_slot_inj [OF inv, of i j]
      by (auto simp: nth_rb_abs nth_list_update)
    finally show ?thesis .
  qed
  then have "rb_abs ?rb = (rb_abs rb)[i := x]"
    by (intro nth_equalityI) (simp_all add: rb_store_def)
  moreover have "rb_inv ?rb"
    using inv by (simp add: rb_inv_def rb_store_def split: if_splits)
  ultimately show ?thesis by (simp add: slot) (simp add: rb_store_def)
qed

section \<open>The contract\<close>

text \<open>
  A bounded queue of rows with positional access: what a client may rely on.  \<open>push\<close> is
  refused when the queue is full; \<open>pop\<close> drops the oldest element; \<open>ref\<close> and \<open>store\<close> read
  and overwrite a stored element in place.
\<close>

locale bounded_fifo =
  fixes push :: "'a \<Rightarrow> 'q \<Rightarrow> bool \<times> 'q"
    and pop :: "'q \<Rightarrow> 'a option \<times> 'q"
    and clear :: "'q \<Rightarrow> 'q"
    and full :: "'q \<Rightarrow> bool"
    and size_of :: "'q \<Rightarrow> nat"
    and cap_of :: "'q \<Rightarrow> nat"
    and elems :: "'q \<Rightarrow> 'a list"
    and inv :: "'q \<Rightarrow> bool"
  assumes size_elems: "size_of q = length (elems q)"
    and full_iff: "full q \<longleftrightarrow> length (elems q) = cap_of q"
    and size_le_cap: "inv q \<Longrightarrow> length (elems q) \<le> cap_of q"
    and push_full: "full q \<Longrightarrow> push x q = (False, q)"
    and push_room: "inv q \<Longrightarrow> \<not> full q \<Longrightarrow> push x q = (ok, q') \<Longrightarrow>
          ok \<and> inv q' \<and> elems q' = elems q @ [x] \<and> cap_of q' = cap_of q"
    and pop_empty: "elems q = [] \<Longrightarrow> pop q = (None, q)"
    and pop_nonempty: "inv q \<Longrightarrow> elems q \<noteq> [] \<Longrightarrow> pop q = (r, q') \<Longrightarrow>
          r = Some (hd (elems q)) \<and> inv q' \<and> elems q' = tl (elems q) \<and> cap_of q' = cap_of q"
    and clear_spec: "inv q \<Longrightarrow> inv (clear q) \<and> elems (clear q) = [] \<and> cap_of (clear q) = cap_of q"
begin

text \<open>Pushing after making room, as a scrolling client does, keeps the newest elements.\<close>

lemma push_evicting:
  assumes inv: "inv q" and cap: "0 < cap_of q"
    and q': "q' = snd (push x (if full q then snd (pop q) else q))"
  shows "inv q' \<and> cap_of q' = cap_of q \<and>
    elems q' = (if full q then tl (elems q) else elems q) @ [x]"
proof (cases "full q")
  case True
  with cap have ne: "elems q \<noteq> []" by (auto simp: full_iff)
  obtain r p where pop: "pop q = (r, p)" by fastforce
  from pop_nonempty [OF inv ne pop] have p: "inv p" "elems p = tl (elems q)" "cap_of p = cap_of q"
    by auto
  with True cap have "\<not> full p" by (simp add: full_iff)
  moreover obtain ok p' where "push x p = (ok, p')" by fastforce
  ultimately show ?thesis using push_room [OF p(1)] True pop p by (auto simp: q')
next
  case False
  moreover obtain ok p' where "push x q = (ok, p')" by fastforce
  ultimately show ?thesis using push_room [OF inv] by (auto simp: q')
qed

lemma push_evicting_size:
  assumes "inv q" "0 < cap_of q" "q' = snd (push x (if full q then snd (pop q) else q))"
  shows "size_of q' = min (cap_of q) (Suc (size_of q)) \<and> last (elems q') = x"
  using push_evicting [OF assms] assms(1,2) size_le_cap [OF assms(1)]
  by (auto simp: size_elems full_iff)

text \<open>A refused push and a pop from an empty queue change nothing.\<close>

lemma refused_unchanged:
  assumes "inv q" and "\<not> fst (push x q)"
  shows "push x q = (False, q)"
proof (cases "full q")
  case True
  then show ?thesis by (rule push_full)
next
  case False
  obtain ok q' where "push x q = (ok, q')" by fastforce
  with push_room [OF assms(1) False] assms(2) show ?thesis by fastforce
qed

end

interpretation rbq: bounded_fifo rb_push_back rb_pop_front rb_clear rb_full rb_size rb_cap rb_abs rb_inv
proof unfold_locales
  show "rb_inv q \<Longrightarrow> \<not> rb_full q \<Longrightarrow> rb_push_back x q = (ok, q') \<Longrightarrow>
      ok \<and> rb_inv q' \<and> rb_abs q' = rb_abs q @ [x] \<and> rb_cap q' = rb_cap q"
    for x :: 'a and q ok q' by (rule rb_push_back_correct)
  show "rb_inv q \<Longrightarrow> rb_abs q \<noteq> [] \<Longrightarrow> rb_pop_front q = (r, q') \<Longrightarrow>
      r = Some (hd (rb_abs q)) \<and> rb_inv q' \<and> rb_abs q' = tl (rb_abs q) \<and> rb_cap q' = rb_cap q"
    for q :: "'a ring" and r q' by (rule rb_pop_front_correct)
  show "rb_inv q \<Longrightarrow> length (rb_abs q) \<le> rb_cap q" for q :: "'a ring"
    by (simp add: rb_inv_def)
  show "rb_inv q \<Longrightarrow> rb_inv (rb_clear q) \<and> rb_abs (rb_clear q) = [] \<and> rb_cap (rb_clear q) = rb_cap q"
    for q :: "'a ring"
    by (simp add: rb_inv_clear) (simp add: rb_clear_def)
qed (simp_all add: rb_full_iff rb_push_full rb_pop_empty)

section \<open>Refinement of a bounded list\<close>

text \<open>
  The operations as steps on an abstract list of at most \<open>cap\<close> elements: what a client sees is
  the answer of each operation.
\<close>

datatype 'a fifo_op = Push 'a | Pop | Clear | At nat

datatype 'a fifo_answer = Pushed bool | Popped "'a option" | Cleared | Found "'a result"

fun list_step :: "nat \<Rightarrow> 'a fifo_op \<Rightarrow> 'a list \<Rightarrow> 'a fifo_answer \<times> 'a list" where
  "list_step cap (Push x) xs = (if length xs = cap then (Pushed False, xs) else (Pushed True, xs @ [x]))"
| "list_step cap Pop xs = (case xs of [] \<Rightarrow> (Popped None, []) | y # ys \<Rightarrow> (Popped (Some y), ys))"
| "list_step cap Clear xs = (Cleared, [])"
| "list_step cap (At i) xs = (Found (if i < length xs then Inr (xs ! i) else Inl (RangeError i (length xs))), xs)"

fun ring_step :: "'a fifo_op \<Rightarrow> 'a ring \<Rightarrow> 'a fifo_answer \<times> 'a ring" where
  "ring_step (Push x) rb = (let (ok, rb') = rb_push_back x rb in (Pushed ok, rb'))"
| "ring_step Pop rb = (let (r, rb') = rb_pop_front rb in (Popped r, rb'))"
| "ring_step Clear rb = (Cleared, rb_clear rb)"
| "ring_step (At i) rb = (Found (rb_at rb i), rb)"

fun answers :: "('op \<Rightarrow> 's \<Rightarrow> 'a \<times> 's) \<Rightarrow> 'op list \<Rightarrow> 's \<Rightarrow> 'a list" where
  "answers step [] s = []"
| "answers step (op # ops) s = (let (a, s') = step op s in a # answers step ops s')"

lemma ring_step_simulates:
  assumes inv: "rb_inv rb" and step: "ring_step op rb = (a, rb')"
  shows "list_step (rb_cap rb) op (rb_abs rb) = (a, rb_abs rb') \<and> rb_inv rb' \<and> rb_cap rb' = rb_cap rb"
proof (cases op)
  case (Push x)
  then show ?thesis
  proof (cases "rb_full rb")
    case True
    with Push step inv show ?thesis
      using rbq.full_iff [of rb] by (auto simp: rbq.push_full)
  next
    case False
    obtain ok r where p: "rb_push_back x rb = (ok, r)" by fastforce
    with rbq.push_room [OF inv False p] Push step False show ?thesis
      using rbq.full_iff [of rb] by auto
  qed
next
  case Pop
  then show ?thesis
  proof (cases "rb_abs rb")
    case Nil
    with Pop step inv show ?thesis by (auto simp: rbq.pop_empty)
  next
    case (Cons y ys)
    obtain r q where p: "rb_pop_front rb = (r, q)" by fastforce
    with rbq.pop_nonempty [OF inv _ p] Pop step Cons show ?thesis by auto
  qed
next
  case Clear
  with step rbq.clear_spec [OF inv] show ?thesis by auto
next
  case (At i)
  with step inv show ?thesis by (auto simp: rb_at_cases)
qed

lemma answers_simulate:
  "rb_inv rb \<Longrightarrow> answers ring_step ops rb = answers (list_step (rb_cap rb)) ops (rb_abs rb)"
proof (induction ops arbitrary: rb)
  case (Cons op ops)
  obtain a rb' where step: "ring_step op rb = (a, rb')" by fastforce
  from ring_step_simulates [OF Cons.prems step] Cons.IH [of rb'] show ?case by (simp add: step)
qed simp

lemma rb_new_empty: "rb_inv (rb_new d cap)" "rb_abs (rb_new d cap) = []" "rb_cap (rb_new d cap) = cap"
  by (simp_all add: rb_inv_def rb_abs_def rb_new_def)

text \<open>
  C22: Over every sequence of \<open>push_back\<close>, \<open>pop_front\<close>, \<open>clear\<close> and index operations, a fresh
  ring buffer of any capacity answers exactly as a list bounded by that capacity: pushes are
  refused only when full, elements come out oldest first, indexing counts from the oldest and
  throws outside the stored elements.
\<close>

theorem ring_buffer_refines_bounded_list:
  "answers ring_step ops (rb_new d cap) = answers (list_step cap) ops []"
  using answers_simulate [of "rb_new d cap" ops] by (simp add: rb_new_empty)

end
