(* ===== verification/Terminal.thy ===== *)
theory Terminal
  imports Ring_Buffer
begin

text \<open>
  \<open>TerminalController\<close> of \<open>sim/include/controllers/term_controller.hpp\<close> and
  \<open>sim/src/controllers/term_controller.cpp\<close>: the terminal that consumes the bytes the
  simulated UART transmits, interprets a subset of the ANSI control sequences over a ring
  buffer of rows, and feeds typed characters back into the UART.  The fields of the record
  carry the names of the members.  The UART registers the controller reads and writes are
  the public signals of the Verilated \<open>uart_term\<close> module.  Rows, lengths and row numbers are
  \<open>size_t\<close>; the sums and differences that take a number from the byte stream, or that can
  fall below zero, are written with their wrap-around, the others stay below the buffer
  capacity.
\<close>

section \<open>State\<close>

record symbol =
  glyph :: u8
  fg_color :: u32
  bg_color :: u32

datatype read_state = ReadState_GROUND | ReadState_ESCAPE | ReadState_SEQ_CSI

record uart =
  tx_data :: u8
  tx_valid :: bool
  rx_data :: u8
  rx_valid :: bool

record terminal =
  m_state :: read_state
  m_ansi_args :: "nat list"
  m_ansi_arg_chars :: "u8 list"
  m_viewport_w :: nat
  m_viewport_h :: nat
  m_fg_color_init :: u32
  m_bg_color_init :: u32
  m_cursor_row :: nat
  m_cursor_col :: nat
  m_fg_color :: u32
  m_bg_color :: u32
  m_buf :: "symbol list ring"
  m_buf_cap :: nat
  m_viewport_start_line :: nat
  m_rx_queue :: "u8 list"
  m_prev_tx_valid :: bool

definition TAB_WIDTH :: nat where
  "TAB_WIDTH = 4"

definition create_symbol :: "u8 \<Rightarrow> terminal \<Rightarrow> symbol" where
  "create_symbol c t = \<lparr>glyph = c, fg_color = m_fg_color t, bg_color = m_bg_color t\<rparr>"

definition restore_viewport :: "terminal \<Rightarrow> terminal" where
  "restore_viewport t = t\<lparr>m_viewport_start_line :=
     (if rb_size (m_buf t) > m_viewport_h t then rb_size (m_buf t) - m_viewport_h t else 0)\<rparr>"

definition viewport_to_buf_row :: "nat \<Rightarrow> terminal \<Rightarrow> nat" where
  "viewport_to_buf_row r t = m_viewport_start_line t + r"

definition active_row :: "terminal \<Rightarrow> nat" where
  "active_row t = m_viewport_start_line t + m_cursor_row t"

section \<open>Rows and cursor\<close>

definition push_blank_row :: "terminal \<Rightarrow> terminal" where
  "push_blank_row t =
     t\<lparr>m_buf := snd (rb_push_back (replicate (m_viewport_w t) (create_symbol 0 t))
        (if rb_full (m_buf t) then snd (rb_pop_front (m_buf t)) else m_buf t))\<rparr>"

function push_blank_until :: "nat \<Rightarrow> terminal \<Rightarrow> terminal" where
  "push_blank_until target t =
     (if rb_size (m_buf t) < target \<and> \<not> rb_full (m_buf t)
      then push_blank_until target (push_blank_row t) else t)"
  by pat_completeness auto
termination
  by (relation "measure (\<lambda>(target, t). target - rb_size (m_buf t))")
    (auto simp: push_blank_row_def rb_push_back_def rb_full_def)

declare push_blank_until.simps [simp del]

definition clear_buffer :: "terminal \<Rightarrow> terminal" where
  "clear_buffer t = t\<lparr>m_buf := rb_clear (m_buf t), m_viewport_start_line := 0\<rparr>"

definition cursor_newline :: "terminal \<Rightarrow> terminal" where
  "cursor_newline t =
     (let t1 = t\<lparr>m_cursor_row := m_cursor_row t + 1\<rparr>;
          t2 = (if active_row t1 \<ge> rb_size (m_buf t1)
                then restore_viewport (push_blank_until (active_row t1 + 1) t1) else t1)
      in if m_cursor_row t2 \<ge> m_buf_cap t2 then t2\<lparr>m_cursor_row := m_buf_cap t2 - 1\<rparr>
         else if m_cursor_row t2 \<ge> m_viewport_h t2 then t2\<lparr>m_cursor_row := m_viewport_h t2 - 1\<rparr>
         else t2)"

definition cursor_adv :: "terminal \<Rightarrow> terminal" where
  "cursor_adv t =
     (let t1 = t\<lparr>m_cursor_col := m_cursor_col t + 1\<rparr>
      in if m_cursor_col t1 \<ge> m_viewport_w t1
         then cursor_newline (t1\<lparr>m_cursor_col := 0\<rparr>) else t1)"

section \<open>Construction and reset\<close>

definition terminal_new :: "nat \<Rightarrow> nat \<Rightarrow> nat \<Rightarrow> u32 \<Rightarrow> u32 \<Rightarrow> terminal" where
  "terminal_new w h cap fg bg = push_blank_row
     \<lparr>m_state = ReadState_GROUND, m_ansi_args = [], m_ansi_arg_chars = [],
      m_viewport_w = w, m_viewport_h = h, m_fg_color_init = fg, m_bg_color_init = bg,
      m_cursor_row = 0, m_cursor_col = 0, m_fg_color = fg, m_bg_color = bg,
      m_buf = rb_new [] cap, m_buf_cap = cap, m_viewport_start_line = 0,
      m_rx_queue = [], m_prev_tx_valid = False\<rparr>"

text \<open>
  The constructor with default colours.  \<open>col\<close> is ImGui's colour-packing macro
  \<open>IM_COL32\<close>; the arguments are those of \<open>TERM_BRIGHT_WHITE\<close> and \<open>TERM_BLACK\<close> in
  \<open>colors.hpp\<close>.
\<close>

definition terminal_new_default :: "(u8 \<Rightarrow> u8 \<Rightarrow> u8 \<Rightarrow> u8 \<Rightarrow> u32) \<Rightarrow> nat \<Rightarrow> nat \<Rightarrow> nat \<Rightarrow> terminal" where
  "terminal_new_default col w h cap = terminal_new w h cap (col 255 255 255 255) (col 1 1 1 255)"

definition terminal_reset :: "terminal \<Rightarrow> terminal" where
  "terminal_reset t =
     (let t1 = t\<lparr>m_cursor_col := 0, m_cursor_row := 0,
                 m_fg_color := m_fg_color_init t, m_bg_color := m_bg_color_init t,
                 m_rx_queue := []\<rparr>
      in push_blank_row (clear_buffer t1))"

text \<open>The overload without arguments, which leaves cursor and colours alone.\<close>

definition terminal_reset_inline :: "terminal \<Rightarrow> terminal" where
  "terminal_reset_inline t = clear_buffer (t\<lparr>m_rx_queue := []\<rparr>)"

section \<open>Scrolling, input and reading back\<close>

definition scroll_up :: "nat \<Rightarrow> terminal \<Rightarrow> terminal" where
  "scroll_up delta t =
     (if rb_size (m_buf t) > m_viewport_h t
      then t\<lparr>m_viewport_start_line := U_SUBCLAMP0 (m_viewport_start_line t) delta\<rparr> else t)"

definition scroll_down :: "nat \<Rightarrow> terminal \<Rightarrow> terminal" where
  "scroll_down delta t =
     (if rb_size (m_buf t) > m_viewport_h t
      then let new_row = sz_add (m_viewport_start_line t) delta;
               max_row = rb_size (m_buf t) - m_viewport_h t
           in t\<lparr>m_viewport_start_line := MIN_macro new_row max_row\<rparr>
      else t)"

definition scroll :: "int \<Rightarrow> terminal \<Rightarrow> terminal" where
  "scroll delta t = (if delta < 0 then scroll_down (nat (- delta)) t else scroll_up (nat delta) t)"

definition enqueue_char :: "u8 \<Rightarrow> terminal \<Rightarrow> terminal" where
  "enqueue_char c t = t\<lparr>m_rx_queue := m_rx_queue t @ [c]\<rparr>"

text \<open>\<open>None\<close> is the \<open>false\<close> of the code; the column index of the row is not checked there.\<close>

definition symbol_at_viewport :: "nat \<Rightarrow> nat \<Rightarrow> terminal \<Rightarrow> symbol option result" where
  "symbol_at_viewport row col t =
     (if row < m_viewport_h t \<and> col < m_viewport_w t
      then let i = m_viewport_start_line t + row
           in if i \<ge> rb_size (m_buf t) then Inr None
              else res_bind (rb_at (m_buf t) i) (\<lambda>cells.
                     if col < length cells then Inr (Some (cells ! col)) else Inl OutOfBounds)
      else Inr None)"

section \<open>Control sequences\<close>

definition el_or_default :: "nat list \<Rightarrow> nat \<Rightarrow> nat \<Rightarrow> nat" where
  "el_or_default v i d = (if length v > i then v ! i else d)"

text \<open>\<open>parse_as_uint\<close> consumes the whole queue, so the caller's queue is empty afterwards.\<close>

fun parse_loop :: "nat \<Rightarrow> u8 list \<Rightarrow> nat" where
  "parse_loop val [] = val"
| "parse_loop val (c # cs) = parse_loop ((10 * val + sz_sub (unat c) 48) mod SIZE_MOD) cs"

definition parse_as_uint :: "u8 list \<Rightarrow> nat" where
  "parse_as_uint q = parse_loop 0 q"

definition push_arg :: "terminal \<Rightarrow> terminal" where
  "push_arg t = t\<lparr>m_ansi_args := m_ansi_args t @ [parse_as_uint (m_ansi_arg_chars t)],
                  m_ansi_arg_chars := []\<rparr>"

definition flush_arg :: "terminal \<Rightarrow> terminal" where
  "flush_arg t = (if m_ansi_arg_chars t \<noteq> [] then push_arg t else t)"

definition to_ground :: "terminal \<Rightarrow> terminal" where
  "to_ground t = t\<lparr>m_state := ReadState_GROUND\<rparr>"

text \<open>
  The last row and column are written \<open>m_viewport_h t - 1\<close> and \<open>m_viewport_w t - 1\<close>; only for an empty viewport, which nobody constructs,
  would the subtraction of \<open>size_t\<close> wrap around instead.
\<close>

definition csi_A :: "terminal \<Rightarrow> terminal" where
  "csi_A t0 =
     (let t = flush_arg t0; n = el_or_default (m_ansi_args t) 0 1
      in to_ground (t\<lparr>m_cursor_row := U_SUBCLAMP0 (m_cursor_row t) n\<rparr>))"

definition csi_B :: "terminal \<Rightarrow> terminal" where
  "csi_B t0 =
     (let t = flush_arg t0; n = el_or_default (m_ansi_args t) 0 1;
          t1 = t\<lparr>m_cursor_row := MIN_macro (sz_add (m_cursor_row t) n) (m_viewport_h t - 1)\<rparr>
      in to_ground (push_blank_until (active_row t1 + 1) t1))"

definition csi_C :: "terminal \<Rightarrow> terminal" where
  "csi_C t0 =
     (let t = flush_arg t0; n = el_or_default (m_ansi_args t) 0 1
      in to_ground (t\<lparr>m_cursor_col := MIN_macro (sz_add (m_cursor_col t) n) (m_viewport_w t - 1)\<rparr>))"

definition csi_D :: "terminal \<Rightarrow> terminal" where
  "csi_D t0 =
     (let t = flush_arg t0; n = el_or_default (m_ansi_args t) 0 1
      in to_ground (t\<lparr>m_cursor_col := U_SUBCLAMP0 (m_cursor_col t) n\<rparr>))"

definition csi_H :: "terminal \<Rightarrow> terminal" where
  "csi_H t0 =
     (let t = flush_arg t0;
          n = sz_sub (el_or_default (m_ansi_args t) 0 1) 1;
          m = sz_sub (el_or_default (m_ansi_args t) 1 1) 1;
          new_row = MIN_macro n (m_viewport_h t - 1);
          new_col = MIN_macro m (m_viewport_w t - 1);
          t1 = push_blank_until (viewport_to_buf_row new_row t + 1) t
      in to_ground (t1\<lparr>m_cursor_row := new_row, m_cursor_col := new_col\<rparr>))"

text \<open>
  Erase in display.  \<open>curr_row\<close> is a reference, hence a slot \<open>p\<close>; the assignment
  \<open>curr_row = m_buf[r]\<close> inside the loops of cases 0 and 1 therefore copies row \<open>r\<close> into slot
  \<open>p\<close>, and the inner loop then blanks slot \<open>p\<close>.
\<close>

definition blank_row_from :: "nat \<Rightarrow> nat \<Rightarrow> terminal \<Rightarrow> terminal result" where
  "blank_row_from p col t =
     (let cells = rb_load (m_buf t) p
      in if col \<le> length cells
         then Inr (t\<lparr>m_buf := rb_store p (take col cells @
                replicate (length cells - col) (create_symbol 0 t)) (m_buf t)\<rparr>)
         else Inl OutOfBounds)"

definition blank_row_until :: "nat \<Rightarrow> nat \<Rightarrow> terminal \<Rightarrow> terminal result" where
  "blank_row_until p col t =
     (let cells = rb_load (m_buf t) p
      in if col \<le> length cells
         then Inr (t\<lparr>m_buf := rb_store p (replicate col (create_symbol 0 t) @ drop col cells) (m_buf t)\<rparr>)
         else Inl OutOfBounds)"

function copy_blank_rows :: "nat \<Rightarrow> nat \<Rightarrow> nat \<Rightarrow> terminal \<Rightarrow> terminal result" where
  "copy_blank_rows p r lst t =
     (if r \<le> lst
      then res_bind (rb_ref (m_buf t) r) (\<lambda>q.
             res_bind (blank_row_from p 0 (t\<lparr>m_buf := rb_store p (rb_load (m_buf t) q) (m_buf t)\<rparr>))
               (copy_blank_rows p (Suc r) lst))
      else Inr t)"
  by pat_completeness auto
termination
  by (relation "measure (\<lambda>(p, r, lst, t). Suc lst - r)") auto

function blank_rows :: "nat \<Rightarrow> nat \<Rightarrow> terminal \<Rightarrow> terminal result" where
  "blank_rows r lst t =
     (if r \<le> lst
      then res_bind (rb_ref (m_buf t) r) (\<lambda>p.
             res_bind (blank_row_from p 0 t) (blank_rows (Suc r) lst))
      else Inr t)"
  by pat_completeness auto
termination
  by (relation "measure (\<lambda>(r, lst, t). Suc lst - r)") auto

declare copy_blank_rows.simps [simp del] blank_rows.simps [simp del]

definition erase_display :: "nat \<Rightarrow> terminal \<Rightarrow> terminal result" where
  "erase_display n t =
     (if n = 0 then
        res_bind (rb_ref (m_buf t) (active_row t)) (\<lambda>p.
          res_bind (blank_row_from p (m_cursor_col t) t)
            (copy_blank_rows p (active_row t + 1) (viewport_to_buf_row (m_viewport_h t - 1) t)))
      else if n = 1 then
        res_bind (rb_ref (m_buf t) (active_row t)) (\<lambda>p.
          res_bind (blank_row_until p (m_cursor_col t) t)
            (copy_blank_rows p (viewport_to_buf_row 0 t) (sz_sub (active_row t) 1)))
      else if n = 2 then
        blank_rows (viewport_to_buf_row 0 t) (viewport_to_buf_row (m_viewport_h t - 1) t) t
      else if n = 3 then Inr (push_blank_row (clear_buffer t))
      else Inr t)"

definition csi_J :: "terminal \<Rightarrow> terminal result" where
  "csi_J t0 =
     (let t = flush_arg t0
      in res_bind (erase_display (el_or_default (m_ansi_args t) 0 0) t) (\<lambda>t1. Inr (to_ground t1)))"

section \<open>The byte interpreter\<close>

definition put_symbol :: "u8 \<Rightarrow> terminal \<Rightarrow> terminal result" where
  "put_symbol c t =
     res_bind (rb_ref (m_buf t) (active_row t)) (\<lambda>p.
       let cells = rb_load (m_buf t) p
       in if m_cursor_col t < length cells
          then Inr (cursor_adv (t\<lparr>m_buf :=
                 rb_store p (cells[m_cursor_col t := create_symbol c t]) (m_buf t)\<rparr>))
          else Inl OutOfBounds)"

definition ground_char :: "u8 \<Rightarrow> terminal \<Rightarrow> terminal result" where
  "ground_char c t =
     (if c = 27 then Inr (t\<lparr>m_state := ReadState_ESCAPE\<rparr>)
      else if c = 13 then Inr (t\<lparr>m_cursor_col := 0\<rparr>)
      else if c = 10 then Inr (cursor_newline (t\<lparr>m_cursor_col := 0\<rparr>))
      else if c = 8 then
        Inr (if m_cursor_col t > 0 then t\<lparr>m_cursor_col := m_cursor_col t - 1\<rparr> else t)
      else if c = 9 then
        (let next_tab = (m_cursor_col t div TAB_WIDTH + 1) * TAB_WIDTH
         in Inr (if next_tab < m_viewport_w t then t\<lparr>m_cursor_col := next_tab\<rparr>
                 else cursor_newline (t\<lparr>m_cursor_col := 0\<rparr>)))
      else put_symbol c t)"

definition escape_char :: "u8 \<Rightarrow> terminal \<Rightarrow> terminal" where
  "escape_char c t =
     t\<lparr>m_ansi_args := [], m_ansi_arg_chars := [],
       m_state := (if c = 91 then ReadState_SEQ_CSI else ReadState_GROUND)\<rparr>"

definition csi_char :: "u8 \<Rightarrow> terminal \<Rightarrow> terminal result" where
  "csi_char c t =
     (if 48 \<le> c \<and> c \<le> 57 then Inr (t\<lparr>m_ansi_arg_chars := m_ansi_arg_chars t @ [c]\<rparr>)
      else if c = 59 then Inr (push_arg t)
      else if c = 65 then Inr (csi_A t)
      else if c = 66 then Inr (csi_B t)
      else if c = 67 then Inr (csi_C t)
      else if c = 68 then Inr (csi_D t)
      else if c = 72 then Inr (csi_H t)
      else if c = 74 then csi_J t
      else Inr (to_ground t))"

definition process_char :: "u8 \<Rightarrow> terminal \<Rightarrow> terminal result" where
  "process_char c t0 =
     (let t = restore_viewport t0
      in case m_state t of
           ReadState_GROUND \<Rightarrow> ground_char c t
         | ReadState_ESCAPE \<Rightarrow> Inr (escape_char c t)
         | ReadState_SEQ_CSI \<Rightarrow> csi_char c t)"

definition feed_rx :: "terminal \<Rightarrow> uart \<Rightarrow> terminal \<times> uart" where
  "feed_rx t u =
     (case m_rx_queue t of
        [] \<Rightarrow> (t, u)
      | c # cs \<Rightarrow> if rx_valid u then (t, u)
                  else (t\<lparr>m_rx_queue := cs\<rparr>, u\<lparr>rx_data := c, rx_valid := True\<rparr>))"

definition per_tick_update :: "terminal \<Rightarrow> uart \<Rightarrow> (terminal \<times> uart) result" where
  "per_tick_update t u =
     res_bind (if tx_valid u \<and> \<not> m_prev_tx_valid t then process_char (tx_data u) t else Inr t)
       (\<lambda>t1. Inr (feed_rx (t1\<lparr>m_prev_tx_valid := tx_valid u\<rparr>) u))"

end
