(* ===== verification/Verilated.thy ===== *)
theory Verilated
  imports Cotm32_Defs Terminal
begin

unbundle bit_operations_syntax

text \<open>
  \<open>VerilatedContainer\<close> (\<open>sim/include/verilated_container.hpp\<close>,
  \<open>sim/src/verilated_container.cpp\<close>): the object that owns the Verilator model of the
  computer, its simulation time and the waveform dump.  The generated model is not source
  code: its \<open>eval\<close> and \<open>final\<close> are parameters, functions on the record of the public signals
  that the simulator reads (fields named after the signals, grouped by pipeline stage) and
  of an opaque rest.  The associative arrays of the model are maps; \<open>absent\<close> is what the
  non-const \<open>VlAssocArray::at\<close> does for a key that is not stored.
\<close>

section \<open>Public signals of the model\<close>

record if_id_signals =
  ifid_valid :: bool
  ifid_stall :: bool
  ifid_flush :: bool
  id_pc :: u32
  id_pc_4 :: u32
  id_inst :: u32

record id_ex_signals =
  idex_valid :: bool
  idex_stall :: bool
  idex_flush :: bool
  ex_alu_op :: u8
  ex_alu_a_sel :: u8
  ex_alu_b_sel :: u8
  ex_bu_be :: bool
  ex_bu_op :: u8
  ex_regfile_we :: bool
  ex_rd_addr :: u8
  ex_rs1_addr :: u8
  ex_rs2_addr :: u8
  ex_lsu_ls_op :: u8
  ex_reg_wb_sel :: u8
  ex_mu_op :: u8
  ex_csr_we :: bool
  ex_csr_data_sel :: u8
  ex_csr_addr :: u16
  ex_csr_op :: u8
  ex_csr_zimm :: u32
  ex_rs1 :: u32
  ex_rs2 :: u32
  ex_imm :: u32
  ex_pc :: u32
  ex_pc_4 :: u32
  ex_inst :: u32

record ex_mem_signals =
  exmem_valid :: bool
  exmem_stall :: bool
  exmem_flush :: bool
  mem_alu_out :: u32
  mem_mu_out :: u32
  mem_rs1 :: u32
  mem_rs2 :: u32
  mem_regfile_we :: bool
  mem_rd_addr :: u8
  mem_lsu_ls_op :: u8
  mem_reg_wb_sel :: u8
  mem_csr_we :: bool
  mem_csr_data_sel :: u8
  mem_csr_addr :: u16
  mem_csr_op :: u8
  mem_csr_zimm :: u32
  mem_pc :: u32
  mem_pc_4 :: u32
  mem_inst :: u32

record mem_wb_signals =
  memwb_valid :: bool
  memwb_stall :: bool
  memwb_flush :: bool
  wb_lsu_rdata :: u32
  wb_alu_out :: u32
  wb_mu_out :: u32
  wb_csr_rdata :: u32
  wb_regfile_we :: bool
  wb_rd_addr :: u8
  wb_reg_wb_sel :: u8
  wb_pc :: u32
  wb_pc_4 :: u32
  wb_inst :: u32

type_synonym assoc_array = "u16 \<rightharpoonup> u32"

record core_signals =
  if_pc :: u32
  if_inst :: u32
  if_id_s :: if_id_signals
  id_ex_s :: id_ex_signals
  ex_mem_s :: ex_mem_signals
  mem_wb_s :: mem_wb_signals
  forward_a :: u8
  forward_b :: u8
  ex_rs1_fwd :: u32
  ex_rs2_fwd :: u32
  mem_dmem_we :: bool
  trap_mode :: bool
  trap_req :: bool
  trap_mret :: bool
  priv_mode_s :: u8
  bootrom_mem_bytes :: "nat \<Rightarrow> u8"
  dmem_mem_bytes :: "nat \<Rightarrow> u8"
  rf_mem :: "nat \<Rightarrow> u32"
  csr_mem :: assoc_array

record 'x vtop =
  i_clk :: bool
  i_rst :: bool
  core :: core_signals
  clint_mem :: assoc_array
  clint_we :: bool
  clint_mtip :: bool
  uart_s :: uart
  internal :: 'x

section \<open>The container\<close>

text \<open>
  \<open>VerilatedContext\<close> and \<open>VerilatedVcdC\<close>: of the waveform file, whether it is open and the
  times dumped into it, per file, newest file first.
\<close>

record vcontext =
  vc_time :: u64
  vc_timeunit :: string
  vc_timeprecision :: string
  vc_trace_ever_on :: bool

record vcd =
  vcd_isOpen :: bool
  vcd_time_unit :: string
  vcd_time_resolution :: string
  vcd_files :: "(string \<times> u64 list) list"

record 'x container =
  m_contextp :: vcontext
  m_tfp :: vcd
  m_top :: "'x vtop"
  m_started :: bool
  m_finished :: bool
  m_d_proc_steps :: int
  m_d_remn_steps :: int

text \<open>
  The constructor.  \<open>ctx\<close> and \<open>tp\<close> are what \<open>VerilatedContext\<close> (with the command line applied)
  and \<open>Vtop\<close> construct; \<open>p\<close> and \<open>r\<close> stand for the step counters, which the constructor leaves
  uninitialised.
\<close>

definition container_new :: "vcontext \<Rightarrow> 'x vtop \<Rightarrow> int \<Rightarrow> int \<Rightarrow> 'x container" where
  "container_new ctx tp p r =
     \<lparr>m_contextp = ctx,
      m_tfp = \<lparr>vcd_isOpen = False, vcd_time_unit = [], vcd_time_resolution = [], vcd_files = []\<rparr>,
      m_top = tp, m_started = False, m_finished = False, m_d_proc_steps = p, m_d_remn_steps = r\<rparr>"

definition v_time :: "'x container \<Rightarrow> u64" where
  "v_time v = vc_time (m_contextp v)"

definition v_pc :: "'x container \<Rightarrow> u32" where
  "v_pc v = if_pc (core (m_top v))"

definition v_inst :: "'x container \<Rightarrow> u32" where
  "v_inst v = if_inst (core (m_top v))"

definition is_dumping :: "'x container \<Rightarrow> bool" where
  "is_dumping v = vcd_isOpen (m_tfp v)"

definition dump_total_steps :: "'x container \<Rightarrow> int" where
  "dump_total_steps v = m_d_proc_steps v + m_d_remn_steps v"

text \<open>\<open>open\<close>, \<open>dump\<close> and \<open>close\<close> of the waveform writer; \<open>opens f\<close> tells whether file \<open>f\<close> can be created.\<close>

definition vcd_open :: "(string \<Rightarrow> bool) \<Rightarrow> string \<Rightarrow> vcd \<Rightarrow> vcd" where
  "vcd_open opens f w = (if opens f then w\<lparr>vcd_isOpen := True, vcd_files := (f, []) # vcd_files w\<rparr> else w)"

definition vcd_dump :: "u64 \<Rightarrow> vcd \<Rightarrow> vcd" where
  "vcd_dump t w = (case vcd_files w of
      [] \<Rightarrow> w
    | (f, ts) # fs \<Rightarrow> w\<lparr>vcd_files := (f, ts @ [t]) # fs\<rparr>)"

definition vcd_close :: "vcd \<Rightarrow> vcd" where
  "vcd_close w = w\<lparr>vcd_isOpen := False\<rparr>"

definition stop_trace_dump :: "'x container \<Rightarrow> 'x container" where
  "stop_trace_dump v = (if \<not> is_dumping v then v else v\<lparr>m_tfp := vcd_close (m_tfp v)\<rparr>)"

definition container_destroy :: "'x container \<Rightarrow> 'x container" where
  "container_destroy v = (if is_dumping v then v\<lparr>m_tfp := vcd_close (m_tfp v)\<rparr> else v)"

definition start_trace_dump :: "(string \<Rightarrow> bool) \<Rightarrow> string \<Rightarrow> int \<Rightarrow> 'x container \<Rightarrow> 'x container" where
  "start_trace_dump opens filename dump_length v =
     (if is_dumping v then v
      else let ctx = (m_contextp v)\<lparr>vc_trace_ever_on := True\<rparr>;
               w = (m_tfp v)\<lparr>vcd_time_unit := vc_timeunit ctx, vcd_time_resolution := vc_timeprecision ctx\<rparr>
           in v\<lparr>m_contextp := ctx, m_tfp := vcd_open opens filename w,
                m_d_proc_steps := 0, m_d_remn_steps := dump_length\<rparr>)"

definition dump_step :: "'x container \<Rightarrow> 'x container" where
  "dump_step v =
     (if \<not> is_dumping v then v
      else let v1 = v\<lparr>m_tfp := vcd_dump (v_time v) (m_tfp v),
                      m_d_proc_steps := m_d_proc_steps v + 1,
                      m_d_remn_steps := m_d_remn_steps v - 1\<rparr>
           in if m_d_remn_steps v1 \<le> 0 then stop_trace_dump v1 else v1)"

section \<open>Lifecycle\<close>

text \<open>One half of a clock cycle: drive the clock, evaluate, advance the time, dump.\<close>

definition half_cycle :: "('x vtop \<Rightarrow> 'x vtop) \<Rightarrow> bool \<Rightarrow> 'x container \<Rightarrow> 'x container" where
  "half_cycle eval clk v =
     (let v1 = v\<lparr>m_top := eval ((m_top v)\<lparr>i_clk := clk\<rparr>)\<rparr>;
          v2 = v1\<lparr>m_contextp := (m_contextp v1)\<lparr>vc_time := vc_time (m_contextp v1) + 1\<rparr>\<rparr>
      in dump_step v2)"

definition v_update :: "('x vtop \<Rightarrow> 'x vtop) \<Rightarrow> 'x container \<Rightarrow> 'x container result" where
  "v_update eval v =
     (if \<not> m_started v then Inl (RuntimeError ''Cannot tick, container not started'')
      else if m_finished v then Inl (RuntimeError ''Cannot tick, container already finished'')
      else Inr (half_cycle eval True (half_cycle eval False v)))"

definition v_reset :: "('x vtop \<Rightarrow> 'x vtop) \<Rightarrow> 'x container \<Rightarrow> 'x container result" where
  "v_reset eval v =
     res_bind (v_update eval (v\<lparr>m_top := (m_top v)\<lparr>i_rst := True\<rparr>\<rparr>)) (\<lambda>v1.
       Inr (v1\<lparr>m_top := (m_top v1)\<lparr>i_rst := False\<rparr>\<rparr>))"

definition v_start :: "('x vtop \<Rightarrow> 'x vtop) \<Rightarrow> 'x container \<Rightarrow> 'x container result" where
  "v_start eval v =
     (if m_started v then Inl (RuntimeError ''Cannot start, container already started'')
      else if m_finished v then Inl (RuntimeError ''Cannot start, container already finished'')
      else v_reset eval (v\<lparr>m_started := True\<rparr>))"

definition v_finish :: "('x vtop \<Rightarrow> 'x vtop) \<Rightarrow> 'x container \<Rightarrow> 'x container result" where
  "v_finish final v =
     (if \<not> m_started v then Inl (RuntimeError ''Cannot finish, container not started'')
      else if m_finished v then Inl (RuntimeError ''Cannot finish, container already finished'')
      else Inr (v\<lparr>m_top := final (m_top v), m_finished := True\<rparr>))"

section \<open>Memory access\<close>

type_synonym absent_key = "u16 \<Rightarrow> assoc_array \<Rightarrow> u32 \<times> assoc_array"

definition assoc_at :: "absent_key \<Rightarrow> u16 \<Rightarrow> assoc_array \<Rightarrow> u32 \<times> assoc_array" where
  "assoc_at absent k m = (case m k of Some x \<Rightarrow> (x, m) | None \<Rightarrow> absent k m)"

text \<open>The word-aligned key and the bit offset of a CLINT byte address.\<close>

definition clint_key :: "u32 \<Rightarrow> u32" where
  "clint_key addr = (addr - CLINT_MEM_START) AND 0xfffffffc"

definition clint_shamt :: "u32 \<Rightarrow> u32" where
  "clint_shamt addr = ((addr - CLINT_MEM_START) - clint_key addr) * 8"

text \<open>\<open>None\<close> is the result \<open>false\<close>; the container is returned because \<open>at\<close> may store a key.\<close>

definition read_byte :: "absent_key \<Rightarrow> u32 \<Rightarrow> 'x container \<Rightarrow> u8 option \<times> 'x container" where
  "read_byte absent addr v =
     (if IMEM_MEM_START \<le> addr \<and> addr \<le> IMEM_MEM_END then
        (Some (bootrom_mem_bytes (core (m_top v)) (unat (addr - IMEM_MEM_START))), v)
      else if CLINT_MEM_START \<le> addr \<and> addr \<le> CLINT_MEM_END then
        (let s = unat (clint_shamt addr);
             (t, m) = assoc_at absent (ucast (clint_key addr)) (clint_mem (m_top v));
             t' = drop_bit s (t AND push_bit s 0xff)
         in (Some (ucast t'), v\<lparr>m_top := (m_top v)\<lparr>clint_mem := m\<rparr>\<rparr>))
      else if DATA_MEM_START \<le> addr \<and> addr \<le> DATA_MEM_END then
        (Some (dmem_mem_bytes (core (m_top v)) (unat (addr - DATA_MEM_START))), v)
      else (None, v))"

definition write_byte :: "absent_key \<Rightarrow> u32 \<Rightarrow> u8 \<Rightarrow> 'x container \<Rightarrow> bool \<times> 'x container" where
  "write_byte absent addr val v =
     (let tp = m_top v; c = core tp in
      if IMEM_MEM_START \<le> addr \<and> addr \<le> IMEM_MEM_END then
        (True, v\<lparr>m_top := tp\<lparr>core := c\<lparr>bootrom_mem_bytes :=
           (bootrom_mem_bytes c)(unat (addr - IMEM_MEM_START) := val)\<rparr>\<rparr>\<rparr>)
      else if CLINT_MEM_START \<le> addr \<and> addr \<le> CLINT_MEM_END then
        (let s = unat (clint_shamt addr); k = ucast (clint_key addr);
             (t, m) = assoc_at absent k (clint_mem tp);
             t' = drop_bit s ((t AND NOT (push_bit s 0xff)) OR push_bit s (ucast val AND 0xff));
             (_, m') = assoc_at absent k m
         in (True, v\<lparr>m_top := tp\<lparr>clint_mem := m'(k \<mapsto> t')\<rparr>\<rparr>))
      else if DATA_MEM_START \<le> addr \<and> addr \<le> DATA_MEM_END then
        (True, v\<lparr>m_top := tp\<lparr>core := c\<lparr>dmem_mem_bytes :=
           (dmem_mem_bytes c)(unat (addr - DATA_MEM_START) := val)\<rparr>\<rparr>\<rparr>)
      else (False, v))"

end
