(* ===== verification/Verilated_Props.thy ===== *)
theory Verilated_Props
  imports Verilated
begin

text \<open>
  What the container promises: the order in which its operations may be called, the length
  and content of a waveform dump, and the memory accesses behind the debugger views and the
  ELF loader.
\<close>

section \<open>Lifecycle\<close>

datatype container_call = Start | Reset | Update | Finish

text \<open>The abstract lifecycle: a container is fresh, then running, then done.\<close>

datatype phase = Fresh | Running | Done

fun phase_step :: "container_call \<Rightarrow> phase \<Rightarrow> phase result" where
  "phase_step Start Fresh = Inr Running"
| "phase_step Start p = Inl (RuntimeError ''Cannot start, container already started'')"
| "phase_step Finish Running = Inr Done"
| "phase_step Finish Fresh = Inl (RuntimeError ''Cannot finish, container not started'')"
| "phase_step Finish Done = Inl (RuntimeError ''Cannot finish, container already finished'')"
| "phase_step c Running = Inr Running"
| "phase_step c Fresh = Inl (RuntimeError ''Cannot tick, container not started'')"
| "phase_step c Done = Inl (RuntimeError ''Cannot tick, container already finished'')"

fun container_step :: "('x vtop \<Rightarrow> 'x vtop) \<Rightarrow> ('x vtop \<Rightarrow> 'x vtop) \<Rightarrow> container_call \<Rightarrow>
    'x container \<Rightarrow> 'x container result" where
  "container_step eval final Start v = v_start eval v"
| "container_step eval final Reset v = v_reset eval v"
| "container_step eval final Update v = v_update eval v"
| "container_step eval final Finish v = v_finish final v"

fun run_calls :: "('c \<Rightarrow> 's \<Rightarrow> 'e + 's) \<Rightarrow> 'c list \<Rightarrow> 's \<Rightarrow> 'e + 's" where
  "run_calls step [] s = Inr s"
| "run_calls step (c # cs) s = res_bind (step c s) (run_calls step cs)"

definition phase_of :: "'x container \<Rightarrow> phase" where
  "phase_of v = (if m_finished v then Done else if m_started v then Running else Fresh)"

definition lifecycle_ok :: "'x container \<Rightarrow> bool" where
  "lifecycle_ok v \<longleftrightarrow> (m_finished v \<longrightarrow> m_started v)"

lemma half_cycle_flags [simp]:
  "m_started (half_cycle eval c v) = m_started v" "m_finished (half_cycle eval c v) = m_finished v"
  by (simp_all add: half_cycle_def Let_def dump_step_def stop_trace_dump_def)

lemma v_update_flags:
  "v_update eval v = Inr v' \<Longrightarrow> m_started v' = m_started v \<and> m_finished v' = m_finished v"
  by (auto simp: v_update_def split: if_splits)

lemma v_reset_flags:
  "v_reset eval v = Inr v' \<Longrightarrow> m_started v' = m_started v \<and> m_finished v' = m_finished v"
  by (auto simp: v_reset_def res_simps dest!: v_update_flags)

lemma container_step_simulates:
  assumes "lifecycle_ok v"
  shows "case container_step eval final c v of
      Inl e \<Rightarrow> phase_step c (phase_of v) = Inl e
    | Inr v' \<Rightarrow> phase_step c (phase_of v) = Inr (phase_of v') \<and> lifecycle_ok v'"
  using assms
  by (cases c; cases "m_started v"; cases "m_finished v")
    (auto simp: v_start_def v_reset_def v_update_def v_finish_def phase_of_def lifecycle_ok_def)

lemma run_calls_simulates:
  "lifecycle_ok v \<Longrightarrow> map_sum id phase_of (run_calls (container_step eval final) cs v) = run_calls phase_step cs (phase_of v)"
proof (induction cs arbitrary: v)
  case (Cons c cs)
  show ?case
    using container_step_simulates [OF Cons.prems, where eval = eval and final = final and c = c] Cons.IH
    by (cases "container_step eval final c v") auto
qed simp

text \<open>
  C6: For every sequence of \<open>start\<close>, \<open>reset\<close>, \<open>update\<close> and \<open>finish\<close> on a new container, whatever
  the hardware model does, the container accepts exactly what the three-phase lifecycle
  accepts, ends in the same phase, and otherwise throws the same message at the same call.
\<close>

theorem container_follows_lifecycle:
  "map_sum id phase_of (run_calls (container_step eval final) cs (container_new ctx tp p r)) = run_calls phase_step cs Fresh"
  using run_calls_simulates [where v = "container_new ctx tp p r"]
  by (simp add: lifecycle_ok_def phase_of_def container_new_def)

section \<open>Waveform dumps\<close>

text \<open>
  \<open>dumped f t0 n k v\<close>: \<open>k\<close> half cycles after a dump of \<open>n\<close> steps into file \<open>f\<close> was started at
  time \<open>t0\<close>.
\<close>

definition dump_limit :: "int \<Rightarrow> nat" where
  "dump_limit n = max 1 (nat n)"

definition dumped :: "string \<Rightarrow> u64 \<Rightarrow> int \<Rightarrow> nat \<Rightarrow> 'x container \<Rightarrow> bool" where
  "dumped f t0 n k v \<longleftrightarrow> v_time v = t0 + of_nat k \<and> is_dumping v = (k < dump_limit n) \<and>
     m_d_proc_steps v = int (min k (dump_limit n)) \<and> dump_total_steps v = n \<and>
     (\<exists>fs. vcd_files (m_tfp v) = (f, map (\<lambda>i. t0 + 1 + of_nat i) [0..<min k (dump_limit n)]) # fs)"

lemma half_cycle_time: "v_time (half_cycle eval c v) = v_time v + 1"
  by (simp add: half_cycle_def Let_def dump_step_def stop_trace_dump_def v_time_def)

lemma half_cycle_idle:
  "\<not> is_dumping v \<Longrightarrow> m_tfp (half_cycle eval c v) = m_tfp v \<and>
     m_d_proc_steps (half_cycle eval c v) = m_d_proc_steps v \<and> m_d_remn_steps (half_cycle eval c v) = m_d_remn_steps v"
  by (simp add: half_cycle_def Let_def dump_step_def is_dumping_def)

lemma half_cycle_dumping:
  assumes "is_dumping v" "vcd_files (m_tfp v) = (f, ts) # fs"
  shows "vcd_files (m_tfp (half_cycle eval c v)) = (f, ts @ [v_time v + 1]) # fs \<and>
    m_d_proc_steps (half_cycle eval c v) = m_d_proc_steps v + 1 \<and>
    m_d_remn_steps (half_cycle eval c v) = m_d_remn_steps v - 1 \<and>
    is_dumping (half_cycle eval c v) = (1 < m_d_remn_steps v)"
  using assms
  by (simp add: half_cycle_def Let_def dump_step_def stop_trace_dump_def is_dumping_def vcd_dump_def
      vcd_close_def v_time_def)

lemma dumped_step:
  assumes d: "dumped f t0 n k v"
  shows "dumped f t0 n (Suc k) (half_cycle eval c v)"
proof -
  from d obtain fs where fs: "vcd_files (m_tfp v) = (f, map (\<lambda>i. t0 + 1 + of_nat i) [0..<min k (dump_limit n)]) # fs"
    by (auto simp: dumped_def)
  show ?thesis
  proof (cases "k < dump_limit n")
    case False
    then have idle: "\<not> is_dumping v" using d by (simp add: dumped_def)
    then have "\<not> is_dumping (half_cycle eval c v)" using half_cycle_idle [OF idle] by (simp add: is_dumping_def)
    with False d half_cycle_idle [OF idle] show ?thesis
      by (simp add: dumped_def dump_total_steps_def is_dumping_def half_cycle_time ac_simps)
  next
    case True
    then have on: "is_dumping v" using d by (simp add: dumped_def)
    have remn: "m_d_remn_steps v = n - int k" using d True by (simp add: dumped_def dump_total_steps_def)
    have more: "1 < m_d_remn_steps v \<longleftrightarrow> Suc k < dump_limit n"
      using True by (auto simp: remn dump_limit_def)
    from half_cycle_dumping [OF on fs] True d show ?thesis
      by (simp add: dumped_def dump_total_steps_def more half_cycle_time)
  qed
qed

fun v_updates :: "('x vtop \<Rightarrow> 'x vtop) \<Rightarrow> nat \<Rightarrow> 'x container \<Rightarrow> 'x container result" where
  "v_updates eval 0 v = Inr v"
| "v_updates eval (Suc k) v = res_bind (v_update eval v) (v_updates eval k)"

lemma v_updates_dumped:
  "m_started v \<Longrightarrow> \<not> m_finished v \<Longrightarrow> dumped f t0 n j v \<Longrightarrow>
   \<exists>v'. v_updates eval k v = Inr v' \<and> dumped f t0 n (j + 2 * k) v'"
proof (induction k arbitrary: j v)
  case (Suc k)
  let ?v = "half_cycle eval True (half_cycle eval False v)"
  have "v_update eval v = Inr ?v" using Suc.prems by (simp add: v_update_def)
  moreover have "dumped f t0 n (Suc (Suc j)) ?v" using Suc.prems(3) by (intro dumped_step)
  moreover have "Suc (Suc j) + 2 * k = j + 2 * Suc k" by simp
  ultimately show ?case using Suc.IH [of ?v "Suc (Suc j)"] Suc.prems by simp
qed simp

text \<open>
  C15: A waveform dump of \<open>n\<close> steps started on a running container records, over any number \<open>k\<close>
  of clock cycles, the next \<open>min (2 * k) (dump_limit n)\<close> consecutive times, two per cycle, and closes the
  file by itself after \<open>dump_limit n\<close> of them, which is \<open>n\<close>, or 1 when \<open>n\<close> is zero or less; the processed and remaining steps
  always add up to \<open>n\<close>.
\<close>

theorem dump_records_requested_steps:
  assumes run: "m_started v" "\<not> m_finished v" and idle: "\<not> is_dumping v" and f: "opens f"
  shows "\<exists>v' fs. v_updates eval k (start_trace_dump opens f n v) = Inr v' \<and>
    vcd_files (m_tfp v') = (f, map (\<lambda>i. v_time v + 1 + of_nat i) [0..<min (2 * k) (dump_limit n)]) # fs \<and>
    is_dumping v' = (2 * k < dump_limit n) \<and> m_d_proc_steps v' = int (min (2 * k) (dump_limit n)) \<and>
    dump_total_steps v' = n"
proof -
  let ?v = "start_trace_dump opens f n v"
  have "dumped f (v_time v) n 0 ?v" "m_started ?v" "\<not> m_finished ?v"
    using assms by (simp_all add: dumped_def start_trace_dump_def Let_def vcd_open_def v_time_def is_dumping_def
        dump_total_steps_def dump_limit_def)
  from v_updates_dumped [OF this(2,3,1), of eval k] show ?thesis by (auto simp: dumped_def)
qed

section \<open>A concrete machine for the examples\<close>

text \<open>All signals zero, no registers stored; an absent key is stored with the default 0.\<close>

definition if_id_zero :: "if_id_signals" where
  "if_id_zero = \<lparr>ifid_valid = False, ifid_stall = False, ifid_flush = False, id_pc = 0, id_pc_4 = 0, id_inst = 0\<rparr>"

definition id_ex_zero :: "id_ex_signals" where
  "id_ex_zero = \<lparr>idex_valid = False, idex_stall = False, idex_flush = False, ex_alu_op = 0, ex_alu_a_sel = 0,
     ex_alu_b_sel = 0, ex_bu_be = False, ex_bu_op = 0, ex_regfile_we = False, ex_rd_addr = 0,
     ex_rs1_addr = 0, ex_rs2_addr = 0, ex_lsu_ls_op = 0, ex_reg_wb_sel = 0, ex_mu_op = 0, ex_csr_we
     = False, ex_csr_data_sel = 0, ex_csr_addr = 0, ex_csr_op = 0, ex_csr_zimm = 0, ex_rs1 = 0,
     ex_rs2 = 0, ex_imm = 0, ex_pc = 0, ex_pc_4 = 0, ex_inst = 0\<rparr>"

definition ex_mem_zero :: "ex_mem_signals" where
  "ex_mem_zero = \<lparr>exmem_valid = False, exmem_stall = False, exmem_flush = False, mem_alu_out = 0, mem_mu_out = 0,
     mem_rs1 = 0, mem_rs2 = 0, mem_regfile_we = False, mem_rd_addr = 0, mem_lsu_ls_op = 0,
     mem_reg_wb_sel = 0, mem_csr_we = False, mem_csr_data_sel = 0, mem_csr_addr = 0, mem_csr_op = 0,
     mem_csr_zimm = 0, mem_pc = 0, mem_pc_4 = 0, mem_inst = 0\<rparr>"

definition mem_wb_zero :: "mem_wb_signals" where
  "mem_wb_zero = \<lparr>memwb_valid = False, memwb_stall = False, memwb_flush = False, wb_lsu_rdata = 0, wb_alu_out =
     0, wb_mu_out = 0, wb_csr_rdata = 0, wb_regfile_we = False, wb_rd_addr = 0, wb_reg_wb_sel = 0,
     wb_pc = 0, wb_pc_4 = 0, wb_inst = 0\<rparr>"

definition core_zero :: "core_signals" where
  "core_zero = \<lparr>if_pc = 0, if_inst = 0, if_id_s = if_id_zero, id_ex_s = id_ex_zero, ex_mem_s = ex_mem_zero,
     mem_wb_s = mem_wb_zero, forward_a = 0, forward_b = 0, ex_rs1_fwd = 0, ex_rs2_fwd = 0,
     mem_dmem_we = False, trap_mode = False, trap_req = False, trap_mret = False, priv_mode_s = 0,
     bootrom_mem_bytes = \<lambda>_. 0, dmem_mem_bytes = \<lambda>_. 0, rf_mem = \<lambda>_. 0,
     csr_mem = Map.empty\<rparr>"

definition demo_top :: "nat vtop" where
  "demo_top = \<lparr>i_clk = False, i_rst = False, core = core_zero, clint_mem = Map.empty, clint_we = False,
     clint_mtip = False, uart_s = \<lparr>tx_data = 0, tx_valid = False, rx_data = 0, rx_valid =
     False\<rparr>, internal = 0\<rparr>"

definition demo_absent :: absent_key where
  "demo_absent k m = (0, m(k \<mapsto> 0))"

definition demo_context :: vcontext where
  "demo_context = \<lparr>vc_time = 0, vc_timeunit = ''1ps'', vc_timeprecision = ''1ps'', vc_trace_ever_on = False\<rparr>"

definition demo_container :: "'x vtop \<Rightarrow> 'x container" where
  "demo_container tp = (container_new demo_context tp 0 0)\<lparr>m_started := True\<rparr>"

lemma demo_container_simps [simp]:
  "m_started (demo_container tp)" "\<not> m_finished (demo_container tp)" "\<not> is_dumping (demo_container tp)"
  "v_time (demo_container tp) = 0" "m_top (demo_container tp) = tp"
  by (simp_all add: demo_container_def demo_context_def container_new_def is_dumping_def v_time_def)

theorem dump_records_requested_steps_witness:
  "\<exists>v' fs. v_updates (\<lambda>t. t) 4 (start_trace_dump (\<lambda>_. True) ''a.vcd'' 3 (demo_container demo_top)) = Inr v' \<and>
     vcd_files (m_tfp v') = (''a.vcd'', [1, 2, 3]) # fs \<and> \<not> is_dumping v'"
  using dump_records_requested_steps [of "demo_container demo_top" "\<lambda>_. True" "''a.vcd''" "\<lambda>t. t" 4 3]
  by (auto simp: dump_limit_def upt_rec)

section \<open>Memory\<close>

definition in_imem :: "u32 \<Rightarrow> bool" where
  "in_imem a \<longleftrightarrow> IMEM_MEM_START \<le> a \<and> a \<le> IMEM_MEM_END"

definition in_clint :: "u32 \<Rightarrow> bool" where
  "in_clint a \<longleftrightarrow> CLINT_MEM_START \<le> a \<and> a \<le> CLINT_MEM_END"

definition in_dmem :: "u32 \<Rightarrow> bool" where
  "in_dmem a \<longleftrightarrow> DATA_MEM_START \<le> a \<and> a \<le> DATA_MEM_END"

lemma regions_disjoint:
  "in_imem a \<Longrightarrow> \<not> in_clint a" "in_imem a \<Longrightarrow> \<not> in_dmem a" "in_clint a \<Longrightarrow> \<not> in_dmem a"
  by (auto simp: in_imem_def in_clint_def in_dmem_def mem_map_defs word_le_nat_alt)

lemma region_index_bound:
  "in_imem a \<Longrightarrow> unat (a - IMEM_MEM_START) < 8192" "in_dmem a \<Longrightarrow> unat (a - DATA_MEM_START) < 65536"
  by (auto simp: in_imem_def in_dmem_def mem_map_defs word_le_nat_alt unat_sub)

lemma read_byte_regions:
  "in_imem a \<Longrightarrow> read_byte absent a v = (Some (bootrom_mem_bytes (core (m_top v)) (unat (a - IMEM_MEM_START))), v)"
  "in_dmem a \<Longrightarrow> read_byte absent a v = (Some (dmem_mem_bytes (core (m_top v)) (unat (a - DATA_MEM_START))), v)"
  "\<not> in_imem a \<Longrightarrow> \<not> in_clint a \<Longrightarrow> \<not> in_dmem a \<Longrightarrow> read_byte absent a v = (None, v)"
  using regions_disjoint [of a] by (auto simp: read_byte_def in_imem_def in_clint_def in_dmem_def)


lemma take2_clint: "take_bit 2 (a - CLINT_MEM_START) = take_bit 2 a"
proof -
  have "take_bit 2 (a - CLINT_MEM_START) = take_bit 2 (take_bit 2 a - take_bit 2 CLINT_MEM_START)"
    by (rule take_bit_word_diff)
  also have "take_bit 2 CLINT_MEM_START = 0" by (simp add: CLINT_MEM_START_def)
  finally show ?thesis by simp
qed

lemma clint_key_eq: "clint_key a = (a - CLINT_MEM_START) - take_bit 2 a"
  by (simp add: clint_key_def align_down4 take2_clint)

lemma clint_shamt_eq: "clint_shamt a = take_bit 2 a * 8"
  by (simp add: clint_shamt_def clint_key_eq)

lemma clint_lane:
  assumes "take_bit 2 base = 0" "j < 4"
  shows "clint_key (base + j) = base - CLINT_MEM_START" "unat (clint_shamt (base + j)) = 8 * unat j"
proof -
  note t = take2_add [OF assms]
  show "clint_key (base + j) = base - CLINT_MEM_START" by (simp add: clint_key_eq t)
  have "unat j < 4" using assms(2) by (simp add: word_less_nat_alt)
  then show "unat (clint_shamt (base + j)) = 8 * unat j"
    by (simp add: clint_shamt_eq t unat_mult_lem mult.commute unat_word_ariths)
qed

lemma in_clint_lane:
  assumes "take_bit 2 base = 0" "j < 4" "in_clint base"
  shows "in_clint (base + j)"
proof -
  have u: "0x02000000 \<le> unat base" "unat base \<le> 0x0200ffff" "unat j < 4"
    using assms(2,3) by (auto simp: in_clint_def mem_map_defs word_le_nat_alt word_less_nat_alt)
  have "unat base mod 4 = 0"
    using arg_cong [OF assms(1), of unat] by (simp add: unat_take_bit_mod)
  then have "unat base + unat j \<le> 0x0200ffff" using u by presburger
  moreover have "unat (base + j) = unat base + unat j" using u by (subst unat_add_lem [symmetric]) simp
  ultimately show ?thesis using u by (simp add: in_clint_def mem_map_defs word_le_nat_alt)
qed

lemma imem_index_inj: "in_imem a \<Longrightarrow> in_imem b \<Longrightarrow> unat (a - IMEM_MEM_START) = unat (b - IMEM_MEM_START) \<longleftrightarrow> a = b"
  by (simp add: word_unat_eq_iff [symmetric])

lemma dmem_index_inj: "in_dmem a \<Longrightarrow> in_dmem b \<Longrightarrow> unat (a - DATA_MEM_START) = unat (b - DATA_MEM_START) \<longleftrightarrow> a = b"
  by (simp add: word_unat_eq_iff [symmetric])

lemma write_byte_regions:
  "in_imem a \<Longrightarrow> write_byte absent a x v = (True, v\<lparr>m_top := (m_top v)\<lparr>core := (core (m_top v))
     \<lparr>bootrom_mem_bytes := (bootrom_mem_bytes (core (m_top v)))(unat (a - IMEM_MEM_START) := x)\<rparr>\<rparr>\<rparr>)"
  "in_dmem a \<Longrightarrow> write_byte absent a x v = (True, v\<lparr>m_top := (m_top v)\<lparr>core := (core (m_top v))
     \<lparr>dmem_mem_bytes := (dmem_mem_bytes (core (m_top v)))(unat (a - DATA_MEM_START) := x)\<rparr>\<rparr>\<rparr>)"
  "\<not> in_imem a \<Longrightarrow> \<not> in_clint a \<Longrightarrow> \<not> in_dmem a \<Longrightarrow> write_byte absent a x v = (False, v)"
  using regions_disjoint [of a] by (auto simp: write_byte_def Let_def in_imem_def in_clint_def in_dmem_def)

lemma read_byte_clint:
  "in_clint a \<Longrightarrow> fst (read_byte absent a v) = Some (ucast (drop_bit (unat (clint_shamt a))
     (fst (assoc_at absent (ucast (clint_key a)) (clint_mem (m_top v))) AND push_bit (unat (clint_shamt a)) 0xff)))"
  using regions_disjoint(1) [of a] by (auto simp: read_byte_def in_imem_def in_clint_def Let_def split_beta)

lemma read_byte_some_iff: "fst (read_byte absent a v) = None \<longleftrightarrow> \<not> in_imem a \<and> \<not> in_clint a \<and> \<not> in_dmem a"
  using read_byte_regions [of a absent v] read_byte_clint [of a absent v]
  by (cases "in_imem a"; cases "in_clint a"; cases "in_dmem a") simp_all

lemma write_byte_true_iff: "fst (write_byte absent a x v) \<longleftrightarrow> in_imem a \<or> in_clint a \<or> in_dmem a"
  by (auto simp: write_byte_def Let_def split_beta in_imem_def in_clint_def in_dmem_def)

text \<open>
  Note: The byte accesses decode the same address map: a read fails exactly when a write fails,
  namely outside boot ROM, CLINT and data memory (the UART included), and a failing access
  changes nothing.
\<close>

theorem byte_accesses_agree_on_map:
  "(fst (read_byte absent a v) = None \<longleftrightarrow> \<not> fst (write_byte absent a x v)) \<and>
   (fst (write_byte absent a x v) \<longleftrightarrow> a < 0x2000 \<or> 0x02000000 \<le> a \<and> a < 0x02010000 \<or> 0x80000000 \<le> a \<and> a < 0x80010000) \<and>
   (fst (write_byte absent a x v) \<or> read_byte absent a v = (None, v) \<and> write_byte absent a x v = (False, v))"
proof (intro conjI)
  show "fst (write_byte absent a x v) \<longleftrightarrow> a < 0x2000 \<or> 0x02000000 \<le> a \<and> a < 0x02010000 \<or> 0x80000000 \<le> a \<and> a < 0x80010000"
    by (auto simp: write_byte_true_iff in_imem_def in_clint_def in_dmem_def mem_map_defs word_le_nat_alt word_less_nat_alt)
qed (auto simp: read_byte_some_iff write_byte_true_iff read_byte_regions write_byte_regions)

lemma memory_write_read_all:
  assumes a: "in_imem a \<or> in_dmem a"
  shows "fst (read_byte absent b (snd (write_byte absent a x v))) = (if b = a then Some x else fst (read_byte absent b v))"
proof -
  let ?v = "snd (write_byte absent a x v)"
  consider (imem) "in_imem b" | (dmem) "in_dmem b" | (clint) "in_clint b" | (none) "\<not> in_imem b" "\<not> in_clint b" "\<not> in_dmem b"
    by blast
  then show ?thesis
  proof cases
    case imem
    then show ?thesis
      using a regions_disjoint(2) [of b] imem_index_inj [of a b]
      by (auto simp: read_byte_regions write_byte_regions)
  next
    case dmem
    then show ?thesis
      using a regions_disjoint(2) [of b] dmem_index_inj [of a b]
      by (auto simp: read_byte_regions write_byte_regions)
  next
    case clint
    then have "b \<noteq> a" using a regions_disjoint by blast
    then show ?thesis
      using a by (auto simp: read_byte_clint [OF clint] write_byte_regions)
  next
    case none
    then show ?thesis using a by (auto simp: read_byte_regions)
  qed
qed

text \<open>
  Note: A byte written to boot ROM or data memory is read back unchanged, and no other address,
  CLINT registers included, reads differently afterwards.
\<close>

theorem memory_write_read:
  assumes "in_imem a \<or> in_dmem a"
  shows "fst (read_byte absent b (snd (write_byte absent a x v))) = (if b = a then Some x else fst (read_byte absent b v))"
  by (rule memory_write_read_all [OF assms])

theorem memory_write_read_witness:
  "fst (read_byte demo_absent 0x80000010 (snd (write_byte demo_absent 0x80000010 42 (demo_container demo_top)))) = Some 42"
  using memory_write_read [of "0x80000010" demo_absent "0x80000010" 42 "demo_container demo_top"]
  by (simp add: in_dmem_def mem_map_defs)

section \<open>CLINT registers\<close>

definition clint_reg :: "u32 \<Rightarrow> 'x container \<Rightarrow> u32 option" where
  "clint_reg a v = clint_mem (m_top v) (ucast (a - CLINT_MEM_START))"

lemma lane_select: "n \<le> 24 \<Longrightarrow> drop_bit n ((t :: u32) AND push_bit n 0xff) = drop_bit n t AND 0xff"
proof (rule bit_word_eqI)
  fix i :: nat
  assume n: "n \<le> 24"
  have ff: "bit (0xff :: u32) k \<longleftrightarrow> k < 8" for k :: nat using bit_ff [where 'a = 32, of k] by auto
  have "bit (push_bit n 0xff :: u32) (n + i) \<longleftrightarrow> n + i < 32 \<and> i < 8"
    by (simp only: bit_push_bit_iff possible_bit_word ff) simp
  then show "bit (drop_bit n (t AND push_bit n 0xff)) i = bit (drop_bit n t AND 0xff) i"
    using n by (simp only: bit_drop_bit_eq o_apply bit_and_iff ff) auto
qed

lemma lane_bound: "(j :: u32) < 4 \<Longrightarrow> 8 * unat j \<le> 24"
  by (simp add: word_less_nat_alt)

text \<open>The branch taken inside the CLINT range.\<close>

lemma clint_branch:
  assumes "in_clint a"
  shows "(IMEM_MEM_START \<le> a \<and> a \<le> IMEM_MEM_END) = False" "(CLINT_MEM_START \<le> a \<and> a \<le> CLINT_MEM_END) = True"
  using assms regions_disjoint(1) [of a] by (auto simp: in_imem_def in_clint_def)

lemma read_clint_lane:
  assumes "take_bit 2 base = 0" "j < 4" "in_clint base" and t: "clint_reg base v = Some t"
  shows "read_byte absent (base + j) v = (Some (ucast (drop_bit (8 * unat j) t AND 0xff)), v)"
  using t unfolding read_byte_def clint_branch [OF in_clint_lane [OF assms(1-3)]] if_True if_False Let_def
    clint_lane [OF assms(1,2)] clint_reg_def assoc_at_def
  by (simp only: option.case split_conv lane_select [OF lane_bound [OF assms(2)]]) simp

lemma write_clint_lane:
  assumes "take_bit 2 base = 0" "j < 4" "in_clint base" and t: "clint_reg base v = Some t"
  shows "\<exists>v'. write_byte absent (base + j) x v = (True, v') \<and> clint_reg base v' = Some (drop_bit (8 * unat j)
    ((t AND NOT (push_bit (8 * unat j) 0xff)) OR push_bit (8 * unat j) (ucast x AND 0xff)))"
  using t unfolding write_byte_def clint_branch [OF in_clint_lane [OF assms(1-3)]] if_True if_False Let_def
    clint_lane [OF assms(1,2)] clint_reg_def assoc_at_def
  by simp

lemma stored_lane_0:
  assumes "n \<le> 24"
  shows "ucast (drop_bit 0 (drop_bit n (((t :: u32) AND NOT (push_bit n 0xff)) OR push_bit n (ucast x AND 0xff))) AND 0xff) = (x :: u8)"
proof (rule bit_word_eqI)
  fix i :: nat
  assume "i < LENGTH(8)"
  then have i: "i < 8" by simp
  have ff: "bit (0xff :: u32) k \<longleftrightarrow> k < 8" for k :: nat using bit_ff [where 'a = 32, of k] by auto
  have "bit (push_bit n 0xff :: u32) (n + i)" using i assms
    by (simp only: bit_push_bit_iff possible_bit_word ff) simp
  moreover have "bit (push_bit n (ucast x AND 0xff) :: u32) (n + i) = bit x i" using i assms
    by (simp only: bit_push_bit_iff possible_bit_word bit_and_iff bit_ucast_iff ff) simp
  ultimately show "bit (ucast (drop_bit 0 (drop_bit n ((t AND NOT (push_bit n 0xff)) OR push_bit n (ucast x AND 0xff))) AND 0xff) :: u8) i = bit x i"
    using i assms by (simp only: bit_ucast_iff bit_drop_bit_eq o_apply bit_and_iff bit_or_iff bit_not_iff ff possible_bit_word) simp
qed

lemma stored_lane_3:
  assumes "8 \<le> n" "n \<le> 24"
  shows "ucast (drop_bit 24 (drop_bit n (w :: u32)) AND 0xff) = (0 :: u8)"
proof (rule bit_word_eqI)
  fix i :: nat
  have "\<not> bit w (n + (24 + i))" using assms bit_imp_le_length [of w "n + (24 + i)"] by auto
  then show "bit (ucast (drop_bit 24 (drop_bit n w) AND 0xff) :: u8) i = bit (0 :: u8) i"
    by (simp only: bit_ucast_iff bit_drop_bit_eq o_apply bit_and_iff bit_0_eq) simp
qed

text \<open>
  Note: A byte written to a CLINT register through \<open>write_byte\<close> lands in the wrong lane: the
  merged word is shifted right by the lane's offset before it is stored, so that the byte is
  read back at the register's lowest address and, for the upper three lanes, the register's
  top byte becomes zero.
\<close>

theorem clint_write_shifts_register:
  assumes al: "take_bit 2 base = 0" and inc: "in_clint base" and t: "clint_reg base v = Some t" and j: "j < 4"
  shows "fst (read_byte absent base (snd (write_byte absent (base + j) x v))) = Some x \<and>
    (j = 0 \<or> fst (read_byte absent (base + 3) (snd (write_byte absent (base + j) x v))) = Some 0)"
proof -
  let ?n = "8 * unat j"
  let ?w = "drop_bit ?n ((t AND NOT (push_bit ?n 0xff)) OR push_bit ?n (ucast x AND 0xff))"
  from write_clint_lane [OF al j inc t] obtain v' where
    v': "write_byte absent (base + j) x v = (True, v')" "clint_reg base v' = Some ?w" by blast
  note rd = read_clint_lane [OF al _ inc v'(2), of _ absent]
  have "fst (read_byte absent base v') = Some x"
    using rd [of 0] stored_lane_0 [OF lane_bound [OF j], of t x] by simp
  moreover have "fst (read_byte absent (base + 3) v') = Some 0" if "j \<noteq> 0"
  proof -
    have "8 \<le> ?n" using that by (simp add: word_unat_eq_iff) 
    have l3: "8 * unat (3 :: u32) = 24" by simp
    have lt: "(3 :: u32) < 4" by simp
    have "read_byte absent (base + 3) v' = (Some (ucast (drop_bit 24 ?w AND 0xff)), v')"
      by (rule rd [OF lt, unfolded l3])
    then show ?thesis unfolding stored_lane_3 [OF \<open>8 \<le> ?n\<close> lane_bound [OF j]] by simp
  qed
  ultimately show ?thesis by (auto simp: v'(1))
qed

theorem clint_write_shifts_register_witness:
  "fst (read_byte demo_absent 0x0200bff8 (snd (write_byte demo_absent 0x0200bff9 7
     (demo_container (demo_top\<lparr>clint_mem := [0xbff8 \<mapsto> 0x11223344]\<rparr>))))) = Some 7"
  using clint_write_shifts_register [of "0x0200bff8" "demo_container (demo_top\<lparr>clint_mem := [0xbff8 \<mapsto> 0x11223344]\<rparr>)" "0x11223344" 1 demo_absent 7]
  by (simp add: in_clint_def mem_map_defs clint_reg_def)

end
