(* ===== verification/Name_Utils.thy ===== *)
theory Name_Utils
  imports Cotm32_Defs
begin

text \<open>
  The display names of \<open>sim/src/name_utils.cpp\<close>: an array for the registers, a map per
  enumeration, and the lookups that fall back to the empty string.  The locale \<open>name_table\<close>
  is what the drawers rely on: every enumerator has a name of its own and no other value has
  one.
\<close>

section \<open>Tables\<close>

definition EMPTY :: string where "EMPTY = ''''"

text \<open>A \<open>std::map\<close> built from an initializer list: the first entry of a key counts.\<close>

type_synonym 'k string_map = "('k \<times> string) list"

definition reg_names :: "string list" where
  "reg_names = [
     ''x0/zero'', ''x1/ra'', ''x2/sp'', ''x3/gp'', ''x4/tp'', ''x5/t0'', ''x6/t1'', ''x7/t2'',
     ''x8/s0'', ''x9/s1'', ''x10/a0'', ''x11/a1'', ''x12/a2'', ''x13/a3'', ''x14/a4'', ''x15/a5'',
     ''x16/a6'', ''x17/a7'', ''x18/s2'', ''x19/s3'', ''x20/s4'', ''x21/s5'', ''x22/s6'', ''x23/s7'',
     ''x24/s8'', ''x25/s9'', ''x26/s10'', ''x27/s11'', ''x28/t3'', ''x29/t4'', ''x30/t5'', ''x31/t6'']"

definition alu_op_names :: "alu_op string_map" where
  "alu_op_names = [
     (AluOp_ADD, ''ADD''),
     (AluOp_SUB, ''SUB''),
     (AluOp_OR, ''OR''),
     (AluOp_AND, ''AND''),
     (AluOp_XOR, ''XOR''),
     (AluOp_SLT, ''SLT''),
     (AluOp_SLTU, ''SLTU''),
     (AluOp_SLL, ''SLL''),
     (AluOp_SRL, ''SRL''),
     (AluOp_SRA, ''SRA'')]"

definition bu_op_names :: "bu_op string_map" where
  "bu_op_names = [
     (BuOp_NEVER, ''NEVER''),
     (BuOp_ALWAYS, ''ALWAYS''),
     (BuOp_EQ, ''EQ''),
     (BuOp_NE, ''NE''),
     (BuOp_LT, ''LT''),
     (BuOp_GE, ''GE''),
     (BuOp_LTU, ''LTU''),
     (BuOp_GEU, ''GEU'')]"

definition alu_a_names :: "alu_a string_map" where
  "alu_a_names = [
     (AluPortA_RS1, ''RS1''),
     (AluPortA_PC, ''PC'')]"

definition alu_b_names :: "alu_b string_map" where
  "alu_b_names = [
     (AluPortB_RS2, ''RS2''),
     (AluPortB_IMM, ''IMM'')]"

definition lsu_ls_names :: "lsu_ls string_map" where
  "lsu_ls_names = [
     (LsuLoadStoreOp_NONE, ''NONE''),
     (LsuLoadStoreOp_LOAD_B, ''LOAD B''),
     (LsuLoadStoreOp_LOAD_H, ''LOAD H''),
     (LsuLoadStoreOp_LOAD_W, ''LOAD W''),
     (LsuLoadStoreOp_LOAD_BU, ''LOAD UB''),
     (LsuLoadStoreOp_LOAD_HU, ''LOAD UH''),
     (LsuLoadStoreOp_STORE_B, ''STORE B''),
     (LsuLoadStoreOp_STORE_H, ''STORE H''),
     (LsuLoadStoreOp_STORE_W, ''STORE W'')]"

definition reg_wb_names :: "reg_wb string_map" where
  "reg_wb_names = [
     (RegWritebackSrc_ZERO, ''ZERO''),
     (RegWritebackSrc_ALU, ''ALU OUT''),
     (RegWriteBackSrc_MU, ''MU OUT''),
     (RegWritebackSrc_PC4, ''PC+4''),
     (RegWritebackSrc_LSU, ''LSU''),
     (RegWritebackSrc_CSR, ''CSR'')]"

definition mu_op_names :: "mu_op string_map" where
  "mu_op_names = [
     (MuOp_NOP, ''NOP''),
     (MuOp_MUL, ''MUL''),
     (MuOp_MULH, ''MULH''),
     (MuOp_MULHU, ''MULHU''),
     (MuOp_MULHSU, ''MULHSU''),
     (MuOp_DIV, ''DIV''),
     (MuOp_DIVU, ''DIVU''),
     (MuOp_REM, ''REM''),
     (MuOp_REMU, ''REMU'')]"

definition priv_mode_names :: "priv_mode string_map" where
  "priv_mode_names = [
     (PrivMode_U, ''User''),
     (PrivMode_M, ''Machine'')]"

definition csr_names :: "csr_id string_map" where
  "csr_names = [
     (CsrId_MSTATUS, ''mstatus''),
     (CsrId_MIE, ''mie''),
     (CsrId_MTVEC, ''mtvec''),
     (CsrId_MSCRATCH, ''mscratch''),
     (CsrId_MEPC, ''mepc''),
     (CsrId_MCAUSE, ''mcause''),
     (CsrId_MTVAL, ''mtval''),
     (CsrId_MIP, ''mip'')]"

definition csr_write_names :: "csr_write string_map" where
  "csr_write_names = [
     (CsrWriteSrc_RS1, ''RS1''),
     (CsrWriteSrc_IMM, ''IMM'')]"

definition csr_op_names :: "csr_op string_map" where
  "csr_op_names = [
     (CsrOp_NONE, ''NONE''),
     (CsrOp_RW, ''RW''),
     (CsrOp_RS, ''RS''),
     (CsrOp_RC, ''RC'')]"

definition fwd_src_names :: "fwd_src string_map" where
  "fwd_src_names = [
     (FwdSrc_NONE, ''NONE''),
     (FwdSrc_EXMEM, ''EX/MEM''),
     (FwdSrc_MEMWB, ''MEM/WB'')]"

section \<open>Lookups\<close>

definition in_bounds :: "int \<Rightarrow> 'a list \<Rightarrow> bool" where
  "in_bounds i arr \<longleftrightarrow> 0 \<le> i \<and> i < int (length arr)"

definition get_or_empty :: "'k string_map \<Rightarrow> 'k \<Rightarrow> string" where
  "get_or_empty m key = (case map_of m key of Some v \<Rightarrow> v | None \<Rightarrow> EMPTY)"

definition reg_name :: "u8 \<Rightarrow> string" where
  "reg_name reg_index =
     (if \<not> in_bounds (uint reg_index) reg_names then EMPTY else reg_names ! unat reg_index)"

definition alu_op_name :: "alu_op \<Rightarrow> string" where
  "alu_op_name k = get_or_empty alu_op_names k"

definition bu_op_name :: "bu_op \<Rightarrow> string" where
  "bu_op_name k = get_or_empty bu_op_names k"

definition alu_a_name :: "alu_a \<Rightarrow> string" where
  "alu_a_name k = get_or_empty alu_a_names k"

definition alu_b_name :: "alu_b \<Rightarrow> string" where
  "alu_b_name k = get_or_empty alu_b_names k"

definition lsu_ls_op_name :: "lsu_ls \<Rightarrow> string" where
  "lsu_ls_op_name k = get_or_empty lsu_ls_names k"

definition reg_wb_name :: "reg_wb \<Rightarrow> string" where
  "reg_wb_name k = get_or_empty reg_wb_names k"

definition mu_op_name :: "mu_op \<Rightarrow> string" where
  "mu_op_name k = get_or_empty mu_op_names k"

definition priv_mode_name :: "priv_mode \<Rightarrow> string" where
  "priv_mode_name k = get_or_empty priv_mode_names k"

definition csr_name :: "csr_id \<Rightarrow> string" where
  "csr_name k = get_or_empty csr_names k"

definition csr_write_name :: "csr_write \<Rightarrow> string" where
  "csr_write_name k = get_or_empty csr_write_names k"

definition csr_op_name :: "csr_op \<Rightarrow> string" where
  "csr_op_name k = get_or_empty csr_op_names k"

definition pipe_fwd_src_name :: "fwd_src \<Rightarrow> string" where
  "pipe_fwd_src_name k = get_or_empty fwd_src_names k"

section \<open>What a table owes its readers\<close>

locale name_table = code_enum to_enum of_enum named
  for to_enum :: "u32 \<Rightarrow> 'e" and of_enum :: "'e \<Rightarrow> u32" and named :: "'e list" +
  fixes table :: "'e string_map"
  assumes keys: "map fst table = named"
    and distinct_names: "distinct (map snd table)"
    and no_empty_name: "EMPTY \<notin> snd ` set table"
begin

lemma map_of_table: "map_of table e = Some s \<longleftrightarrow> (e, s) \<in> set table"
  using distinct_named keys by (simp add: map_of_eq_Some_iff)

lemma get_or_empty_iff: "get_or_empty table e \<noteq> EMPTY \<longleftrightarrow> e \<in> set named"
proof
  assume "get_or_empty table e \<noteq> EMPTY"
  then obtain s where "map_of table e = Some s" by (auto simp: get_or_empty_def split: option.splits)
  then have "(e, s) \<in> set table" by (simp only: map_of_table)
  then show "e \<in> set named" by (simp flip: keys) force
next
  assume "e \<in> set named"
  then obtain s where s: "(e, s) \<in> set table" by (auto simp flip: keys)
  then have "map_of table e = Some s" by (simp only: map_of_table)
  moreover have "s \<noteq> EMPTY" using no_empty_name s by force
  ultimately show "get_or_empty table e \<noteq> EMPTY" by (simp add: get_or_empty_def)
qed

lemma get_or_empty_inj: "inj_on (get_or_empty table) (set named)"
proof (rule inj_onI)
  fix a b
  assume ab: "a \<in> set named" "b \<in> set named" "get_or_empty table a = get_or_empty table b"
  then obtain s t where st: "(a, s) \<in> set table" "(b, t) \<in> set table" by (auto simp flip: keys)
  then have "map_of table a = Some s" "map_of table b = Some t" by (simp_all only: map_of_table)
  with ab(3) have "s = t" by (simp add: get_or_empty_def)
  moreover have "inj_on snd (set table)" using distinct_names by (simp add: distinct_map)
  ultimately show "a = b" using st inj_onD [of snd "set table" "(a, s)" "(b, t)"] by simp
qed

end

text \<open>
  A lookup from the raw signal: a non-empty name is shown for exactly the values of the
  enumerators, and different values get different names.
\<close>

definition identifies :: "(u32 \<Rightarrow> string) \<Rightarrow> u32 list \<Rightarrow> bool" where
  "identifies f vals \<longleftrightarrow> {w. f w \<noteq> EMPTY} = set vals \<and> inj_on f (set vals)"

context name_table
begin

lemma identifies_values: "identifies (\<lambda>w. get_or_empty table (to_enum w)) (map of_enum named)"
  unfolding identifies_def
proof
  show "{w. get_or_empty table (to_enum w) \<noteq> EMPTY} = set (map of_enum named)"
    using get_or_empty_iff to_enum_named_iff by auto
  show "inj_on (\<lambda>w. get_or_empty table (to_enum w)) (set (map of_enum named))"
  proof (rule inj_onI)
    fix v w
    assume "v \<in> set (map of_enum named)" "w \<in> set (map of_enum named)"
      and eq: "get_or_empty table (to_enum v) = get_or_empty table (to_enum w)"
    then have "to_enum v \<in> set named" "to_enum w \<in> set named" by (auto simp: to_enum_named_iff)
    with eq get_or_empty_inj have "to_enum v = to_enum w" by (auto dest: inj_onD)
    then show "v = w" by (simp add: to_enum_inj)
  qed
qed

end

interpretation alu_op_names: name_table to_alu_op of_alu_op alu_op_all alu_op_names
  by unfold_locales (simp_all add: alu_op_names_def alu_op_all_def EMPTY_def)

interpretation bu_op_names: name_table to_bu_op of_bu_op bu_op_all bu_op_names
  by unfold_locales (simp_all add: bu_op_names_def bu_op_all_def EMPTY_def)

interpretation alu_a_names: name_table to_alu_a of_alu_a alu_a_all alu_a_names
  by unfold_locales (simp_all add: alu_a_names_def alu_a_all_def EMPTY_def)

interpretation alu_b_names: name_table to_alu_b of_alu_b alu_b_all alu_b_names
  by unfold_locales (simp_all add: alu_b_names_def alu_b_all_def EMPTY_def)

interpretation lsu_ls_names: name_table to_lsu_ls of_lsu_ls lsu_ls_all lsu_ls_names
  by unfold_locales (simp_all add: lsu_ls_names_def lsu_ls_all_def EMPTY_def)

interpretation reg_wb_names: name_table to_reg_wb of_reg_wb reg_wb_all reg_wb_names
  by unfold_locales (simp_all add: reg_wb_names_def reg_wb_all_def EMPTY_def)

interpretation mu_op_names: name_table to_mu_op of_mu_op mu_op_all mu_op_names
  by unfold_locales (simp_all add: mu_op_names_def mu_op_all_def EMPTY_def)

interpretation priv_mode_names: name_table to_priv_mode of_priv_mode priv_mode_all priv_mode_names
  by unfold_locales (simp_all add: priv_mode_names_def priv_mode_all_def EMPTY_def)

interpretation csr_names: name_table to_csr_id of_csr_id csr_id_all csr_names
  by unfold_locales (simp_all add: csr_names_def csr_id_all_def EMPTY_def)

interpretation csr_write_names: name_table to_csr_write of_csr_write csr_write_all csr_write_names
  by unfold_locales (simp_all add: csr_write_names_def csr_write_all_def EMPTY_def)

interpretation csr_op_names: name_table to_csr_op of_csr_op csr_op_all csr_op_names
  by unfold_locales (simp_all add: csr_op_names_def csr_op_all_def EMPTY_def)

interpretation fwd_src_names: name_table to_fwd_src of_fwd_src fwd_src_all fwd_src_names
  by unfold_locales (simp_all add: fwd_src_names_def fwd_src_all_def EMPTY_def)

section \<open>The registers\<close>

lemma distinct_reg_names: "distinct reg_names" "EMPTY \<notin> set reg_names" "length reg_names = 32"
  by (simp_all add: reg_names_def EMPTY_def)

lemma reg_name_cases: "reg_name r = (if unat r < 32 then reg_names ! unat r else EMPTY)"
proof -
  have "uint r < 32 \<longleftrightarrow> unat r < 32" by (subst uint_nat) presburger
  then show ?thesis by (simp add: reg_name_def in_bounds_def distinct_reg_names(3))
qed

text \<open>
  Note: The display-name lookups identify what they display: of every raw signal value exactly
  the implemented operations, sources, CSRs and modes have a non-empty name, and no two of
  them share one.
\<close>

theorem display_names_identify:
  "identifies (\<lambda>w. alu_op_name (to_alu_op w)) [0, 1, 2, 3, 4, 5, 6, 7, 8, 9] \<and>
   identifies (\<lambda>w. bu_op_name (to_bu_op w)) [0, 1, 2, 3, 4, 5, 6, 7] \<and>
   identifies (\<lambda>w. alu_a_name (to_alu_a w)) [0, 1] \<and>
   identifies (\<lambda>w. alu_b_name (to_alu_b w)) [0, 1] \<and>
   identifies (\<lambda>w. lsu_ls_op_name (to_lsu_ls w)) [0, 1, 2, 3, 4, 5, 6, 7, 8] \<and>
   identifies (\<lambda>w. reg_wb_name (to_reg_wb w)) [0, 1, 2, 3, 4, 5] \<and>
   identifies (\<lambda>w. mu_op_name (to_mu_op w)) [0, 1, 2, 3, 4, 5, 6, 7, 8] \<and>
   identifies (\<lambda>w. priv_mode_name (to_priv_mode w)) [0, 3] \<and>
   identifies (\<lambda>w. csr_name (to_csr_id w)) [0x300, 0x304, 0x305, 0x340, 0x341, 0x342, 0x343, 0x344] \<and>
   identifies (\<lambda>w. csr_write_name (to_csr_write w)) [0, 1] \<and>
   identifies (\<lambda>w. csr_op_name (to_csr_op w)) [0, 1, 2, 3] \<and>
   identifies (\<lambda>w. pipe_fwd_src_name (to_fwd_src w)) [0, 1, 2]"
proof (intro conjI)
  show "identifies (\<lambda>w. alu_op_name (to_alu_op w)) [0, 1, 2, 3, 4, 5, 6, 7, 8, 9]"
    using alu_op_names.identifies_values by (simp add: alu_op_name_def alu_op_all_def)
  show "identifies (\<lambda>w. bu_op_name (to_bu_op w)) [0, 1, 2, 3, 4, 5, 6, 7]"
    using bu_op_names.identifies_values by (simp add: bu_op_name_def bu_op_all_def)
  show "identifies (\<lambda>w. alu_a_name (to_alu_a w)) [0, 1]"
    using alu_a_names.identifies_values by (simp add: alu_a_name_def alu_a_all_def)
  show "identifies (\<lambda>w. alu_b_name (to_alu_b w)) [0, 1]"
    using alu_b_names.identifies_values by (simp add: alu_b_name_def alu_b_all_def)
  show "identifies (\<lambda>w. lsu_ls_op_name (to_lsu_ls w)) [0, 1, 2, 3, 4, 5, 6, 7, 8]"
    using lsu_ls_names.identifies_values by (simp add: lsu_ls_op_name_def lsu_ls_all_def)
  show "identifies (\<lambda>w. reg_wb_name (to_reg_wb w)) [0, 1, 2, 3, 4, 5]"
    using reg_wb_names.identifies_values by (simp add: reg_wb_name_def reg_wb_all_def)
  show "identifies (\<lambda>w. mu_op_name (to_mu_op w)) [0, 1, 2, 3, 4, 5, 6, 7, 8]"
    using mu_op_names.identifies_values by (simp add: mu_op_name_def mu_op_all_def)
  show "identifies (\<lambda>w. priv_mode_name (to_priv_mode w)) [0, 3]"
    using priv_mode_names.identifies_values by (simp add: priv_mode_name_def priv_mode_all_def)
  show "identifies (\<lambda>w. csr_name (to_csr_id w)) [0x300, 0x304, 0x305, 0x340, 0x341, 0x342, 0x343, 0x344]"
    using csr_names.identifies_values by (simp add: csr_name_def csr_id_all_def)
  show "identifies (\<lambda>w. csr_write_name (to_csr_write w)) [0, 1]"
    using csr_write_names.identifies_values by (simp add: csr_write_name_def csr_write_all_def)
  show "identifies (\<lambda>w. csr_op_name (to_csr_op w)) [0, 1, 2, 3]"
    using csr_op_names.identifies_values by (simp add: csr_op_name_def csr_op_all_def)
  show "identifies (\<lambda>w. pipe_fwd_src_name (to_fwd_src w)) [0, 1, 2]"
    using fwd_src_names.identifies_values by (simp add: pipe_fwd_src_name_def fwd_src_all_def)
qed

text \<open>
  Note: A register index shows its architectural name exactly when it is below 32, and distinct
  registers have distinct names.
\<close>

theorem register_names_identify:
  "(reg_name a \<noteq> EMPTY \<longleftrightarrow> a < 32) \<and> (reg_name a = reg_name b \<longleftrightarrow> a = b \<or> 32 \<le> a \<and> 32 \<le> b)"
proof -
  have lt: "x < 32 \<longleftrightarrow> unat x < 32" for x :: u8 by (simp add: word_less_nat_alt)
  have ne: "unat x < 32 \<Longrightarrow> reg_names ! unat x \<noteq> EMPTY" for x :: u8
    using distinct_reg_names(2,3) nth_mem [of "unat x" reg_names] by metis
  have eq: "unat a < 32 \<Longrightarrow> unat b < 32 \<Longrightarrow> reg_names ! unat a = reg_names ! unat b \<longleftrightarrow> a = b"
    using nth_eq_iff_index_eq [OF distinct_reg_names(1)] distinct_reg_names(3) by (simp add: word_unat_eq_iff)
  show ?thesis using ne [of a] ne [of b] eq by (auto simp: reg_name_cases lt not_less [symmetric])
qed

end
