(* ===== verification/Views.thy ===== *)
theory Views
  imports Verilated_Props Name_Utils
begin

text \<open>
  The read-only views of \<open>sim/include/views\<close> and \<open>sim/src/views\<close> that the debugger windows are
  built on: memory, CLINT, registers, CSRs, privilege, traps, forwarding and the pipeline
  registers.  A view reads through the container; where \<open>VlAssocArray::at\<close> is involved the
  container is threaded, because reading an absent key stores it.
\<close>

section \<open>Memory\<close>

text \<open>Sequencing of reads that may report \<open>false\<close>, as \<open>&&\<close> does.\<close>

definition rd_bind :: "('s \<Rightarrow> 'a option \<times> 's) \<Rightarrow> ('a \<Rightarrow> 's \<Rightarrow> 'b option \<times> 's) \<Rightarrow> 's \<Rightarrow> 'b option \<times> 's" where
  "rd_bind m f s = (case m s of (None, s1) \<Rightarrow> (None, s1) | (Some x, s1) \<Rightarrow> f x s1)"

definition rd_return :: "'a \<Rightarrow> 's \<Rightarrow> 'a option \<times> 's" where
  "rd_return x s = (Some x, s)"

lemma rd_bind_simps [simp]:
  "m s = (Some x, s1) \<Longrightarrow> rd_bind m f s = f x s1"
  "m s = (None, s1) \<Longrightarrow> rd_bind m f s = (None, s1)"
  "rd_return x s = (Some x, s)"
  by (simp_all add: rd_bind_def rd_return_def)

definition mem_write_enable :: "'x container \<Rightarrow> bool" where
  "mem_write_enable v \<longleftrightarrow> mem_dmem_we (core (m_top v)) \<and> exmem_valid (ex_mem_s (core (m_top v))) \<and>
     \<not> trap_req (core (m_top v))"

definition read_half :: "absent_key \<Rightarrow> u32 \<Rightarrow> 'x container \<Rightarrow> u16 option \<times> 'x container" where
  "read_half absent addr =
     rd_bind (read_byte absent addr) (\<lambda>val8_0.
     rd_bind (read_byte absent (addr + 1)) (\<lambda>val8_1.
       rd_return (push_bit 8 (ucast val8_1 AND 0xff) OR (ucast val8_0 AND 0xff))))"

definition read_word :: "absent_key \<Rightarrow> u32 \<Rightarrow> 'x container \<Rightarrow> u32 option \<times> 'x container" where
  "read_word absent addr =
     rd_bind (read_byte absent addr) (\<lambda>val8_0.
     rd_bind (read_byte absent (addr + 1)) (\<lambda>val8_1.
     rd_bind (read_byte absent (addr + 2)) (\<lambda>val8_2.
     rd_bind (read_byte absent (addr + 3)) (\<lambda>val8_3.
       rd_return (push_bit 24 (ucast val8_3 AND 0xff) OR push_bit 16 (ucast val8_2 AND 0xff) OR
                  push_bit 8 (ucast val8_1 AND 0xff) OR (ucast val8_0 AND 0xff))))))"

section \<open>CLINT\<close>

definition clint_msip :: "absent_key \<Rightarrow> 'x container \<Rightarrow> bool \<times> 'x container" where
  "clint_msip absent v =
     (case read_word absent 0x02000000 v of (None, v1) \<Rightarrow> (False, v1) | (Some w, v1) \<Rightarrow> (w = 1, v1))"

text \<open>The two 64-bit registers; both calls read the low word first.\<close>

definition clint_read64 :: "absent_key \<Rightarrow> u32 \<Rightarrow> u32 \<Rightarrow> 'x container \<Rightarrow> u64 \<times> 'x container" where
  "clint_read64 absent lo hi v =
     (case rd_bind (read_word absent lo) (\<lambda>l. rd_bind (read_word absent hi) (\<lambda>h.
             rd_return (push_bit 32 (ucast h AND 0xffffffff) OR (ucast l AND 0xffffffff)))) v of
        (None, v1) \<Rightarrow> (0, v1) | (Some x, v1) \<Rightarrow> (x, v1))"

definition clint_mtimecmp :: "absent_key \<Rightarrow> 'x container \<Rightarrow> u64 \<times> 'x container" where
  "clint_mtimecmp absent v = clint_read64 absent 0x02004000 0x02004004 v"

definition clint_mtime :: "absent_key \<Rightarrow> 'x container \<Rightarrow> u64 \<times> 'x container" where
  "clint_mtime absent v = clint_read64 absent 0x0200bff8 0x0200bffc v"

definition clint_write_enable :: "'x container \<Rightarrow> bool" where
  "clint_write_enable v = clint_we (m_top v)"

definition clint_view_mtip :: "'x container \<Rightarrow> bool" where
  "clint_view_mtip v = clint_mtip (m_top v)"

section \<open>Registers, CSRs, privilege and traps\<close>

definition reg_view_at :: "int \<Rightarrow> 'x container \<Rightarrow> u32 result" where
  "reg_view_at index v =
     (if index < 0 \<or> index \<ge> NUM_REGS then Inl (RangeErrorMsg ''Register index out of range'')
      else Inr (if index = 0 then 0 else rf_mem (core (m_top v)) (nat (index - 1))))"

definition reg_write_enable :: "'x container \<Rightarrow> bool" where
  "reg_write_enable v \<longleftrightarrow> wb_regfile_we (mem_wb_s (core (m_top v))) \<and> memwb_valid (mem_wb_s (core (m_top v)))"

definition csr_view_at :: "absent_key \<Rightarrow> csr_id \<Rightarrow> 'x container \<Rightarrow> u32 \<times> 'x container" where
  "csr_view_at absent csr v =
     (let (x, m) = assoc_at absent (ucast (of_csr_id csr)) (csr_mem (core (m_top v)))
      in (x, v\<lparr>m_top := (m_top v)\<lparr>core := (core (m_top v))\<lparr>csr_mem := m\<rparr>\<rparr>\<rparr>))"

definition csr_write_enable :: "'x container \<Rightarrow> bool" where
  "csr_write_enable v \<longleftrightarrow> mem_csr_we (ex_mem_s (core (m_top v))) \<and> exmem_valid (ex_mem_s (core (m_top v)))"

definition status_mstatus :: "absent_key \<Rightarrow> 'x container \<Rightarrow> u32 \<times> 'x container" where
  "status_mstatus absent v = csr_view_at absent CsrId_MSTATUS v"

definition status_privilege :: "'x container \<Rightarrow> priv_mode" where
  "status_privilege v = to_priv_mode (ucast (priv_mode_s (core (m_top v))))"

definition status_m_interr_enable :: "absent_key \<Rightarrow> 'x container \<Rightarrow> bool \<times> 'x container" where
  "status_m_interr_enable absent v =
     (let (s, v1) = status_mstatus absent v in (drop_bit 3 s AND 1 \<noteq> 0, v1))"

definition REG_A7_IDX :: int where "REG_A7_IDX = 17"

definition trap_cause :: "absent_key \<Rightarrow> 'x container \<Rightarrow> u32 \<times> 'x container" where
  "trap_cause absent v = csr_view_at absent CsrId_MCAUSE v"

definition trap_tvalue :: "absent_key \<Rightarrow> 'x container \<Rightarrow> u32 \<times> 'x container" where
  "trap_tvalue absent v = csr_view_at absent CsrId_MTVAL v"

definition trap_reg_a7 :: "'x container \<Rightarrow> u32 result" where
  "trap_reg_a7 v = reg_view_at REG_A7_IDX v"

definition trap_in_trap :: "'x container \<Rightarrow> bool" where
  "trap_in_trap v = trap_mode (core (m_top v))"

definition trap_requested :: "'x container \<Rightarrow> bool" where
  "trap_requested v = trap_req (core (m_top v))"

definition trap_view_mret :: "'x container \<Rightarrow> bool" where
  "trap_view_mret v = trap_mret (core (m_top v))"

section \<open>Forwarding\<close>

record fwd_view =
  fv_ex_rs1_addr :: u8
  fv_ex_rs2_addr :: u8
  fv_mem_rd_addr :: u8
  fv_wb_rd_addr :: u8
  fv_forward_a_src :: fwd_src
  fv_forward_b_src :: fwd_src
  fv_ex_rs1_fwd :: u32
  fv_ex_rs2_fwd :: u32

definition fwd_view_of :: "'x container \<Rightarrow> fwd_view" where
  "fwd_view_of v = (let c = core (m_top v) in
     \<lparr>fv_ex_rs1_addr = ex_rs1_addr (id_ex_s c), fv_ex_rs2_addr = ex_rs2_addr (id_ex_s c),
      fv_mem_rd_addr = mem_rd_addr (ex_mem_s c), fv_wb_rd_addr = wb_rd_addr (mem_wb_s c),
      fv_forward_a_src = to_fwd_src (ucast (forward_a c)), fv_forward_b_src = to_fwd_src (ucast (forward_b c)),
      fv_ex_rs1_fwd = ex_rs1_fwd c, fv_ex_rs2_fwd = ex_rs2_fwd c\<rparr>)"

end
