(* ===== verification/Pipeline_View.thy ===== *)
theory Pipeline_View
  imports Views
begin

text \<open>
  The snapshots of the four pipeline registers that \<open>PipelineRegsView\<close> takes
  (\<open>sim/include/views/pipeline_regs_view.hpp\<close>, \<open>sim/src/views/pipeline_regs_view.cpp\<close>): one
  record per stage, its operation and source fields cast to the enumerations.  A prefix per
  stage keeps the field names apart.
\<close>

record if_id_view =
  ifv_valid :: bool
  ifv_stall :: bool
  ifv_flush :: bool
  ifv_pc :: u32
  ifv_pc_4 :: u32
  ifv_inst :: u32

record id_ex_view =
  idv_valid :: bool
  idv_stall :: bool
  idv_flush :: bool
  idv_alu_op :: alu_op
  idv_alu_a_sel :: alu_a
  idv_alu_b_sel :: alu_b
  idv_bu_be :: bool
  idv_bu_op :: bu_op
  idv_regfile_we :: bool
  idv_rd_addr :: u8
  idv_rs1_addr :: u8
  idv_rs2_addr :: u8
  idv_lsu_ls_op :: lsu_ls
  idv_reg_wb_sel :: reg_wb
  idv_mu_op :: mu_op
  idv_csr_we :: bool
  idv_csr_data_sel :: csr_write
  idv_csr_addr :: csr_id
  idv_csr_op :: csr_op
  idv_csr_zimm :: u32
  idv_rs1 :: u32
  idv_rs2 :: u32
  idv_imm :: u32
  idv_pc :: u32
  idv_pc_4 :: u32
  idv_inst :: u32

record ex_mem_view =
  exv_valid :: bool
  exv_stall :: bool
  exv_flush :: bool
  exv_alu_out :: u32
  exv_mu_out :: u32
  exv_rs1 :: u32
  exv_rs2 :: u32
  exv_regfile_we :: bool
  exv_rd_addr :: u8
  exv_lsu_ls_op :: lsu_ls
  exv_reg_wb_sel :: reg_wb
  exv_csr_we :: bool
  exv_csr_data_sel :: csr_write
  exv_csr_addr :: csr_id
  exv_csr_op :: csr_op
  exv_csr_zimm :: u32
  exv_pc :: u32
  exv_pc_4 :: u32
  exv_inst :: u32

record mem_wb_view =
  mwv_valid :: bool
  mwv_stall :: bool
  mwv_flush :: bool
  mwv_lsu_rdata :: u32
  mwv_alu_out :: u32
  mwv_mu_out :: u32
  mwv_csr_rdata :: u32
  mwv_regfile_we :: bool
  mwv_rd_addr :: u8
  mwv_reg_wb_sel :: reg_wb
  mwv_pc :: u32
  mwv_pc_4 :: u32
  mwv_inst :: u32

section \<open>Taking a snapshot\<close>

definition view_if_id :: "'x container \<Rightarrow> if_id_view" where
  "view_if_id v = (let s = if_id_s (core (m_top v)) in
     \<lparr>ifv_valid = ifid_valid s,
      ifv_stall = ifid_stall s,
      ifv_flush = ifid_flush s,
      ifv_pc = id_pc s,
      ifv_pc_4 = id_pc_4 s,
      ifv_inst = id_inst s\<rparr>)"

definition view_id_ex :: "'x container \<Rightarrow> id_ex_view" where
  "view_id_ex v = (let s = id_ex_s (core (m_top v)) in
     \<lparr>idv_valid = idex_valid s,
      idv_stall = idex_stall s,
      idv_flush = idex_flush s,
      idv_alu_op = to_alu_op (ucast (ex_alu_op s)),
      idv_alu_a_sel = to_alu_a (ucast (ex_alu_a_sel s)),
      idv_alu_b_sel = to_alu_b (ucast (ex_alu_b_sel s)),
      idv_bu_be = ex_bu_be s,
      idv_bu_op = to_bu_op (ucast (ex_bu_op s)),
      idv_regfile_we = ex_regfile_we s,
      idv_rd_addr = ex_rd_addr s,
      idv_rs1_addr = ex_rs1_addr s,
      idv_rs2_addr = ex_rs2_addr s,
      idv_lsu_ls_op = to_lsu_ls (ucast (ex_lsu_ls_op s)),
      idv_reg_wb_sel = to_reg_wb (ucast (ex_reg_wb_sel s)),
      idv_mu_op = to_mu_op (ucast (ex_mu_op s)),
      idv_csr_we = ex_csr_we s,
      idv_csr_data_sel = to_csr_write (ucast (ex_csr_data_sel s)),
      idv_csr_addr = to_csr_id (ucast (ex_csr_addr s)),
      idv_csr_op = to_csr_op (ucast (ex_csr_op s)),
      idv_csr_zimm = ex_csr_zimm s,
      idv_rs1 = ex_rs1 s,
      idv_rs2 = ex_rs2 s,
      idv_imm = ex_imm s,
      idv_pc = ex_pc s,
      idv_pc_4 = ex_pc_4 s,
      idv_inst = ex_inst s\<rparr>)"

definition view_ex_mem :: "'x container \<Rightarrow> ex_mem_view" where
  "view_ex_mem v = (let s = ex_mem_s (core (m_top v)) in
     \<lparr>exv_valid = exmem_valid s,
      exv_stall = exmem_stall s,
      exv_flush = exmem_flush s,
      exv_alu_out = mem_alu_out s,
      exv_mu_out = mem_mu_out s,
      exv_rs1 = mem_rs1 s,
      exv_rs2 = mem_rs2 s,
      exv_regfile_we = mem_regfile_we s,
      exv_rd_addr = mem_rd_addr s,
      exv_lsu_ls_op = to_lsu_ls (ucast (mem_lsu_ls_op s)),
      exv_reg_wb_sel = to_reg_wb (ucast (mem_reg_wb_sel s)),
      exv_csr_we = mem_csr_we s,
      exv_csr_data_sel = to_csr_write (ucast (mem_csr_data_sel s)),
      exv_csr_addr = to_csr_id (ucast (mem_csr_addr s)),
      exv_csr_op = to_csr_op (ucast (mem_csr_op s)),
      exv_csr_zimm = mem_csr_zimm s,
      exv_pc = mem_pc s,
      exv_pc_4 = mem_pc_4 s,
      exv_inst = mem_inst s\<rparr>)"

definition view_mem_wb :: "'x container \<Rightarrow> mem_wb_view" where
  "view_mem_wb v = (let s = mem_wb_s (core (m_top v)) in
     \<lparr>mwv_valid = memwb_valid s,
      mwv_stall = memwb_stall s,
      mwv_flush = memwb_flush s,
      mwv_lsu_rdata = wb_lsu_rdata s,
      mwv_alu_out = wb_alu_out s,
      mwv_mu_out = wb_mu_out s,
      mwv_csr_rdata = wb_csr_rdata s,
      mwv_regfile_we = wb_regfile_we s,
      mwv_rd_addr = wb_rd_addr s,
      mwv_reg_wb_sel = to_reg_wb (ucast (wb_reg_wb_sel s)),
      mwv_pc = wb_pc s,
      mwv_pc_4 = wb_pc_4 s,
      mwv_inst = wb_inst s\<rparr>)"

lemmas stage_views = view_if_id_def view_id_ex_def view_ex_mem_def view_mem_wb_def

text \<open>What makes a cast reversible: every raw value has its own image.\<close>

lemmas cast_inj = alu_op.to_enum_inj alu_a.to_enum_inj alu_b.to_enum_inj bu_op.to_enum_inj
  lsu_ls.to_enum_inj reg_wb.to_enum_inj mu_op.to_enum_inj csr_write.to_enum_inj csr_id.to_enum_inj
  csr_op.to_enum_inj

lemma ucast_back: "ucast (ucast (a :: u8) :: u32) = a" "ucast (ucast (b :: u16) :: u32) = b"
  by (rule bit_word_eqI, simp add: bit_ucast_iff)+

lemma ucast_inj: "(ucast (a :: u8) :: u32) = ucast a' \<longleftrightarrow> a = a'" "(ucast (b :: u16) :: u32) = ucast b' \<longleftrightarrow> b = b'"
  by (metis ucast_back(1), metis ucast_back(2))

text \<open>
  Note: The pipeline windows lose nothing: two snapshots of a stage are equal exactly when the
  stage's registers are, for each of the four stages, so that every cast of a raw signal to an
  enumeration can be undone.
\<close>

theorem pipeline_views_faithful:
  "(view_if_id v = view_if_id w \<longleftrightarrow> if_id_s (core (m_top v)) = if_id_s (core (m_top w))) \<and>
   (view_id_ex v = view_id_ex w \<longleftrightarrow> id_ex_s (core (m_top v)) = id_ex_s (core (m_top w))) \<and>
   (view_ex_mem v = view_ex_mem w \<longleftrightarrow> ex_mem_s (core (m_top v)) = ex_mem_s (core (m_top w))) \<and>
   (view_mem_wb v = view_mem_wb w \<longleftrightarrow> mem_wb_s (core (m_top v)) = mem_wb_s (core (m_top w)))"
proof (intro conjI)
  show "view_if_id v = view_if_id w \<longleftrightarrow> if_id_s (core (m_top v)) = if_id_s (core (m_top w))"
    by (cases "if_id_s (core (m_top v))"; cases "if_id_s (core (m_top w))") (simp add: stage_views)
  show "view_id_ex v = view_id_ex w \<longleftrightarrow> id_ex_s (core (m_top v)) = id_ex_s (core (m_top w))"
    by (cases "id_ex_s (core (m_top v))"; cases "id_ex_s (core (m_top w))")
      (simp add: stage_views cast_inj ucast_inj)
  show "view_ex_mem v = view_ex_mem w \<longleftrightarrow> ex_mem_s (core (m_top v)) = ex_mem_s (core (m_top w))"
    by (cases "ex_mem_s (core (m_top v))"; cases "ex_mem_s (core (m_top w))")
      (simp add: stage_views cast_inj ucast_inj)
  show "view_mem_wb v = view_mem_wb w \<longleftrightarrow> mem_wb_s (core (m_top v)) = mem_wb_s (core (m_top w))"
    by (cases "mem_wb_s (core (m_top v))"; cases "mem_wb_s (core (m_top w))")
      (simp add: stage_views cast_inj ucast_inj)
qed

end
