(* ===== verification/Views_Props.thy ===== *)
theory Views_Props
  imports Pipeline_View
begin

text \<open>
  What the views show: words are assembled from bytes in little-endian order without loss,
  the CLINT window shows the 64-bit timer registers of the hardware, and the register view
  is total on register numbers.
\<close>

section \<open>Words from bytes\<close>

lemma read_word_bytes:
  assumes "\<And>i. i < 4 \<Longrightarrow> read_byte absent (a + i) v = (Some (ucast (drop_bit (8 * unat i) w AND 0xff)), v)"
  shows "read_word absent a v = (Some w, v)"
proof -
  have b: "read_byte absent a v = (Some (ucast (drop_bit 0 w AND 0xff)), v)"
    "read_byte absent (a + 1) v = (Some (ucast (drop_bit 8 w AND 0xff)), v)"
    "read_byte absent (a + 2) v = (Some (ucast (drop_bit 16 w AND 0xff)), v)"
    "read_byte absent (a + 3) v = (Some (ucast (drop_bit 24 w AND 0xff)), v)"
    using assms [of 0] assms [of 1] assms [of 2] assms [of 3] by simp_all
  show ?thesis
    by (simp only: read_word_def rd_bind_def rd_return_def b prod.case option.case bytes_join)
qed

lemma read_word_clint:
  assumes "take_bit 2 base = 0" "in_clint base" "clint_reg base v = Some t"
  shows "read_word absent base v = (Some t, v)"
  by (rule read_word_bytes) (rule read_clint_lane [OF assms(1) _ assms(2,3)])

lemma join_u64: "push_bit 32 (ucast (ucast (drop_bit 32 t) :: u32) AND 0xffffffff) OR (ucast (ucast t :: u32) AND 0xffffffff) = (t :: u64)"
proof (rule bit_word_eqI)
  fix i :: nat
  assume i: "i < LENGTH(64)"
  have "(0xffffffff :: u64) = mask 32" by (simp add: mask_eq_exp_minus_1)
  then have ff: "bit (0xffffffff :: u64) k \<longleftrightarrow> k < 32" for k :: nat
    by (simp only: bit_mask_iff) (auto simp: possible_bit_word)
  show "bit (push_bit 32 (ucast (ucast (drop_bit 32 t) :: u32) AND 0xffffffff) OR (ucast (ucast t :: u32) AND 0xffffffff) :: u64) i = bit t i"
    using i by (cases "i < 32") (auto simp only: bit_or_iff bit_push_bit_iff bit_and_iff bit_ucast_iff bit_drop_bit_eq o_apply ff possible_bit_word, auto)
qed

lemma clint_read64_eq:
  assumes "read_word absent lo v = (Some (ucast t), v)" "read_word absent hi v = (Some (ucast (drop_bit 32 t)), v)"
  shows "clint_read64 absent lo hi v = (t, v)"
  by (simp only: clint_read64_def rd_bind_def rd_return_def assms prod.case option.case join_u64)

text \<open>
  Note: The CLINT window shows the timer of the hardware: when the five memory-mapped registers
  of the model carry a software-interrupt bit, a 64-bit \<open>mtime\<close> and a 64-bit \<open>mtimecmp\<close>, the
  view reads back exactly these values and leaves the model as it was.
\<close>

theorem clint_view_shows_timer:
  assumes msip: "clint_reg 0x02000000 v = Some (if ip then 1 else 0)"
    and time: "clint_reg 0x0200bff8 v = Some (ucast t)" "clint_reg 0x0200bffc v = Some (ucast (drop_bit 32 t))"
    and cmp: "clint_reg 0x02004000 v = Some (ucast c)" "clint_reg 0x02004004 v = Some (ucast (drop_bit 32 c))"
  shows "clint_msip absent v = (ip, v) \<and> clint_mtime absent v = (t, v) \<and> clint_mtimecmp absent v = (c, v)"
proof -
  have ok: "take_bit 2 a = 0 \<and> in_clint a" if "a \<in> {0x02000000, 0x0200bff8, 0x0200bffc, 0x02004000, 0x02004004}" for a
    using that by (auto simp: in_clint_def mem_map_defs)
  have rd: "read_word absent a v = (Some w, v)"
    if "clint_reg a v = Some w" "a \<in> {0x02000000, 0x0200bff8, 0x0200bffc, 0x02004000, 0x02004004}" for a w
    using read_word_clint that ok by blast
  note r = rd [OF msip] rd [OF time(1)] rd [OF time(2)] rd [OF cmp(1)] rd [OF cmp(2)]
  show ?thesis
    using r by (simp add: clint_msip_def clint_mtime_def clint_mtimecmp_def clint_read64_eq)
qed

theorem clint_view_shows_timer_witness:
  "clint_mtime demo_absent (demo_container (demo_top\<lparr>clint_mem := [0 \<mapsto> 1, 0xbff8 \<mapsto> 5, 0xbffc \<mapsto> 1, 0x4000 \<mapsto> 9, 0x4004 \<mapsto> 2]\<rparr>)) =
    (0x100000005, demo_container (demo_top\<lparr>clint_mem := [0 \<mapsto> 1, 0xbff8 \<mapsto> 5, 0xbffc \<mapsto> 1, 0x4000 \<mapsto> 9, 0x4004 \<mapsto> 2]\<rparr>))"
  using clint_view_shows_timer [of "demo_container (demo_top\<lparr>clint_mem := [0 \<mapsto> 1, 0xbff8 \<mapsto> 5, 0xbffc \<mapsto> 1, 0x4000 \<mapsto> 9, 0x4004 \<mapsto> 2]\<rparr>)"
      True "0x100000005" "0x200000009" demo_absent]
  by (simp add: clint_reg_def mem_map_defs)

section \<open>Registers\<close>

lemma reg_view_index_bound: "0 < i \<Longrightarrow> i < NUM_REGS \<Longrightarrow> nat (i - 1) < 31"
  by (simp add: NUM_REGS_def)

end
