(* ===== verification/Panel.thy ===== *)
theory Panel
  imports Display_Format Views_Props
begin

text \<open>
  How the windows of the debugger draw.  ImGui is called in immediate mode: a \<open>render\<close> is a
  sequence of calls that put items on the screen, and its only inputs from the user are the
  answers of the calls that open something.  A drawing is therefore a function from the state it
  reads to the items it puts and the state after it; the state can change because reading an
  absent key of an associative array stores it, and a drawing can fail like any computation.
  The colours are those of \<open>sim/include/colors.hpp\<close>, \<open>draw_signal\<close> is that of
  \<open>sim/src/drawers/draw_utils.cpp\<close>.
\<close>

section \<open>Items\<close>

datatype panel_color = Col_OFF | Col_RED | Col_YELLOW | Col_GREEN

text \<open>
  One constructor per call that draws.  \<open>Circle c b\<close> is the filled circle of a signal, \<open>b\<close> telling
  whether it is centred in the available region or in the line; an interactive widget is named by its
  label, how it looks is ImGui's matter; \<open>Cell r c s\<close> is a character cell
  of the terminal, drawn without a glyph and in an indeterminate colour when \<open>s\<close> is absent.
\<close>

datatype panel_item =
    Text string
  | CollapsingHeader string
  | Circle panel_color bool
  | Dummy
  | SameLine
  | Separator
  | SeparatorText string
  | TableHeader "string list"
  | TableRow "string list"
  | Combo string
  | Slider string
  | Checkbox string
  | Button string
  | InputText string
  | ProgressBar string
  | Cell nat nat "symbol option"

type_synonym 's drawing = "'s \<Rightarrow> (panel_item list \<times> 's) result"

definition items :: "panel_item list \<Rightarrow> 's drawing" where
  "items xs s = Inr (xs, s)"

definition draw_seq :: "'s drawing \<Rightarrow> 's drawing \<Rightarrow> 's drawing" where
  "draw_seq d e s = res_bind (d s) (\<lambda>(xs, s1). res_bind (e s1) (\<lambda>(ys, s2). Inr (xs @ ys, s2)))"

fun draw_all :: "'s drawing list \<Rightarrow> 's drawing" where
  "draw_all [] = items []"
| "draw_all (d # ds) = draw_seq d (draw_all ds)"

text \<open>Read something, then draw it.\<close>

definition draw_read :: "('s \<Rightarrow> 'a \<times> 's) \<Rightarrow> ('a \<Rightarrow> 's drawing) \<Rightarrow> 's drawing" where
  "draw_read m f s = (let (x, s1) = m s in f x s1)"

definition draw_read_result :: "('s \<Rightarrow> 'a result) \<Rightarrow> ('a \<Rightarrow> 's drawing) \<Rightarrow> 's drawing" where
  "draw_read_result m f s = res_bind (m s) (\<lambda>x. f x s)"

text \<open>
  \<open>BeginChild\<close>, \<open>BeginTabItem\<close> and the like, \<open>CollapsingHeader\<close> and \<open>BeginTable\<close>: \<open>opened\<close> gives
  ImGui's answers.
\<close>

definition child :: "(string \<Rightarrow> bool) \<Rightarrow> string \<Rightarrow> 's drawing \<Rightarrow> 's drawing" where
  "child opened n d = (if opened n then d else items [])"

definition collapsing :: "(string \<Rightarrow> bool) \<Rightarrow> string \<Rightarrow> 's drawing \<Rightarrow> 's drawing" where
  "collapsing opened n d = draw_seq (items [CollapsingHeader n]) (if opened n then d else items [])"

definition draw_table :: "(string \<Rightarrow> bool) \<Rightarrow> string \<Rightarrow> string list \<Rightarrow> 's drawing list \<Rightarrow> 's drawing" where
  "draw_table opened n cols rows = (if opened n then draw_seq (items [TableHeader cols]) (draw_all rows) else items [])"

text \<open>A drawing over a part of the state.\<close>

definition on_first :: "'a drawing \<Rightarrow> ('a \<times> 'b) drawing" where
  "on_first d s = res_bind (d (fst s)) (\<lambda>(xs, a). Inr (xs, (a, snd s)))"

definition draw_signal :: "string \<Rightarrow> bool \<Rightarrow> panel_color \<Rightarrow> panel_color \<Rightarrow> bool \<Rightarrow> panel_item list" where
  "draw_signal label on on_color off_color use_avail_region =
     [Circle (if on then on_color else off_color) use_avail_region, Dummy, SameLine, Text label]"

section \<open>Drawings that succeed\<close>

named_theorems draw_simps

lemma draw_items [draw_simps]: "items xs s = Inr (ys, s') \<longleftrightarrow> ys = xs \<and> s' = s"
  by (auto simp: items_def)

lemma draw_seq_items [simp]: "draw_seq (items xs) (items ys) = items (xs @ ys)"
  by (simp add: draw_seq_def items_def fun_eq_iff)

lemma draw_all_items [simp]: "draw_all (map items xss) = items (concat xss)"
  by (induction xss) simp_all

lemma draw_seq_ok: "d s = Inr (xs, s1) \<Longrightarrow> e s1 = Inr (ys, s2) \<Longrightarrow> draw_seq d e s = Inr (xs @ ys, s2)"
  by (simp add: draw_seq_def)

text \<open>
  \<open>still d s\<close>: drawing \<open>d\<close> succeeds in state \<open>s\<close> and leaves it as it was.
\<close>

definition still :: "'s drawing \<Rightarrow> 's \<Rightarrow> bool" where
  "still d s \<longleftrightarrow> (\<exists>xs. d s = Inr (xs, s))"

lemma still_items [simp]: "still (items xs) s"
  by (simp add: still_def items_def)

lemma still_seq: "still d s \<Longrightarrow> still e s \<Longrightarrow> still (draw_seq d e) s"
  by (auto simp: still_def draw_seq_def)

lemma still_all: "list_all (\<lambda>d. still d s) ds \<Longrightarrow> still (draw_all ds) s"
  by (induction ds) (auto intro: still_seq)

lemma still_read: "m s = (x, s) \<Longrightarrow> still (f x) s \<Longrightarrow> still (draw_read m f) s"
  by (simp add: still_def draw_read_def)

lemma still_read_result: "m s = Inr x \<Longrightarrow> still (f x) s \<Longrightarrow> still (draw_read_result m f) s"
  by (simp add: still_def draw_read_result_def)

lemma still_child: "(opened n \<Longrightarrow> still d s) \<Longrightarrow> still (child opened n d) s"
  by (simp add: child_def)

lemma still_collapsing: "(opened n \<Longrightarrow> still d s) \<Longrightarrow> still (collapsing opened n d) s"
  by (simp add: collapsing_def still_seq)

lemma still_draw_table: "(\<And>d. d \<in> set rows \<Longrightarrow> still d s) \<Longrightarrow> still (draw_table opened n cols rows) s"
  by (auto simp: draw_table_def list_all_iff intro!: still_seq still_all)

lemmas still_intros = still_items still_child still_collapsing still_draw_table

text \<open>
  \<open>keeps R E d\<close>: from whatever state it starts, a drawing that succeeds leads to a related state,
  and one that fails does so with an error in \<open>E\<close>.
\<close>

definition keeps :: "('s \<Rightarrow> 's \<Rightarrow> bool) \<Rightarrow> (cpp_error \<Rightarrow> bool) \<Rightarrow> 's drawing \<Rightarrow> bool" where
  "keeps R E d \<longleftrightarrow> (\<forall>s. case d s of Inl e \<Rightarrow> E e | Inr (xs, s') \<Rightarrow> R s s')"

lemma keeps_weaken: "keeps R E d \<Longrightarrow> (\<And>e. E e \<Longrightarrow> E' e) \<Longrightarrow> keeps R E' d"
  unfolding keeps_def by (auto split: sum.splits)

text \<open>Drawings whose items depend on the state they start in.\<close>

lemma keeps_at:
  "(\<And>v. keeps R E (child opened n (D v))) \<Longrightarrow> keeps R E (\<lambda>v. child opened n (D v) v)"
  "(\<And>v. keeps R E (draw_all (Ds v))) \<Longrightarrow> keeps R E (\<lambda>v. draw_all (Ds v) v)"
  "(\<And>v. keeps R E (items (xs v))) \<Longrightarrow> keeps R E (\<lambda>v. items (xs v) v)"
  by (simp_all add: keeps_def)

locale frame_relation =
  fixes R :: "'s \<Rightarrow> 's \<Rightarrow> bool"
  assumes R_refl: "R s s"
    and R_trans: "R s t \<Longrightarrow> R t u \<Longrightarrow> R s u"
begin

lemma keeps_items: "keeps R E (items xs)"
  by (simp add: keeps_def items_def R_refl)

lemma keeps_seq:
  assumes "keeps R E d" "keeps R E e" shows "keeps R E (draw_seq d e)"
  unfolding keeps_def
proof
  fix s
  show "case draw_seq d e s of Inl err \<Rightarrow> E err | Inr (xs, s') \<Rightarrow> R s s'"
  proof (cases "d s")
    case (Inl err)
    then show ?thesis using assms(1) unfolding keeps_def by (auto simp: draw_seq_def dest: spec [of _ s])
  next
    case (Inr r)
    then have "R s (snd r)" using assms(1) unfolding keeps_def by (auto dest: spec [of _ s] split: prod.splits)
    moreover have "case e (snd r) of Inl err \<Rightarrow> E err | Inr (xs, s') \<Rightarrow> R (snd r) s'"
      using assms(2) unfolding keeps_def by blast
    ultimately show ?thesis using Inr R_trans [of s "snd r"]
      by (cases "e (snd r)") (auto simp: draw_seq_def split_beta)
  qed
qed

lemma keeps_all: "(\<And>d. d \<in> set ds \<Longrightarrow> keeps R E d) \<Longrightarrow> keeps R E (draw_all ds)"
  by (induction ds) (auto intro: keeps_items keeps_seq)

lemma keeps_read:
  assumes m: "\<And>s. R s (snd (m s))" and f: "\<And>x. keeps R E (f x)" shows "keeps R E (draw_read m f)"
  unfolding keeps_def
proof
  fix s
  have "case f (fst (m s)) (snd (m s)) of Inl e \<Rightarrow> E e | Inr (xs, s') \<Rightarrow> R (snd (m s)) s'"
    using f unfolding keeps_def by blast
  then show "case draw_read m f s of Inl e \<Rightarrow> E e | Inr (xs, s') \<Rightarrow> R s s'"
    using m [of s] R_trans by (auto simp: draw_read_def split_beta split: sum.splits)
qed

lemma keeps_read_result:
  "(\<And>s e. m s = Inl e \<Longrightarrow> E e) \<Longrightarrow> (\<And>x. keeps R E (f x)) \<Longrightarrow> keeps R E (draw_read_result m f)"
  unfolding keeps_def draw_read_result_def by (metis res_bind.simps sum.case sum.exhaust)

lemma keeps_child: "(opened n \<Longrightarrow> keeps R E d) \<Longrightarrow> keeps R E (child opened n d)"
  by (simp add: child_def keeps_items)

lemma keeps_collapsing: "(opened n \<Longrightarrow> keeps R E d) \<Longrightarrow> keeps R E (collapsing opened n d)"
  by (simp add: collapsing_def keeps_items keeps_seq)

lemma keeps_draw_table: "(\<And>d. d \<in> set rows \<Longrightarrow> keeps R E d) \<Longrightarrow> keeps R E (draw_table opened n cols rows)"
  by (auto simp: draw_table_def intro: keeps_items keeps_seq keeps_all)

lemmas keeps_intros = keeps_items keeps_seq keeps_read keeps_child keeps_collapsing keeps_draw_table keeps_all

end

end
