(* ===== verification/Panel_Pipeline.thy ===== *)
theory Panel_Pipeline
  imports Panel
begin

text \<open>
  The windows of the third tab of the sidebar: the pipeline registers
  (\<open>sim/src/drawers/pipeline_regs_drawer.cpp\<close>) and the forwarding unit
  (\<open>sim/src/drawers/fwd_drawer.cpp\<close>).  Both only print what their views hold.
\<close>

section \<open>Lines\<close>

text \<open>\<open>"0x%08x"\<close> and \<open>"0x%08x (%d)"\<close> of a word, and a name or \<open>"??? (%d)"\<close> where there is none.\<close>

definition hex_line :: "string \<Rightarrow> u32 \<Rightarrow> panel_item" where
  "hex_line pre w = Text (pre @ hex8 w)"

definition word_line :: "string \<Rightarrow> u32 \<Rightarrow> panel_item" where
  "word_line pre w = Text (pre @ hex8 w @ '' ('' @ dec_int (sint w) @ '')'')"

definition name_or_number :: "string \<Rightarrow> int \<Rightarrow> string" where
  "name_or_number name i = (if name \<noteq> [] then name else ''??? ('' @ dec_int i @ '')'')"

definition name_line :: "string \<Rightarrow> string \<Rightarrow> int \<Rightarrow> panel_item" where
  "name_line pre name i = Text (pre @ name_or_number name i)"

section \<open>Pipeline registers\<close>

definition draw_sig_vsf :: "bool \<Rightarrow> bool \<Rightarrow> bool \<Rightarrow> panel_item list" where
  "draw_sig_vsf valid stall flush =
     draw_signal ''Valid'' valid Col_GREEN Col_RED False @ [SameLine] @
     draw_signal ''Stall'' stall Col_YELLOW Col_OFF False @ [SameLine] @
     draw_signal ''Flush'' flush Col_RED Col_OFF False"

definition draw_if_id :: "if_id_view \<Rightarrow> panel_item list" where
  "draw_if_id ph =
     draw_sig_vsf (ifv_valid ph) (ifv_stall ph) (ifv_flush ph) @
     [hex_line ''PC          : '' (ifv_pc ph),
      hex_line ''PC+4        : '' (ifv_pc_4 ph),
      hex_line ''Instruction : '' (ifv_inst ph)]"

text \<open>The unknown branch unit operation is printed with another label than a known one.\<close>

definition bu_op_line :: "bu_op \<Rightarrow> panel_item" where
  "bu_op_line e =
     (if bu_op_name e \<noteq> [] then Text (''BU Op       : '' @ bu_op_name e)
      else Text (''Bu Op       : ??? ('' @ dec_int (sint (of_bu_op e)) @ '')''))"

definition draw_id_ex :: "id_ex_view \<Rightarrow> panel_item list" where
  "draw_id_ex ph =
     draw_sig_vsf (idv_valid ph) (idv_stall ph) (idv_flush ph) @
     [hex_line ''PC          : '' (idv_pc ph),
      hex_line ''PC+4        : '' (idv_pc_4 ph),
      hex_line ''Instruction : '' (idv_inst ph),
      Separator,
      name_line ''ALU Op      : '' (alu_op_name (idv_alu_op ph)) (sint (of_alu_op (idv_alu_op ph))),
      name_line ''ALU Port A  : '' (alu_a_name (idv_alu_a_sel ph)) (sint (of_alu_a (idv_alu_a_sel ph))),
      name_line ''ALU Port B  : '' (alu_b_name (idv_alu_b_sel ph)) (sint (of_alu_b (idv_alu_b_sel ph))),
      Separator] @
     draw_signal ''Branch Enable'' (idv_bu_be ph) Col_GREEN Col_OFF False @
     [bu_op_line (idv_bu_op ph),
      Separator,
      name_line ''MU Op       : '' (mu_op_name (idv_mu_op ph)) (sint (of_mu_op (idv_mu_op ph))),
      Separator] @
     draw_signal ''CSR Write Enable'' (idv_csr_we ph) Col_GREEN Col_OFF False @
     [name_line ''CSR         : '' (csr_name (idv_csr_addr ph)) (sint (of_csr_id (idv_csr_addr ph))),
      name_line ''CSR Op      : '' (csr_op_name (idv_csr_op ph)) (sint (of_csr_op (idv_csr_op ph))),
      name_line ''CSR Data    : '' (csr_write_name (idv_csr_data_sel ph)) (sint (of_csr_write (idv_csr_data_sel ph))),
      Separator,
      Text (''RS1 Address : '' @ reg_name (idv_rs1_addr ph)),
      word_line ''RS1         : '' (idv_rs1 ph),
      Text (''RS2 Address : '' @ reg_name (idv_rs2_addr ph)),
      word_line ''RS2         : '' (idv_rs2 ph),
      word_line ''Immediate   : '' (idv_imm ph),
      Separator,
      Text ''RD Address  :'',
      SameLine] @
     draw_signal (reg_name (idv_rd_addr ph)) (idv_regfile_we ph) Col_GREEN Col_OFF False @
     [name_line ''Register WB : '' (reg_wb_name (idv_reg_wb_sel ph)) (sint (of_reg_wb (idv_reg_wb_sel ph))),
      name_line ''LSU L/S Op  : '' (lsu_ls_op_name (idv_lsu_ls_op ph)) (sint (of_lsu_ls (idv_lsu_ls_op ph)))]"

definition draw_ex_mem :: "ex_mem_view \<Rightarrow> panel_item list" where
  "draw_ex_mem ph =
     draw_sig_vsf (exv_valid ph) (exv_stall ph) (exv_flush ph) @
     [hex_line ''PC          : '' (exv_pc ph),
      hex_line ''PC+4        : '' (exv_pc_4 ph),
      hex_line ''Instruction : '' (exv_inst ph),
      Separator,
      word_line ''ALU Out     : '' (exv_alu_out ph),
      word_line ''MU Out      : '' (exv_mu_out ph),
      word_line ''RS1         : '' (exv_rs1 ph),
      word_line ''RS2         : '' (exv_rs2 ph),
      Separator] @
     draw_signal ''CSR Write Enable'' (exv_csr_we ph) Col_GREEN Col_OFF False @
     [name_line ''CSR         : '' (csr_name (exv_csr_addr ph)) (sint (of_csr_id (exv_csr_addr ph))),
      name_line ''CSR Op      : '' (csr_op_name (exv_csr_op ph)) (sint (of_csr_op (exv_csr_op ph))),
      name_line ''CSR Data    : '' (csr_write_name (exv_csr_data_sel ph)) (sint (of_csr_write (exv_csr_data_sel ph))),
      Separator,
      Text ''RD Address  :'',
      SameLine] @
     draw_signal (reg_name (exv_rd_addr ph)) (exv_regfile_we ph) Col_GREEN Col_OFF False @
     [name_line ''Register WB : '' (reg_wb_name (exv_reg_wb_sel ph)) (sint (of_reg_wb (exv_reg_wb_sel ph))),
      name_line ''LSU L/S Op  : '' (lsu_ls_op_name (exv_lsu_ls_op ph)) (sint (of_lsu_ls (exv_lsu_ls_op ph)))]"

definition draw_mem_wb :: "mem_wb_view \<Rightarrow> panel_item list" where
  "draw_mem_wb ph =
     draw_sig_vsf (mwv_valid ph) (mwv_stall ph) (mwv_flush ph) @
     [hex_line ''PC          : '' (mwv_pc ph),
      hex_line ''PC+4        : '' (mwv_pc_4 ph),
      hex_line ''Instruction : '' (mwv_inst ph),
      Separator,
      word_line ''ALU Out     : '' (mwv_alu_out ph),
      word_line ''MU Out      : '' (mwv_mu_out ph),
      word_line ''LSU Read    : '' (mwv_lsu_rdata ph),
      word_line ''CSR Read    : '' (mwv_csr_rdata ph),
      Separator,
      Text ''RD Address  :'',
      SameLine] @
     draw_signal (reg_name (mwv_rd_addr ph)) (mwv_regfile_we ph) Col_GREEN Col_OFF False @
     [name_line ''Register WB : '' (reg_wb_name (mwv_reg_wb_sel ph)) (sint (of_reg_wb (mwv_reg_wb_sel ph)))]"

definition pipeline_regs_render :: "(string \<Rightarrow> bool) \<Rightarrow> 'x container drawing" where
  "pipeline_regs_render opened v =
     child opened ''pipeline_regs'' (collapsing opened ''Pipeline Registers'' (draw_all
       [collapsing opened ''IF/ID'' (items (draw_if_id (view_if_id v))),
        collapsing opened ''ID/EX'' (items (draw_id_ex (view_id_ex v))),
        collapsing opened ''EX/MEM'' (items (draw_ex_mem (view_ex_mem v))),
        collapsing opened ''MEM/WB'' (items (draw_mem_wb (view_mem_wb v)))])) v"

section \<open>Forwarding unit\<close>

definition fwd_signal :: "fwd_src \<Rightarrow> panel_item list" where
  "fwd_signal src =
     draw_signal (if pipe_fwd_src_name src \<noteq> [] then pipe_fwd_src_name src else ''???'') (src \<noteq> FwdSrc_NONE) Col_GREEN Col_OFF False"

definition reg_line :: "string \<Rightarrow> u8 \<Rightarrow> panel_item" where
  "reg_line pre r = name_line pre (reg_name r) (uint r)"

definition draw_fwd :: "fwd_view \<Rightarrow> panel_item list" where
  "draw_fwd f =
     [SeparatorText ''Forward Sources'',
      reg_line ''MEM RD Dest : '' (fv_mem_rd_addr f),
      reg_line ''WB RD Dest  : '' (fv_wb_rd_addr f),
      SeparatorText ''RS1'',
      reg_line ''RS1 Source  : '' (fv_ex_rs1_addr f),
      word_line ''RS1 Value   : '' (fv_ex_rs1_fwd f),
      Text ''Forward     :'',
      SameLine] @
     fwd_signal (fv_forward_a_src f) @
     [SeparatorText ''RS2'',
      reg_line ''RS2 Source  : '' (fv_ex_rs2_addr f),
      word_line ''RS2 Value   : '' (fv_ex_rs2_fwd f),
      Text ''Forward     :'',
      SameLine] @
     fwd_signal (fv_forward_b_src f)"

definition fwd_render :: "(string \<Rightarrow> bool) \<Rightarrow> 'x container drawing" where
  "fwd_render opened v =
     child opened ''fwd'' (collapsing opened ''Forwarding Unit'' (items (draw_fwd (fwd_view_of v)))) v"

end
