(* ===== verification/Panel_State.thy ===== *)
theory Panel_State
  imports Panel_Pipeline
begin

text \<open>
  The windows of the sidebar that show registers, CSRs, the privilege state, the trap state and
  the CLINT (\<open>reg_drawer.cpp\<close>, \<open>csr_drawer.cpp\<close>, \<open>status_drawer.cpp\<close>, \<open>trap_drawer.cpp\<close> and
  \<open>clint_drawer.cpp\<close> of \<open>sim/src/drawers\<close>).
\<close>

section \<open>Registers and CSRs\<close>

text \<open>A row of three cells: a name, \<open>"%11d"\<close> and \<open>"0x%08x"\<close>.\<close>

definition value_row :: "string \<Rightarrow> u32 \<Rightarrow> u32 \<Rightarrow> panel_item" where
  "value_row name dec hex = TableRow [name, pad_left 11 (dec_int (sint dec)), hex8 hex]"

definition reg_row :: "int \<Rightarrow> 'x container drawing" where
  "reg_row i =
     draw_read_result (reg_view_at i) (\<lambda>dec.
     draw_read_result (reg_view_at i) (\<lambda>hex.
       items [value_row (reg_name (of_int i)) dec hex]))"

definition reg_render :: "(string \<Rightarrow> bool) \<Rightarrow> 'x container drawing" where
  "reg_render opened v =
     child opened ''reg'' (collapsing opened ''Register View'' (draw_all
       [items (draw_signal ''Write Enable'' (reg_write_enable v) Col_GREEN Col_OFF False),
        draw_table opened ''table_reg'' [''Reg'', ''Dec'', ''Hex''] (map reg_row [0..NUM_REGS - 1])])) v"

definition csr_row :: "absent_key \<Rightarrow> csr_id \<Rightarrow> 'x container drawing" where
  "csr_row absent csr =
     draw_read (csr_view_at absent csr) (\<lambda>dec.
     draw_read (csr_view_at absent csr) (\<lambda>hex.
       items [value_row (if csr_name csr \<noteq> [] then csr_name csr else ''???'') dec hex]))"

definition csr_render :: "absent_key \<Rightarrow> (string \<Rightarrow> bool) \<Rightarrow> 'x container drawing" where
  "csr_render absent opened v =
     child opened ''csr'' (collapsing opened ''CSR View'' (draw_all
       [items (draw_signal ''Write Enable'' (csr_write_enable v) Col_GREEN Col_OFF False),
        items (draw_signal ''Trap Req'' (trap_requested v) Col_YELLOW Col_OFF False),
        draw_table opened ''table_csr'' [''CSR'', ''Dec'', ''Hex''] (map (csr_row absent) CSR_IDS)])) v"

section \<open>Privilege state\<close>

definition status_render :: "absent_key \<Rightarrow> (string \<Rightarrow> bool) \<Rightarrow> 'x container drawing" where
  "status_render absent opened =
     child opened ''status'' (collapsing opened ''Status''
       (draw_read (status_m_interr_enable absent) (\<lambda>mie v.
          items (draw_signal ''M-mode interrupt enable'' mie Col_GREEN Col_OFF False @
            [name_line ''Priv   : '' (priv_mode_name (status_privilege v)) (sint (of_priv_mode (status_privilege v)))]) v)))"

section \<open>Traps\<close>

definition TRAP_CAUSE_INST_ADDR_MISALIGNED :: u32 where "TRAP_CAUSE_INST_ADDR_MISALIGNED = 0"
definition TRAP_CAUSE_INST_ACCESS_FAULT :: u32 where "TRAP_CAUSE_INST_ACCESS_FAULT = 1"
definition TRAP_CAUSE_ILLEGAL_INST :: u32 where "TRAP_CAUSE_ILLEGAL_INST = 2"
definition TRAP_CAUSE_BREAKPOINT :: u32 where "TRAP_CAUSE_BREAKPOINT = 3"
definition TRAP_CAUSE_LOAD_ADDR_MISALIGNED :: u32 where "TRAP_CAUSE_LOAD_ADDR_MISALIGNED = 4"
definition TRAP_CAUSE_LOAD_ACCESS_FAULT :: u32 where "TRAP_CAUSE_LOAD_ACCESS_FAULT = 5"
definition TRAP_CAUSE_STORE_ADDR_MISALIGNED :: u32 where "TRAP_CAUSE_STORE_ADDR_MISALIGNED = 6"
definition TRAP_CAUSE_STORE_ACCESS_FAULT :: u32 where "TRAP_CAUSE_STORE_ACCESS_FAULT = 7"
definition TRAP_CAUSE_ECALL_U :: u32 where "TRAP_CAUSE_ECALL_U = 8"
definition TRAP_CAUSE_ECALL_M :: u32 where "TRAP_CAUSE_ECALL_M = 11"
definition TRAP_CAUSE_M_SOFTWARE_INTERRUPT :: u32 where "TRAP_CAUSE_M_SOFTWARE_INTERRUPT = 3 OR 0x80000000"
definition TRAP_CAUSE_M_TIMER_INTERRUPT :: u32 where "TRAP_CAUSE_M_TIMER_INTERRUPT = 7 OR 0x80000000"
definition TRAP_CAUSE_M_EXTERNAL_INTERRUPT :: u32 where "TRAP_CAUSE_M_EXTERNAL_INTERRUPT = 11 OR 0x80000000"

lemmas trap_cause_defs = TRAP_CAUSE_INST_ADDR_MISALIGNED_def TRAP_CAUSE_INST_ACCESS_FAULT_def
  TRAP_CAUSE_ILLEGAL_INST_def TRAP_CAUSE_BREAKPOINT_def TRAP_CAUSE_LOAD_ADDR_MISALIGNED_def
  TRAP_CAUSE_LOAD_ACCESS_FAULT_def TRAP_CAUSE_STORE_ADDR_MISALIGNED_def TRAP_CAUSE_STORE_ACCESS_FAULT_def
  TRAP_CAUSE_ECALL_U_def TRAP_CAUSE_ECALL_M_def TRAP_CAUSE_M_SOFTWARE_INTERRUPT_def
  TRAP_CAUSE_M_TIMER_INTERRUPT_def TRAP_CAUSE_M_EXTERNAL_INTERRUPT_def

text \<open>
  The \<open>switch\<close> chooses a message and a pointer to a description.  The pointer is null, or it is the
  \<open>c_str()\<close> of a string that \<open>fmt::format\<close> returned and that is destroyed at the end of the
  assignment: \<open>Freed s\<close>, where \<open>s\<close> is what the string held.
\<close>

datatype desc_ptr = Null_desc | Freed string

definition trap_message :: "u32 \<Rightarrow> u32 \<Rightarrow> u32 \<Rightarrow> string \<times> desc_ptr" where
  "trap_message cause val a7 =
     (let at_val = Freed (''-> '' @ hex8 val); at_a7 = Freed (''a7 = '' @ hex8 a7) in
      if cause = TRAP_CAUSE_INST_ADDR_MISALIGNED then (''Instruction address misaligned'', at_val)
      else if cause = TRAP_CAUSE_INST_ACCESS_FAULT then (''Instruction access fault'', at_val)
      else if cause = TRAP_CAUSE_ILLEGAL_INST then (''Illegal instruction'', at_val)
      else if cause = TRAP_CAUSE_BREAKPOINT then (''Breakpoint'', Null_desc)
      else if cause = TRAP_CAUSE_LOAD_ADDR_MISALIGNED then (''Load address misaligned'', at_val)
      else if cause = TRAP_CAUSE_LOAD_ACCESS_FAULT then (''Load access fault'', at_val)
      else if cause = TRAP_CAUSE_STORE_ADDR_MISALIGNED then (''Store address misaligned'', at_val)
      else if cause = TRAP_CAUSE_STORE_ACCESS_FAULT then (''Store access fault'', at_val)
      else if cause = TRAP_CAUSE_ECALL_U then (''U-mode environment call'', at_a7)
      else if cause = TRAP_CAUSE_ECALL_M then (''M-mode environment call'', at_a7)
      else if cause = TRAP_CAUSE_M_SOFTWARE_INTERRUPT then (''M-mode software interrupt'', Null_desc)
      else if cause = TRAP_CAUSE_M_TIMER_INTERRUPT then (''M-mode timer interrupt'', Null_desc)
      else if cause = TRAP_CAUSE_M_EXTERNAL_INTERRUPT then (''M-mode external interrupt'', Null_desc)
      else (''Unknown trap cause'', Null_desc))"

text \<open>Printing the description; reading the freed string is undefined behaviour.\<close>

definition draw_desc :: "desc_ptr \<Rightarrow> 's drawing" where
  "draw_desc d s = (case d of Null_desc \<Rightarrow> items [Text ''No description''] s | Freed _ \<Rightarrow> Inl OutOfBounds)"

definition draw_cause :: "u32 \<Rightarrow> u32 \<Rightarrow> bool \<Rightarrow> 'x container drawing" where
  "draw_cause cause val mret =
     draw_read_result trap_reg_a7 (\<lambda>a7.
       draw_all
         [items [if mret then Text (''In trap: '' @ dec_int (sint cause) @ '' (exiting)'') else Text (''In trap: '' @ dec_int (sint cause))],
          items [Text (''Cause  : '' @ fst (trap_message cause val a7))],
          draw_desc (snd (trap_message cause val a7))])"

definition trap_render :: "absent_key \<Rightarrow> (string \<Rightarrow> bool) \<Rightarrow> 'x container drawing" where
  "trap_render absent opened =
     child opened ''trap'' (collapsing opened ''Trap View''
       (draw_read (trap_cause absent) (\<lambda>cause.
        draw_read (trap_tvalue absent) (\<lambda>val v.
          let mode = trap_in_trap v; req = trap_requested v; mret = trap_view_mret v in
          draw_all
            [if req then items [Text ''Entering trap mode next tick'', Dummy]
             else if mode then draw_cause cause val mret
             else items [Text ''Not in trap'', Dummy],
             items ([Separator] @
               draw_signal ''Trap Mode'' mode Col_RED Col_OFF False @
               draw_signal ''Trap Req'' req Col_YELLOW Col_OFF False @
               draw_signal ''Trap Ret'' mret Col_GREEN Col_OFF False)] v))))"

section \<open>CLINT\<close>

text \<open>A helper of the window that prints a 64-bit value as a table row; nothing calls it.\<close>

definition make_row :: "string \<Rightarrow> u64 \<Rightarrow> bool \<Rightarrow> panel_item" where
  "make_row name value hex =
     TableRow [name, if hex then ''0x'' @ hex_digits 16 (unat value) else pad_left 20 (dec_int (sint value))]"

definition clint_render :: "absent_key \<Rightarrow> (string \<Rightarrow> bool) \<Rightarrow> 'x container drawing" where
  "clint_render absent opened v =
     child opened ''clint'' (collapsing opened ''CLINT View'' (draw_all
       [items (draw_signal ''Write Enable'' (clint_write_enable v) Col_GREEN Col_OFF False @
          draw_signal ''Timer Interrupt Pending'' (clint_view_mtip v) Col_YELLOW Col_OFF False @ [Separator]),
        draw_read (clint_msip absent) (\<lambda>ip. items (draw_signal ''msip'' ip Col_YELLOW Col_OFF False)),
        draw_read (clint_mtime absent) (\<lambda>t. items [Text (''mtime       : '' @ pad_left 20 (dec_nat (unat t)))]),
        draw_read (clint_mtimecmp absent) (\<lambda>t. items [Text (''mtimecmp    : '' @ pad_left 20 (dec_nat (unat t)))])])) v"

end
