(* ===== verification/Mem_Drawer.thy ===== *)
theory Mem_Drawer
  imports Panel_State
begin

text \<open>
  The memory inspector (\<open>sim/src/drawers/mem_drawer.cpp\<close>): the window that shows 256 bytes of the
  program or the data memory.  Its controls select the memory, the width of a cell and the offset;
  every cell of the table is read through the memory view.
\<close>

section \<open>Controls\<close>

record mem_drawer =
  md_sec_curr :: int
  md_offset :: int
  md_disp_w :: int

definition DISPLAY_WINDOW_W :: int where "DISPLAY_WINDOW_W = 8"

definition DISPLAY_WINDOW_H :: int where "DISPLAY_WINDOW_H = 32"

definition mem_drawer_new :: mem_drawer where
  "mem_drawer_new = \<lparr>md_sec_curr = 0, md_offset = 0, md_disp_w = 0\<rparr>"

text \<open>The source of the displayed memory: its start and the largest window offset.\<close>

definition mem_src_start :: "int \<Rightarrow> u32" where
  "mem_src_start sec = (if sec = 0 then IMEM_MEM_START else DATA_MEM_START)"

definition offset_max :: "int \<Rightarrow> int" where
  "offset_max sec = (if sec = 0 then uint IMEM_MEM_SIZE else uint DATA_MEM_SIZE) - DISPLAY_WINDOW_W * DISPLAY_WINDOW_H"

definition disp_w :: "int \<Rightarrow> int" where
  "disp_w w = (if w = 1 then 2 else if w = 2 then 4 else 1)"

text \<open>
  The controls of the window.  \<open>sec\<close>, \<open>w\<close> and \<open>slider\<close> are the selections of the two combo
  boxes and what the slider leaves, if it was moved.
\<close>

definition mem_drawer_controls :: "int \<Rightarrow> int \<Rightarrow> int option \<Rightarrow> mem_drawer \<Rightarrow> mem_drawer" where
  "mem_drawer_controls sec w slider d =
     (let d1 = d\<lparr>md_sec_curr := sec\<rparr>;
          mx = offset_max sec;
          d2 = d1\<lparr>md_offset := (if md_offset d1 > mx then mx else md_offset d1)\<rparr>;
          d3 = d2\<lparr>md_disp_w := w\<rparr>
      in case slider of
           None \<Rightarrow> d3
         | Some x \<Rightarrow> d3\<lparr>md_offset := min mx (max 0 x) div DISPLAY_WINDOW_W * DISPLAY_WINDOW_W\<rparr>)"

definition mem_cell_addr :: "mem_drawer \<Rightarrow> int \<Rightarrow> int \<Rightarrow> u32" where
  "mem_cell_addr d r c = mem_src_start (md_sec_curr d) + of_int (md_offset d + r * DISPLAY_WINDOW_W + c)"

text \<open>The table: for every row and column the value shown, read with the selected width.\<close>

definition mem_cell :: "absent_key \<Rightarrow> mem_drawer \<Rightarrow> 'x container \<Rightarrow> int \<Rightarrow> int \<Rightarrow> u32 option" where
  "mem_cell absent d v r c =
     (let addr = mem_cell_addr d r c in
      if md_disp_w d = 1 then map_option ucast (fst (read_half absent addr v))
      else if md_disp_w d = 2 then fst (read_word absent addr v)
      else map_option ucast (fst (read_byte absent addr v)))"

section \<open>Drawing\<close>

text \<open>The text of one cell; nothing is printed where the read reports failure.\<close>

definition ascii_text :: "u8 \<Rightarrow> string" where
  "ascii_text val8 = (if 0 < uint val8 \<and> uint val8 < 0x10000 then [char_of (unat val8)] else ''.'')"

definition cell_text :: "('a \<Rightarrow> string) \<Rightarrow> 'a option \<Rightarrow> string" where
  "cell_text f r = (case r of None \<Rightarrow> [] | Some x \<Rightarrow> f x)"

definition mem_cell_text :: "absent_key \<Rightarrow> mem_drawer \<Rightarrow> int \<Rightarrow> int \<Rightarrow> 'x container \<Rightarrow> string \<times> 'x container" where
  "mem_cell_text absent d r c v =
     (let addr = mem_cell_addr d r c in
      if md_disp_w d = 1 then (let (x, v1) = read_half absent addr v in (cell_text (\<lambda>w. hex_digits 4 (unat w)) x, v1))
      else if md_disp_w d = 2 then (let (x, v1) = read_word absent addr v in (cell_text (\<lambda>w. hex_digits 8 (unat w)) x, v1))
      else if md_disp_w d = 3 then (let (x, v1) = read_byte absent addr v in (cell_text ascii_text x, v1))
      else (let (x, v1) = read_byte absent addr v in (cell_text (\<lambda>w. hex_digits 2 (unat w)) x, v1)))"

fun mem_row_texts :: "absent_key \<Rightarrow> mem_drawer \<Rightarrow> int \<Rightarrow> int list \<Rightarrow> 'x container \<Rightarrow> string list \<times> 'x container" where
  "mem_row_texts absent d r [] v = ([], v)"
| "mem_row_texts absent d r (c # cs) v =
     (let (x, v1) = mem_cell_text absent d r c v; (xs, v2) = mem_row_texts absent d r cs v1 in (x # xs, v2))"

text \<open>The values of the column counter: from 0 in steps of the width.\<close>

definition mem_columns :: "mem_drawer \<Rightarrow> int list" where
  "mem_columns d = map (\<lambda>k. k * disp_w (md_disp_w d)) [0..DISPLAY_WINDOW_W div disp_w (md_disp_w d) - 1]"

definition mem_row :: "absent_key \<Rightarrow> mem_drawer \<Rightarrow> int \<Rightarrow> 'x container drawing" where
  "mem_row absent d r =
     draw_read (mem_row_texts absent d r (mem_columns d)) (\<lambda>cells.
       items [TableRow (hex8 (mem_cell_addr d r 0) # cells)])"

definition mem_src_end :: "int \<Rightarrow> u32" where
  "mem_src_end sec = (if sec = 0 then IMEM_MEM_END else DATA_MEM_END)"

definition mem_src_size :: "int \<Rightarrow> u32" where
  "mem_src_size sec = (if sec = 0 then IMEM_MEM_SIZE else DATA_MEM_SIZE)"

text \<open>
  What the user does to the widgets of a panel in a frame: ImGui's answers to what opens, the
  values the combo boxes and the slider are left with.  A combo box only stores an index of one of its entries.
\<close>

record panel_ui =
  pu_open :: "string \<Rightarrow> bool"
  pu_source :: "int \<Rightarrow> int"
  pu_width :: "int \<Rightarrow> int"
  pu_offset :: "int option"

definition combo :: "int \<Rightarrow> (int \<Rightarrow> int) \<Rightarrow> int \<Rightarrow> int" where
  "combo n f i = (if 0 \<le> f i \<and> f i < n then f i else i)"

definition mem_drawer_input :: "panel_ui \<Rightarrow> mem_drawer \<Rightarrow> mem_drawer" where
  "mem_drawer_input ui d =
     mem_drawer_controls (combo 2 (pu_source ui) (md_sec_curr d)) (combo 4 (pu_width ui) (md_disp_w d)) (pu_offset ui) d"

definition mem_drawer_items :: "absent_key \<Rightarrow> panel_ui \<Rightarrow> mem_drawer \<Rightarrow> 'x container drawing" where
  "mem_drawer_items absent ui d v =
     draw_all
       [items (draw_signal ''Write Enable'' (mem_write_enable v) Col_GREEN Col_OFF False @
          [Separator,
           Combo ''Source'',
           Text (''Size     : '' @ dec_int (uint (mem_src_size (md_sec_curr d))) @ '' B''),
           Text (''Address  : '' @ hex_digits 8 (unat (mem_src_start (md_sec_curr d))) @ '':'' @
                 hex_digits 8 (unat (mem_src_end (md_sec_curr d)))),
           Combo ''Width'',
           Slider ''Offset'']),
        draw_table (pu_open ui) ''table_mem'' (''ADDR'' # map (\<lambda>c. hex_digits 2 (nat c)) (mem_columns d))
          (map (mem_row absent d) [0..DISPLAY_WINDOW_H - 1])] v"

text \<open>The whole \<open>render\<close>; the controls act only while the section is open.\<close>

definition mem_render :: "absent_key \<Rightarrow> panel_ui \<Rightarrow> ('x container \<times> mem_drawer) drawing" where
  "mem_render absent ui =
     child (pu_open ui) ''mem'' (collapsing (pu_open ui) ''Memory Inspector''
       (\<lambda>(v, d). on_first (mem_drawer_items absent ui (mem_drawer_input ui d)) (v, mem_drawer_input ui d)))"

text \<open>
  The test for a printable character only excludes zero: a byte is below \<open>0x10000\<close> in any case, so
  control characters are printed as they are.
\<close>

lemma ascii_text_raw: "ascii_text b = (if b = 0 then ''.'' else [char_of (unat b)])"
proof -
  have "0 < uint b \<longleftrightarrow> b \<noteq> 0" using uint_0_iff [of b] uint_ge_0 [of b] by linarith
  moreover have "uint b < 0x10000" using uint_lt2p [of b] by simp
  ultimately show ?thesis by (auto simp: ascii_text_def)
qed

section \<open>The window stays inside the memory\<close>

inductive mem_drawer_reach :: "mem_drawer \<Rightarrow> bool" where
  new: "mem_drawer_reach mem_drawer_new"
| controls: "mem_drawer_reach d \<Longrightarrow> sec \<in> {0, 1} \<Longrightarrow> w \<in> {0, 1, 2, 3} \<Longrightarrow> mem_drawer_reach (mem_drawer_controls sec w slider d)"

lemma offset_max_eq: "offset_max sec = (if sec = 0 then 7936 else 65280)"
  by (simp add: offset_max_def mem_map_defs DISPLAY_WINDOW_W_def DISPLAY_WINDOW_H_def)

lemma mem_drawer_reach_inv:
  "mem_drawer_reach d \<Longrightarrow> md_sec_curr d \<in> {0, 1} \<and> md_disp_w d \<in> {0, 1, 2, 3} \<and> 0 \<le> md_offset d \<and>
     md_offset d \<le> offset_max (md_sec_curr d) \<and> md_offset d mod 8 = 0"
proof (induction rule: mem_drawer_reach.induct)
  case new
  then show ?case by (simp add: mem_drawer_new_def offset_max_eq)
next
  case (controls d sec w slider)
  have d8: "x div 8 * 8 \<le> x" "0 \<le> x \<Longrightarrow> 0 \<le> x div 8 * 8" for x :: int by presburger+
  show ?case
  proof (cases slider)
    case None
    then show ?thesis using controls by (auto simp: mem_drawer_controls_def Let_def offset_max_eq)
  next
    case (Some x)
    let ?x = "min (offset_max sec) (max 0 x)"
    have "0 \<le> ?x" by (simp add: offset_max_eq)
    then have "0 \<le> ?x div 8 * 8" "?x div 8 * 8 \<le> offset_max sec" using d8 [of ?x] by auto
    then show ?thesis using controls(2,3) by (simp add: mem_drawer_controls_def Let_def Some DISPLAY_WINDOW_W_def)
  qed
qed

lemma mem_window_addr:
  assumes d: "md_sec_curr d \<in> {0, 1}" "0 \<le> md_offset d" "md_offset d \<le> offset_max (md_sec_curr d)"
    and i: "0 \<le> i" "i < 256" and a: "a = mem_src_start (md_sec_curr d) + of_int (md_offset d + i)"
  shows "in_imem a \<or> in_dmem a"
proof -
  let ?k = "nat (md_offset d + i)"
  have k: "md_offset d + i = int ?k" using d(2) i by simp
  have a': "a = mem_src_start (md_sec_curr d) + of_nat ?k"
    unfolding a by (subst k) (simp only: of_int_of_nat_eq)
  have lim: "?k < (if md_sec_curr d = 0 then 8192 else 65536)" using d i by (auto simp: offset_max_eq split: if_splits)
  have "unat (mem_src_start (md_sec_curr d)) + ?k < 2 ^ 32" using lim d(1) by (auto simp: mem_src_start_def mem_map_defs split: if_splits)
  then have "unat a = unat (mem_src_start (md_sec_curr d)) + ?k"
    using u32_shift_unat [of "mem_src_start (md_sec_curr d)" ?k] by (simp add: a')
  then show ?thesis using lim d(1)
    by (auto simp: mem_src_start_def in_imem_def in_dmem_def mem_map_defs word_le_nat_alt split: if_splits)
qed

lemma window_reads:
  assumes reach: "mem_drawer_reach d" and r: "0 \<le> r" "r < 32" and c: "0 \<le> c" "c < 8" "c mod disp_w (md_disp_w d) = 0"
    and j: "0 \<le> j" "j < disp_w (md_disp_w d)"
  shows "\<exists>x. read_byte absent (mem_cell_addr d r c + of_int j) v = (Some x, v)"
proof -
  note inv = mem_drawer_reach_inv [OF reach]
  have "in_imem (mem_cell_addr d r c + of_int j) \<or> in_dmem (mem_cell_addr d r c + of_int j)"
  proof (rule mem_window_addr [of d "r * 8 + c + j"])
    have "c + j < 8" using j c inv by (auto simp: disp_w_def split: if_splits)
    then show "0 \<le> r * 8 + c + j" "r * 8 + c + j < 256" using r c j by auto
  qed (use inv in \<open>auto simp: mem_cell_addr_def DISPLAY_WINDOW_W_def\<close>)
  then show ?thesis using read_byte_regions [of "mem_cell_addr d r c + of_int j" absent v] by blast
qed

text \<open>A cell of a reachable window, with the bytes it is made of.\<close>

lemma window_cell:
  assumes reach: "mem_drawer_reach d" and r: "0 \<le> r" "r < 32" and c: "0 \<le> c" "c < 8" "c mod disp_w (md_disp_w d) = 0"
  shows "mem_cell absent d v r c \<noteq> None \<and> snd (mem_cell_text absent d r c v) = v"
proof -
  let ?a = "mem_cell_addr d r c"
  note rd = window_reads [OF reach r c, of _ absent v]
  have "0 < disp_w (md_disp_w d)" by (simp add: disp_w_def)
  then obtain x0 where x0: "read_byte absent ?a v = (Some x0, v)" using rd [of 0] by auto
  consider "md_disp_w d = 1" | "md_disp_w d = 2" | "md_disp_w d \<noteq> 1" "md_disp_w d \<noteq> 2" by blast
  then show ?thesis
  proof cases
    case 1
    then obtain x1 where "read_byte absent (?a + 1) v = (Some x1, v)" using rd [of 1] by (auto simp: disp_w_def)
    then show ?thesis using 1 x0 by (simp add: mem_cell_def mem_cell_text_def Let_def read_half_def)
  next
    case 2
    then obtain x1 x2 x3 where "read_byte absent (?a + 1) v = (Some x1, v)" "read_byte absent (?a + 2) v = (Some x2, v)"
      "read_byte absent (?a + 3) v = (Some x3, v)"
      using rd [of 1] rd [of 2] rd [of 3] by (auto simp: disp_w_def)
    then show ?thesis using 2 x0 by (simp add: mem_cell_def mem_cell_text_def Let_def read_word_def)
  next
    case 3
    then show ?thesis using x0 by (simp add: mem_cell_def mem_cell_text_def Let_def)
  qed
qed

text \<open>
  Note: The memory inspector never shows a hole: in every state its controls can reach, every
  cell of its 32 by 8 byte window, read as bytes, halfwords or words, lies inside the selected
  memory, and its first address is a multiple of 8 above the start of that memory.
\<close>

theorem memory_window_always_readable:
  assumes reach: "mem_drawer_reach d" and r: "0 \<le> r" "r < 32" and c: "0 \<le> c" "c < 8" "c mod disp_w (md_disp_w d) = 0"
  shows "mem_cell absent d v r c \<noteq> None \<and> md_offset d mod 8 = 0"
  using window_cell [OF reach r c] mem_drawer_reach_inv [OF reach] by blast

theorem memory_window_always_readable_witness:
  "mem_cell demo_absent (mem_drawer_controls 1 2 (Some 70001) mem_drawer_new) (demo_container demo_top) 31 4 \<noteq> None"
proof -
  have "mem_drawer_reach (mem_drawer_controls 1 2 (Some 70001) mem_drawer_new)"
    by (rule mem_drawer_reach.controls [OF mem_drawer_reach.new]) simp_all
  moreover have "md_disp_w (mem_drawer_controls 1 2 (Some 70001) mem_drawer_new) = 2"
    by (simp add: mem_drawer_controls_def mem_drawer_new_def Let_def)
  ultimately show ?thesis
    using memory_window_always_readable [of "mem_drawer_controls 1 2 (Some 70001) mem_drawer_new" 31 4 demo_absent "demo_container demo_top"]
    by (simp add: disp_w_def)
qed

end
