(* ===== verification/Sidebar.thy ===== *)
theory Sidebar
  imports Mem_Drawer
begin

text \<open>
  The sidebar (\<open>sim/src/drawers/sidebar.cpp\<close>): eight drawers behind three tabs.  Only the memory
  inspector has a state of its own, the others are objects without members.  The lemmas show what
  drawing can do to the hardware model: nothing but store the default for absent keys of the
  two associative arrays.
\<close>

section \<open>Drawing\<close>

record sidebar =
  sb_mem_drawer :: mem_drawer

definition sidebar_new :: sidebar where
  "sidebar_new = \<lparr>sb_mem_drawer = mem_drawer_new\<rparr>"

definition draw_memory_inspector :: "absent_key \<Rightarrow> panel_ui \<Rightarrow> ('x container \<times> sidebar) drawing" where
  "draw_memory_inspector absent ui s =
     res_bind (mem_render absent ui (fst s, sb_mem_drawer (snd s))) (\<lambda>(xs, (v, d)).
       Inr (xs, (v, (snd s)\<lparr>sb_mem_drawer := d\<rparr>)))"

definition sidebar_render :: "absent_key \<Rightarrow> panel_ui \<Rightarrow> ('x container \<times> sidebar) drawing" where
  "sidebar_render absent ui =
     (let opened = pu_open ui in
      child opened ''Sidebar'' (child opened ''sidebar_tabs'' (draw_all
       [child opened ''Memory'' (draw_all
          [on_first (reg_render opened),
           on_first (csr_render absent opened),
           draw_memory_inspector absent ui]),
        child opened ''Privilege'' (draw_all
          [on_first (status_render absent opened),
           on_first (trap_render absent opened),
           on_first (csr_render absent opened),
           on_first (clint_render absent opened)]),
        child opened ''Pipelining'' (draw_all
          [on_first (fwd_render opened),
           on_first (pipeline_regs_render opened)])])))"

section \<open>What drawing does to the container\<close>

definition only_arrays :: "'x container \<Rightarrow> 'x container \<Rightarrow> bool" where
  "only_arrays v w \<longleftrightarrow> (\<exists>cl cs. w = v\<lparr>m_top := (m_top v)\<lparr>clint_mem := cl, core := (core (m_top v))\<lparr>csr_mem := cs\<rparr>\<rparr>\<rparr>)"

interpretation arrays: frame_relation only_arrays
proof
  fix s t u :: "'x container"
  show "only_arrays s s" unfolding only_arrays_def
    by (rule exI [of _ "clint_mem (m_top s)"], rule exI [of _ "csr_mem (core (m_top s))"]) simp
  show "only_arrays s t \<Longrightarrow> only_arrays t u \<Longrightarrow> only_arrays s u"
    unfolding only_arrays_def by (elim exE) (simp, intro exI, rule refl)
qed

lemma only_arrays_csr: "only_arrays v (v\<lparr>m_top := (m_top v)\<lparr>core := (core (m_top v))\<lparr>csr_mem := m\<rparr>\<rparr>\<rparr>)"
  unfolding only_arrays_def by (rule exI [of _ "clint_mem (m_top v)"], rule exI [of _ m]) simp

lemma only_arrays_clint: "only_arrays v (v\<lparr>m_top := (m_top v)\<lparr>clint_mem := m\<rparr>\<rparr>)"
  unfolding only_arrays_def by (rule exI [of _ m], rule exI [of _ "csr_mem (core (m_top v))"]) simp

lemma only_arrays_csr_view: "only_arrays v (snd (csr_view_at absent csr v))"
  by (simp add: csr_view_at_def split_beta only_arrays_csr)

lemma only_arrays_read_byte: "only_arrays v (snd (read_byte absent a v))"
  by (simp add: read_byte_def Let_def split_beta only_arrays_clint arrays.R_refl)

lemma only_arrays_bind:
  "(\<And>v. only_arrays v (snd (m v))) \<Longrightarrow> (\<And>x v. only_arrays v (snd (f x v))) \<Longrightarrow> only_arrays v (snd (rd_bind m f v))"
  unfolding rd_bind_def by (auto split: prod.splits option.splits) (metis arrays.R_trans snd_conv)+

lemma only_arrays_return: "only_arrays v (snd (rd_return x v))"
  by (simp add: rd_return_def arrays.R_refl)

lemma only_arrays_read_half: "only_arrays v (snd (read_half absent a v))"
  unfolding read_half_def by (intro only_arrays_bind only_arrays_return only_arrays_read_byte)

lemma only_arrays_read_word: "only_arrays v (snd (read_word absent a v))"
  unfolding read_word_def by (intro only_arrays_bind only_arrays_return only_arrays_read_byte)

lemma only_arrays_read64: "only_arrays v (snd (clint_read64 absent lo hi v))"
proof -
  let ?m = "rd_bind (read_word absent lo) (\<lambda>l. rd_bind (read_word absent hi) (\<lambda>h.
             rd_return (push_bit 32 (ucast h AND 0xffffffff) OR (ucast l AND (0xffffffff :: u64)))))"
  have "only_arrays v (snd (?m v))" by (intro only_arrays_bind only_arrays_return only_arrays_read_word)
  then show ?thesis unfolding clint_read64_def by (auto split: prod.splits option.splits)
qed

lemma only_arrays_views:
  "only_arrays v (snd (clint_mtime absent v))" "only_arrays v (snd (clint_mtimecmp absent v))"
  "only_arrays v (snd (clint_msip absent v))" "only_arrays v (snd (trap_cause absent v))"
  "only_arrays v (snd (trap_tvalue absent v))" "only_arrays v (snd (status_m_interr_enable absent v))"
  using only_arrays_read64 only_arrays_read_word [of v absent "0x02000000"] only_arrays_csr_view
  by (auto simp: clint_mtime_def clint_mtimecmp_def clint_msip_def trap_cause_def trap_tvalue_def
      status_m_interr_enable_def status_mstatus_def split_beta split: prod.splits option.splits)

lemma only_arrays_cell: "only_arrays v (snd (mem_cell_text absent d r c v))"
  using only_arrays_read_byte [of v absent "mem_cell_addr d r c"] only_arrays_read_half [of v absent "mem_cell_addr d r c"]
    only_arrays_read_word [of v absent "mem_cell_addr d r c"]
  by (simp add: mem_cell_text_def Let_def split_beta)

lemma only_arrays_row: "only_arrays v (snd (mem_row_texts absent d r cs v))"
  by (induction cs arbitrary: v) (auto simp: split_beta Let_def arrays.R_refl intro: arrays.R_trans only_arrays_cell)

lemmas array_views = only_arrays_csr_view only_arrays_views only_arrays_row

text \<open>No panel but that of the traps can fail.\<close>

definition no_error :: "cpp_error \<Rightarrow> bool" where "no_error e = False"

text \<open>No panel but that of the traps can fail.\<close>

lemma reg_view_error: "0 \<le> i \<Longrightarrow> i < NUM_REGS \<Longrightarrow> reg_view_at i v = Inl e \<Longrightarrow> E"
  by (simp add: reg_view_at_def split: if_splits)

lemma keeps_reg_row: "0 \<le> i \<Longrightarrow> i < NUM_REGS \<Longrightarrow> keeps only_arrays E (reg_row i)"
  unfolding reg_row_def by (intro arrays.keeps_read_result arrays.keeps_items) (erule (2) reg_view_error)+

lemma keeps_value_rows:
  "keeps only_arrays E (csr_row absent csr)" "keeps only_arrays E (mem_row absent d r)"
  unfolding csr_row_def mem_row_def by (intro arrays.keeps_intros array_views)+

lemma keeps_reg: "keeps only_arrays E (reg_render opened)"
  unfolding reg_render_def [abs_def]
  by (rule keeps_at) (auto intro!: arrays.keeps_intros keeps_reg_row simp del: draw_seq_items draw_all.simps)

lemma keeps_panels:
  "keeps only_arrays E (csr_render absent opened)"
  "keeps only_arrays E (clint_render absent opened)" "keeps only_arrays E (fwd_render opened)"
  "keeps only_arrays E (pipeline_regs_render opened)"  "keeps only_arrays E (mem_drawer_items absent ui d)"
  unfolding csr_render_def [abs_def] clint_render_def [abs_def] fwd_render_def [abs_def]
    pipeline_regs_render_def [abs_def] mem_drawer_items_def [abs_def]
  by (rule keeps_at, auto intro!: arrays.keeps_intros array_views keeps_value_rows simp del: draw_seq_items draw_all.simps)+

lemma keeps_status: "keeps only_arrays E (status_render absent opened)"
  unfolding status_render_def
  by (intro arrays.keeps_intros array_views) (rule keeps_at, rule arrays.keeps_items)

lemma keeps_desc: "keeps only_arrays (\<lambda>e. e = OutOfBounds) (draw_desc p)"
  by (cases p) (auto simp: draw_desc_def keeps_def items_def arrays.R_refl)

lemma keeps_cause: "keeps only_arrays (\<lambda>e. e = OutOfBounds) (draw_cause cause val mret)"
  unfolding draw_cause_def trap_reg_a7_def
  by (intro arrays.keeps_read_result arrays.keeps_all)
    (auto intro: arrays.keeps_items keeps_desc simp: reg_view_at_def REG_A7_IDX_def NUM_REGS_def)

lemma keeps_trap: "keeps only_arrays (\<lambda>e. e = OutOfBounds) (trap_render absent opened)"
  unfolding trap_render_def Let_def
  by (intro arrays.keeps_child arrays.keeps_collapsing arrays.keeps_read array_views, rule keeps_at,
      intro arrays.keeps_all) (auto intro: arrays.keeps_items keeps_cause)

section \<open>The whole sidebar\<close>

text \<open>The container changes in its arrays at most, the memory inspector stays in a reachable state.\<close>

definition sidebar_frame :: "'x container \<times> sidebar \<Rightarrow> 'x container \<times> sidebar \<Rightarrow> bool" where
  "sidebar_frame s t \<longleftrightarrow> only_arrays (fst s) (fst t) \<and>
     (mem_drawer_reach (sb_mem_drawer (snd s)) \<longrightarrow> mem_drawer_reach (sb_mem_drawer (snd t)))"

interpretation sidebar: frame_relation sidebar_frame
  by unfold_locales (auto simp: sidebar_frame_def arrays.R_refl intro: arrays.R_trans)

lemma keeps_on_first: "keeps only_arrays E d \<Longrightarrow> keeps sidebar_frame E (on_first d)"
  unfolding keeps_def on_first_def
proof (intro allI)
  fix s :: "'a container \<times> sidebar"
  assume "\<forall>s. case d s of Inl e \<Rightarrow> E e | Inr (xs, s') \<Rightarrow> only_arrays s s'"
  then have "case d (fst s) of Inl e \<Rightarrow> E e | Inr (xs, s') \<Rightarrow> only_arrays (fst s) s'" by blast
  then show "case res_bind (d (fst s)) (\<lambda>(xs, a). Inr (xs, (a, snd s))) of Inl e \<Rightarrow> E e | Inr (xs, s') \<Rightarrow> sidebar_frame s s'"
    by (cases "d (fst s)") (auto simp: sidebar_frame_def)
qed

lemma mem_drawer_input_reach: "mem_drawer_reach d \<Longrightarrow> mem_drawer_reach (mem_drawer_input ui d)"
  unfolding mem_drawer_input_def
  by (rule mem_drawer_reach.controls) (use mem_drawer_reach_inv [of d] in \<open>auto simp: combo_def\<close>)

text \<open>The inspector after a frame.\<close>

definition inspector_input :: "panel_ui \<Rightarrow> mem_drawer \<Rightarrow> mem_drawer" where
  "inspector_input ui d =
     (if pu_open ui ''mem'' \<and> pu_open ui ''Memory Inspector'' then mem_drawer_input ui d else d)"

lemma mem_render_eq:
  "mem_render absent ui (v, d) =
     (if \<not> pu_open ui ''mem'' then Inr ([], (v, d))
      else if \<not> pu_open ui ''Memory Inspector'' then Inr ([CollapsingHeader ''Memory Inspector''], (v, d))
      else res_bind (mem_drawer_items absent ui (mem_drawer_input ui d) v) (\<lambda>(xs, v').
        Inr (CollapsingHeader ''Memory Inspector'' # xs, (v', mem_drawer_input ui d))))"
  by (cases "mem_drawer_items absent ui (mem_drawer_input ui d) v")
    (auto simp: mem_render_def child_def collapsing_def draw_seq_def items_def on_first_def)

lemma keeps_memory_inspector: "keeps sidebar_frame E (draw_memory_inspector absent ui)"
  unfolding keeps_def
proof
  fix s :: "'a container \<times> sidebar"
  let ?d = "mem_drawer_input ui (sb_mem_drawer (snd s))"
  have "case mem_drawer_items absent ui ?d (fst s) of Inl e \<Rightarrow> E e | Inr (xs, s') \<Rightarrow> only_arrays (fst s) s'"
    using keeps_panels(5) unfolding keeps_def by blast
  then show "case draw_memory_inspector absent ui s of Inl e \<Rightarrow> E e | Inr (xs, s') \<Rightarrow> sidebar_frame s s'"
    by (cases "mem_drawer_items absent ui ?d (fst s)")
      (auto simp: draw_memory_inspector_def mem_render_eq sidebar_frame_def arrays.R_refl mem_drawer_input_reach)
qed

lemma keeps_sidebar: "keeps sidebar_frame (\<lambda>e. e = OutOfBounds) (sidebar_render absent ui)"
  unfolding sidebar_render_def Let_def
  by (intro sidebar.keeps_child sidebar.keeps_all)
    (auto intro!: sidebar.keeps_child sidebar.keeps_seq sidebar.keeps_items keeps_on_first keeps_reg keeps_panels keeps_status keeps_trap
      keeps_memory_inspector)

end
