(* ===== verification/Time_Control.thy ===== *)
theory Time_Control
  imports Prelude
begin

text \<open>
  \<open>TimeController\<close> (\<open>sim/include/controllers/time_controller.hpp\<close>,
  \<open>sim/src/controllers/time_controller.cpp\<close>): the clock of the simulation.  Per frame it
  performs a reset, a single step, or as many clock ticks as the elapsed time pays for.  The
  simulator it acts on is a state \<open>'s\<close> that its operations transform; the listeners are
  references \<open>'l\<close> in registration order.  The \<open>float\<close> and \<open>double\<close> computations and the clock
  are parameters: nothing below depends on how they round.
\<close>

section \<open>State and interface\<close>

record ('f, 'd, 't) clock_arith =
  clk_period_of :: "'f \<Rightarrow> 'd"
  elapsed :: "'t \<Rightarrow> 't \<Rightarrow> 'd"
  d_zero :: 'd
  d_add :: "'d \<Rightarrow> 'd \<Rightarrow> 'd"
  d_sub :: "'d \<Rightarrow> 'd \<Rightarrow> 'd"
  d_ge :: "'d \<Rightarrow> 'd \<Rightarrow> bool"

record ('l, 's) tick_env =
  hw_update :: "'s \<Rightarrow> 's result"
  hw_reset :: "'s \<Rightarrow> 's result"
  per_tick :: "'l \<Rightarrow> 's \<Rightarrow> 's result"
  on_reset :: "'l \<Rightarrow> 's \<Rightarrow> 's result"

record ('f, 'd, 't, 'l) time_ctrl =
  tc_is_auto :: bool
  tc_is_prev_auto :: bool
  tc_clk_hz :: 'f
  tc_step_req :: bool
  tc_rst_req :: bool
  tc_prev_time :: 't
  tc_accumulator :: 'd
  tc_exec_step :: nat
  tc_l_update :: "'l list"
  tc_l_reset :: "'l list"

definition MAX_STEPS_PER_FRAME :: nat where
  "MAX_STEPS_PER_FRAME = 100000"

text \<open>The constructor; \<open>hz\<close> is the literal 10'000.0f, \<open>t\<close> the uninitialised \<open>m_prev_time\<close>.\<close>

definition time_ctrl_new :: "('f, 'd, 't) clock_arith \<Rightarrow> 'f \<Rightarrow> 't \<Rightarrow> ('f, 'd, 't, 'l) time_ctrl" where
  "time_ctrl_new A hz t =
     \<lparr>tc_is_auto = False, tc_is_prev_auto = False, tc_clk_hz = hz, tc_step_req = False, tc_rst_req = False,
      tc_prev_time = t, tc_accumulator = d_zero A, tc_exec_step = 0, tc_l_update = [], tc_l_reset = []\<rparr>"

definition tc_add_update_listener :: "'l \<Rightarrow> ('f, 'd, 't, 'l) time_ctrl \<Rightarrow> ('f, 'd, 't, 'l) time_ctrl" where
  "tc_add_update_listener l tc = tc\<lparr>tc_l_update := tc_l_update tc @ [l]\<rparr>"

definition tc_add_reset_listener :: "'l \<Rightarrow> ('f, 'd, 't, 'l) time_ctrl \<Rightarrow> ('f, 'd, 't, 'l) time_ctrl" where
  "tc_add_reset_listener l tc = tc\<lparr>tc_l_reset := tc_l_reset tc @ [l]\<rparr>"

definition clk_period :: "('f, 'd, 't) clock_arith \<Rightarrow> ('f, 'd, 't, 'l) time_ctrl \<Rightarrow> 'd" where
  "clk_period A tc = clk_period_of A (tc_clk_hz tc)"

definition request_step :: "('f, 'd, 't, 'l) time_ctrl \<Rightarrow> ('f, 'd, 't, 'l) time_ctrl" where
  "request_step tc = tc\<lparr>tc_step_req := True\<rparr>"

definition request_reset :: "('f, 'd, 't, 'l) time_ctrl \<Rightarrow> ('f, 'd, 't, 'l) time_ctrl" where
  "request_reset tc = tc\<lparr>tc_rst_req := True\<rparr>"

section \<open>A frame\<close>

text \<open>Call every listener in order; the first exception propagates.\<close>

fun notify :: "('l \<Rightarrow> 's \<Rightarrow> 's result) \<Rightarrow> 'l list \<Rightarrow> 's \<Rightarrow> 's result" where
  "notify f [] s = Inr s"
| "notify f (l # ls) s = res_bind (f l s) (notify f ls)"

definition tick_update :: "('l, 's) tick_env \<Rightarrow> ('f, 'd, 't, 'l) time_ctrl \<Rightarrow> 's \<Rightarrow> 's result" where
  "tick_update E tc s = res_bind (hw_update E s) (notify (per_tick E) (tc_l_update tc))"

definition reset_all :: "('l, 's) tick_env \<Rightarrow> ('f, 'd, 't, 'l) time_ctrl \<Rightarrow> 's \<Rightarrow> 's result" where
  "reset_all E tc s = res_bind (hw_reset E s) (notify (on_reset E) (tc_l_reset tc))"

text \<open>The \<open>while\<close> loop of \<open>update\<close>; the bound on \<open>m_exec_step\<close> makes it terminate.\<close>

function run_ticks :: "('f, 'd, 't) clock_arith \<Rightarrow> ('l, 's) tick_env \<Rightarrow> ('f, 'd, 't, 'l) time_ctrl \<Rightarrow> 's \<Rightarrow>
    (('f, 'd, 't, 'l) time_ctrl \<times> 's) result" where
  "run_ticks A E tc s =
     (if d_ge A (tc_accumulator tc) (clk_period A tc) \<and> tc_exec_step tc < MAX_STEPS_PER_FRAME
      then res_bind (tick_update E tc s) (\<lambda>s'.
             run_ticks A E (tc\<lparr>tc_accumulator := d_sub A (tc_accumulator tc) (clk_period A tc),
                               tc_exec_step := tc_exec_step tc + 1\<rparr>) s')
      else Inr (tc, s))"
  by pat_completeness auto
termination
  by (relation "measure (\<lambda>(A, E, tc, s). MAX_STEPS_PER_FRAME - tc_exec_step tc)") auto

declare run_ticks.simps [simp del]

text \<open>
  \<open>update\<close>.  \<open>now1\<close> and \<open>now2\<close> are what the two calls of \<open>clock::now()\<close> return, when they are
  reached.
\<close>

definition time_update :: "('f, 'd, 't) clock_arith \<Rightarrow> ('l, 's) tick_env \<Rightarrow> 't \<Rightarrow> 't \<Rightarrow>
    ('f, 'd, 't, 'l) time_ctrl \<Rightarrow> 's \<Rightarrow> (('f, 'd, 't, 'l) time_ctrl \<times> 's) result" where
  "time_update A E now1 now2 tc s =
     (if tc_rst_req tc then
        res_bind (reset_all E tc s) (\<lambda>s'.
          Inr (tc\<lparr>tc_rst_req := False, tc_accumulator := d_zero A, tc_exec_step := 0\<rparr>, s'))
      else if \<not> tc_is_auto tc \<and> (\<not> tc_step_req tc \<or> tc_is_prev_auto tc) then
        Inr (tc\<lparr>tc_is_prev_auto := tc_is_auto tc, tc_accumulator := d_zero A, tc_exec_step := 0\<rparr>, s)
      else
        let tc1 = (if tc_is_auto tc \<and> \<not> tc_is_prev_auto tc
                   then tc\<lparr>tc_prev_time := now1, tc_is_prev_auto := tc_is_auto tc\<rparr> else tc);
            delta = elapsed A now2 (tc_prev_time tc1);
            tc2 = tc1\<lparr>tc_prev_time := now2\<rparr>
        in if \<not> tc_is_auto tc2 \<and> tc_step_req tc2 then
             res_bind (tick_update E tc2 s) (\<lambda>s'.
               Inr (tc2\<lparr>tc_step_req := False, tc_accumulator := d_zero A\<rparr>, s'))
           else run_ticks A E (tc2\<lparr>tc_accumulator := d_add A (tc_accumulator tc2) delta, tc_exec_step := 0\<rparr>) s)"

section \<open>What a frame does to the hardware\<close>

fun iterate :: "nat \<Rightarrow> ('s \<Rightarrow> 's result) \<Rightarrow> 's \<Rightarrow> 's result" where
  "iterate 0 f s = Inr s"
| "iterate (Suc n) f s = res_bind (f s) (iterate n f)"

lemma run_ticks_upd [simp]:
  "tick_update E (tc\<lparr>tc_accumulator := a\<rparr>) = tick_update E tc" "tick_update E (tc\<lparr>tc_exec_step := n\<rparr>) = tick_update E tc"
  "tick_update E (tc\<lparr>tc_prev_time := t\<rparr>) = tick_update E tc" "tick_update E (tc\<lparr>tc_is_prev_auto := b\<rparr>) = tick_update E tc"
  "clk_period A (tc\<lparr>tc_accumulator := a\<rparr>) = clk_period A tc" "clk_period A (tc\<lparr>tc_exec_step := n\<rparr>) = clk_period A tc"
  "clk_period A (tc\<lparr>tc_prev_time := t\<rparr>) = clk_period A tc" "clk_period A (tc\<lparr>tc_is_prev_auto := b\<rparr>) = clk_period A tc"
  by (simp_all add: tick_update_def fun_eq_iff clk_period_def)

text \<open>The accumulator after \<open>k\<close> ticks.\<close>

fun drained :: "('f, 'd, 't) clock_arith \<Rightarrow> 'd \<Rightarrow> nat \<Rightarrow> 'd \<Rightarrow> 'd" where
  "drained A p 0 a = a"
| "drained A p (Suc k) a = drained A p k (d_sub A a p)"

text \<open>\<open>k\<close> ticks lead from one state of the loop to another at which it stops.\<close>

definition ticked :: "('f, 'd, 't) clock_arith \<Rightarrow> ('l, 's) tick_env \<Rightarrow> ('f, 'd, 't, 'l) time_ctrl \<Rightarrow> 's \<Rightarrow>
    ('f, 'd, 't, 'l) time_ctrl \<Rightarrow> 's \<Rightarrow> nat \<Rightarrow> bool" where
  "ticked A E tc s tc' s' k \<longleftrightarrow> iterate k (tick_update E tc) s = Inr s' \<and>
     tc' = tc\<lparr>tc_exec_step := tc_exec_step tc + k, tc_accumulator := drained A (clk_period A tc) k (tc_accumulator tc)\<rparr> \<and>
     (\<forall>j < k. d_ge A (drained A (clk_period A tc) j (tc_accumulator tc)) (clk_period A tc)) \<and>
     tc_exec_step tc + k \<le> MAX_STEPS_PER_FRAME \<and>
     (tc_exec_step tc + k = MAX_STEPS_PER_FRAME \<or>
      \<not> d_ge A (drained A (clk_period A tc) k (tc_accumulator tc)) (clk_period A tc))"

lemma ticked_Suc:
  assumes go: "d_ge A (tc_accumulator tc) (clk_period A tc)" and t: "tick_update E tc s = Inr s1"
    and k: "ticked A E (tc\<lparr>tc_accumulator := d_sub A (tc_accumulator tc) (clk_period A tc),
       tc_exec_step := tc_exec_step tc + 1\<rparr>) s1 tc' s' k"
  shows "ticked A E tc s tc' s' (Suc k)"
proof -
  have "\<forall>j < Suc k. d_ge A (drained A (clk_period A tc) j (tc_accumulator tc)) (clk_period A tc)"
    using k go by (auto simp: ticked_def less_Suc_eq_0_disj)
  then show ?thesis using k t by (simp add: ticked_def)
qed

lemma run_ticks_ticked:
  "run_ticks A E tc s = Inr (tc', s') \<Longrightarrow> tc_exec_step tc \<le> MAX_STEPS_PER_FRAME \<Longrightarrow> \<exists>k. ticked A E tc s tc' s' k"
proof (induction A E tc s arbitrary: tc' s' rule: run_ticks.induct)
  case (1 A E tc s)
  let ?go = "d_ge A (tc_accumulator tc) (clk_period A tc) \<and> tc_exec_step tc < MAX_STEPS_PER_FRAME"
  show ?case
  proof (cases ?go)
    case False
    then have "tc' = tc" "s' = s" using "1.prems"(1) by (subst (asm) run_ticks.simps; simp)+
    moreover have "ticked A E tc s tc s 0" using False "1.prems"(2) by (auto simp: ticked_def)
    ultimately show ?thesis by blast
  next
    case True
    let ?tc = "tc\<lparr>tc_accumulator := d_sub A (tc_accumulator tc) (clk_period A tc), tc_exec_step := tc_exec_step tc + 1\<rparr>"
    from True "1.prems"(1) obtain s1 where s1: "tick_update E tc s = Inr s1" "run_ticks A E ?tc s1 = Inr (tc', s')"
      by (subst (asm) run_ticks.simps) (auto simp: res_simps)
    have "tc_exec_step ?tc \<le> MAX_STEPS_PER_FRAME" using True by simp
    from "1.IH" [OF True s1 this] obtain k where "ticked A E ?tc s1 tc' s' k" by blast
    then show ?thesis using ticked_Suc [OF conjunct1 [OF True] s1(1)] by blast
  qed
qed

lemma iterate_total: "(\<And>s. \<exists>s'. f s = Inr s') \<Longrightarrow> \<exists>s'. iterate n f s = Inr s'"
proof (induction n arbitrary: s)
  case (Suc n)
  obtain s1 where "f s = Inr s1" using Suc.prems by blast
  then show ?case using Suc by simp
qed simp

lemma run_ticks_total:
  "(\<And>s. \<exists>s'. tick_update E tc s = Inr s') \<Longrightarrow> \<exists>r. run_ticks A E tc s = Inr r"
proof (induction A E tc s rule: run_ticks.induct)
  case (1 A E tc s)
  show ?case
  proof (cases "d_ge A (tc_accumulator tc) (clk_period A tc) \<and> tc_exec_step tc < MAX_STEPS_PER_FRAME")
    case False
    show ?thesis unfolding run_ticks.simps [of A E tc s] if_not_P [OF False] by simp
  next
    case True
    obtain s1 where s1: "tick_update E tc s = Inr s1" using "1.prems" by blast
    from "1.IH" [OF True s1] "1.prems" show ?thesis
      by (subst run_ticks.simps) (simp only: if_P [OF True] s1 res_bind.simps, simp)
  qed
qed

section \<open>Invariants of what the clock drives\<close>

text \<open>
  What the clock promises to whoever owns the hardware: a state predicate that the hardware
  and all listeners preserve, with errors of a known kind, survives any frame.
\<close>

locale tick_invariant =
  fixes E :: "('l, 's) tick_env" and P :: "'s \<Rightarrow> bool" and Q :: "cpp_error \<Rightarrow> bool"
  assumes hw_update_inv: "P s \<Longrightarrow> case hw_update E s of Inl e \<Rightarrow> Q e | Inr s' \<Rightarrow> P s'"
    and hw_reset_inv: "P s \<Longrightarrow> case hw_reset E s of Inl e \<Rightarrow> Q e | Inr s' \<Rightarrow> P s'"
    and per_tick_inv: "P s \<Longrightarrow> case per_tick E l s of Inl e \<Rightarrow> Q e | Inr s' \<Rightarrow> P s'"
    and on_reset_inv: "P s \<Longrightarrow> case on_reset E l s of Inl e \<Rightarrow> Q e | Inr s' \<Rightarrow> P s'"
begin

lemma notify_inv:
  assumes "\<And>l s. P s \<Longrightarrow> case f l s of Inl e \<Rightarrow> Q e | Inr s' \<Rightarrow> P s'"
  shows "P s \<Longrightarrow> case notify f ls s of Inl e \<Rightarrow> Q e | Inr s' \<Rightarrow> P s'"
proof (induction ls arbitrary: s)
  case (Cons l ls)
  then show ?case using assms [OF Cons.prems, of l] by (cases "f l s") auto
qed simp

lemma tick_update_inv: "P s \<Longrightarrow> case tick_update E tc s of Inl e \<Rightarrow> Q e | Inr s' \<Rightarrow> P s'"
  using hw_update_inv [of s] notify_inv [OF per_tick_inv]
  by (cases "hw_update E s") (simp_all add: tick_update_def)

lemma reset_all_inv: "P s \<Longrightarrow> case reset_all E tc s of Inl e \<Rightarrow> Q e | Inr s' \<Rightarrow> P s'"
  using hw_reset_inv [of s] notify_inv [OF on_reset_inv]
  by (cases "hw_reset E s") (simp_all add: reset_all_def)

lemma run_ticks_inv: "P s \<Longrightarrow> case run_ticks A E tc s of Inl e \<Rightarrow> Q e | Inr r \<Rightarrow> P (snd r)"
proof (induction "MAX_STEPS_PER_FRAME - tc_exec_step tc" arbitrary: tc s)
  case 0
  then have "run_ticks A E tc s = Inr (tc, s)" by (simp add: run_ticks.simps [of A E tc s])
  then show ?case using 0 by simp
next
  case (Suc n)
  let ?go = "d_ge A (tc_accumulator tc) (clk_period A tc) \<and> tc_exec_step tc < MAX_STEPS_PER_FRAME"
  let ?tc = "tc\<lparr>tc_accumulator := d_sub A (tc_accumulator tc) (clk_period A tc), tc_exec_step := tc_exec_step tc + 1\<rparr>"
  have n: "n = MAX_STEPS_PER_FRAME - tc_exec_step ?tc" using Suc.hyps(2) by simp
  show ?case
  proof (cases ?go)
    case False
    then show ?thesis unfolding run_ticks.simps [of A E tc s] if_not_P [OF False] using Suc.prems by simp
  next
    case True
    show ?thesis
    proof (cases "tick_update E tc s")
      case (Inl e)
      then show ?thesis unfolding run_ticks.simps [of A E tc s] if_P [OF True] using tick_update_inv [OF Suc.prems, of tc] by simp
    next
      case (Inr s1)
      then have "P s1" using tick_update_inv [OF Suc.prems, of tc] by simp
      from Suc.hyps(1) [OF n this] show ?thesis
        unfolding run_ticks.simps [of A E tc s] if_P [OF True] Inr res_bind.simps by simp
    qed
  qed
qed

lemma time_update_inv:
  assumes "P s"
  shows "case time_update A E now1 now2 tc s of Inl e \<Rightarrow> Q e | Inr r \<Rightarrow> P (snd r)"
proof (cases "tc_rst_req tc")
  case True
  then show ?thesis using reset_all_inv [OF assms, of tc]
    by (cases "reset_all E tc s") (simp_all add: time_update_def)
next
  case False
  show ?thesis
  proof (cases "tc_is_auto tc")
    case True
    then show ?thesis using False by (simp add: time_update_def Let_def run_ticks_inv [OF assms])
  next
    case manual: False
    then show ?thesis
      using False assms tick_update_inv [OF assms, of "tc\<lparr>tc_prev_time := now2\<rparr>"]
      by (cases "tick_update E tc s") (auto simp: time_update_def Let_def)
  qed
qed

end

section \<open>Properties\<close>

text \<open>
  C30: In automatic mode a frame that completes performs the ticks its time budget pays for: before
  every tick at least one clock period was left in the accumulator, a period is taken off for each, and the frame stops
  when less than one is left or after 100000 ticks.  It performs exactly as many as
  \<open>m_exec_step\<close> reports, the hardware state is the one after that many ticks, and what is
  left in the accumulator is the unspent time.
\<close>

theorem auto_frame_spends_time_budget:
  assumes auto: "tc_is_auto tc" "\<not> tc_rst_req tc" and frame: "time_update A E now1 now2 tc s = Inr (tc', s')"
  shows "iterate (tc_exec_step tc') (tick_update E tc) s = Inr s' \<and> tc_exec_step tc' \<le> 100000 \<and>
    (\<forall>j < tc_exec_step tc'. d_ge A (drained A (clk_period A tc) j (d_add A (tc_accumulator tc)
       (elapsed A now2 (if tc_is_prev_auto tc then tc_prev_time tc else now1)))) (clk_period A tc)) \<and>
    (tc_exec_step tc' = 100000 \<or> \<not> d_ge A (tc_accumulator tc') (clk_period A tc)) \<and>
    tc_accumulator tc' = drained A (clk_period A tc) (tc_exec_step tc') (d_add A (tc_accumulator tc)
       (elapsed A now2 (if tc_is_prev_auto tc then tc_prev_time tc else now1))) \<and>
    tc_prev_time tc' = now2 \<and> tc_is_auto tc' \<and> tc_is_prev_auto tc'"
proof -
  let ?t = "if tc_is_prev_auto tc then tc else tc\<lparr>tc_prev_time := now1, tc_is_prev_auto := True\<rparr>"
  let ?u = "?t\<lparr>tc_prev_time := now2, tc_accumulator := d_add A (tc_accumulator tc) (elapsed A now2 (tc_prev_time ?t)), tc_exec_step := 0\<rparr>"
  have "run_ticks A E ?u s = Inr (tc', s')"
    using frame auto by (cases "tc_is_prev_auto tc") (simp_all add: time_update_def Let_def)
  from run_ticks_ticked [OF this] obtain k where k: "ticked A E ?u s tc' s' k" by (auto simp: MAX_STEPS_PER_FRAME_def)
  have u: "tick_update E ?u = tick_update E tc" "clk_period A ?u = clk_period A tc" "tc_exec_step ?u = 0"
    "tc_accumulator ?u = d_add A (tc_accumulator tc) (elapsed A now2 (if tc_is_prev_auto tc then tc_prev_time tc else now1))"
    by (cases "tc_is_prev_auto tc"; simp)+
  note k' = k [unfolded ticked_def u]
  have n: "tc_exec_step tc' = k" and acc: "tc_accumulator tc' = drained A (clk_period A tc) k (tc_accumulator ?u)"
    using k' by (simp_all add: u)
  have "tc_prev_time tc' = now2" "tc_is_auto tc'" "tc_is_prev_auto tc'"
    using k' auto by (cases "tc_is_prev_auto tc"; simp)+
  then show ?thesis using k' unfolding n acc u by (simp add: MAX_STEPS_PER_FRAME_def)
qed

text \<open>Arithmetic and an environment for the examples: integer time, a counter as hardware.\<close>

definition int_arith :: "(int, int, int) clock_arith" where
  "int_arith = \<lparr>clk_period_of = (\<lambda>hz. 1000 div hz), elapsed = (\<lambda>a b. a - b), d_zero = 0, d_add = (+), d_sub = (-), d_ge = (\<ge>)\<rparr>"

definition counter_env :: "(unit, nat) tick_env" where
  "counter_env = \<lparr>hw_update = (\<lambda>s. Inr (s + 1)), hw_reset = (\<lambda>s. Inr 0), per_tick = (\<lambda>l s. Inr s), on_reset = (\<lambda>l s. Inr s)\<rparr>"

theorem auto_frame_spends_time_budget_witness:
  "\<exists>tc' s'. time_update int_arith counter_env 0 35 ((time_ctrl_new int_arith 100 0)\<lparr>tc_is_auto := True\<rparr>) 7 = Inr (tc', s') \<and>
     iterate (tc_exec_step tc') (tick_update counter_env ((time_ctrl_new int_arith 100 0)\<lparr>tc_is_auto := True\<rparr>)) 7 = Inr s' \<and>
     s' = 10 \<and> tc_exec_step tc' = 3"
proof -
  let ?tc = "(time_ctrl_new int_arith 100 0)\<lparr>tc_is_auto := True\<rparr> :: (int, int, int, unit) time_ctrl"
  have pre: "tc_is_auto ?tc" "\<not> tc_rst_req ?tc" by (simp_all add: time_ctrl_new_def)
  have "\<exists>tc'. time_update int_arith counter_env 0 35 ?tc 7 = Inr (tc', 10) \<and> tc_exec_step tc' = 3"
    by (simp add: time_update_def time_ctrl_new_def run_ticks.simps tick_update_def clk_period_def int_arith_def
        counter_env_def MAX_STEPS_PER_FRAME_def Let_def)
  then obtain tc' where tc': "time_update int_arith counter_env 0 35 ?tc 7 = Inr (tc', 10)" "tc_exec_step tc' = 3"
    by blast
  from auto_frame_spends_time_budget [OF pre tc'(1)] tc' show ?thesis by auto
qed

text \<open>Two frames in a row, at the given clock readings.\<close>

definition two_frames :: "('f, 'd, 't) clock_arith \<Rightarrow> ('l, 's) tick_env \<Rightarrow> 't list \<Rightarrow>
    ('f, 'd, 't, 'l) time_ctrl \<Rightarrow> 's \<Rightarrow> (('f, 'd, 't, 'l) time_ctrl \<times> 's) result" where
  "two_frames A E ts tc s = res_bind (time_update A E (ts ! 0) (ts ! 1) tc s) (\<lambda>(tc', s').
     time_update A E (ts ! 2) (ts ! 3) tc' s')"

text \<open>
  Note: A requested step performs exactly one tick: in manual mode with a step requested, two
  frames together tick the hardware once and consume the request, whether the clock was
  running in the frame before or not.
\<close>

theorem step_is_one_tick:
  assumes manual: "\<not> tc_is_auto tc" "\<not> tc_rst_req tc" and step: "tc_step_req tc" and tick: "tick_update E tc s = Inr s'"
  shows "\<exists>tc'. two_frames A E ts tc s = Inr (tc', s') \<and> \<not> tc_step_req tc' \<and> \<not> tc_is_auto tc'"
  using assms
  by (cases "tc_is_prev_auto tc") (simp_all add: two_frames_def time_update_def Let_def tick_update_def)

theorem step_is_one_tick_witness:
  "\<exists>tc'. two_frames int_arith counter_env [0, 1, 2, 3]
      (request_step ((time_ctrl_new int_arith 100 0)\<lparr>tc_is_prev_auto := True\<rparr>)) 7 = Inr (tc', 8) \<and> \<not> tc_step_req tc'"
proof -
  let ?tc = "request_step ((time_ctrl_new int_arith 100 0)\<lparr>tc_is_prev_auto := True\<rparr>) :: (int, int, int, unit) time_ctrl"
  have "\<not> tc_is_auto ?tc" "\<not> tc_rst_req ?tc" "tc_step_req ?tc" "tick_update counter_env ?tc 7 = Inr 8"
    by (simp_all add: time_ctrl_new_def request_step_def tick_update_def counter_env_def)
  from step_is_one_tick [OF this, of int_arith "[0, 1, 2, 3]"] show ?thesis by blast
qed

text \<open>
  Note: A requested reset takes precedence over everything else in its frame: the hardware and
  then every reset listener, in registration order, are reset and no tick happens; the request
  and the time budget are cleared, but a step requested before it stays pending and is
  performed later.
\<close>

theorem reset_frame_only_resets:
  assumes "tc_rst_req tc" and "reset_all E tc s = Inr s'"
  shows "\<exists>tc'. time_update A E now1 now2 tc s = Inr (tc', s') \<and> \<not> tc_rst_req tc' \<and> tc_accumulator tc' = d_zero A \<and>
    tc_exec_step tc' = 0 \<and> tc_step_req tc' = tc_step_req tc \<and> tc_is_auto tc' = tc_is_auto tc"
  using assms by (simp add: time_update_def)

theorem reset_frame_only_resets_witness:
  "\<exists>tc'. time_update int_arith counter_env 0 1 (request_reset (request_step (time_ctrl_new int_arith 100 0))) 7 = Inr (tc', 0) \<and>
     tc_step_req tc'"
proof -
  let ?tc = "request_reset (request_step (time_ctrl_new int_arith 100 0)) :: (int, int, int, unit) time_ctrl"
  have "tc_rst_req ?tc" "reset_all counter_env ?tc 7 = Inr 0" "tc_step_req ?tc"
    by (simp_all add: time_ctrl_new_def request_step_def request_reset_def reset_all_def counter_env_def)
  with reset_frame_only_resets [OF this(1,2), of int_arith 0 1] show ?thesis by auto
qed

end
