(* ===== verification/Dump_Control.thy ===== *)
theory Dump_Control
  imports Time_Control Verilated_Props
begin

text \<open>
  \<open>DumpController\<close> (\<open>sim/include/controllers/dump_controller.hpp\<close>,
  \<open>sim/src/controllers/dump_controller.cpp\<close>): starts a requested waveform dump, lets the clock
  run while it lasts and stops the clock when it is over.  The controller keeps a pointer to
  the file name, which is read only when the dump starts: \<open>deref\<close> is the string behind it
  then.
\<close>

record 'p dump_ctrl =
  dc_req_dump :: bool
  dc_is_dumping :: bool
  dc_dump_name :: 'p
  dc_dump_length :: int

definition MAX_DUMP_LENGTH :: int where
  "MAX_DUMP_LENGTH = 1024"

text \<open>The constructor; \<open>b\<close>, \<open>p\<close> and \<open>n\<close> are the members it leaves uninitialised.\<close>

definition dump_ctrl_new :: "bool \<Rightarrow> 'p \<Rightarrow> int \<Rightarrow> 'p dump_ctrl" where
  "dump_ctrl_new b p n = \<lparr>dc_req_dump = False, dc_is_dumping = b, dc_dump_name = p, dc_dump_length = n\<rparr>"

definition request_dump :: "'p \<Rightarrow> int \<Rightarrow> 'p dump_ctrl \<Rightarrow> 'p dump_ctrl" where
  "request_dump p n dc =
     (if dc_req_dump dc \<or> dc_is_dumping dc then dc
      else dc\<lparr>dc_req_dump := True, dc_dump_name := p, dc_dump_length := n\<rparr>)"

text \<open>The second statement of \<open>update\<close>: notice the end of a dump.\<close>

definition dump_finish :: "'p dump_ctrl \<Rightarrow> ('f, 'd, 't, 'l) time_ctrl \<Rightarrow> 'x container \<Rightarrow>
    'p dump_ctrl \<times> ('f, 'd, 't, 'l) time_ctrl \<times> 'x container" where
  "dump_finish dc tc v =
     (if dc_is_dumping dc \<and> \<not> is_dumping v
      then (dc\<lparr>dc_is_dumping := False\<rparr>, tc\<lparr>tc_is_auto := False\<rparr>, v) else (dc, tc, v))"

definition dump_update :: "(string \<Rightarrow> bool) \<Rightarrow> ('p \<Rightarrow> string) \<Rightarrow> 'p dump_ctrl \<Rightarrow> ('f, 'd, 't, 'l) time_ctrl \<Rightarrow>
    'x container \<Rightarrow> 'p dump_ctrl \<times> ('f, 'd, 't, 'l) time_ctrl \<times> 'x container" where
  "dump_update opens deref dc tc v =
     (if dc_req_dump dc \<and> \<not> dc_is_dumping dc then
        (if is_dumping v then (dc, tc, v)
         else dump_finish (dc\<lparr>dc_req_dump := False, dc_is_dumping := True\<rparr>) (tc\<lparr>tc_is_auto := True\<rparr>)
                (start_trace_dump opens (deref (dc_dump_name dc)) (dc_dump_length dc) v))
      else dump_finish dc tc v)"

section \<open>Synchronisation with the container\<close>

definition dump_sync :: "'p dump_ctrl \<Rightarrow> 'x container \<Rightarrow> bool" where
  "dump_sync dc v \<longleftrightarrow> (dc_is_dumping dc \<longleftrightarrow> is_dumping v) \<and> \<not> (dc_req_dump dc \<and> dc_is_dumping dc)"

lemma dump_sync_request: "dump_sync dc v \<Longrightarrow> dump_sync (request_dump p n dc) v"
  by (auto simp: dump_sync_def request_dump_def)

lemma is_dumping_start: "\<not> is_dumping v \<Longrightarrow> is_dumping (start_trace_dump opens f n v) = (opens f)"
  by (simp add: is_dumping_def start_trace_dump_def Let_def vcd_open_def)

text \<open>
  After one update controller and container agree, provided that only the controller's own
  dump can be running; the uninitialised flag of the constructor does no more than delay a
  request to the second frame.
\<close>

lemma dump_update_sync:
  assumes "is_dumping v \<longrightarrow> dc_is_dumping dc" "\<not> (dc_req_dump dc \<and> dc_is_dumping dc)"
    and u: "dump_update opens deref dc tc v = (dc', tc', v')"
  shows "dump_sync dc' v'"
  using assms is_dumping_start [of v opens "deref (dc_dump_name dc)" "dc_dump_length dc"]
  by (auto simp: dump_update_def dump_finish_def dump_sync_def split: if_splits)

lemma dump_update_cases:
  assumes s: "dump_sync dc v" and u: "dump_update opens deref dc tc v = (dc', tc', v')"
  shows "if dc_req_dump dc
    then v' = start_trace_dump opens (deref (dc_dump_name dc)) (dc_dump_length dc) v \<and> \<not> dc_req_dump dc' \<and>
      tc_is_auto tc' = opens (deref (dc_dump_name dc)) \<and> dc_is_dumping dc' = opens (deref (dc_dump_name dc))
    else dc' = dc \<and> tc' = tc \<and> v' = v"
  using s u is_dumping_start [of v opens "deref (dc_dump_name dc)" "dc_dump_length dc"]
  by (auto simp: dump_update_def dump_finish_def dump_sync_def split: if_splits)

end
