(* ===== verification/Terminal_Inv.thy ===== *)
theory Terminal_Inv
  imports Terminal
begin

text \<open>
  The invariant of the terminal and the facts each of its operations satisfies.  \<open>term_rows\<close>
  reads the scrollback as a list of lines, oldest first.  The buffer operations are used
  through the interpretation \<open>rbq\<close> of the queue contract only.
\<close>

definition term_rows :: "terminal \<Rightarrow> symbol list list" where
  "term_rows t = rb_abs (m_buf t)"

definition blank_line :: "terminal \<Rightarrow> symbol list" where
  "blank_line t = replicate (m_viewport_w t) (create_symbol 0 t)"

definition term_dims :: "terminal \<Rightarrow> bool" where
  "term_dims t \<longleftrightarrow> 0 < m_viewport_w t \<and> 0 < m_viewport_h t \<and> m_viewport_h t \<le> m_buf_cap t \<and>
     m_viewport_w t + m_buf_cap t < SIZE_MOD"

definition term_buf_ok :: "terminal \<Rightarrow> bool" where
  "term_buf_ok t \<longleftrightarrow> rb_inv (m_buf t) \<and> rb_cap (m_buf t) = m_buf_cap t \<and>
     (\<forall>cells \<in> set (term_rows t). length cells = m_viewport_w t)"

definition term_wf :: "terminal \<Rightarrow> bool" where
  "term_wf t \<longleftrightarrow> term_dims t \<and> term_buf_ok t \<and>
     m_cursor_col t < m_viewport_w t \<and> m_cursor_row t < m_viewport_h t \<and>
     m_cursor_row t < length (term_rows t) \<and>
     m_viewport_start_line t \<le> length (term_rows t) - m_viewport_h t"

named_theorems term_defs
declare term_rows_def [term_defs] term_dims_def [term_defs] term_buf_ok_def [term_defs]
  term_wf_def [term_defs]

lemma term_dims_pos: "term_dims t \<Longrightarrow> 0 < m_buf_cap t"
  by (auto simp: term_dims_def)

lemma active_row_less: "term_wf t \<Longrightarrow> active_row t < length (term_rows t)"
  by (auto simp: term_wf_def active_row_def)

lemma length_rows_le: "term_buf_ok t \<Longrightarrow> length (term_rows t) \<le> m_buf_cap t"
  using rbq.size_le_cap [of "m_buf t"] by (simp add: term_defs)

lemma rb_size_rows: "rb_size (m_buf t) = length (term_rows t)"
  by (simp add: term_rows_def)

lemma rb_full_rows: "term_buf_ok t \<Longrightarrow> rb_full (m_buf t) \<longleftrightarrow> length (term_rows t) = m_buf_cap t"
  by (simp add: rb_full_def term_defs)

section \<open>Growing the buffer\<close>

lemma push_blank_row_eq:
  assumes ok: "term_buf_ok t" and cap: "0 < m_buf_cap t"
  shows "\<exists>b. push_blank_row t = t\<lparr>m_buf := b\<rparr> \<and> rb_inv b \<and> rb_cap b = m_buf_cap t \<and>
    rb_abs b = (if rb_full (m_buf t) then tl (term_rows t) else term_rows t) @ [blank_line t]"
proof -
  from ok have "rb_inv (m_buf t)" "0 < rb_cap (m_buf t)" using cap by (auto simp: term_defs)
  from rbq.push_evicting [OF this refl, of "blank_line t"] ok show ?thesis
    by (auto simp: push_blank_row_def blank_line_def term_defs)
qed

lemma create_symbol_upd [simp]:
  "create_symbol c (t\<lparr>m_buf := b\<rparr>) = create_symbol c t"
  "blank_line (t\<lparr>m_buf := b\<rparr>) = blank_line t"
  by (simp_all add: create_symbol_def blank_line_def)

lemma term_rows_upd [simp]:
  "term_rows (t\<lparr>m_buf := b\<rparr>) = rb_abs b"
  "term_rows (t\<lparr>m_cursor_row := r\<rparr>) = term_rows t"
  "term_rows (t\<lparr>m_cursor_col := c\<rparr>) = term_rows t"
  "term_rows (t\<lparr>m_state := s\<rparr>) = term_rows t"
  "term_rows (t\<lparr>m_ansi_args := a\<rparr>) = term_rows t"
  "term_rows (t\<lparr>m_ansi_arg_chars := q\<rparr>) = term_rows t"
  "term_rows (t\<lparr>m_viewport_start_line := v\<rparr>) = term_rows t"
  by (simp_all add: term_rows_def)

lemma blank_line_upd [simp]:
  "blank_line (t\<lparr>m_cursor_row := r\<rparr>) = blank_line t"
  "blank_line (t\<lparr>m_cursor_col := c\<rparr>) = blank_line t"
  "blank_line (t\<lparr>m_state := s\<rparr>) = blank_line t"
  "blank_line (t\<lparr>m_ansi_args := a\<rparr>) = blank_line t"
  "blank_line (t\<lparr>m_ansi_arg_chars := q\<rparr>) = blank_line t"
  "blank_line (t\<lparr>m_viewport_start_line := v\<rparr>) = blank_line t"
  by (simp_all add: blank_line_def create_symbol_def)

lemma active_row_upd [simp]:
  "active_row (t\<lparr>m_cursor_row := Suc (m_cursor_row t)\<rparr>) = Suc (active_row t)"
  "active_row (t\<lparr>m_cursor_col := c\<rparr>) = active_row t"
  "active_row (t\<lparr>m_buf := b\<rparr>) = active_row t"
  by (simp_all add: active_row_def)

lemma length_blank_line [simp]: "length (blank_line t) = m_viewport_w t"
  by (simp add: blank_line_def)

lemma push_blank_until_eq:
  assumes "term_buf_ok t" and "0 < m_buf_cap t"
  shows "\<exists>b. push_blank_until n t = t\<lparr>m_buf := b\<rparr> \<and> rb_inv b \<and> rb_cap b = m_buf_cap t \<and>
    rb_abs b = term_rows t @ replicate (min n (m_buf_cap t) - length (term_rows t)) (blank_line t)"
  using assms
proof (induction n t rule: push_blank_until.induct)
  case (1 n t)
  note le = length_rows_le [OF "1.prems"(1)]
  show ?case
  proof (cases "rb_size (m_buf t) < n \<and> \<not> rb_full (m_buf t)")
    case False
    then have "min n (m_buf_cap t) - length (term_rows t) = 0"
      using le by (auto simp: rb_full_rows [OF "1.prems"(1)] rb_size_rows)
    moreover have "push_blank_until n t = t"
      by (subst push_blank_until.simps) (rule if_not_P [OF False])
    ultimately show ?thesis using "1.prems"(1)
      by (intro exI [of _ "m_buf t"]) (simp add: term_defs)
  next
    case True
    obtain b where b: "push_blank_row t = t\<lparr>m_buf := b\<rparr>" "rb_inv b" "rb_cap b = m_buf_cap t"
      "rb_abs b = term_rows t @ [blank_line t]"
      using push_blank_row_eq [OF "1.prems"] True by auto
    have "term_buf_ok (push_blank_row t)"
      using "1.prems"(1) b by (auto simp: term_defs)
    with "1.IH" [OF True] b "1.prems"(2) obtain b' where b': "rb_inv b'" "rb_cap b' = m_buf_cap t"
      "push_blank_until n (push_blank_row t) = t\<lparr>m_buf := b'\<rparr>"
      "rb_abs b' = term_rows t @ blank_line t #
         replicate (min n (m_buf_cap t) - Suc (length (term_rows t))) (blank_line t)"
      by auto
    have "min n (m_buf_cap t) - length (term_rows t)
        = Suc (min n (m_buf_cap t) - Suc (length (term_rows t)))"
      using True le by (auto simp: rb_full_rows [OF "1.prems"(1)] rb_size_rows)
    with b' True show ?thesis
      by (intro exI [of _ b']) (subst push_blank_until.simps, simp)
  qed
qed

lemma push_blank_until_noop: "n \<le> length (term_rows t) \<Longrightarrow> push_blank_until n t = t"
  by (subst push_blank_until.simps) (simp add: rb_size_rows)

lemma restore_viewport_eq:
  "restore_viewport t = t\<lparr>m_viewport_start_line := length (term_rows t) - m_viewport_h t\<rparr>"
  by (simp add: restore_viewport_def rb_size_rows)

lemma restore_viewport_wf: "term_wf t \<Longrightarrow> term_wf (restore_viewport t)"
  by (simp add: restore_viewport_eq term_defs)

section \<open>Cursor movement\<close>

definition newline_rows :: "terminal \<Rightarrow> symbol list list" where
  "newline_rows t = term_rows t @
     (if active_row t + 1 = length (term_rows t) \<and> length (term_rows t) < m_buf_cap t
      then [blank_line t] else [])"

lemma cursor_newline_eq:
  assumes wf: "term_wf t"
  shows "\<exists>b. cursor_newline t = t\<lparr>m_buf := b,
      m_viewport_start_line := (if active_row t + 1 < length (term_rows t)
         then m_viewport_start_line t else length (newline_rows t) - m_viewport_h t),
      m_cursor_row := min (m_cursor_row t + 1) (m_viewport_h t - 1)\<rparr> \<and>
    rb_inv b \<and> rb_cap b = m_buf_cap t \<and> rb_abs b = newline_rows t"
proof -
  from wf have ok: "term_buf_ok t" and dims: "term_dims t"
    by (auto simp: term_wf_def)
  let ?t1 = "t\<lparr>m_cursor_row := m_cursor_row t + 1\<rparr>"
  have ok1: "term_buf_ok ?t1" "0 < m_buf_cap ?t1" and rows1: "term_rows ?t1 = term_rows t"
    and bl: "blank_line ?t1 = blank_line t"
    using ok dims by (auto simp: term_defs blank_line_def create_symbol_def)
  have act1: "active_row ?t1 = active_row t + 1"
    by (simp add: active_row_def)
  note less = active_row_less [OF wf] and le = length_rows_le [OF ok]
  obtain b where b: "push_blank_until (active_row ?t1 + 1) ?t1 = ?t1\<lparr>m_buf := b\<rparr>" "rb_inv b"
    "rb_cap b = m_buf_cap t" "rb_abs b = term_rows t @ replicate
       (min (active_row ?t1 + 1) (m_buf_cap t) - length (term_rows t)) (blank_line t)"
    using push_blank_until_eq [OF ok1, of "active_row ?t1 + 1"] by auto
  show ?thesis
  proof (cases "active_row t + 1 < length (term_rows t)")
    case True
    then have "m_cursor_row t + 1 < m_buf_cap t" using le by (simp add: active_row_def)
    with True have "cursor_newline t = t\<lparr>m_cursor_row := min (m_cursor_row t + 1) (m_viewport_h t - 1)\<rparr>"
      using act1 wf by (auto simp: cursor_newline_def Let_def rb_size_rows rows1 min_def term_wf_def)
    with True ok show ?thesis
      by (intro exI [of _ "m_buf t"]) (simp add: newline_rows_def term_defs)
  next
    case False
    with less have act: "active_row t + 1 = length (term_rows t)" by simp
    with le have nr: "rb_abs b = newline_rows t"
      by (auto simp: b(4) act1 newline_rows_def min_def)
    have row: "m_cursor_row t + 1 \<le> m_buf_cap t"
      using act le by (simp add: active_row_def)
    have grown: "restore_viewport (push_blank_until (active_row ?t1 + 1) ?t1) =
        ?t1\<lparr>m_buf := b, m_viewport_start_line := length (newline_rows t) - m_viewport_h t\<rparr>"
      using nr by (simp only: b(1) restore_viewport_eq) simp
    have ge: "active_row ?t1 \<ge> rb_size (m_buf ?t1)"
      using False by (simp add: rb_size_rows)
    have "cursor_newline t = t\<lparr>m_buf := b,
      m_viewport_start_line := length (newline_rows t) - m_viewport_h t,
      m_cursor_row := min (m_cursor_row t + 1) (m_viewport_h t - 1)\<rparr>"
    proof (cases "m_cursor_row t + 1 < m_viewport_h t")
      case True
      moreover have "m_cursor_row t + 1 < m_buf_cap t"
        using True dims by (simp add: term_dims_def)
      ultimately show ?thesis
        unfolding cursor_newline_def Let_def if_P [OF ge] grown by simp
    next
      case False
      then have h: "m_viewport_h t = Suc (m_cursor_row t)"
        using wf by (simp add: term_wf_def)
      show ?thesis
      proof (cases "m_buf_cap t \<le> m_cursor_row t + 1")
        case True
        with row have "m_buf_cap t = Suc (m_cursor_row t)" by simp
        with h show ?thesis unfolding cursor_newline_def Let_def if_P [OF ge] grown by simp
      next
        case False
        with h show ?thesis unfolding cursor_newline_def Let_def if_P [OF ge] grown by simp
      qed
    qed
    with False b(2,3) nr show ?thesis by (intro exI [of _ b]) simp
  qed
qed

lemma newline_rows_wf: "term_wf t \<Longrightarrow> cells \<in> set (newline_rows t) \<Longrightarrow> length cells = m_viewport_w t"
  by (auto simp: newline_rows_def term_defs split: if_splits)

lemma cursor_newline_wf: "term_wf t \<Longrightarrow> term_wf (cursor_newline t)"
proof -
  assume wf: "term_wf t"
  obtain b where b: "cursor_newline t = t\<lparr>m_buf := b,
      m_viewport_start_line := (if active_row t + 1 < length (term_rows t)
         then m_viewport_start_line t else length (newline_rows t) - m_viewport_h t),
      m_cursor_row := min (m_cursor_row t + 1) (m_viewport_h t - 1)\<rparr>"
    "rb_inv b" "rb_cap b = m_buf_cap t" "rb_abs b = newline_rows t"
    using cursor_newline_eq [OF wf] by blast
  have len: "length (newline_rows t) \<ge> length (term_rows t)" by (simp add: newline_rows_def)
  have row: "min (m_cursor_row t + 1) (m_viewport_h t - 1) < length (newline_rows t)"
    using wf active_row_less [OF wf] length_rows_le [of t]
    by (auto simp: newline_rows_def active_row_def term_wf_def term_dims_def min_def)
  have start: "m_viewport_start_line t \<le> length (newline_rows t) - m_viewport_h t"
    using wf len by (auto simp: term_wf_def)
  show ?thesis
    using wf b(2-4) newline_rows_wf [OF wf] row start unfolding b(1)
    by (auto simp: term_wf_def term_dims_def term_buf_ok_def term_rows_def)
qed

lemma term_wf_col: "term_wf t \<Longrightarrow> c < m_viewport_w t \<Longrightarrow> term_wf (t\<lparr>m_cursor_col := c\<rparr>)"
  by (simp add: term_defs)

lemma term_wf_row: "term_wf t \<Longrightarrow> r < m_viewport_h t \<Longrightarrow> r < length (term_rows t) \<Longrightarrow>
    term_wf (t\<lparr>m_cursor_row := r\<rparr>)"
  by (simp add: term_defs)

lemma term_wf_ctl [simp]:
  "term_wf (t\<lparr>m_state := s\<rparr>) = term_wf t"
  "term_wf (t\<lparr>m_ansi_args := a\<rparr>) = term_wf t"
  "term_wf (t\<lparr>m_ansi_arg_chars := q\<rparr>) = term_wf t"
  "term_wf (t\<lparr>m_rx_queue := rx\<rparr>) = term_wf t"
  "term_wf (t\<lparr>m_prev_tx_valid := pv\<rparr>) = term_wf t"
  by (simp_all add: term_defs)

lemma term_wf_store:
  assumes "term_wf t" and "rb_inv b" and "rb_cap b = m_buf_cap t"
    and "length (rb_abs b) = length (term_rows t)"
    and "\<forall>cells \<in> set (rb_abs b). length cells = m_viewport_w t"
  shows "term_wf (t\<lparr>m_buf := b\<rparr>)"
  using assms by (simp add: term_defs)

lemma cursor_adv_wf:
  assumes wf: "term_wf t"
  shows "term_wf (cursor_adv t)"
proof -
  have "0 < m_viewport_w t" using wf by (auto simp: term_defs)
  then show ?thesis
    using cursor_newline_wf [OF term_wf_col [OF wf, of 0]] term_wf_col [OF wf]
    by (auto simp: cursor_adv_def Let_def)
qed

section \<open>Control sequences keep the invariant\<close>

lemma flush_arg_simps [simp]:
  "term_wf (flush_arg t) = term_wf t"
  "term_rows (flush_arg t) = term_rows t"
  "blank_line (flush_arg t) = blank_line t"
  "active_row (flush_arg t) = active_row t"
  "m_cursor_row (flush_arg t) = m_cursor_row t"
  "m_cursor_col (flush_arg t) = m_cursor_col t"
  "m_viewport_h (flush_arg t) = m_viewport_h t"
  "m_viewport_w (flush_arg t) = m_viewport_w t"
  "m_viewport_start_line (flush_arg t) = m_viewport_start_line t"
  "m_buf (flush_arg t) = m_buf t"
  "m_buf_cap (flush_arg t) = m_buf_cap t"
  "create_symbol c (flush_arg t) = create_symbol c t"
  by (simp_all add: flush_arg_def push_arg_def active_row_def create_symbol_def)

lemma push_arg_wf [simp]: "term_wf (push_arg t) = term_wf t"
  by (simp add: push_arg_def)

lemma to_ground_wf [simp]: "term_wf (to_ground t) = term_wf t"
  by (simp add: to_ground_def)

lemma term_dims_ok_upd [simp]:
  "term_dims (t\<lparr>m_cursor_row := r\<rparr>) = term_dims t"
  "term_buf_ok (t\<lparr>m_cursor_row := r\<rparr>) = term_buf_ok t"
  "term_dims (flush_arg t) = term_dims t"
  "term_buf_ok (flush_arg t) = term_buf_ok t"
  by (simp_all add: term_dims_def term_buf_ok_def flush_arg_def push_arg_def term_rows_def)

text \<open>Growing the buffer to a row of the viewport succeeds and reaches that row.\<close>

lemma grow_to_row:
  assumes "term_dims t" "term_buf_ok t" "r < m_viewport_h t"
    and "m_viewport_start_line t \<le> length (term_rows t) - m_viewport_h t"
  shows "\<exists>b. push_blank_until (m_viewport_start_line t + r + 1) t = t\<lparr>m_buf := b\<rparr> \<and> rb_inv b \<and>
    rb_cap b = m_buf_cap t \<and>
    rb_abs b = term_rows t @ replicate (m_viewport_start_line t + r + 1 - length (term_rows t)) (blank_line t)"
proof -
  have le: "m_viewport_start_line t + r + 1 \<le> m_buf_cap t"
    using assms length_rows_le [OF assms(2)] by (auto simp: term_dims_def)
  show ?thesis
    using push_blank_until_eq [OF assms(2) term_dims_pos [OF assms(1)], of "m_viewport_start_line t + r + 1"]
    by (simp only: min_absorb1 [OF le])
qed

lemma grow_to_row_wf:
  assumes "term_dims t" "term_buf_ok t" "r < m_viewport_h t" "m_cursor_row t = r"
    and "m_viewport_start_line t \<le> length (term_rows t) - m_viewport_h t"
    and "m_cursor_col t < m_viewport_w t"
  shows "term_wf (push_blank_until (m_viewport_start_line t + r + 1) t)"
proof -
  obtain b where b: "push_blank_until (m_viewport_start_line t + r + 1) t = t\<lparr>m_buf := b\<rparr>" "rb_inv b"
    "rb_cap b = m_buf_cap t"
    "rb_abs b = term_rows t @ replicate (m_viewport_start_line t + r + 1 - length (term_rows t)) (blank_line t)"
    using grow_to_row [OF assms(1,2,3,5)] by blast
  show ?thesis
    using assms b(2-4) unfolding b(1)
    by (auto simp: term_wf_def term_dims_def term_buf_ok_def)
qed

lemma csi_A_wf: "term_wf t \<Longrightarrow> term_wf (csi_A t)"
  unfolding csi_A_def Let_def to_ground_wf by (rule term_wf_row) (auto simp: term_wf_def)

lemma csi_C_wf: "term_wf t \<Longrightarrow> term_wf (csi_C t)"
  unfolding csi_C_def Let_def to_ground_wf by (rule term_wf_col) (auto simp: term_wf_def term_dims_def)

lemma csi_D_wf: "term_wf t \<Longrightarrow> term_wf (csi_D t)"
  unfolding csi_D_def Let_def to_ground_wf by (rule term_wf_col) (auto simp: term_wf_def term_dims_def)

lemma term_parts:
  "term_wf t \<Longrightarrow> term_dims t"
  "term_wf t \<Longrightarrow> term_buf_ok t"
  "term_wf t \<Longrightarrow> m_viewport_start_line t \<le> length (term_rows t) - m_viewport_h t"
  "term_wf t \<Longrightarrow> m_cursor_col t < m_viewport_w t"
  "term_wf t \<Longrightarrow> 0 < m_viewport_h t"
  "term_wf t \<Longrightarrow> 0 < m_viewport_w t"
  by (auto simp: term_wf_def term_dims_def)

lemma csi_B_wf:
  assumes wf: "term_wf t"
  shows "term_wf (csi_B t)"
proof -
  let ?f = "flush_arg t"
  let ?r = "min (sz_add (m_cursor_row ?f) (el_or_default (m_ansi_args ?f) 0 1)) (m_viewport_h ?f - 1)"
  have "term_wf (push_blank_until (m_viewport_start_line (?f\<lparr>m_cursor_row := ?r\<rparr>) + ?r + 1)
      (?f\<lparr>m_cursor_row := ?r\<rparr>))"
    using term_parts [OF wf] by (intro grow_to_row_wf) auto
  then show ?thesis
    by (simp add: csi_B_def Let_def active_row_def)
qed

lemma grow_place_wf:
  assumes "term_dims t" "term_buf_ok t" "r < m_viewport_h t" "c < m_viewport_w t"
    and "m_viewport_start_line t \<le> length (term_rows t) - m_viewport_h t"
  shows "term_wf ((push_blank_until (m_viewport_start_line t + r + 1) t)\<lparr>m_cursor_row := r, m_cursor_col := c\<rparr>)"
proof -
  obtain b where b: "push_blank_until (m_viewport_start_line t + r + 1) t = t\<lparr>m_buf := b\<rparr>" "rb_inv b"
    "rb_cap b = m_buf_cap t"
    "rb_abs b = term_rows t @ replicate (m_viewport_start_line t + r + 1 - length (term_rows t)) (blank_line t)"
    using grow_to_row [OF assms(1,2,3,5)] by blast
  show ?thesis
    using assms b(2-4) unfolding b(1)
    by (auto simp: term_wf_def term_dims_def term_buf_ok_def)
qed

lemma csi_H_wf:
  assumes wf: "term_wf t"
  shows "term_wf (csi_H t)"
  unfolding csi_H_def Let_def to_ground_wf viewport_to_buf_row_def
  using term_parts [OF wf] by (intro grow_place_wf) auto

section \<open>Writing cells\<close>

lemma put_symbol_eq:
  assumes wf: "term_wf t"
  shows "\<exists>b. put_symbol c t = Inr (cursor_adv (t\<lparr>m_buf := b\<rparr>)) \<and> term_wf (t\<lparr>m_buf := b\<rparr>) \<and>
    rb_abs b = (term_rows t)[active_row t :=
      ((term_rows t) ! active_row t)[m_cursor_col t := create_symbol c t]]"
proof -
  let ?i = "active_row t"
  let ?cells = "(term_rows t ! ?i)[m_cursor_col t := create_symbol c t]"
  have i: "?i < length (rb_abs (m_buf t))"
    using active_row_less [OF wf] by (simp add: term_rows_def)
  have ok: "rb_inv (m_buf t)" "rb_cap (m_buf t) = m_buf_cap t"
    and len: "\<forall>cells \<in> set (term_rows t). length cells = m_viewport_w t"
    using wf by (auto simp: term_wf_def term_buf_ok_def)
  have cells: "length (term_rows t ! ?i) = m_viewport_w t"
    using len i by (simp add: term_rows_def)
  let ?b = "rb_store (rb_slot (m_buf t) ?i) ?cells (m_buf t)"
  note st = rb_store_slot [OF ok(1) i, of ?cells]
  have "put_symbol c t = Inr (cursor_adv (t\<lparr>m_buf := ?b\<rparr>))"
    using i cells wf by (simp add: put_symbol_def rb_ref_cases rb_load_slot term_wf_def)
      (simp add: term_rows_def)
  moreover have "\<forall>x \<in> set ((rb_abs (m_buf t))[?i := ?cells]). length x = m_viewport_w t"
    by (rule all_set_list_update) (use len cells in \<open>simp_all add: term_rows_def\<close>)
  then have "term_wf (t\<lparr>m_buf := ?b\<rparr>)"
    using st ok by (intro term_wf_store [OF wf]) (simp_all add: term_rows_def)
  ultimately show ?thesis using st by (intro exI [of _ ?b]) (simp add: term_rows_def)
qed

lemma put_symbol_wf: "term_wf t \<Longrightarrow> \<exists>t'. put_symbol c t = Inr t' \<and> term_wf t'"
  using put_symbol_eq [of t c] by (auto intro: cursor_adv_wf)

lemma ground_char_wf:
  assumes wf: "term_wf t"
  shows "\<exists>t'. ground_char c t = Inr t' \<and> term_wf t'"
  using term_parts [OF wf] put_symbol_wf [OF wf, of c] wf
    cursor_newline_wf [OF term_wf_col [OF wf, of 0]]
  by (simp add: ground_char_def Let_def term_wf_col)

lemma csi_char_wf:
  assumes wf: "term_wf t" and "c \<noteq> 74"
  shows "\<exists>t'. csi_char c t = Inr t' \<and> term_wf t'"
  using assms by (auto simp: csi_char_def csi_A_wf csi_B_wf csi_C_wf csi_D_wf csi_H_wf)

lemma process_char_wf:
  assumes wf: "term_wf t" and "m_state t = ReadState_SEQ_CSI \<longrightarrow> c \<noteq> 74"
  shows "\<exists>t'. process_char c t = Inr t' \<and> term_wf t'"
proof -
  let ?t = "restore_viewport t"
  have w: "term_wf ?t" by (rule restore_viewport_wf [OF wf])
  have s: "m_state ?t = m_state t" by (simp add: restore_viewport_eq)
  show ?thesis
  proof (cases "m_state t")
    case ReadState_GROUND
    then show ?thesis using ground_char_wf [OF w, of c] by (simp add: process_char_def s)
  next
    case ReadState_ESCAPE
    then show ?thesis using w by (simp add: process_char_def s escape_char_def)
  next
    case ReadState_SEQ_CSI
    then show ?thesis using csi_char_wf [OF w] assms(2) by (simp add: process_char_def s)
  qed
qed

lemma feed_rx_wf: "term_wf t \<Longrightarrow> term_wf (fst (feed_rx t u))"
  by (simp add: feed_rx_def split: list.split)

section \<open>Construction, reset, scrolling\<close>

lemma push_first_row:
  assumes "rb_inv (m_buf t)" "term_rows t = []" "rb_cap (m_buf t) = m_buf_cap t" "0 < m_buf_cap t"
  shows "\<exists>b. push_blank_row t = t\<lparr>m_buf := b\<rparr> \<and> rb_inv b \<and> rb_cap b = m_buf_cap t \<and> rb_abs b = [blank_line t]"
  using push_blank_row_eq [of t] assms by (auto simp: term_buf_ok_def rb_full_iff term_rows_def)

lemma terminal_new_wf:
  assumes "0 < w" "0 < h" "h \<le> cap" "w + cap < SIZE_MOD"
  shows "term_wf (terminal_new w h cap fg bg) \<and>
    term_rows (terminal_new w h cap fg bg) = [replicate w \<lparr>glyph = 0, fg_color = fg, bg_color = bg\<rparr>]"
proof -
  let ?t = "\<lparr>m_state = ReadState_GROUND, m_ansi_args = [], m_ansi_arg_chars = [],
      m_viewport_w = w, m_viewport_h = h, m_fg_color_init = fg, m_bg_color_init = bg,
      m_cursor_row = 0, m_cursor_col = 0, m_fg_color = fg, m_bg_color = bg,
      m_buf = rb_new [] cap, m_buf_cap = cap, m_viewport_start_line = 0,
      m_rx_queue = [], m_prev_tx_valid = False\<rparr>"
  obtain b where "push_blank_row ?t = ?t\<lparr>m_buf := b\<rparr>" "rb_inv b" "rb_cap b = cap"
    "rb_abs b = [blank_line ?t]"
    using push_first_row [of ?t] assms by (auto simp: term_rows_def)
  then show ?thesis
    using assms unfolding terminal_new_def
    by (auto simp: term_defs blank_line_def create_symbol_def)
qed

lemma terminal_reset_wf:
  assumes wf: "term_wf t"
  shows "term_wf (terminal_reset t)"
proof -
  let ?t = "clear_buffer (t\<lparr>m_cursor_col := 0, m_cursor_row := 0,
                 m_fg_color := m_fg_color_init t, m_bg_color := m_bg_color_init t, m_rx_queue := []\<rparr>)"
  from wf have ok: "rb_inv (m_buf t)" "rb_cap (m_buf t) = m_buf_cap t" "0 < m_buf_cap t"
    by (auto simp: term_wf_def term_dims_def term_buf_ok_def)
  have buf: "m_buf ?t = rb_clear (m_buf t)" "m_buf_cap ?t = m_buf_cap t"
    "m_viewport_w ?t = m_viewport_w t" "m_viewport_h ?t = m_viewport_h t"
    "m_viewport_start_line ?t = 0" "m_cursor_row ?t = 0" "m_cursor_col ?t = 0"
    by (simp_all add: clear_buffer_def)
  note clr = rbq.clear_spec [OF ok(1)]
  have rows: "term_rows ?t = []" using clr by (simp add: term_rows_def buf)
  have prem: "rb_inv (m_buf ?t)" "rb_cap (m_buf ?t) = m_buf_cap ?t" "0 < m_buf_cap ?t"
    unfolding buf using clr ok by simp_all
  from push_first_row [OF prem(1) rows prem(2,3)]
  obtain b where b: "push_blank_row ?t = ?t\<lparr>m_buf := b\<rparr>" "rb_inv b" "rb_cap b = m_buf_cap ?t"
    "rb_abs b = [blank_line ?t]"
    by (elim exE conjE) (rule that)
  have "term_wf (?t\<lparr>m_buf := b\<rparr>)"
    using term_parts [OF wf] b(2-4) by (simp add: term_wf_def term_dims_def term_buf_ok_def buf)
  then show ?thesis by (simp only: terminal_reset_def Let_def b(1))
qed

lemma scroll_wf: "term_wf t \<Longrightarrow> term_wf (scroll d t) \<and> term_rows (scroll d t) = term_rows t"
  by (auto simp: scroll_def scroll_up_def scroll_down_def Let_def term_defs)

end
