(* ===== verification/Terminal_Erase.thy ===== *)
theory Terminal_Erase
  imports Terminal_Inv
begin

text \<open>
  What the erase-in-display sequence does.  Each of its loops is characterised on the list of
  rows: which rows change, and when the loop runs past the stored rows, in which case
  \<open>RingBuffer::operator[]\<close> throws.
\<close>

lemma blank_row_from_slot:
  assumes ok: "term_buf_ok t" and i: "i < length (term_rows t)" and c: "c \<le> m_viewport_w t"
  shows "\<exists>b. blank_row_from (rb_slot (m_buf t) i) c t = Inr (t\<lparr>m_buf := b\<rparr>) \<and> rb_inv b \<and>
    rb_cap b = rb_cap (m_buf t) \<and> rb_slot b = rb_slot (m_buf t) \<and>
    rb_abs b = (term_rows t)[i := take c (term_rows t ! i) @ drop c (blank_line t)]"
proof -
  have i': "i < length (rb_abs (m_buf t))" and inv: "rb_inv (m_buf t)"
    and len: "length (rb_abs (m_buf t) ! i) = m_viewport_w t"
    using ok i by (auto simp: term_buf_ok_def term_rows_def)
  have "drop c (blank_line t) = replicate (m_viewport_w t - c) (create_symbol 0 t)"
    by (simp add: blank_line_def)
  with rb_store_slot [OF inv i', of "take c (term_rows t ! i) @ drop c (blank_line t)"] show ?thesis
    by (intro exI [of _ "rb_store (rb_slot (m_buf t) i)
          (take c (term_rows t ! i) @ drop c (blank_line t)) (m_buf t)"])
      (simp add: blank_row_from_def Let_def rb_load_slot [OF i'] len c term_rows_def)
qed

lemma blank_row_until_slot:
  assumes ok: "term_buf_ok t" and i: "i < length (term_rows t)" and c: "c \<le> m_viewport_w t"
  shows "\<exists>b. blank_row_until (rb_slot (m_buf t) i) c t = Inr (t\<lparr>m_buf := b\<rparr>) \<and> rb_inv b \<and>
    rb_cap b = rb_cap (m_buf t) \<and> rb_slot b = rb_slot (m_buf t) \<and>
    rb_abs b = (term_rows t)[i := take c (blank_line t) @ drop c (term_rows t ! i)]"
proof -
  have i': "i < length (rb_abs (m_buf t))" and inv: "rb_inv (m_buf t)"
    and len: "length (rb_abs (m_buf t) ! i) = m_viewport_w t"
    using ok i by (auto simp: term_buf_ok_def term_rows_def)
  have "take c (blank_line t) = replicate c (create_symbol 0 t)"
    using c by (simp add: blank_line_def)
  with rb_store_slot [OF inv i', of "take c (blank_line t) @ drop c (term_rows t ! i)"] show ?thesis
    by (intro exI [of _ "rb_store (rb_slot (m_buf t) i)
          (take c (blank_line t) @ drop c (term_rows t ! i)) (m_buf t)"])
      (simp add: blank_row_until_def Let_def rb_load_slot [OF i'] len c term_rows_def)
qed

lemma term_buf_ok_store:
  "term_buf_ok t \<Longrightarrow> rb_inv b \<Longrightarrow> rb_cap b = rb_cap (m_buf t) \<Longrightarrow>
   rb_abs b = (term_rows t)[i := cells] \<Longrightarrow> length cells = m_viewport_w t \<Longrightarrow> term_buf_ok (t\<lparr>m_buf := b\<rparr>)"
  by (auto simp: term_buf_ok_def dest!: set_update_subset_insert [THEN subsetD])

lemma term_row_length: "term_buf_ok t \<Longrightarrow> i < length (term_rows t) \<Longrightarrow> length (term_rows t ! i) = m_viewport_w t"
  by (auto simp: term_buf_ok_def)

text \<open>One turn of the copying loop: row \<open>r\<close> is copied over row \<open>i\<close>, which is then blanked.\<close>

lemma copy_blank_turn:
  assumes ok: "term_buf_ok t" and i: "i < length (term_rows t)" and r: "r < length (term_rows t)"
  defines "p \<equiv> rb_slot (m_buf t) i"
  shows "\<exists>b. blank_row_from p 0 (t\<lparr>m_buf := rb_store p (rb_load (m_buf t) (rb_slot (m_buf t) r)) (m_buf t)\<rparr>)
      = Inr (t\<lparr>m_buf := b\<rparr>) \<and> rb_inv b \<and> rb_cap b = rb_cap (m_buf t) \<and> rb_slot b = rb_slot (m_buf t) \<and>
        rb_abs b = (term_rows t)[i := blank_line t]"
proof -
  let ?b1 = "rb_store p (rb_load (m_buf t) (rb_slot (m_buf t) r)) (m_buf t)"
  have i': "i < length (rb_abs (m_buf t))" and r': "r < length (rb_abs (m_buf t))" and inv: "rb_inv (m_buf t)"
    using ok i r by (auto simp: term_buf_ok_def term_rows_def)
  note st = rb_store_slot [OF inv i', of "term_rows t ! r", folded p_def]
  have b1: "?b1 = rb_store p (term_rows t ! r) (m_buf t)"
    by (simp add: rb_load_slot [OF r'] term_rows_def)
  have ok1: "term_buf_ok (t\<lparr>m_buf := ?b1\<rparr>)"
    unfolding b1 using st term_row_length [OF ok r]
    by (intro term_buf_ok_store [OF ok, where i = i and cells = "term_rows t ! r"])
      (simp_all add: term_rows_def)
  have slot: "rb_slot (m_buf (t\<lparr>m_buf := ?b1\<rparr>)) i = p"
    unfolding b1 using st by simp (simp add: p_def)
  have len: "i < length (term_rows (t\<lparr>m_buf := ?b1\<rparr>))"
    unfolding b1 using st i by (simp add: term_rows_def)
  from blank_row_from_slot [OF ok1 len, of 0] obtain b where
    "blank_row_from p 0 (t\<lparr>m_buf := ?b1\<rparr>) = Inr (t\<lparr>m_buf := b\<rparr>)" "rb_inv b"
    "rb_cap b = rb_cap ?b1" "rb_slot b = rb_slot ?b1" "rb_abs b = (rb_abs ?b1)[i := blank_line t]"
    unfolding slot by auto
  then show ?thesis using st unfolding b1 by (intro exI [of _ b]) (simp add: term_rows_def)
qed

lemma copy_blank_rows_eq:
  assumes "term_buf_ok t" "i < length (term_rows t)" "r \<le> length (term_rows t)"
    and "p = rb_slot (m_buf t) i"
  shows "if r \<le> lst then
      (if lst < length (term_rows t) then
         \<exists>b. copy_blank_rows p r lst t = Inr (t\<lparr>m_buf := b\<rparr>) \<and> rb_inv b \<and>
           rb_cap b = rb_cap (m_buf t) \<and> rb_abs b = (term_rows t)[i := blank_line t]
       else copy_blank_rows p r lst t = Inl (RangeError (length (term_rows t)) (length (term_rows t))))
    else copy_blank_rows p r lst t = Inr t"
  using assms
proof (induction p r lst t rule: copy_blank_rows.induct)
  case (1 p r lst t)
  show ?case
  proof (cases "r \<le> lst")
    case False
    then show ?thesis by (subst copy_blank_rows.simps) simp
  next
    case True
    show ?thesis
    proof (cases "r < length (term_rows t)")
      case False
      with "1.prems"(3) True show ?thesis
        by (subst (1 2) copy_blank_rows.simps) (simp add: rb_ref_cases term_rows_def)
    next
      case r: True
      then have ref: "rb_ref (m_buf t) r = Inr (rb_slot (m_buf t) r)"
        by (simp add: rb_ref_cases term_rows_def)
      from copy_blank_turn [OF "1.prems"(1,2) r] obtain b where b:
        "blank_row_from p 0 (t\<lparr>m_buf := rb_store p (rb_load (m_buf t) (rb_slot (m_buf t) r)) (m_buf t)\<rparr>)
           = Inr (t\<lparr>m_buf := b\<rparr>)" "rb_inv b" "rb_cap b = rb_cap (m_buf t)" "rb_slot b = rb_slot (m_buf t)"
        "rb_abs b = (term_rows t)[i := blank_line t]"
        unfolding "1.prems"(4) by blast
      have step: "copy_blank_rows p r lst t = copy_blank_rows p (Suc r) lst (t\<lparr>m_buf := b\<rparr>)"
        using True b(1) by (subst copy_blank_rows.simps) (simp add: ref)
      have ok: "term_buf_ok (t\<lparr>m_buf := b\<rparr>)"
        using b by (intro term_buf_ok_store [OF "1.prems"(1), where i = i and cells = "blank_line t"]) simp_all
      have pre: "i < length (term_rows (t\<lparr>m_buf := b\<rparr>))" "Suc r \<le> length (term_rows (t\<lparr>m_buf := b\<rparr>))"
        "p = rb_slot (m_buf (t\<lparr>m_buf := b\<rparr>)) i"
        using "1.prems" r b by simp_all
      note IH = "1.IH" [OF True ref b(1) ok pre]
      show ?thesis
      proof (cases "Suc r \<le> lst")
        case False
        with True have "lst = r" by simp
        moreover have "copy_blank_rows p (Suc r) r (t\<lparr>m_buf := b\<rparr>) = Inr (t\<lparr>m_buf := b\<rparr>)"
          by (subst copy_blank_rows.simps) simp
        ultimately show ?thesis using r b step by auto
      next
        case S: True
        show ?thesis
          using IH S True b(2,3,5) step by (cases "lst < length (term_rows t)") auto
      qed
    qed
  qed
qed

lemma blank_rows_eq:
  assumes "term_buf_ok t" "r \<le> length (term_rows t)"
  shows "if r \<le> lst then
      (if lst < length (term_rows t) then
         \<exists>b. blank_rows r lst t = Inr (t\<lparr>m_buf := b\<rparr>) \<and> rb_inv b \<and> rb_cap b = rb_cap (m_buf t) \<and>
           rb_abs b = take r (term_rows t) @ replicate (Suc lst - r) (blank_line t) @ drop (Suc lst) (term_rows t)
       else blank_rows r lst t = Inl (RangeError (length (term_rows t)) (length (term_rows t))))
    else blank_rows r lst t = Inr t"
  using assms
proof (induction r lst t rule: blank_rows.induct)
  case (1 r lst t)
  show ?case
  proof (cases "r \<le> lst")
    case False
    then show ?thesis by (subst blank_rows.simps) simp
  next
    case True
    show ?thesis
    proof (cases "r < length (term_rows t)")
      case False
      with "1.prems"(2) True show ?thesis
        by (subst (1 2) blank_rows.simps) (simp add: rb_ref_cases term_rows_def)
    next
      case r: True
      then have ref: "rb_ref (m_buf t) r = Inr (rb_slot (m_buf t) r)"
        by (simp add: rb_ref_cases term_rows_def)
      from blank_row_from_slot [OF "1.prems"(1) r, of 0] obtain b where b:
        "blank_row_from (rb_slot (m_buf t) r) 0 t = Inr (t\<lparr>m_buf := b\<rparr>)" "rb_inv b"
        "rb_cap b = rb_cap (m_buf t)" "rb_abs b = (term_rows t)[r := blank_line t]"
        by auto
      have step: "blank_rows r lst t = blank_rows (Suc r) lst (t\<lparr>m_buf := b\<rparr>)"
        using True b(1) by (subst blank_rows.simps) (simp add: ref)
      have ok: "term_buf_ok (t\<lparr>m_buf := b\<rparr>)"
        using b by (intro term_buf_ok_store [OF "1.prems"(1), where i = r and cells = "blank_line t"]) simp_all
      have upd: "take (Suc r) ((term_rows t)[r := blank_line t]) = take r (term_rows t) @ [blank_line t]"
        using r by (simp add: take_Suc_conv_app_nth)
      have rep: "replicate (Suc lst - r) (blank_line t) = blank_line t # replicate (lst - r) (blank_line t)"
        using True by (simp add: Suc_diff_le)
      show ?thesis
      proof (cases "Suc r \<le> lst")
        case False
        with True have "lst = r" by simp
        moreover have "blank_rows (Suc r) r (t\<lparr>m_buf := b\<rparr>) = Inr (t\<lparr>m_buf := b\<rparr>)"
          by (subst blank_rows.simps) simp
        ultimately show ?thesis using r b step by (auto simp: upd_conv_take_nth_drop)
      next
        case S: True
        with "1.IH" [OF True ref b(1) ok] r b True step upd rep show ?thesis
          by (cases "lst < length (term_rows t)") (auto simp: drop_update_cancel)
      qed
    qed
  qed
qed

section \<open>The outcome of each erase command\<close>

text \<open>The viewport is restored before every byte, so it ends at the last row.\<close>

definition viewport_restored :: "terminal \<Rightarrow> bool" where
  "viewport_restored t \<longleftrightarrow> m_viewport_start_line t = length (term_rows t) - m_viewport_h t"

lemma viewport_restored_restore [simp]: "viewport_restored (restore_viewport t)"
  by (simp add: viewport_restored_def restore_viewport_eq)

lemma restore_viewport_idem: "viewport_restored t \<Longrightarrow> restore_viewport t = t"
  by (simp add: viewport_restored_def restore_viewport_eq)

text \<open>
  The updated terminal of an erase: only the buffer is replaced, and its rows are \<open>rows\<close>.
\<close>

definition erased_to :: "terminal \<Rightarrow> symbol list list \<Rightarrow> terminal result \<Rightarrow> bool" where
  "erased_to t rows r \<longleftrightarrow> (\<exists>b. r = Inr (t\<lparr>m_buf := b\<rparr>) \<and> rb_inv b \<and> rb_cap b = rb_cap (m_buf t) \<and> rb_abs b = rows)"

lemma erased_toI:
  "r = Inr (t\<lparr>m_buf := b\<rparr>) \<Longrightarrow> rb_inv b \<Longrightarrow> rb_cap b = rb_cap (m_buf t) \<Longrightarrow> rb_abs b = rows \<Longrightarrow> erased_to t rows r"
  by (auto simp: erased_to_def)

lemma copy_blank_after:
  assumes ok: "term_buf_ok t" and i: "i < length (term_rows t)"
    and b: "rb_inv b" "rb_cap b = rb_cap (m_buf t)" "rb_slot b = rb_slot (m_buf t)"
      "rb_abs b = (term_rows t)[i := cells]" and len: "length cells = m_viewport_w t"
    and r: "r \<le> length (term_rows t)" and p: "p = rb_slot (m_buf t) i"
  shows "if r \<le> lst \<and> length (term_rows t) \<le> lst
    then copy_blank_rows p r lst (t\<lparr>m_buf := b\<rparr>) = Inl (RangeError (length (term_rows t)) (length (term_rows t)))
    else erased_to t ((term_rows t)[i := if r \<le> lst then blank_line t else cells])
           (copy_blank_rows p r lst (t\<lparr>m_buf := b\<rparr>))"
proof -
  have ok': "term_buf_ok (t\<lparr>m_buf := b\<rparr>)"
    by (rule term_buf_ok_store [OF ok b(1,2,4) len])
  have pre: "i < length (term_rows (t\<lparr>m_buf := b\<rparr>))" "r \<le> length (term_rows (t\<lparr>m_buf := b\<rparr>))"
    "p = rb_slot (m_buf (t\<lparr>m_buf := b\<rparr>)) i"
    using i r p b by simp_all
  have len': "rb_size b = length (term_rows t)"
    using arg_cong [OF b(4), of length] by simp
  have rows: "term_rows (t\<lparr>m_buf := b\<rparr>) = (term_rows t)[i := cells]"
    and bl: "blank_line (t\<lparr>m_buf := b\<rparr>) = blank_line t" and mb: "m_buf (t\<lparr>m_buf := b\<rparr>) = b"
    using b by simp_all
  note cb = copy_blank_rows_eq [OF ok' pre, of lst, unfolded rows length_list_update bl mb list_update_overwrite]
  show ?thesis
  proof (cases "r \<le> lst \<and> length (term_rows t) \<le> lst")
    case True
    then have "r \<le> lst" "\<not> lst < length (term_rows t)" by auto
    with cb True show ?thesis by (simp only: if_True if_False simp_thms)
  next
    case False
    show ?thesis
    proof (cases "r \<le> lst")
      case True
      with False have "lst < length (term_rows t)" by simp
      with cb True obtain b' where "copy_blank_rows p r lst (t\<lparr>m_buf := b\<rparr>) = Inr (t\<lparr>m_buf := b'\<rparr>)"
        "rb_inv b'" "rb_cap b' = rb_cap (m_buf t)" "rb_abs b' = (term_rows t)[i := blank_line t]"
        using b(2) by auto
      with False True show ?thesis by (auto simp: erased_to_def)
    next
      case False
      with cb b show ?thesis by (auto simp: erased_to_def)
    qed
  qed
qed

lemma erase_below:
  assumes wf: "term_wf t"
  shows "if m_cursor_row t = m_viewport_h t - 1 then
      erased_to t ((term_rows t)[active_row t :=
        take (m_cursor_col t) (term_rows t ! active_row t) @ drop (m_cursor_col t) (blank_line t)])
        (erase_display 0 t)
    else if length (term_rows t) \<le> m_viewport_start_line t + (m_viewport_h t - 1) then
      erase_display 0 t = Inl (RangeError (length (term_rows t)) (length (term_rows t)))
    else erased_to t ((term_rows t)[active_row t := blank_line t]) (erase_display 0 t)"
proof -
  note act = active_row_less [OF wf]
  have ok: "term_buf_ok t" and col: "m_cursor_col t \<le> m_viewport_w t"
    using term_parts [OF wf] by auto
  have ref: "rb_ref (m_buf t) (active_row t) = Inr (rb_slot (m_buf t) (active_row t))"
    using act by (simp add: rb_ref_cases term_rows_def)
  let ?cells = "take (m_cursor_col t) (term_rows t ! active_row t) @ drop (m_cursor_col t) (blank_line t)"
  obtain b where b: "blank_row_from (rb_slot (m_buf t) (active_row t)) (m_cursor_col t) t = Inr (t\<lparr>m_buf := b\<rparr>)"
    "rb_inv b" "rb_cap b = rb_cap (m_buf t)" "rb_slot b = rb_slot (m_buf t)"
    "rb_abs b = (term_rows t)[active_row t := ?cells]"
    using blank_row_from_slot [OF ok act col] by blast
  have len: "length ?cells = m_viewport_w t"
    using term_row_length [OF ok act] col by simp
  have eq: "erase_display 0 t = copy_blank_rows (rb_slot (m_buf t) (active_row t)) (active_row t + 1)
      (m_viewport_start_line t + (m_viewport_h t - 1)) (t\<lparr>m_buf := b\<rparr>)"
    by (simp add: erase_display_def ref b(1) viewport_to_buf_row_def)
  have cmp: "active_row t + 1 \<le> m_viewport_start_line t + (m_viewport_h t - 1) \<longleftrightarrow> m_cursor_row t \<noteq> m_viewport_h t - 1"
    using wf by (auto simp: active_row_def term_wf_def)
  show ?thesis
    using copy_blank_after [OF ok act b(2-5) len _ refl,
        of "active_row t + 1" "m_viewport_start_line t + (m_viewport_h t - 1)"] act
    unfolding eq cmp by auto
qed

lemma erase_above:
  assumes wf: "term_wf t"
  shows "if active_row t = 0 then
      erase_display 1 t = Inl (RangeError (length (term_rows t)) (length (term_rows t)))
    else erased_to t ((term_rows t)[active_row t :=
        if m_cursor_row t = 0 then take (m_cursor_col t) (blank_line t) @ drop (m_cursor_col t) (term_rows t ! active_row t)
        else blank_line t]) (erase_display 1 t)"
proof -
  note act = active_row_less [OF wf]
  have ok: "term_buf_ok t" and col: "m_cursor_col t \<le> m_viewport_w t" and dims: "term_dims t"
    using term_parts [OF wf] by auto
  have ref: "rb_ref (m_buf t) (active_row t) = Inr (rb_slot (m_buf t) (active_row t))"
    using act by (simp add: rb_ref_cases term_rows_def)
  let ?cells = "take (m_cursor_col t) (blank_line t) @ drop (m_cursor_col t) (term_rows t ! active_row t)"
  obtain b where b: "blank_row_until (rb_slot (m_buf t) (active_row t)) (m_cursor_col t) t = Inr (t\<lparr>m_buf := b\<rparr>)"
    "rb_inv b" "rb_cap b = rb_cap (m_buf t)" "rb_slot b = rb_slot (m_buf t)"
    "rb_abs b = (term_rows t)[active_row t := ?cells]"
    using blank_row_until_slot [OF ok act col] by blast
  have len: "length ?cells = m_viewport_w t"
    using term_row_length [OF ok act] col by simp
  have eq: "erase_display 1 t = copy_blank_rows (rb_slot (m_buf t) (active_row t)) (m_viewport_start_line t)
      (sz_sub (active_row t) 1) (t\<lparr>m_buf := b\<rparr>)"
    by (simp add: erase_display_def ref b(1) viewport_to_buf_row_def)
  have small: "length (term_rows t) < SIZE_MOD"
    using length_rows_le [OF ok] dims by (simp add: term_dims_def)
  have start: "m_viewport_start_line t \<le> length (term_rows t)"
    by (rule order_trans [OF term_parts(3) [OF wf] diff_le_self])
  show ?thesis
  proof (cases "active_row t = 0")
    case True
    then have lst: "sz_sub (active_row t) 1 = SIZE_MOD - 1"
      by (simp add: sz_sub_wrap SIZE_MOD_def)
    have "m_viewport_start_line t \<le> SIZE_MOD - 1 \<and> length (term_rows t) \<le> SIZE_MOD - 1"
      using small start by linarith
    with True show ?thesis
      using copy_blank_after [OF ok act b(2-5) len start refl, of "SIZE_MOD - 1"]
      unfolding eq lst by (simp only: if_True simp_thms)
  next
    case False
    then have lst: "sz_sub (active_row t) 1 = active_row t - 1"
      using act small by (simp add: sz_sub_exact)
    have cmp: "m_viewport_start_line t \<le> active_row t - 1 \<longleftrightarrow> m_cursor_row t \<noteq> 0"
      using False by (auto simp: active_row_def)
    have nle: "\<not> (m_cursor_row t \<noteq> 0 \<and> length (term_rows t) \<le> active_row t - 1)"
      using act by auto
    show ?thesis
      using copy_blank_after [OF ok act b(2-5) len start refl, of "active_row t - 1",
          unfolded cmp if_not_P [OF nle]] False
      unfolding eq lst by (cases "m_cursor_row t = 0") simp_all
  qed
qed

lemma erase_all:
  assumes wf: "term_wf t" and vr: "viewport_restored t"
  shows "if length (term_rows t) < m_viewport_h t then
      erase_display 2 t = Inl (RangeError (length (term_rows t)) (length (term_rows t)))
    else erased_to t (take (length (term_rows t) - m_viewport_h t) (term_rows t) @
        replicate (m_viewport_h t) (blank_line t)) (erase_display 2 t)"
proof -
  have ok: "term_buf_ok t" and h: "0 < m_viewport_h t" using term_parts [OF wf] by auto
  have start: "m_viewport_start_line t = length (term_rows t) - m_viewport_h t"
    using vr by (simp add: viewport_restored_def)
  have eq: "erase_display 2 t = blank_rows (m_viewport_start_line t)
      (m_viewport_start_line t + (m_viewport_h t - 1)) t"
    by (simp add: erase_display_def viewport_to_buf_row_def)
  note br = blank_rows_eq [OF ok, of "m_viewport_start_line t" "m_viewport_start_line t + (m_viewport_h t - 1)"]
  show ?thesis
  proof (cases "length (term_rows t) < m_viewport_h t")
    case True
    then show ?thesis using br h unfolding eq start by (auto split: if_splits)
  next
    case False
    let ?lst = "m_viewport_start_line t + (m_viewport_h t - 1)"
    have lst: "Suc ?lst = length (term_rows t)" "Suc ?lst - m_viewport_start_line t = m_viewport_h t"
      "m_viewport_start_line t \<le> ?lst" "?lst < length (term_rows t)"
      using False h by (simp_all add: start)
    have le: "m_viewport_start_line t \<le> length (term_rows t)" by (simp add: start)
    obtain b where b: "blank_rows (m_viewport_start_line t) ?lst t = Inr (t\<lparr>m_buf := b\<rparr>)" "rb_inv b"
      "rb_cap b = rb_cap (m_buf t)" "rb_abs b = take (m_viewport_start_line t) (term_rows t) @
         replicate (m_viewport_h t) (blank_line t) @ drop (Suc ?lst) (term_rows t)"
      using br [OF le, unfolded if_P [OF lst(3)] if_P [OF lst(4)] lst(2)] by blast
    have "erased_to t (take (m_viewport_start_line t) (term_rows t) @ replicate (m_viewport_h t) (blank_line t))
        (erase_display 2 t)"
      unfolding eq by (rule erased_toI [OF b(1-3)]) (use b(4) lst(1) in simp)
    with False show ?thesis by (simp only: start if_False)
  qed
qed

lemma erased_to_wf:
  assumes "term_wf t" "erased_to t rows (Inr t')" "length rows = length (term_rows t)"
    "\<forall>cells \<in> set rows. length cells = m_viewport_w t"
  shows "term_wf t'"
  using assms by (auto simp: erased_to_def term_wf_def term_buf_ok_def term_dims_def)

lemma erased_to_wf_upd:
  assumes wf: "term_wf t" and "erased_to t ((term_rows t)[i := cells]) (Inr t')"
    and "length cells = m_viewport_w t"
  shows "term_wf t'"
proof (rule erased_to_wf [OF assms(1,2)])
  have "\<forall>x \<in> set (term_rows t). length x = m_viewport_w t"
    using term_parts(2) [OF wf] by (simp add: term_buf_ok_def)
  then show "\<forall>x \<in> set ((term_rows t)[i := cells]). length x = m_viewport_w t"
    using assms(3) by (rule all_set_list_update)
qed simp

lemma erase_display_wf:
  assumes wf: "term_wf t" and vr: "viewport_restored t" and r: "erase_display n t = Inr t'"
    and n: "n = 3 \<longrightarrow> m_cursor_row t = 0"
  shows "term_wf t'"
proof -
  note act = active_row_less [OF wf]
  have ok: "term_buf_ok t" and dims: "term_dims t" and col: "m_cursor_col t \<le> m_viewport_w t"
    using term_parts [OF wf] by auto
  have rl: "length (term_rows t ! active_row t) = m_viewport_w t"
    by (rule term_row_length [OF ok act])
  consider "n = 0" | "n = 1" | "n = 2" | "n = 3" | "n > 3" by linarith
  then show ?thesis
  proof cases
    case 1
    with erase_below [OF wf] r obtain cells where
      "erased_to t ((term_rows t)[active_row t := cells]) (Inr t')" "length cells = m_viewport_w t"
      using rl col by (auto split: if_splits)
    then show ?thesis by (rule erased_to_wf_upd [OF wf])
  next
    case 2
    with erase_above [OF wf] r obtain cells where
      "erased_to t ((term_rows t)[active_row t := cells]) (Inr t')" "length cells = m_viewport_w t"
      using rl col by (auto split: if_splits)
    then show ?thesis by (rule erased_to_wf_upd [OF wf])
  next
    case 3
    with erase_all [OF wf vr] r have er:
      "erased_to t (take (length (term_rows t) - m_viewport_h t) (term_rows t) @
         replicate (m_viewport_h t) (blank_line t)) (Inr t')" and h: "m_viewport_h t \<le> length (term_rows t)"
      by (auto split: if_splits)
    moreover have "\<forall>x \<in> set (take (length (term_rows t) - m_viewport_h t) (term_rows t) @
         replicate (m_viewport_h t) (blank_line t)). length x = m_viewport_w t"
      using ok by (auto simp: term_buf_ok_def dest: in_set_takeD)
    moreover have "length (take (length (term_rows t) - m_viewport_h t) (term_rows t) @
         replicate (m_viewport_h t) (blank_line t)) = length (term_rows t)"
      using h by simp
    ultimately show ?thesis using erased_to_wf [OF wf er] by blast
  next
    case 4
    then have t': "t' = push_blank_row (clear_buffer t)" and row: "m_cursor_row t = 0"
      using r n by (auto simp: erase_display_def)
    have clr: "m_buf (clear_buffer t) = rb_clear (m_buf t)" "m_buf_cap (clear_buffer t) = m_buf_cap t"
      by (simp_all add: clear_buffer_def)
    have bi: "rb_inv (m_buf t)" "rb_cap (m_buf t) = m_buf_cap t" using ok by (auto simp: term_buf_ok_def)
    note cs = rbq.clear_spec [OF bi(1)]
    have pre: "rb_inv (m_buf (clear_buffer t))" "term_rows (clear_buffer t) = []"
      "rb_cap (m_buf (clear_buffer t)) = m_buf_cap (clear_buffer t)" "0 < m_buf_cap (clear_buffer t)"
      using cs bi term_dims_pos [OF dims] by (simp_all add: clr term_rows_def)
    from push_first_row [OF pre] obtain b where b: "t' = (clear_buffer t)\<lparr>m_buf := b\<rparr>" "rb_inv b"
      "rb_cap b = m_buf_cap t" "rb_abs b = [blank_line (clear_buffer t)]"
      unfolding t' clr by blast
    show ?thesis
      using wf row b(2-4) unfolding b(1)
      by (auto simp: term_wf_def term_dims_def term_buf_ok_def clear_buffer_def)
  next
    case 5
    then show ?thesis using r wf by (simp add: erase_display_def)
  qed
qed

end
