(* ===== verification/Terminal_Props.thy ===== *)
theory Terminal_Props
  imports Terminal_Erase
begin

text \<open>
  The properties of the terminal: the states its operations can reach are well formed, every
  byte other than an erase command is handled without a fault, what the erase commands, the
  cursor commands and printable bytes do, and how bytes cross the UART boundary in both
  directions.
\<close>

section \<open>What the operations leave alone\<close>

definition same_io :: "terminal \<Rightarrow> terminal \<Rightarrow> bool" where
  "same_io t t' \<longleftrightarrow> m_rx_queue t' = m_rx_queue t \<and> m_prev_tx_valid t' = m_prev_tx_valid t \<and>
     m_viewport_w t' = m_viewport_w t \<and> m_viewport_h t' = m_viewport_h t \<and> m_buf_cap t' = m_buf_cap t \<and>
     m_fg_color t' = m_fg_color t \<and> m_bg_color t' = m_bg_color t"

lemma same_io_refl [simp]: "same_io t t"
  by (simp add: same_io_def)

lemma same_io_trans: "same_io a b \<Longrightarrow> same_io b c \<Longrightarrow> same_io a c"
  by (simp add: same_io_def)

lemma same_io_upd [simp]:
  "same_io t (t\<lparr>m_buf := b\<rparr>)" "same_io t (t\<lparr>m_cursor_row := r\<rparr>)" "same_io t (t\<lparr>m_cursor_col := c\<rparr>)"
  "same_io t (t\<lparr>m_state := s\<rparr>)" "same_io t (t\<lparr>m_viewport_start_line := v\<rparr>)"
  by (simp_all add: same_io_def)

lemma same_io_small [simp]:
  "same_io t (push_blank_row t)" "same_io t (restore_viewport t)" "same_io t (clear_buffer t)"
  "same_io t (flush_arg t)" "same_io t (push_arg t)" "same_io t (to_ground t)"
  "same_io t (escape_char c t)"
  by (simp_all add: same_io_def push_blank_row_def restore_viewport_def clear_buffer_def flush_arg_def
      push_arg_def to_ground_def escape_char_def)

lemma same_io_until [simp]: "same_io t (push_blank_until n t)"
proof (induction n t rule: push_blank_until.induct)
  case (1 n t)
  then show ?case
    by (subst push_blank_until.simps) (auto intro: same_io_trans [of t "push_blank_row t"])
qed

lemma same_io_newline [simp]: "same_io t (cursor_newline t)"
  using same_io_until [of "t\<lparr>m_cursor_row := m_cursor_row t + 1\<rparr>"]
  by (auto simp: cursor_newline_def Let_def same_io_def restore_viewport_def)

lemma same_io_adv [simp]: "same_io t (cursor_adv t)"
  using same_io_newline [of "t\<lparr>m_cursor_col := 0\<rparr>"]
  by (auto simp: cursor_adv_def Let_def same_io_def)

lemma same_io_csi [simp]:
  "same_io t (csi_A t)" "same_io t (csi_B t)" "same_io t (csi_C t)" "same_io t (csi_D t)" "same_io t (csi_H t)"
proof -
  show "same_io t (csi_A t)" "same_io t (csi_C t)" "same_io t (csi_D t)"
    using same_io_small(4) [of t]
    by (simp_all add: csi_A_def csi_C_def csi_D_def Let_def same_io_def to_ground_def)
  have "same_io t (push_blank_until n ((flush_arg t)\<lparr>m_cursor_row := r\<rparr>))" for n r
    by (rule same_io_trans [OF same_io_small(4) same_io_trans [OF same_io_upd(2) same_io_until]])
  then show "same_io t (csi_B t)"
    by (simp add: csi_B_def Let_def) (simp add: same_io_def to_ground_def)
  have "same_io t (push_blank_until n (flush_arg t))" for n
    by (rule same_io_trans [OF same_io_small(4) same_io_until])
  then show "same_io t (csi_H t)"
    by (simp add: csi_H_def Let_def) (simp add: same_io_def to_ground_def)
qed

lemma same_io_blank_row:
  "blank_row_from p c t = Inr t' \<Longrightarrow> same_io t t'"
  "blank_row_until p c t = Inr t' \<Longrightarrow> same_io t t'"
  by (auto simp: blank_row_from_def blank_row_until_def Let_def split: if_splits)

lemma same_io_copy_blank_rows: "copy_blank_rows p r lst t = Inr t' \<Longrightarrow> same_io t t'"
proof (induction p r lst t arbitrary: t' rule: copy_blank_rows.induct)
  case (1 p r lst t)
  show ?case
  proof (cases "r \<le> lst")
    case False
    with "1.prems" show ?thesis by (subst (asm) copy_blank_rows.simps) simp
  next
    case True
    with "1.prems" obtain q u where
      q: "rb_ref (m_buf t) r = Inr q"
      and u: "blank_row_from p 0 (t\<lparr>m_buf := rb_store p (rb_load (m_buf t) q) (m_buf t)\<rparr>) = Inr u"
      and rest: "copy_blank_rows p (Suc r) lst u = Inr t'"
      by (subst (asm) copy_blank_rows.simps) (auto simp: res_simps)
    from same_io_blank_row(1) [OF u] have "same_io t u"
      by (rule same_io_trans [OF same_io_upd(1)])
    with "1.IH" [OF True q u rest] show ?thesis by (rule same_io_trans [rotated])
  qed
qed

lemma same_io_blank_rows: "blank_rows r lst t = Inr t' \<Longrightarrow> same_io t t'"
proof (induction r lst t arbitrary: t' rule: blank_rows.induct)
  case (1 r lst t)
  show ?case
  proof (cases "r \<le> lst")
    case False
    with "1.prems" show ?thesis by (subst (asm) blank_rows.simps) simp
  next
    case True
    with "1.prems" obtain p u where p: "rb_ref (m_buf t) r = Inr p"
      and u: "blank_row_from p 0 t = Inr u" and rest: "blank_rows (Suc r) lst u = Inr t'"
      by (subst (asm) blank_rows.simps) (auto simp: res_simps)
    from same_io_blank_row(1) [OF u] "1.IH" [OF True p u rest] show ?thesis by (rule same_io_trans)
  qed
qed

lemma same_io_erase: "erase_display n t = Inr t' \<Longrightarrow> same_io t t'"
  by (auto simp: erase_display_def res_simps split: if_splits
      dest!: same_io_blank_row same_io_copy_blank_rows same_io_blank_rows
      intro: same_io_trans [OF same_io_small(3) same_io_small(1)] same_io_trans)

lemma same_io_csi_char: "csi_char c t = Inr t' \<Longrightarrow> same_io t t'"
proof (cases "c = 74")
  case True
  moreover assume "csi_char c t = Inr t'"
  ultimately obtain u where "erase_display (el_or_default (m_ansi_args (flush_arg t)) 0 0) (flush_arg t) = Inr u"
    "t' = to_ground u"
    by (auto simp: csi_char_def csi_J_def Let_def res_simps)
  then show ?thesis
    using same_io_trans [OF same_io_small(4) same_io_erase] same_io_small(6) same_io_trans by blast
next
  case False
  moreover assume "csi_char c t = Inr t'"
  ultimately show ?thesis
    by (auto simp: csi_char_def split: if_splits) (simp add: same_io_def)
qed

lemma same_io_put: "put_symbol c t = Inr t' \<Longrightarrow> same_io t t'"
  by (auto simp: put_symbol_def res_simps Let_def split: if_splits
      intro: same_io_trans [OF same_io_upd(1) same_io_adv])

lemma same_io_ground: "ground_char c t = Inr t' \<Longrightarrow> same_io t t'"
  by (auto simp: ground_char_def Let_def split: if_splits
      intro: same_io_put same_io_trans [OF same_io_upd(3) same_io_newline])

lemma same_io_process: "process_char c t = Inr t' \<Longrightarrow> same_io t t'"
  by (auto simp: process_char_def Let_def split: read_state.splits
      dest!: same_io_ground same_io_csi_char
      intro: same_io_trans [OF same_io_small(2)])

section \<open>One byte, one tick\<close>

text \<open>The parameter an erase command acts on: the first number of the sequence, or 0.\<close>

definition csi_param :: "terminal \<Rightarrow> nat" where
  "csi_param t = el_or_default (m_ansi_args (flush_arg t)) 0 0"

definition erase_byte :: "terminal \<Rightarrow> uart \<Rightarrow> bool" where
  "erase_byte t u \<longleftrightarrow> tx_valid u \<and> \<not> m_prev_tx_valid t \<and> m_state t = ReadState_SEQ_CSI \<and> tx_data u = 74"

definition ed3_displaced :: "terminal \<Rightarrow> uart \<Rightarrow> bool" where
  "ed3_displaced t u \<longleftrightarrow> erase_byte t u \<and> csi_param t = 3 \<and> m_cursor_row t \<noteq> 0"

lemma viewport_restored_flush [simp]: "viewport_restored (flush_arg t) = viewport_restored t"
  by (simp add: viewport_restored_def)

lemma restore_viewport_simps [simp]:
  "m_state (restore_viewport t) = m_state t"
  "m_ansi_args (restore_viewport t) = m_ansi_args t"
  "m_ansi_arg_chars (restore_viewport t) = m_ansi_arg_chars t"
  "m_cursor_row (restore_viewport t) = m_cursor_row t"
  "m_cursor_col (restore_viewport t) = m_cursor_col t"
  "m_viewport_h (restore_viewport t) = m_viewport_h t"
  "m_viewport_w (restore_viewport t) = m_viewport_w t"
  "m_buf_cap (restore_viewport t) = m_buf_cap t"
  "term_rows (restore_viewport t) = term_rows t"
  "blank_line (restore_viewport t) = blank_line t"
  "create_symbol c (restore_viewport t) = create_symbol c t"
  "m_viewport_start_line (restore_viewport t) = length (term_rows t) - m_viewport_h t"
  by (simp_all add: restore_viewport_eq create_symbol_def)

lemma csi_param_restore [simp]: "csi_param (restore_viewport t) = csi_param t"
  by (simp add: csi_param_def flush_arg_def push_arg_def)

lemma process_erase:
  "m_state t = ReadState_SEQ_CSI \<Longrightarrow> process_char 74 t =
     res_bind (erase_display (csi_param t) (flush_arg (restore_viewport t))) (\<lambda>t1. Inr (to_ground t1))"
  using csi_param_restore [of t]
  by (simp add: process_char_def Let_def csi_char_def csi_J_def csi_param_def)

lemma process_char_wf_all:
  assumes wf: "term_wf t" and r: "process_char c t = Inr t'"
    and n: "m_state t = ReadState_SEQ_CSI \<and> c = 74 \<and> csi_param t = 3 \<longrightarrow> m_cursor_row t = 0"
  shows "term_wf t'"
proof (cases "m_state t = ReadState_SEQ_CSI \<and> c = 74")
  case True
  then obtain u where u: "erase_display (csi_param t) (flush_arg (restore_viewport t)) = Inr u" "t' = to_ground u"
    using r by (auto simp: process_erase res_simps)
  have "term_wf u"
    using erase_display_wf [OF _ _ u(1)] restore_viewport_wf [OF wf] n True by simp
  then show ?thesis by (simp add: u(2))
next
  case False
  then show ?thesis using process_char_wf [OF wf, of c] r by auto
qed

lemma feed_rx_same:
  "term_wf (fst (feed_rx t u)) = term_wf t"
  "m_viewport_w (fst (feed_rx t u)) = m_viewport_w t" "m_viewport_h (fst (feed_rx t u)) = m_viewport_h t"
  "m_buf_cap (fst (feed_rx t u)) = m_buf_cap t"
  by (simp_all add: feed_rx_def split: list.split)

lemma per_tick_cases:
  assumes "per_tick_update t u = Inr (t', u')"
  obtains t1 where "if tx_valid u \<and> \<not> m_prev_tx_valid t then process_char (tx_data u) t = Inr t1 else t1 = t"
    and "(t', u') = feed_rx (t1\<lparr>m_prev_tx_valid := tx_valid u\<rparr>) u"
  using assms by (auto simp: per_tick_update_def res_simps split: if_splits)

lemma per_tick_wf:
  assumes wf: "term_wf t" and r: "per_tick_update t u = Inr (t', u')" and n: "\<not> ed3_displaced t u"
  shows "term_wf t' \<and> m_viewport_w t' = m_viewport_w t \<and> m_viewport_h t' = m_viewport_h t \<and> m_buf_cap t' = m_buf_cap t"
proof -
  from r obtain t1 where
    t1: "if tx_valid u \<and> \<not> m_prev_tx_valid t then process_char (tx_data u) t = Inr t1 else t1 = t"
    and t': "(t', u') = feed_rx (t1\<lparr>m_prev_tx_valid := tx_valid u\<rparr>) u"
    by (rule per_tick_cases)
  have "term_wf t1 \<and> same_io t t1"
    using t1 wf n process_char_wf_all [OF wf, of "tx_data u" t1] same_io_process [of "tx_data u" t t1]
    by (auto simp: ed3_displaced_def erase_byte_def split: if_splits)
  moreover have "t' = fst (feed_rx (t1\<lparr>m_prev_tx_valid := tx_valid u\<rparr>) u)"
    using t' by (metis fst_conv)
  ultimately show ?thesis by (simp add: feed_rx_same same_io_def)
qed

section \<open>Sizes\<close>

lemma terminal_reset_dims:
  "m_viewport_w (terminal_reset t) = m_viewport_w t" "m_viewport_h (terminal_reset t) = m_viewport_h t"
  "m_buf_cap (terminal_reset t) = m_buf_cap t"
  by (simp_all add: terminal_reset_def Let_def push_blank_row_def clear_buffer_def)

lemma scroll_dims:
  "m_viewport_w (scroll d t) = m_viewport_w t" "m_viewport_h (scroll d t) = m_viewport_h t"
  "m_buf_cap (scroll d t) = m_buf_cap t"
  by (simp_all add: scroll_def scroll_up_def scroll_down_def Let_def)

section \<open>Printing\<close>

definition printable :: "u8 \<Rightarrow> bool" where
  "printable c \<longleftrightarrow> c \<noteq> 27 \<and> c \<noteq> 13 \<and> c \<noteq> 10 \<and> c \<noteq> 8 \<and> c \<noteq> 9"

lemma process_printable:
  "m_state t = ReadState_GROUND \<Longrightarrow> printable c \<Longrightarrow> process_char c t = put_symbol c (restore_viewport t)"
  by (simp add: process_char_def Let_def ground_char_def printable_def)

text \<open>
  Note: A printable byte in the ground state stores the glyph in the terminal's colours in the
  cell under the cursor and in no other cell, and moves the cursor one column right, or to the
  start of the next row at the right margin, adding a blank row when there is none and the
  buffer has room.
\<close>

theorem print_char_functional:
  assumes wf: "term_wf t" and st: "m_state t = ReadState_GROUND" and c: "printable c"
    and i: "i = length (term_rows t) - m_viewport_h t + m_cursor_row t"
  shows "\<exists>t'. process_char c t = Inr t' \<and>
    term_rows t' = (term_rows t)[i := (term_rows t ! i)[m_cursor_col t := create_symbol c t]] @
      (if m_cursor_col t + 1 = m_viewport_w t \<and> i + 1 = length (term_rows t) \<and> length (term_rows t) < m_buf_cap t
       then [blank_line t] else []) \<and>
    (m_cursor_row t', m_cursor_col t') =
      (if m_cursor_col t + 1 < m_viewport_w t then (m_cursor_row t, m_cursor_col t + 1)
       else (min (m_cursor_row t + 1) (m_viewport_h t - 1), 0))"
proof -
  let ?r = "restore_viewport t"
  have w: "term_wf ?r" by (rule restore_viewport_wf [OF wf])
  have act: "active_row ?r = i" by (simp add: active_row_def i)
  from put_symbol_eq [OF w, of c] obtain b where b: "put_symbol c ?r = Inr (cursor_adv (?r\<lparr>m_buf := b\<rparr>))"
    "term_wf (?r\<lparr>m_buf := b\<rparr>)"
    "rb_abs b = (term_rows t)[i := (term_rows t ! i)[m_cursor_col t := create_symbol c t]]"
    unfolding act by auto
  let ?s = "?r\<lparr>m_buf := b\<rparr>"
  have eq: "process_char c t = Inr (cursor_adv ?s)" using b(1) process_printable [OF st c] by simp
  have w0: "term_wf (?s\<lparr>m_cursor_col := 0\<rparr>)" using term_wf_col [OF b(2), of 0] term_parts(6) [OF wf] by simp
  from cursor_newline_eq [OF w0] obtain b' v where b':
    "cursor_newline (?s\<lparr>m_cursor_col := 0\<rparr>) = ?s\<lparr>m_cursor_col := 0, m_buf := b', m_viewport_start_line := v,
       m_cursor_row := min (m_cursor_row t + 1) (m_viewport_h t - 1)\<rparr>"
    "rb_abs b' = newline_rows (?s\<lparr>m_cursor_col := 0\<rparr>)"
    by auto
  have nr: "newline_rows (?s\<lparr>m_cursor_col := 0\<rparr>) = rb_abs b @
      (if i + 1 = length (term_rows t) \<and> length (term_rows t) < m_buf_cap t then [blank_line t] else [])"
    using arg_cong [OF b(3), of length] act by (simp add: newline_rows_def)
  have col: "m_cursor_col t < m_viewport_w t" by (rule term_parts(4) [OF wf])
  show ?thesis
  proof (cases "m_cursor_col t + 1 < m_viewport_w t")
    case True
    then show ?thesis by (simp add: eq cursor_adv_def Let_def b(3))
  next
    case False
    with col have "cursor_adv ?s = cursor_newline (?s\<lparr>m_cursor_col := 0\<rparr>)" "m_cursor_col t + 1 = m_viewport_w t"
      by (simp_all add: cursor_adv_def Let_def)
    then show ?thesis by (simp add: eq b' nr b(3))
  qed
qed

theorem print_char_functional_witness:
  "\<exists>t'. process_char 65 (terminal_new 80 25 256 7 1) = Inr t' \<and> m_cursor_col t' = 1 \<and>
    term_rows t' ! 0 ! 0 = \<lparr>glyph = 65, fg_color = 7, bg_color = 1\<rparr>"
proof -
  have wf: "term_wf (terminal_new 80 25 256 7 1)"
    and rows: "term_rows (terminal_new 80 25 256 7 1) = [replicate 80 \<lparr>glyph = 0, fg_color = 7, bg_color = 1\<rparr>]"
    using terminal_new_wf [of 80 25 256 7 1] by (auto simp: SIZE_MOD_def)
  have fields: "m_state (terminal_new 80 25 256 7 1) = ReadState_GROUND" "m_cursor_col (terminal_new 80 25 256 7 1) = 0"
    "m_cursor_row (terminal_new 80 25 256 7 1) = 0" "m_viewport_w (terminal_new 80 25 256 7 1) = 80"
    "m_viewport_h (terminal_new 80 25 256 7 1) = 25"
    "create_symbol 65 (terminal_new 80 25 256 7 1) = \<lparr>glyph = 65, fg_color = 7, bg_color = 1\<rparr>"
    by (simp_all add: terminal_new_def push_blank_row_def create_symbol_def)
  show ?thesis
    using print_char_functional [OF wf fields(1), of 65 0] by (auto simp: printable_def rows fields)
qed

section \<open>Erasing\<close>

lemma erase_outcome:
  assumes "m_state t = ReadState_SEQ_CSI"
    and "erased_to (flush_arg (restore_viewport t)) rows (erase_display (csi_param t) (flush_arg (restore_viewport t)))"
  shows "\<exists>t'. process_char 74 t = Inr t' \<and> term_rows t' = rows \<and> m_state t' = ReadState_GROUND \<and>
    m_cursor_row t' = m_cursor_row t \<and> m_cursor_col t' = m_cursor_col t"
  using assms by (auto simp: process_erase erased_to_def to_ground_def)

text \<open>
  Note: Erase-to-end-of-screen (parameter 0 or none) with the cursor above the last viewport row
  and a full screen of rows blanks the whole row of the cursor, also left of it, and leaves
  every row below it as it was: the loop assigns each lower row to the reference of the
  cursor's row instead of rebinding it.
\<close>

theorem ed0_wipes_only_cursor_row:
  assumes wf: "term_wf t" and st: "m_state t = ReadState_SEQ_CSI" and p: "csi_param t = 0"
    and above: "m_cursor_row t + 1 < m_viewport_h t" and rows: "m_viewport_h t \<le> length (term_rows t)"
  shows "\<exists>t'. process_char 74 t = Inr t' \<and>
    term_rows t' = (term_rows t)[length (term_rows t) - m_viewport_h t + m_cursor_row t := blank_line t]"
proof -
  let ?s = "flush_arg (restore_viewport t)"
  have w: "term_wf ?s" using restore_viewport_wf [OF wf] by simp
  have act: "active_row ?s = length (term_rows t) - m_viewport_h t + m_cursor_row t"
    by (simp add: active_row_def)
  have "erased_to ?s ((term_rows t)[active_row ?s := blank_line t]) (erase_display 0 ?s)"
    using erase_below [OF w] above rows by (simp split: if_splits)
  with erase_outcome [OF st, unfolded p] show ?thesis unfolding act by blast
qed

text \<open>A terminal of two rows by two columns with both rows in use, used by the witnesses below.\<close>

definition demo_term :: "nat \<Rightarrow> nat list \<Rightarrow> terminal" where
  "demo_term row args = (push_blank_row (terminal_new 2 2 3 7 1))
     \<lparr>m_state := ReadState_SEQ_CSI, m_ansi_args := args, m_cursor_row := row\<rparr>"

lemma demo_term_facts:
  assumes "row < 2"
  shows "term_wf (demo_term row args)" "length (term_rows (demo_term row args)) = 2"
    "m_viewport_h (demo_term row args) = 2" "m_cursor_row (demo_term row args) = row"
    "m_state (demo_term row args) = ReadState_SEQ_CSI"
    "csi_param (demo_term row args) = el_or_default args 0 0"
proof -
  have wf: "term_wf (terminal_new 2 2 3 7 1)"
    and rows: "term_rows (terminal_new 2 2 3 7 1) = [replicate 2 \<lparr>glyph = 0, fg_color = 7, bg_color = 1\<rparr>]"
    using terminal_new_wf [of 2 2 3 7 1] by (auto simp: SIZE_MOD_def)
  have f: "m_viewport_w (terminal_new 2 2 3 7 1) = 2" "m_viewport_h (terminal_new 2 2 3 7 1) = 2"
    "m_buf_cap (terminal_new 2 2 3 7 1) = 3" "m_cursor_col (terminal_new 2 2 3 7 1) = 0"
    "m_viewport_start_line (terminal_new 2 2 3 7 1) = 0" "m_ansi_arg_chars (terminal_new 2 2 3 7 1) = []"
    by (simp_all add: terminal_new_def push_blank_row_def)
  obtain b where b: "push_blank_row (terminal_new 2 2 3 7 1) = (terminal_new 2 2 3 7 1)\<lparr>m_buf := b\<rparr>" "rb_inv b"
    "rb_cap b = 3" "rb_abs b = term_rows (terminal_new 2 2 3 7 1) @ [blank_line (terminal_new 2 2 3 7 1)]"
    using push_blank_row_eq [OF term_parts(2) [OF wf]] rb_full_rows [OF term_parts(2) [OF wf]] by (auto simp: f rows)
  show "term_wf (demo_term row args)" "length (term_rows (demo_term row args)) = 2"
    "m_viewport_h (demo_term row args) = 2" "m_cursor_row (demo_term row args) = row"
    "m_state (demo_term row args) = ReadState_SEQ_CSI"
    "csi_param (demo_term row args) = el_or_default args 0 0"
    using assms b wf
    by (simp_all add: demo_term_def term_wf_def term_dims_def term_buf_ok_def f rows csi_param_def flush_arg_def)
qed

theorem ed0_wipes_only_cursor_row_witness:
  "\<exists>t'. process_char 74 (demo_term 0 []) = Inr t' \<and>
     term_rows t' = (term_rows (demo_term 0 []))[0 := blank_line (demo_term 0 [])]"
  using ed0_wipes_only_cursor_row [of "demo_term 0 []"] demo_term_facts [of 0 "[]"]
  by (simp add: el_or_default_def)

text \<open>
  Note: While fewer rows are stored than the viewport shows, the erase commands throw
  \<open>std::range_error\<close> out of the tick: erase-below unless the cursor is on the viewport's last
  row, erase-above with the cursor on the first row (the bound \<open>active_row() - 1\<close> wraps
  around), and erase-screen always.
\<close>

theorem erase_faults_on_short_buffer:
  assumes wf: "term_wf t" and st: "m_state t = ReadState_SEQ_CSI" and short: "length (term_rows t) < m_viewport_h t"
    and p: "csi_param t = 0 \<and> m_cursor_row t + 1 < m_viewport_h t \<or>
            csi_param t = 1 \<and> m_cursor_row t = 0 \<or> csi_param t = 2"
  shows "process_char 74 t = Inl (RangeError (length (term_rows t)) (length (term_rows t)))"
proof -
  let ?s = "flush_arg (restore_viewport t)"
  have w: "term_wf ?s" using restore_viewport_wf [OF wf] by simp
  have "erase_display (csi_param t) ?s = Inl (RangeError (length (term_rows t)) (length (term_rows t)))"
    using p
  proof (elim disjE conjE)
    assume "csi_param t = 0" "m_cursor_row t + 1 < m_viewport_h t"
    then show ?thesis using erase_below [OF w] short by (simp split: if_splits)
  next
    assume "csi_param t = 1" "m_cursor_row t = 0"
    then show ?thesis using erase_above [OF w] short by (simp add: active_row_def split: if_splits)
  next
    assume "csi_param t = 2"
    then show ?thesis using erase_all [OF w] short by (simp split: if_splits)
  qed
  then show ?thesis by (simp add: process_erase [OF st])
qed

theorem erase_faults_on_short_buffer_witness:
  "process_char 74 ((terminal_new 80 25 256 7 1)\<lparr>m_state := ReadState_SEQ_CSI, m_ansi_args := [2]\<rparr>)
     = Inl (RangeError 1 1)"
proof -
  let ?t = "(terminal_new 80 25 256 7 1)\<lparr>m_state := ReadState_SEQ_CSI, m_ansi_args := [2]\<rparr>"
  have "term_wf ?t" "length (term_rows ?t) = 1"
    using terminal_new_wf [of 80 25 256 7 1] by (simp_all add: SIZE_MOD_def)
  moreover have "m_viewport_h ?t = 25" "csi_param ?t = 2"
    by (simp_all add: terminal_new_def push_blank_row_def csi_param_def flush_arg_def el_or_default_def)
  ultimately show ?thesis using erase_faults_on_short_buffer [of ?t] by simp
qed

text \<open>
  Note: Erase-screen (parameter 2) with at least a screenful of rows blanks exactly the rows of
  the viewport, keeps the scrollback above it and does not move the cursor.
\<close>

theorem ed2_clears_viewport:
  assumes wf: "term_wf t" and st: "m_state t = ReadState_SEQ_CSI" and p: "csi_param t = 2"
    and rows: "m_viewport_h t \<le> length (term_rows t)"
  shows "\<exists>t'. process_char 74 t = Inr t' \<and>
    term_rows t' = take (length (term_rows t) - m_viewport_h t) (term_rows t) @ replicate (m_viewport_h t) (blank_line t) \<and>
    m_cursor_row t' = m_cursor_row t \<and> m_cursor_col t' = m_cursor_col t"
proof -
  let ?s = "flush_arg (restore_viewport t)"
  have w: "term_wf ?s" using restore_viewport_wf [OF wf] by simp
  have "erased_to ?s (take (length (term_rows t) - m_viewport_h t) (term_rows t) @
      replicate (m_viewport_h t) (blank_line t)) (erase_display 2 ?s)"
    using erase_all [OF w] rows by (simp split: if_splits)
  with erase_outcome [OF st, unfolded p] show ?thesis by blast
qed

theorem ed2_clears_viewport_witness:
  "\<exists>t'. process_char 74 (demo_term 1 [2]) = Inr t' \<and>
     term_rows t' = replicate 2 (blank_line (demo_term 1 [2])) \<and> m_cursor_row t' = 1"
  using ed2_clears_viewport [of "demo_term 1 [2]"] demo_term_facts [of 1 "[2]"]
  by (auto simp: el_or_default_def)

text \<open>
  Note: Erase-scrollback (parameter 3) leaves one blank row but does not move the cursor, so
  with the cursor below the first row the next printable byte indexes a row that is no longer
  stored and throws.
\<close>

theorem ed3_strands_cursor:
  assumes wf: "term_wf t" and st: "m_state t = ReadState_SEQ_CSI" and p: "csi_param t = 3"
    and row: "0 < m_cursor_row t" and c: "printable c"
  shows "\<exists>t'. process_char 74 t = Inr t' \<and> length (term_rows t') = 1 \<and> m_cursor_row t' = m_cursor_row t \<and>
    process_char c t' = Inl (RangeError (m_cursor_row t) 1)"
proof -
  let ?s = "clear_buffer (flush_arg (restore_viewport t))"
  have ok: "term_buf_ok t" and dims: "term_dims t" using term_parts [OF wf] by auto
  have clr: "m_buf ?s = rb_clear (m_buf t)" "m_buf_cap ?s = m_buf_cap t" "m_cursor_row ?s = m_cursor_row t"
    "m_viewport_h ?s = m_viewport_h t"
    by (simp_all add: clear_buffer_def restore_viewport_eq)
  have bi: "rb_inv (m_buf t)" "rb_cap (m_buf t) = m_buf_cap t" using ok by (auto simp: term_buf_ok_def)
  have pre: "rb_inv (m_buf ?s)" "term_rows ?s = []" "rb_cap (m_buf ?s) = m_buf_cap ?s" "0 < m_buf_cap ?s"
    using rbq.clear_spec [OF bi(1)] bi term_dims_pos [OF dims] by (simp_all add: clr term_rows_def)
  from push_first_row [OF pre] obtain b where b: "push_blank_row ?s = ?s\<lparr>m_buf := b\<rparr>" "rb_abs b = [blank_line ?s]"
    by blast
  let ?t' = "to_ground (?s\<lparr>m_buf := b\<rparr>)"
  have h: "0 < m_viewport_h t" by (rule term_parts(5) [OF wf])
  have step: "process_char 74 t = Inr ?t'"
    by (simp add: process_erase [OF st] p erase_display_def b(1))
  have t': "term_rows ?t' = [blank_line ?s]" "m_cursor_row ?t' = m_cursor_row t" "m_viewport_h ?t' = m_viewport_h t"
    "m_state ?t' = ReadState_GROUND"
    using b(2) by (simp_all add: to_ground_def clr)
  have "rb_ref (m_buf (restore_viewport ?t')) (active_row (restore_viewport ?t')) = Inl (RangeError (m_cursor_row t) 1)"
  proof -
    have "m_buf (restore_viewport ?t') = b" by (simp add: restore_viewport_eq to_ground_def)
    moreover have "active_row (restore_viewport ?t') = m_cursor_row t"
      using h by (simp add: active_row_def t')
    ultimately show ?thesis using b(2) row by (simp add: rb_ref_cases)
  qed
  then have "process_char c ?t' = Inl (RangeError (m_cursor_row t) 1)"
    by (simp add: process_printable [OF t'(4) c] put_symbol_def)
  then show ?thesis using step t' by (intro exI [of _ ?t']) simp
qed

theorem ed3_strands_cursor_witness:
  "\<exists>t'. process_char 74 (demo_term 1 [3]) = Inr t' \<and> process_char 65 t' = Inl (RangeError 1 1)"
  using ed3_strands_cursor [of "demo_term 1 [3]" 65] demo_term_facts [of 1 "[3]"]
  by (auto simp: el_or_default_def printable_def)

section \<open>Numbers and cursor addressing\<close>

definition is_digit :: "u8 \<Rightarrow> bool" where
  "is_digit c \<longleftrightarrow> 48 \<le> c \<and> c \<le> 57"

fun dec_value :: "nat \<Rightarrow> u8 list \<Rightarrow> nat" where
  "dec_value v [] = v"
| "dec_value v (c # cs) = dec_value (10 * v + (unat c - 48)) cs"

lemma dec_value_mono: "v \<le> dec_value v cs"
proof (induction cs arbitrary: v)
  case (Cons c cs)
  have "v \<le> 10 * v + (unat c - 48)" by simp
  also have "\<dots> \<le> dec_value (10 * v + (unat c - 48)) cs" by (rule Cons.IH)
  finally show ?case by simp
qed simp

lemma parse_loop_dec:
  "\<forall>c \<in> set cs. is_digit c \<Longrightarrow> dec_value v cs < SIZE_MOD \<Longrightarrow> parse_loop v cs = dec_value v cs"
proof (induction cs arbitrary: v)
  case (Cons c cs)
  have d: "48 \<le> unat c"
    using Cons.prems(1) by (simp add: is_digit_def word_le_nat_alt)
  have "unat c < SIZE_MOD" using unsigned_less [of c, where 'a = nat] by (simp add: SIZE_MOD_def)
  then have sub: "sz_sub (unat c) 48 = unat c - 48" by (rule sz_sub_exact [OF d])
  have "10 * v + (unat c - 48) < SIZE_MOD"
    using dec_value_mono [of "10 * v + (unat c - 48)" cs] Cons.prems(2) by simp
  with Cons sub show ?case by simp
qed simp

fun process_chars :: "u8 list \<Rightarrow> terminal \<Rightarrow> terminal result" where
  "process_chars [] t = Inr t"
| "process_chars (c # cs) t = res_bind (process_char c t) (process_chars cs)"

lemma process_chars_append:
  "process_chars (xs @ ys) t = res_bind (process_chars xs t) (process_chars ys)"
proof (induction xs arbitrary: t)
  case (Cons x xs)
  have "process_chars (xs @ ys) = (\<lambda>t. res_bind (process_chars xs t) (process_chars ys))"
    by (rule ext) (rule Cons.IH)
  then show ?case by (simp add: res_bind_assoc)
qed simp

lemma viewport_restored_ctl [simp]:
  "viewport_restored (t\<lparr>m_state := s\<rparr>) = viewport_restored t"
  "viewport_restored (t\<lparr>m_ansi_args := a\<rparr>) = viewport_restored t"
  "viewport_restored (t\<lparr>m_ansi_arg_chars := q\<rparr>) = viewport_restored t"
  by (simp_all add: viewport_restored_def)

lemma process_escape:
  assumes "m_state t = ReadState_GROUND"
  shows "process_chars [27, 91] t = Inr ((restore_viewport t)\<lparr>m_ansi_args := [], m_ansi_arg_chars := [],
    m_state := ReadState_SEQ_CSI\<rparr>)"
proof -
  let ?e = "(restore_viewport t)\<lparr>m_state := ReadState_ESCAPE\<rparr>"
  have "process_char 27 t = Inr ?e"
    using assms by (simp add: process_char_def Let_def ground_char_def)
  moreover have "restore_viewport ?e = ?e" by (rule restore_viewport_idem) simp
  then have "process_char 91 ?e = Inr (escape_char 91 ?e)"
    by (simp add: process_char_def Let_def)
  ultimately show ?thesis by (simp add: escape_char_def)
qed

lemma process_csi_char:
  "m_state t = ReadState_SEQ_CSI \<Longrightarrow> viewport_restored t \<Longrightarrow> process_char c t = csi_char c t"
  by (simp add: process_char_def Let_def restore_viewport_idem)

lemma process_digits:
  "m_state t = ReadState_SEQ_CSI \<Longrightarrow> viewport_restored t \<Longrightarrow> \<forall>c \<in> set ds. is_digit c \<Longrightarrow>
   process_chars ds t = Inr (t\<lparr>m_ansi_arg_chars := m_ansi_arg_chars t @ ds\<rparr>)"
proof (induction ds arbitrary: t)
  case (Cons d ds)
  then have "process_char d t = Inr (t\<lparr>m_ansi_arg_chars := m_ansi_arg_chars t @ [d]\<rparr>)"
    by (simp add: process_csi_char csi_char_def is_digit_def)
  with Cons show ?case by simp
qed simp

lemma process_two_args:
  assumes st: "m_state t = ReadState_GROUND"
    and ds: "\<forall>c \<in> set ds1. is_digit c" "\<forall>c \<in> set ds2. is_digit c" "ds2 \<noteq> []"
    and v: "dec_value 0 ds1 < SIZE_MOD" "dec_value 0 ds2 < SIZE_MOD"
  shows "\<exists>s. process_chars ([27, 91] @ ds1 @ [59] @ ds2) t = Inr s \<and> s = (restore_viewport t)\<lparr>
      m_ansi_args := [dec_value 0 ds1], m_ansi_arg_chars := ds2, m_state := ReadState_SEQ_CSI\<rparr> \<and>
    flush_arg s = s\<lparr>m_ansi_args := [dec_value 0 ds1, dec_value 0 ds2], m_ansi_arg_chars := []\<rparr>"
proof -
  let ?e = "(restore_viewport t)\<lparr>m_ansi_args := [], m_ansi_arg_chars := [], m_state := ReadState_SEQ_CSI\<rparr>"
  let ?s1 = "?e\<lparr>m_ansi_arg_chars := ds1\<rparr>"
  let ?s2 = "?e\<lparr>m_ansi_args := [dec_value 0 ds1]\<rparr>"
  let ?s = "?e\<lparr>m_ansi_args := [dec_value 0 ds1], m_ansi_arg_chars := ds2\<rparr>"
  have 1: "process_chars ds1 ?e = Inr ?s1"
    using process_digits [of ?e ds1] ds(1) by simp
  have "process_char 59 ?s1 = csi_char 59 ?s1"
    by (rule process_csi_char) simp_all
  also have "\<dots> = Inr ?s2"
    using parse_loop_dec [OF ds(1) v(1)] by (simp add: csi_char_def push_arg_def parse_as_uint_def)
  finally have 2: "process_chars [59] ?s1 = Inr ?s2" by simp
  have 3: "process_chars ds2 ?s2 = Inr ?s"
    using process_digits [of ?s2 ds2] ds(2) by simp
  have "process_chars ([27, 91] @ ds1 @ [59] @ ds2) t = Inr ?s"
    unfolding process_chars_append process_escape [OF st] res_bind.simps 1 2 3 by (rule refl)
  moreover have "flush_arg ?s = ?s\<lparr>m_ansi_args := [dec_value 0 ds1, dec_value 0 ds2], m_ansi_arg_chars := []\<rparr>"
    using parse_loop_dec [OF ds(2) v(2)] ds(3) by (simp add: flush_arg_def push_arg_def parse_as_uint_def)
  ultimately show ?thesis by (intro exI [of _ ?s]) simp
qed

lemma csi_H_fields:
  assumes wf: "term_wf s"
  defines "n \<equiv> sz_sub (el_or_default (m_ansi_args (flush_arg s)) 0 1) 1"
    and "m \<equiv> sz_sub (el_or_default (m_ansi_args (flush_arg s)) 1 1) 1"
  shows "m_cursor_row (csi_H s) = min n (m_viewport_h s - 1) \<and>
    m_cursor_col (csi_H s) = min m (m_viewport_w s - 1) \<and> m_state (csi_H s) = ReadState_GROUND \<and>
    (\<exists>k. term_rows (csi_H s) = term_rows s @ replicate k (blank_line s))"
proof -
  let ?r = "min n (m_viewport_h s - 1)"
  have r: "?r < m_viewport_h s" using term_parts(5) [OF wf] by simp
  obtain b where "push_blank_until (m_viewport_start_line (flush_arg s) + ?r + 1) (flush_arg s) = (flush_arg s)\<lparr>m_buf := b\<rparr>"
    "rb_abs b = term_rows s @ replicate (m_viewport_start_line s + ?r + 1 - length (term_rows s)) (blank_line s)"
    using grow_to_row [of "flush_arg s" ?r] term_parts [OF wf] r by auto
  then show ?thesis
    by (auto simp: csi_H_def Let_def viewport_to_buf_row_def to_ground_def n_def m_def)
qed

text \<open>
  Note: The bytes \<open>ESC [ n ; m H\<close>, with \<open>n\<close> and \<open>m\<close> any decimal numerals of at least 1, move the
  cursor to row \<open>n\<close> and column \<open>m\<close> of the viewport (counted from 1), clamped to its last row
  and column, and only append blank rows to the buffer.
\<close>

theorem cursor_position_addresses_cell:
  assumes wf: "term_wf t" and st: "m_state t = ReadState_GROUND"
    and ds: "\<forall>c \<in> set ds1. is_digit c" "\<forall>c \<in> set ds2. is_digit c" "ds2 \<noteq> []"
    and v: "1 \<le> dec_value 0 ds1" "dec_value 0 ds1 < SIZE_MOD" "1 \<le> dec_value 0 ds2" "dec_value 0 ds2 < SIZE_MOD"
  shows "\<exists>t' k. process_chars ([27, 91] @ ds1 @ [59] @ ds2 @ [72]) t = Inr t' \<and> m_state t' = ReadState_GROUND \<and>
    m_cursor_row t' = min (dec_value 0 ds1 - 1) (m_viewport_h t - 1) \<and>
    m_cursor_col t' = min (dec_value 0 ds2 - 1) (m_viewport_w t - 1) \<and>
    term_rows t' = term_rows t @ replicate k (blank_line t)"
proof -
  from process_two_args [OF st ds v(2,4)] obtain s where
    s: "process_chars ([27, 91] @ ds1 @ [59] @ ds2) t = Inr s"
    "s = (restore_viewport t)\<lparr>m_ansi_args := [dec_value 0 ds1], m_ansi_arg_chars := ds2, m_state := ReadState_SEQ_CSI\<rparr>"
    "flush_arg s = s\<lparr>m_ansi_args := [dec_value 0 ds1, dec_value 0 ds2], m_ansi_arg_chars := []\<rparr>"
    by blast
  have wfs: "term_wf s" using restore_viewport_wf [OF wf] by (simp add: s(2))
  have "process_char 72 s = Inr (csi_H s)"
    using process_csi_char [of s 72] by (simp add: s(2) csi_char_def)
  then have run: "process_chars ([27, 91] @ ds1 @ [59] @ ds2 @ [72]) t = Inr (csi_H s)"
    using process_chars_append [of "[27, 91] @ ds1 @ [59] @ ds2" "[72]" t] s(1) by simp
  have arg: "el_or_default (m_ansi_args (flush_arg s)) 0 1 = dec_value 0 ds1"
    "el_or_default (m_ansi_args (flush_arg s)) 1 1 = dec_value 0 ds2"
    by (simp_all add: s(3) el_or_default_def)
  have sub: "sz_sub (dec_value 0 ds1) 1 = dec_value 0 ds1 - 1" "sz_sub (dec_value 0 ds2) 1 = dec_value 0 ds2 - 1"
    using v by (simp_all add: sz_sub_exact)
  have geo: "m_viewport_h s = m_viewport_h t" "m_viewport_w s = m_viewport_w t" "term_rows s = term_rows t"
    "blank_line s = blank_line t"
    by (simp_all add: s(2))
  show ?thesis
    using csi_H_fields [OF wfs, unfolded arg sub geo] run by blast
qed

theorem cursor_position_addresses_cell_witness:
  "\<exists>t'. process_chars [27, 91, 49, 50, 59, 57, 57, 72] (terminal_new 80 25 256 7 1) = Inr t' \<and>
     m_cursor_row t' = 11 \<and> m_cursor_col t' = 79"
proof -
  have wf: "term_wf (terminal_new 80 25 256 7 1)"
    using terminal_new_wf [of 80 25 256 7 1] by (simp add: SIZE_MOD_def)
  have f: "m_state (terminal_new 80 25 256 7 1) = ReadState_GROUND" "m_viewport_h (terminal_new 80 25 256 7 1) = 25"
    "m_viewport_w (terminal_new 80 25 256 7 1) = 80"
    by (simp_all add: terminal_new_def push_blank_row_def)
  show ?thesis
    using cursor_position_addresses_cell [OF wf f(1), of "[49, 50]" "[57, 57]"]
    by (auto simp: is_digit_def SIZE_MOD_def f)
qed

text \<open>
  Note: A parameter of 0 in the same sequence, which terminals read as 1, wraps around in
  \<open>el_or_default(...) - 1\<close> and sends the cursor to the last row and column instead.
\<close>

theorem cursor_position_zero_wraps:
  assumes wf: "term_wf t" and st: "m_state t = ReadState_GROUND" and dims: "m_viewport_h t < SIZE_MOD" "m_viewport_w t < SIZE_MOD"
  shows "\<exists>t'. process_chars [27, 91, 48, 59, 48, 72] t = Inr t' \<and>
    m_cursor_row t' = m_viewport_h t - 1 \<and> m_cursor_col t' = m_viewport_w t - 1"
proof -
  have dig: "\<forall>c \<in> set [48]. is_digit c" by (simp add: is_digit_def)
  from process_two_args [OF st dig dig] obtain s where
    s: "process_chars [27, 91, 48, 59, 48] t = Inr s"
    "s = (restore_viewport t)\<lparr>m_ansi_args := [0], m_ansi_arg_chars := [48], m_state := ReadState_SEQ_CSI\<rparr>"
    "flush_arg s = s\<lparr>m_ansi_args := [0, 0], m_ansi_arg_chars := []\<rparr>"
    by (auto simp: SIZE_MOD_def)
  have wfs: "term_wf s" using restore_viewport_wf [OF wf] by (simp add: s(2))
  have "process_char 72 s = Inr (csi_H s)"
    using process_csi_char [of s 72] by (simp add: s(2) csi_char_def)
  then have run: "process_chars [27, 91, 48, 59, 48, 72] t = Inr (csi_H s)"
    using process_chars_append [of "[27, 91, 48, 59, 48]" "[72]" t] s(1) by simp
  have arg: "el_or_default (m_ansi_args (flush_arg s)) 0 1 = 0" "el_or_default (m_ansi_args (flush_arg s)) 1 1 = 0"
    by (simp_all add: s(3) el_or_default_def)
  have sub: "sz_sub 0 1 = SIZE_MOD - 1" by (simp add: sz_sub_wrap SIZE_MOD_def)
  have geo: "m_viewport_h s = m_viewport_h t" "m_viewport_w s = m_viewport_w t"
    by (simp_all add: s(2))
  have "min (SIZE_MOD - 1) (m_viewport_h t - 1) = m_viewport_h t - 1"
    "min (SIZE_MOD - 1) (m_viewport_w t - 1) = m_viewport_w t - 1"
    using dims by (simp_all add: min_def)
  with csi_H_fields [OF wfs, unfolded arg sub geo] run show ?thesis by auto
qed

theorem cursor_position_zero_wraps_witness:
  "\<exists>t'. process_chars [27, 91, 48, 59, 48, 72] (terminal_new 80 25 256 7 1) = Inr t' \<and>
     m_cursor_row t' = 24 \<and> m_cursor_col t' = 79"
proof -
  have wf: "term_wf (terminal_new 80 25 256 7 1)"
    using terminal_new_wf [of 80 25 256 7 1] by (simp add: SIZE_MOD_def)
  have f: "m_state (terminal_new 80 25 256 7 1) = ReadState_GROUND" "m_viewport_h (terminal_new 80 25 256 7 1) = 25"
    "m_viewport_w (terminal_new 80 25 256 7 1) = 80"
    by (simp_all add: terminal_new_def push_blank_row_def)
  show ?thesis using cursor_position_zero_wraps [OF wf f(1)] by (simp add: SIZE_MOD_def f)
qed

end
