(* ===== verification/Terminal_Bounds.thy ===== *)
theory Terminal_Bounds
  imports Terminal_Props
begin

text \<open>
  What holds of the terminal whatever it was sent, the erase-scrollback command included: no step
  that completes moves the cursor out of the viewport.  (The stronger invariant of \<open>Terminal_Inv\<close>,
  that the cursor's row is stored, does not survive that command.)
\<close>

definition cursor_inside :: "terminal \<Rightarrow> bool" where
  "cursor_inside t \<longleftrightarrow> m_viewport_h t \<le> m_buf_cap t \<and> m_cursor_col t < m_viewport_w t \<and> m_cursor_row t < m_viewport_h t"

definition same_cursor :: "terminal \<Rightarrow> terminal \<Rightarrow> bool" where
  "same_cursor t t' \<longleftrightarrow> m_cursor_row t' = m_cursor_row t \<and> m_cursor_col t' = m_cursor_col t \<and>
     m_viewport_w t' = m_viewport_w t \<and> m_viewport_h t' = m_viewport_h t \<and> m_buf_cap t' = m_buf_cap t"

lemma same_cursor_inside: "same_cursor t t' \<Longrightarrow> cursor_inside t' = cursor_inside t"
  by (simp add: same_cursor_def cursor_inside_def)

lemma same_cursor_trans: "same_cursor a b \<Longrightarrow> same_cursor b c \<Longrightarrow> same_cursor a c"
  by (simp add: same_cursor_def)

lemma same_cursor_small [simp]:
  "same_cursor t t" "same_cursor t (t\<lparr>m_buf := b\<rparr>)" "same_cursor t (t\<lparr>m_state := s\<rparr>)"
  "same_cursor t (push_blank_row t)" "same_cursor t (restore_viewport t)" "same_cursor t (clear_buffer t)"
  "same_cursor t (flush_arg t)" "same_cursor t (push_arg t)" "same_cursor t (to_ground t)" "same_cursor t (escape_char c t)"
  by (simp_all add: same_cursor_def push_blank_row_def restore_viewport_def clear_buffer_def flush_arg_def
      push_arg_def to_ground_def escape_char_def)

lemma same_cursor_until [simp]: "same_cursor t (push_blank_until n t)"
proof (induction n t rule: push_blank_until.induct)
  case (1 n t)
  then show ?case by (subst push_blank_until.simps) (auto intro: same_cursor_trans [of t "push_blank_row t"])
qed

lemma until_cursor [simp]:
  "m_cursor_row (push_blank_until n t) = m_cursor_row t" "m_cursor_col (push_blank_until n t) = m_cursor_col t"
  "m_viewport_w (push_blank_until n t) = m_viewport_w t" "m_viewport_h (push_blank_until n t) = m_viewport_h t"
  "m_buf_cap (push_blank_until n t) = m_buf_cap t"
  using same_cursor_until [of t n] by (simp_all add: same_cursor_def)

lemma same_cursor_blank_row:
  "blank_row_from p c t = Inr t' \<Longrightarrow> same_cursor t t'" "blank_row_until p c t = Inr t' \<Longrightarrow> same_cursor t t'"
  by (auto simp: blank_row_from_def blank_row_until_def Let_def split: if_splits)

lemma same_cursor_copy_blank_rows: "copy_blank_rows p r lst t = Inr t' \<Longrightarrow> same_cursor t t'"
proof (induction p r lst t arbitrary: t' rule: copy_blank_rows.induct)
  case (1 p r lst t)
  show ?case
  proof (cases "r \<le> lst")
    case True
    with "1.prems" obtain q u where q: "rb_ref (m_buf t) r = Inr q"
      and u: "blank_row_from p 0 (t\<lparr>m_buf := rb_store p (rb_load (m_buf t) q) (m_buf t)\<rparr>) = Inr u"
      and rest: "copy_blank_rows p (Suc r) lst u = Inr t'"
      by (subst (asm) copy_blank_rows.simps) (auto simp: res_simps)
    from same_cursor_blank_row(1) [OF u] "1.IH" [OF True q u rest] show ?thesis by (simp add: same_cursor_def)
  qed (use "1.prems" in \<open>subst (asm) copy_blank_rows.simps, simp\<close>)
qed

lemma same_cursor_blank_rows: "blank_rows r lst t = Inr t' \<Longrightarrow> same_cursor t t'"
proof (induction r lst t arbitrary: t' rule: blank_rows.induct)
  case (1 r lst t)
  show ?case
  proof (cases "r \<le> lst")
    case True
    with "1.prems" obtain p u where p: "rb_ref (m_buf t) r = Inr p"
      and u: "blank_row_from p 0 t = Inr u" and rest: "blank_rows (Suc r) lst u = Inr t'"
      by (subst (asm) blank_rows.simps) (auto simp: res_simps)
    from same_cursor_blank_row(1) [OF u] "1.IH" [OF True p u rest] show ?thesis by (rule same_cursor_trans)
  qed (use "1.prems" in \<open>subst (asm) blank_rows.simps, simp\<close>)
qed

lemma same_cursor_erase: "erase_display n t = Inr t' \<Longrightarrow> same_cursor t t'"
  by (auto simp: erase_display_def res_simps split: if_splits
      dest!: same_cursor_blank_row same_cursor_copy_blank_rows same_cursor_blank_rows
      intro: same_cursor_trans [OF same_cursor_small(6) same_cursor_small(4)] same_cursor_trans)

lemma flush_arg_cursor [simp]:
  "m_cursor_row (flush_arg t) = m_cursor_row t" "m_cursor_col (flush_arg t) = m_cursor_col t"
  "m_viewport_w (flush_arg t) = m_viewport_w t" "m_viewport_h (flush_arg t) = m_viewport_h t" "m_buf_cap (flush_arg t) = m_buf_cap t"
  using same_cursor_small(7) [of t] by (simp_all add: same_cursor_def)

lemma newline_inside: "cursor_inside t \<Longrightarrow> cursor_inside (cursor_newline t)"
  by (auto simp: cursor_newline_def cursor_inside_def Let_def restore_viewport_def)

lemma adv_inside: "cursor_inside t \<Longrightarrow> cursor_inside (cursor_adv t)"
  using newline_inside [of "t\<lparr>m_cursor_col := 0\<rparr>"] by (auto simp: cursor_adv_def Let_def cursor_inside_def)

lemma csi_inside:
  assumes "cursor_inside t"
  shows "cursor_inside (csi_A t)" "cursor_inside (csi_B t)" "cursor_inside (csi_C t)" "cursor_inside (csi_D t)" "cursor_inside (csi_H t)"
  using assms by (auto simp: csi_A_def csi_B_def csi_C_def csi_D_def csi_H_def Let_def cursor_inside_def to_ground_def)

lemma put_inside: "cursor_inside t \<Longrightarrow> put_symbol c t = Inr t' \<Longrightarrow> cursor_inside t'"
  by (auto simp: put_symbol_def res_simps Let_def split: if_splits intro!: adv_inside) (simp add: cursor_inside_def)

lemma ground_inside:
  assumes "cursor_inside t" "ground_char c t = Inr t'" shows "cursor_inside t'"
proof -
  have zero: "cursor_inside (t\<lparr>m_cursor_col := 0\<rparr>)" using assms(1) by (simp add: cursor_inside_def)
  show ?thesis
    using assms put_inside [OF assms(1)] newline_inside [OF zero]
    by (auto simp: ground_char_def Let_def split: if_splits) (auto simp: cursor_inside_def)
qed

lemma csi_char_inside:
  assumes "cursor_inside t" "csi_char c t = Inr t'" shows "cursor_inside t'"
proof (cases "c = 74")
  case True
  then obtain u where u: "erase_display (el_or_default (m_ansi_args (flush_arg t)) 0 0) (flush_arg t) = Inr u" "t' = to_ground u"
    using assms(2) by (auto simp: csi_char_def csi_J_def Let_def res_simps)
  have "same_cursor t t'" using same_cursor_trans [OF same_cursor_small(7) same_cursor_trans [OF same_cursor_erase [OF u(1)] same_cursor_small(9)]]
    by (simp only: u(2))
  then show ?thesis using assms(1) same_cursor_inside by blast
next
  case False
  have "cursor_inside (to_ground t)" "cursor_inside (push_arg t)" "cursor_inside (t\<lparr>m_ansi_arg_chars := x\<rparr>)" for x
    using assms(1) same_cursor_inside [OF same_cursor_small(8)] same_cursor_inside [OF same_cursor_small(9)] by (simp_all add: cursor_inside_def)
  then show ?thesis using assms False csi_inside [OF assms(1)] by (auto simp: csi_char_def split: if_splits)
qed

lemma process_inside: "cursor_inside t \<Longrightarrow> process_char c t = Inr t' \<Longrightarrow> cursor_inside t'"
  using same_cursor_inside [OF same_cursor_small(5)] same_cursor_inside [OF same_cursor_small(10)]
  by (auto simp: process_char_def Let_def split: read_state.splits intro: ground_inside csi_char_inside)

lemma per_tick_inside:
  assumes "cursor_inside t" "per_tick_update t u = Inr (t', u')" shows "cursor_inside t'"
proof -
  have feed: "same_cursor t (fst (feed_rx t u))" for t u by (simp add: feed_rx_def same_cursor_def split: list.splits)
  from assms(2) obtain t1 where "if tx_valid u \<and> \<not> m_prev_tx_valid t then process_char (tx_data u) t = Inr t1 else t1 = t"
    and t': "(t', u') = feed_rx (t1\<lparr>m_prev_tx_valid := tx_valid u\<rparr>) u"
    by (rule per_tick_cases)
  then have "cursor_inside t1" using assms(1) process_inside by (auto split: if_splits)
  then have "cursor_inside (t1\<lparr>m_prev_tx_valid := tx_valid u\<rparr>)" by (simp add: cursor_inside_def)
  then show ?thesis using same_cursor_inside [OF feed, of "t1\<lparr>m_prev_tx_valid := tx_valid u\<rparr>" u] t' by (metis fst_conv)
qed

lemma user_inside:
  "cursor_inside (scroll d t) = cursor_inside t" "cursor_inside (enqueue_char c t) = cursor_inside t"
  by (simp_all add: cursor_inside_def scroll_def scroll_up_def scroll_down_def Let_def enqueue_char_def)

lemma reset_inside: "0 < m_viewport_w t \<Longrightarrow> 0 < m_viewport_h t \<Longrightarrow> m_viewport_h t \<le> m_buf_cap t \<Longrightarrow> cursor_inside (terminal_reset t)"
  by (simp add: cursor_inside_def terminal_reset_def Let_def push_blank_row_def clear_buffer_def)

end
