(* ===== verification/Terminal_Reach.thy ===== *)
theory Terminal_Reach
  imports Terminal_Bounds
begin

text \<open>
  Every terminal that can be reached: what holds whatever it was sent, the erase-scrollback command
  below the first row included, which leaves the cursor on a row that is not stored, and which bytes
  can fault.
\<close>

section \<open>What always holds of the screen\<close>

definition screen_ok :: "terminal \<Rightarrow> bool" where
  "screen_ok t \<longleftrightarrow> term_dims t \<and> term_buf_ok t \<and> m_cursor_col t < m_viewport_w t \<and> m_cursor_row t < m_viewport_h t \<and>
     m_viewport_start_line t \<le> length (term_rows t) - m_viewport_h t"

text \<open>The cursor is on a row that is not stored.\<close>

definition stranded :: "terminal \<Rightarrow> bool" where
  "stranded t \<longleftrightarrow> length (term_rows t) \<le> m_cursor_row t"

lemma term_wf_screen: "term_wf t \<longleftrightarrow> screen_ok t \<and> \<not> stranded t"
  by (auto simp: term_wf_def screen_ok_def stranded_def)

lemma screen_parts:
  assumes "screen_ok t"
  shows "term_dims t" "term_buf_ok t" "m_viewport_start_line t \<le> length (term_rows t) - m_viewport_h t"
    "m_cursor_col t < m_viewport_w t" "m_cursor_row t < m_viewport_h t" "0 < m_viewport_h t" "0 < m_viewport_w t" "cursor_inside t"
  using assms by (auto simp: screen_ok_def term_dims_def cursor_inside_def)

lemma screen_ctl [simp]:
  "screen_ok (t\<lparr>m_state := s\<rparr>) = screen_ok t" "screen_ok (t\<lparr>m_ansi_args := a\<rparr>) = screen_ok t"
  "screen_ok (t\<lparr>m_ansi_arg_chars := q\<rparr>) = screen_ok t" "screen_ok (t\<lparr>m_rx_queue := rx\<rparr>) = screen_ok t"
  "screen_ok (t\<lparr>m_prev_tx_valid := pv\<rparr>) = screen_ok t" "screen_ok (flush_arg t) = screen_ok t" "screen_ok (push_arg t) = screen_ok t"
  "screen_ok (to_ground t) = screen_ok t" "screen_ok (escape_char c t) = screen_ok t"
  by (simp_all add: screen_ok_def term_dims_def term_buf_ok_def term_rows_def flush_arg_def push_arg_def to_ground_def escape_char_def)

lemma screen_cursor:
  "screen_ok t \<Longrightarrow> c < m_viewport_w t \<Longrightarrow> screen_ok (t\<lparr>m_cursor_col := c\<rparr>)"
  "screen_ok t \<Longrightarrow> r < m_viewport_h t \<Longrightarrow> screen_ok (t\<lparr>m_cursor_row := r\<rparr>)"
  by (simp_all add: screen_ok_def term_dims_def term_buf_ok_def term_rows_def)

lemma screen_restore: "screen_ok t \<Longrightarrow> screen_ok (restore_viewport t)"
  by (simp add: restore_viewport_eq screen_ok_def term_dims_def term_buf_ok_def)

section \<open>A stranded cursor\<close>

lemma stranded_active: "stranded t \<Longrightarrow> rb_size (m_buf t) \<le> active_row t"
  by (simp add: stranded_def active_row_def rb_size_rows)

lemma stranded_put: "stranded t \<Longrightarrow> \<exists>e. put_symbol c t = Inl e"
  using stranded_active [of t] unfolding put_symbol_def rb_ref_cases rb_size_rows term_rows_def by auto

lemma stranded_newline:
  assumes ok: "screen_ok t" and st: "stranded t"
  shows "screen_ok (cursor_newline t)"
proof -
  let ?t1 = "t\<lparr>m_cursor_row := m_cursor_row t + 1\<rparr>"
  have ok1: "term_buf_ok ?t1" "0 < m_buf_cap ?t1" using screen_parts [OF ok] by (auto simp: term_dims_def)
  obtain b where b: "push_blank_until (active_row ?t1 + 1) ?t1 = ?t1\<lparr>m_buf := b\<rparr>" "rb_inv b" "rb_cap b = m_buf_cap t"
    "rb_abs b = term_rows t @ replicate (min (active_row ?t1 + 1) (m_buf_cap t) - length (term_rows t)) (blank_line ?t1)"
    using push_blank_until_eq [OF ok1, of "active_row ?t1 + 1"] by auto
  have ge: "active_row ?t1 \<ge> rb_size (m_buf ?t1)" using stranded_active [OF st] by simp
  have "cursor_inside (cursor_newline t)" using newline_inside screen_parts(8) [OF ok] by blast
  moreover have "\<exists>r. cursor_newline t = ?t1\<lparr>m_buf := b, m_viewport_start_line := length (rb_abs b) - m_viewport_h t, m_cursor_row := r\<rparr>"
    unfolding cursor_newline_def Let_def if_P [OF ge] b(1) restore_viewport_eq
    by (cases "m_buf_cap t \<le> m_cursor_row t + 1"; cases "m_viewport_h t \<le> m_cursor_row t + 1")
      (auto intro: exI [of _ "m_buf_cap t - 1"] exI [of _ "m_viewport_h t - 1"] exI [of _ "m_cursor_row t + 1"])
  ultimately show ?thesis using screen_parts [OF ok] b(2-4)
    by (auto simp: screen_ok_def term_dims_def term_buf_ok_def cursor_inside_def)
qed

lemma screen_newline: "screen_ok t \<Longrightarrow> screen_ok (cursor_newline t)"
  using stranded_newline cursor_newline_wf by (auto simp: term_wf_screen)

lemma screen_csi:
  assumes ok: "screen_ok t"
  shows "screen_ok (csi_A t)" "screen_ok (csi_B t)" "screen_ok (csi_C t)" "screen_ok (csi_D t)" "screen_ok (csi_H t)"
proof -
  let ?f = "flush_arg t"
  let ?r = "min (sz_add (m_cursor_row ?f) (el_or_default (m_ansi_args ?f) 0 1)) (m_viewport_h ?f - 1)"
  note p = screen_parts [OF ok]
  show "screen_ok (csi_A t)"
    unfolding csi_A_def Let_def screen_ctl by (rule screen_cursor(2)) (use ok p in auto)
  show "screen_ok (csi_C t)"
    unfolding csi_C_def Let_def screen_ctl by (rule screen_cursor(1)) (use ok p in auto)
  show "screen_ok (csi_D t)"
    unfolding csi_D_def Let_def screen_ctl by (rule screen_cursor(1)) (use ok p in auto)
  have "term_wf (push_blank_until (m_viewport_start_line (?f\<lparr>m_cursor_row := ?r\<rparr>) + ?r + 1) (?f\<lparr>m_cursor_row := ?r\<rparr>))"
    using p by (intro grow_to_row_wf) auto
  then show "screen_ok (csi_B t)" by (simp add: csi_B_def Let_def active_row_def term_wf_screen)
  have "term_wf (csi_H t)"
    unfolding csi_H_def Let_def to_ground_wf viewport_to_buf_row_def using p by (intro grow_place_wf) auto
  then show "screen_ok (csi_H t)" by (simp add: term_wf_screen)
qed

section \<open>Any byte\<close>

lemma blank_row_from_rows: "blank_row_from p c t = Inr t' \<Longrightarrow> rb_inv (m_buf t) \<Longrightarrow> rb_size (m_buf t') = rb_size (m_buf t)"
  by (auto simp: blank_row_from_def Let_def rb_store_def split: if_splits)

lemma blank_rows_stored: "blank_rows r lst t = Inr t' \<Longrightarrow> r \<le> lst \<Longrightarrow> lst < length (term_rows t)"
proof (induction r lst t rule: blank_rows.induct)
  case (1 r lst t)
  obtain p u where p: "rb_ref (m_buf t) r = Inr p" and u: "blank_row_from p 0 t = Inr u" and rest: "blank_rows (Suc r) lst u = Inr t'"
    using "1.prems" by (subst (asm) blank_rows.simps) (auto simp: res_simps)
  have r: "r < length (term_rows t)" using p unfolding rb_ref_cases rb_size_rows term_rows_def by (auto split: if_splits)
  have l: "length (term_rows u) = length (term_rows t)"
    using u by (auto simp: blank_row_from_def Let_def rb_store_def rb_size_rows [symmetric] split: if_splits)
  show ?case
  proof (cases "Suc r \<le> lst")
    case True
    then show ?thesis using "1.IH" [OF "1.prems"(2) p u rest] l by simp
  qed (use r "1.prems"(2) in simp)
qed

lemma screen_cleared:
  assumes ok: "screen_ok t"
  shows "screen_ok (push_blank_row (clear_buffer t))" "length (term_rows (push_blank_row (clear_buffer t))) = 1"
proof -
  let ?c = "clear_buffer t"
  have bi: "rb_inv (m_buf t)" "rb_cap (m_buf t) = m_buf_cap t" "0 < m_buf_cap t"
    using screen_parts [OF ok] by (auto simp: term_buf_ok_def term_dims_def)
  have "rb_inv (m_buf ?c)" "term_rows ?c = []" "rb_cap (m_buf ?c) = m_buf_cap ?c" "0 < m_buf_cap ?c"
    using rbq.clear_spec [OF bi(1)] bi by (simp_all add: clear_buffer_def term_rows_def)
  from push_first_row [OF this] obtain b where "push_blank_row ?c = ?c\<lparr>m_buf := b\<rparr>" "rb_inv b" "rb_cap b = m_buf_cap ?c" "rb_abs b = [blank_line ?c]"
    by blast
  then show "screen_ok (push_blank_row ?c)" "length (term_rows (push_blank_row ?c)) = 1"
    using screen_parts [OF ok] by (simp_all add: screen_ok_def term_dims_def term_buf_ok_def clear_buffer_def)
qed

lemma screen_erase:
  assumes ok: "screen_ok t" and vr: "viewport_restored t" and r: "erase_display n t = Inr t'"
  shows "screen_ok t'"
proof (cases "n = 3")
  case True
  then show ?thesis using r screen_cleared(1) [OF ok] by (auto simp: erase_display_def)
next
  case n3: False
  show ?thesis
  proof (cases "stranded t")
    case False
    then have "term_wf t" using ok by (simp add: term_wf_screen)
    then have "term_wf t'" using n3 by (intro erase_display_wf [OF _ vr r]) simp_all
    then show ?thesis by (simp add: term_wf_screen)
  next
    case True
    obtain e where e: "rb_ref (m_buf t) (active_row t) = Inl e"
      using stranded_active [OF True] unfolding rb_ref_cases rb_size_rows term_rows_def by simp
    have "erase_display 0 t = Inl e" "erase_display 1 t = Inl e" by (simp_all add: erase_display_def e res_simps)
    then have "n \<noteq> 0" "n \<noteq> 1" using r by (metis Inl_Inr_False)+
    moreover have "n \<noteq> 2"
    proof
      assume "n = 2"
      then have "blank_rows (viewport_to_buf_row 0 t) (viewport_to_buf_row (m_viewport_h t - 1) t) t = Inr t'"
        using r by (simp add: erase_display_def)
      from blank_rows_stored [OF this] have "m_viewport_h t - 1 < length (term_rows t)" by (simp add: viewport_to_buf_row_def)
      then show False using True screen_parts(5) [OF ok] by (simp add: stranded_def)
    qed
    ultimately show ?thesis using r ok n3 by (simp add: erase_display_def)
  qed
qed

lemma process_screen:
  assumes ok: "screen_ok t" and r: "process_char c t = Inr t'"
  shows "screen_ok t'"
proof -
  let ?t = "restore_viewport t"
  have k: "screen_ok ?t" by (rule screen_restore [OF ok])
  note p = screen_parts [OF k]
  have z: "screen_ok (?t\<lparr>m_cursor_col := 0\<rparr>)" by (rule screen_cursor(1) [OF k p(7)])
  show ?thesis
  proof (cases "m_state t")
    case ReadState_ESCAPE
    then show ?thesis using r k by (auto simp: process_char_def Let_def)
  next
    case ReadState_SEQ_CSI
    then have csi: "csi_char c ?t = Inr t'" using r by (simp add: process_char_def Let_def)
    show ?thesis
    proof (cases "c = 74")
      case True
      then obtain u where u: "erase_display (csi_param t) (flush_arg ?t) = Inr u" "t' = to_ground u"
        using r ReadState_SEQ_CSI by (auto simp: process_erase res_simps)
      have "screen_ok u" by (rule screen_erase [OF _ _ u(1)]) (use k in simp_all)
      then show ?thesis by (simp add: u(2))
    next
      case False
      then show ?thesis using csi k screen_csi [OF k] by (auto simp: csi_char_def split: if_splits)
    qed
  next
    case ReadState_GROUND
    then have g: "ground_char c ?t = Inr t'" using r by (simp add: process_char_def Let_def)
    have put: "screen_ok v" if "put_symbol c ?t = Inr v" for v
    proof (cases "stranded ?t")
      case False
      then show ?thesis using put_symbol_wf [of ?t c] k that by (auto simp: term_wf_screen)
    qed (use stranded_put [of ?t c] that in auto)
    show ?thesis using g k z screen_newline [OF z] put p screen_cursor(1) [OF k]
      by (auto simp: ground_char_def Let_def split: if_splits)
  qed
qed

text \<open>Only an erase command strands the cursor, and only printing and erasing fault on it.\<close>

lemma process_total:
  assumes ok: "screen_ok t" and e: "\<not> (m_state t = ReadState_SEQ_CSI \<and> c = 74)"
    and p: "\<not> (m_state t = ReadState_GROUND \<and> printable c \<and> stranded t)"
  shows "\<exists>t'. process_char c t = Inr t'"
proof (cases "stranded t")
  case False
  then show ?thesis using process_char_wf [of t c] ok e by (auto simp: term_wf_screen)
next
  case True
  then show ?thesis using e p
    by (cases "m_state t") (auto simp: process_char_def Let_def ground_char_def csi_char_def printable_def)
qed

lemma feed_rx_screen: "screen_ok (fst (feed_rx t u)) = screen_ok t" "stranded (fst (feed_rx t u)) = stranded t"
  by (simp_all add: feed_rx_def stranded_def term_rows_def split: list.split)

lemma stranded_ctl [simp]: "stranded (t\<lparr>m_prev_tx_valid := v\<rparr>) = stranded t"
  by (simp add: stranded_def term_rows_def)

lemma per_tick_screen:
  assumes ok: "screen_ok t" and r: "per_tick_update t u = Inr (t', u')"
  shows "screen_ok t'" "m_viewport_w t' = m_viewport_w t" "m_viewport_h t' = m_viewport_h t" "m_buf_cap t' = m_buf_cap t"
    "\<not> stranded t \<Longrightarrow> \<not> ed3_displaced t u \<Longrightarrow> \<not> stranded t'"
proof -
  from r obtain t1 where
    t1: "if tx_valid u \<and> \<not> m_prev_tx_valid t then process_char (tx_data u) t = Inr t1 else t1 = t"
    and t': "(t', u') = feed_rx (t1\<lparr>m_prev_tx_valid := tx_valid u\<rparr>) u"
    by (rule per_tick_cases)
  have f: "t' = fst (feed_rx (t1\<lparr>m_prev_tx_valid := tx_valid u\<rparr>) u)" using t' by (metis fst_conv)
  have "screen_ok t1 \<and> same_io t t1"
    using t1 ok process_screen [OF ok, of "tx_data u" t1] same_io_process [of "tx_data u" t t1] by (auto split: if_splits)
  then show "screen_ok t'" "m_viewport_w t' = m_viewport_w t" "m_viewport_h t' = m_viewport_h t" "m_buf_cap t' = m_buf_cap t"
    unfolding f by (simp_all add: feed_rx_screen feed_rx_same same_io_def)
  show "\<not> stranded t'" if "\<not> stranded t" "\<not> ed3_displaced t u"
    using per_tick_wf [of t u t' u'] ok that r by (simp add: term_wf_screen)
qed

section \<open>Reachable terminals\<close>

text \<open>
  Everything that can happen to a terminal.  The flag says whether an erase-scrollback command was
  completed with the cursor below the first row since the last reset.
\<close>

inductive term_reach :: "nat \<Rightarrow> nat \<Rightarrow> nat \<Rightarrow> bool \<Rightarrow> terminal \<Rightarrow> bool" for w h cap where
  fresh: "term_reach w h cap False (terminal_new w h cap fg bg)"
| tick: "term_reach w h cap d t \<Longrightarrow> per_tick_update t u = Inr (t', u') \<Longrightarrow> term_reach w h cap (d \<or> ed3_displaced t u) t'"
| scrolled: "term_reach w h cap d t \<Longrightarrow> term_reach w h cap d (scroll n t)"
| typed: "term_reach w h cap d t \<Longrightarrow> term_reach w h cap d (enqueue_char c t)"
| resetted: "term_reach w h cap d t \<Longrightarrow> term_reach w h cap False (terminal_reset t)"

lemma scroll_screen: "screen_ok t \<Longrightarrow> screen_ok (scroll n t)" "stranded (scroll n t) = stranded t"
  by (auto simp: scroll_def scroll_up_def scroll_down_def Let_def screen_ok_def term_dims_def term_buf_ok_def stranded_def rb_size_rows)

lemma reset_screen:
  assumes ok: "screen_ok t"
  shows "screen_ok (terminal_reset t)" "\<not> stranded (terminal_reset t)"
proof -
  let ?t = "t\<lparr>m_cursor_col := 0, m_cursor_row := 0, m_fg_color := m_fg_color_init t, m_bg_color := m_bg_color_init t, m_rx_queue := []\<rparr>"
  have k: "screen_ok ?t" using screen_parts [OF ok] by (simp add: screen_ok_def term_dims_def term_buf_ok_def term_rows_def)
  from screen_cleared [OF k] have s: "screen_ok (terminal_reset t)" "length (term_rows (terminal_reset t)) = 1"
    by (simp_all add: terminal_reset_def Let_def)
  then show "screen_ok (terminal_reset t)" by blast
  have "m_cursor_row (terminal_reset t) = 0" by (simp add: terminal_reset_def Let_def push_blank_row_def clear_buffer_def)
  then show "\<not> stranded (terminal_reset t)" using s(2) by (simp add: stranded_def)
qed

lemma term_reach_screen:
  assumes dims: "0 < w" "0 < h" "h \<le> cap" "w + cap < SIZE_MOD" and reach: "term_reach w h cap d t"
  shows "screen_ok t \<and> (\<not> d \<longrightarrow> \<not> stranded t) \<and> m_viewport_w t = w \<and> m_viewport_h t = h \<and> m_buf_cap t = cap"
  using reach
proof (induction rule: term_reach.induct)
  case (fresh fg bg)
  then show ?case
    using terminal_new_wf [OF dims, of fg bg] by (simp add: term_wf_screen) (simp add: terminal_new_def push_blank_row_def)
next
  case (tick d t u t' u')
  then show ?case using per_tick_screen [of t u t' u'] by simp
next
  case (scrolled d t n)
  then show ?case using scroll_screen [where t = t and n = n] by (simp add: scroll_dims)
next
  case (typed d t c)
  then show ?case by (simp add: enqueue_char_def stranded_def term_rows_def)
next
  case (resetted d t)
  then show ?case using reset_screen [of t] by (simp add: terminal_reset_dims)
qed

text \<open>
  C2: In every state the terminal can reach from construction by ticks with any UART state, scrolling, typing and
  resets, the cursor is inside the viewport, the buffer never exceeds its capacity, every stored row
  has the viewport's width, and the viewport starts no further down than the last full screen of stored rows.  The row the cursor is on is
  stored, unless an erase-scrollback command was completed below the first row since the last
  reset (\<open>d\<close>).
\<close>

theorem terminal_reachable_safe:
  assumes "0 < w" "0 < h" "h \<le> cap" "w + cap < SIZE_MOD" and "term_reach w h cap d t"
  shows "m_cursor_row t < h \<and> m_cursor_col t < w \<and> rb_size (m_buf t) \<le> cap \<and>
    (\<forall>cells \<in> set (term_rows t). length cells = w) \<and> m_viewport_start_line t \<le> rb_size (m_buf t) - h \<and>
    (\<not> d \<longrightarrow> active_row t < rb_size (m_buf t))"
proof -
  note r = term_reach_screen [OF assms]
  then have ok: "screen_ok t" and d: "m_viewport_w t = w" "m_viewport_h t = h" "m_buf_cap t = cap" by auto
  note p = screen_parts [OF ok]
  have "\<not> d \<longrightarrow> term_wf t" using r by (simp add: term_wf_screen)
  then have "\<not> d \<longrightarrow> active_row t < rb_size (m_buf t)" using active_row_less by (simp add: rb_size_rows)
  moreover have "rb_size (m_buf t) \<le> cap" using length_rows_le [OF p(2)] d by (simp add: rb_size_rows)
  ultimately show ?thesis using p d by (simp add: term_buf_ok_def rb_size_rows)
qed

theorem terminal_reachable_safe_witness:
  "m_cursor_row (scroll 3 (terminal_new 80 25 256 7 1)) < 25 \<and>
   active_row (scroll 3 (terminal_new 80 25 256 7 1)) < rb_size (m_buf (scroll 3 (terminal_new 80 25 256 7 1)))"
  using terminal_reachable_safe [of 80 25 256 False, OF _ _ _ _ term_reach.scrolled [OF term_reach.fresh]]
  by (simp add: SIZE_MOD_def)

text \<open>
  C16: From every reachable state a clock tick with any UART state returns normally, and to a state that is
  again reachable, unless the byte it brings completes an erase-in-display command, or is a
  printable byte while the cursor's row is not stored.  In the second case, which needs an
  erase-scrollback command below the first row before, it always faults.
\<close>

theorem terminal_tick_progress:
  assumes dims: "0 < w" "0 < h" "h \<le> cap" "w + cap < SIZE_MOD" and reach: "term_reach w h cap d t"
    and no_erase: "\<not> (tx_valid u \<and> \<not> m_prev_tx_valid t \<and> m_state t = ReadState_SEQ_CSI \<and> tx_data u = 74)"
  shows "if tx_valid u \<and> \<not> m_prev_tx_valid t \<and> m_state t = ReadState_GROUND \<and> printable (tx_data u) \<and> stranded t
    then d \<and> (\<exists>e. per_tick_update t u = Inl e)
    else \<exists>t' u'. per_tick_update t u = Inr (t', u') \<and> term_reach w h cap d t'"
proof -
  note r = term_reach_screen [OF dims reach]
  then have ok: "screen_ok t" by blast
  show ?thesis
  proof (cases "tx_valid u \<and> \<not> m_prev_tx_valid t \<and> m_state t = ReadState_GROUND \<and> printable (tx_data u) \<and> stranded t")
    case True
    have "stranded (restore_viewport t)" using True by (simp add: stranded_def)
    then obtain e where "process_char (tx_data u) t = Inl e"
      using stranded_put [of "restore_viewport t" "tx_data u"] process_printable [of t "tx_data u"] True by auto
    then show ?thesis using True r by (auto simp: per_tick_update_def)
  next
    case False
    then have "\<exists>t1. (if tx_valid u \<and> \<not> m_prev_tx_valid t then process_char (tx_data u) t else Inr t) = Inr t1"
      using process_total [OF ok, of "tx_data u"] no_erase by auto
    then obtain t' u' where eq: "per_tick_update t u = Inr (t', u')"
      by (auto simp: per_tick_update_def) (metis surj_pair)
    moreover have "\<not> ed3_displaced t u" using no_erase by (auto simp: ed3_displaced_def erase_byte_def)
    ultimately have "term_reach w h cap d t'" using term_reach.tick [OF reach eq] by simp
    then show ?thesis using eq False by auto
  qed
qed

theorem terminal_tick_progress_witness:
  "\<exists>t' u'. per_tick_update (terminal_new 80 25 256 7 1)
      \<lparr>tx_data = 10, tx_valid = True, rx_data = 0, rx_valid = False\<rparr> = Inr (t', u') \<and> term_reach 80 25 256 False t'"
  using terminal_tick_progress [OF _ _ _ _ term_reach.fresh, of 80 25 256 "\<lparr>tx_data = 10, tx_valid = True, rx_data = 0, rx_valid = False\<rparr>" 7 1]
  by (simp add: SIZE_MOD_def printable_def terminal_new_def push_blank_row_def)

end
