(* ===== verification/Terminal_Io.thy ===== *)
theory Terminal_Io
  imports Terminal_Reach
begin

text \<open>
  Bytes crossing the UART boundary, reading cells back, scrolling at full capacity and reset.
\<close>

section \<open>Typed characters\<close>

text \<open>
  A run of the terminal: the simulator's clock ticks with whatever state the UART is in, keys
  are typed and the wheel is turned.  The run returns the final terminal and the characters
  handed to the UART, in order.
\<close>

datatype term_event = Tick uart | Key u8 | Wheel int

fun handed_over :: "uart \<Rightarrow> uart \<Rightarrow> u8 list" where
  "handed_over u u' = (if \<not> rx_valid u \<and> rx_valid u' then [rx_data u'] else [])"

fun run_events :: "term_event list \<Rightarrow> terminal \<Rightarrow> (terminal \<times> u8 list) result" where
  "run_events [] t = Inr (t, [])"
| "run_events (Tick u # es) t = res_bind (per_tick_update t u) (\<lambda>(t', u').
     res_bind (run_events es t') (\<lambda>(t'', out). Inr (t'', handed_over u u' @ out)))"
| "run_events (Key c # es) t = run_events es (enqueue_char c t)"
| "run_events (Wheel d # es) t = run_events es (scroll d t)"

fun typed_chars :: "term_event list \<Rightarrow> u8 list" where
  "typed_chars [] = []"
| "typed_chars (Key c # es) = c # typed_chars es"
| "typed_chars (e # es) = typed_chars es"

lemma per_tick_same_io:
  assumes "per_tick_update t u = Inr (t', u')"
  obtains t1 where "same_io t t1" "(t', u') = feed_rx (t1\<lparr>m_prev_tx_valid := tx_valid u\<rparr>) u"
proof (rule per_tick_cases [OF assms])
  fix t1
  assume "if tx_valid u \<and> \<not> m_prev_tx_valid t then process_char (tx_data u) t = Inr t1 else t1 = t"
    and "(t', u') = feed_rx (t1\<lparr>m_prev_tx_valid := tx_valid u\<rparr>) u"
  then show thesis using that [of t1] same_io_process [of "tx_data u" t t1] by (auto split: if_splits)
qed

lemma per_tick_queue:
  assumes "per_tick_update t u = Inr (t', u')"
  shows "m_rx_queue t = handed_over u u' @ m_rx_queue t' \<and> (rx_valid u \<longrightarrow> u' = u)"
proof -
  from per_tick_same_io [OF assms] obtain t1 where
    "same_io t t1" "(t', u') = feed_rx (t1\<lparr>m_prev_tx_valid := tx_valid u\<rparr>) u" by blast
  then show ?thesis by (auto simp: same_io_def feed_rx_def split: list.splits if_splits)
qed

lemma scroll_queue [simp]: "m_rx_queue (scroll d t) = m_rx_queue t"
  by (simp add: scroll_def scroll_up_def scroll_down_def Let_def)

text \<open>
  Note: Typed characters reach the UART in order, none lost and none duplicated: after any run
  of ticks, keys and scrolling, what was handed to the UART followed by what is still queued
  is what was queued at the start followed by what was typed.
\<close>

theorem typed_chars_delivered_in_order:
  assumes "run_events es t = Inr (t', out)"
  shows "out @ m_rx_queue t' = m_rx_queue t @ typed_chars es"
  using assms
proof (induction es t arbitrary: t' out rule: run_events.induct)
  case (2 u es t)
  then obtain s u' o' where s: "per_tick_update t u = Inr (s, u')" "run_events es s = Inr (t', o')"
    "out = handed_over u u' @ o'"
    by (auto simp: res_simps)
  from "2.IH" [OF s(1) refl s(2)] per_tick_queue [OF s(1)] s(3) show ?case by simp
qed (simp_all add: enqueue_char_def)

theorem typed_chars_delivered_in_order_witness:
  "run_events [Key 104, Key 105, Tick \<lparr>tx_data = 0, tx_valid = False, rx_data = 0, rx_valid = False\<rparr>]
      (terminal_new 80 25 256 7 1) =
      Inr ((enqueue_char 105 (terminal_new 80 25 256 7 1)), [104]) \<and>
   [104] @ m_rx_queue (enqueue_char 105 (terminal_new 80 25 256 7 1)) = [104, 105]"
proof -
  let ?es = "[Key 104, Key 105, Tick \<lparr>tx_data = 0, tx_valid = False, rx_data = 0, rx_valid = False\<rparr>]"
  let ?t = "terminal_new 80 25 256 7 1"
  have q: "m_rx_queue ?t = []" "m_prev_tx_valid ?t = False"
    by (simp_all add: terminal_new_def push_blank_row_def)
  have run: "run_events ?es ?t = Inr (enqueue_char 105 ?t, [104])"
    using q by (simp add: per_tick_update_def feed_rx_def enqueue_char_def)
  from typed_chars_delivered_in_order [OF run] run q show ?thesis by simp
qed

section \<open>Transmitted bytes\<close>

text \<open>
  Note: A byte transmitted in the cycle after another is lost: the controller acts on the rising
  edge of \<open>tx_valid\<close>, so a second tick with \<open>tx_valid\<close> still high leaves screen, cursor and
  parser as the first tick left them, whatever \<open>tx_data\<close> carries.
\<close>

theorem back_to_back_byte_dropped:
  assumes first: "per_tick_update t u = Inr (t1, u1)" "tx_valid u" and second: "tx_valid v"
  shows "\<exists>t2 v2. per_tick_update t1 v = Inr (t2, v2) \<and> t2\<lparr>m_rx_queue := m_rx_queue t1\<rparr> = t1"
proof -
  from per_tick_same_io [OF first(1)] obtain s where
    "(t1, u1) = feed_rx (s\<lparr>m_prev_tx_valid := tx_valid u\<rparr>) u" by blast
  then have prev: "m_prev_tx_valid t1" using first(2)
    by (auto simp: feed_rx_def split: list.splits if_splits)
  then have same: "t1\<lparr>m_prev_tx_valid := tx_valid v\<rparr> = t1" using second by simp
  obtain t2 v2 where f: "feed_rx t1 v = (t2, v2)" by fastforce
  then have "t2\<lparr>m_rx_queue := m_rx_queue t1\<rparr> = t1"
    by (auto simp: feed_rx_def split: list.splits if_splits)
  moreover have "per_tick_update t1 v = Inr (t2, v2)"
    by (simp add: per_tick_update_def prev same f)
  ultimately show ?thesis by blast
qed

theorem back_to_back_byte_dropped_witness:
  "\<exists>t1 u1. per_tick_update (terminal_new 80 25 256 7 1)
      \<lparr>tx_data = 65, tx_valid = True, rx_data = 0, rx_valid = False\<rparr> = Inr (t1, u1) \<and>
    (\<exists>t2 v2. per_tick_update t1 \<lparr>tx_data = 66, tx_valid = True, rx_data = 0, rx_valid = False\<rparr> = Inr (t2, v2) \<and>
       term_rows t2 = term_rows t1)"
proof -
  let ?t = "terminal_new 80 25 256 7 1" and ?u = "\<lparr>tx_data = 65, tx_valid = True, rx_data = 0, rx_valid = False\<rparr>"
    and ?v = "\<lparr>tx_data = 66, tx_valid = True, rx_data = 0, rx_valid = False\<rparr>"
  have wf: "term_wf ?t" using terminal_new_wf [of 80 25 256 7 1] by (simp add: SIZE_MOD_def)
  have st: "m_state ?t = ReadState_GROUND" by (simp add: terminal_new_def push_blank_row_def)
  obtain s where "process_char 65 ?t = Inr s" using process_char_wf [OF wf, of 65] st by auto
  then obtain t1 u1 where f: "per_tick_update ?t ?u = Inr (t1, u1)"
    by (cases "feed_rx (s\<lparr>m_prev_tx_valid := True\<rparr>) ?u")
      (auto simp: per_tick_update_def terminal_new_def push_blank_row_def)
  obtain t2 v2 where r: "per_tick_update t1 ?v = Inr (t2, v2)" "t2\<lparr>m_rx_queue := m_rx_queue t1\<rparr> = t1"
    using back_to_back_byte_dropped [OF f, of ?v] by auto
  have "term_rows t1 = term_rows (t2\<lparr>m_rx_queue := m_rx_queue t1\<rparr>)" by (simp only: r(2))
  then have "term_rows t2 = term_rows t1" by (simp add: term_rows_def)
  with f r(1) show ?thesis by blast
qed

section \<open>A full buffer\<close>

text \<open>
  Note: Once the buffer holds as many rows as its capacity, a line feed on the last viewport row
  changes nothing but the cursor's column: no row is evicted, nothing scrolls, and the next
  line is written over the last one.
\<close>

theorem full_buffer_stops_scrolling:
  assumes wf: "term_wf t" and st: "m_state t = ReadState_GROUND" and full: "rb_full (m_buf t)"
    and bottom: "m_cursor_row t + 1 = m_viewport_h t"
  shows "\<exists>t'. process_char 10 t = Inr t' \<and> term_rows t' = term_rows t \<and>
    m_cursor_row t' = m_cursor_row t \<and> m_cursor_col t' = 0"
proof -
  let ?s = "(restore_viewport t)\<lparr>m_cursor_col := 0\<rparr>"
  have w: "term_wf ?s" using term_wf_col [OF restore_viewport_wf [OF wf], of 0] term_parts(6) [OF wf] by simp
  have len: "length (term_rows t) = m_buf_cap t" using full rb_full_rows [OF term_parts(2) [OF wf]] by simp
  have nr: "newline_rows ?s = term_rows t" using len by (simp add: newline_rows_def)
  from cursor_newline_eq [OF w] obtain b v where
    "cursor_newline ?s = ?s\<lparr>m_buf := b, m_viewport_start_line := v,
       m_cursor_row := min (m_cursor_row t + 1) (m_viewport_h t - 1)\<rparr>" "rb_abs b = term_rows t"
    unfolding nr by auto
  moreover have "process_char 10 t = Inr (cursor_newline ?s)"
    using st by (simp add: process_char_def Let_def ground_char_def)
  ultimately show ?thesis using bottom by auto
qed

theorem full_buffer_stops_scrolling_witness:
  "\<exists>t'. process_char 10 (terminal_new 4 1 1 7 1) = Inr t' \<and> term_rows t' = term_rows (terminal_new 4 1 1 7 1)"
proof -
  let ?t = "terminal_new 4 1 1 7 1"
  have wf: "term_wf ?t" and rows: "term_rows ?t = [replicate 4 \<lparr>glyph = 0, fg_color = 7, bg_color = 1\<rparr>]"
    using terminal_new_wf [of 4 1 1 7 1] by (auto simp: SIZE_MOD_def)
  have f: "m_state ?t = ReadState_GROUND" "m_cursor_row ?t + 1 = m_viewport_h ?t" "m_buf_cap ?t = 1"
    by (simp_all add: terminal_new_def push_blank_row_def)
  have "rb_full (m_buf ?t)" using rb_full_rows [OF term_parts(2) [OF wf]] unfolding rows f by simp
  from full_buffer_stops_scrolling [OF wf f(1) this f(2)] show ?thesis by blast
qed

section \<open>Reading the viewport\<close>

text \<open>
  Note: On every reachable terminal, reading a viewport cell never faults: it returns the cell
  of the corresponding stored row, or nothing when the position is outside the viewport or
  the row is not stored yet.
\<close>

theorem symbol_at_viewport_total:
  assumes "0 < w" "0 < h" "h \<le> cap" "w + cap < SIZE_MOD" and "term_reach w h cap d t"
  shows "symbol_at_viewport row col t = Inr
    (if row < h \<and> col < w \<and> m_viewport_start_line t + row < length (term_rows t)
     then Some (term_rows t ! (m_viewport_start_line t + row) ! col) else None)"
proof -
  from term_reach_screen [OF assms] have ok: "screen_ok t" and d: "m_viewport_w t = w" "m_viewport_h t = h"
    by auto
  have len: "i < length (term_rows t) \<Longrightarrow> length (rb_abs (m_buf t) ! i) = w" for i
    using screen_parts(2) [OF ok] d nth_mem [of i "term_rows t"] by (simp add: term_buf_ok_def term_rows_def)
  show ?thesis
    using len by (auto simp: symbol_at_viewport_def d Let_def rb_at_cases term_rows_def)
qed

theorem symbol_at_viewport_total_witness:
  "symbol_at_viewport 0 3 (terminal_new 80 25 256 7 1) = Inr (Some \<lparr>glyph = 0, fg_color = 7, bg_color = 1\<rparr>)"
proof -
  have d: "(0::nat) < 80" "(0::nat) < 25" "(25::nat) \<le> 256" "80 + 256 < SIZE_MOD" by (simp_all add: SIZE_MOD_def)
  have rows: "term_rows (terminal_new 80 25 256 7 1) = [replicate 80 \<lparr>glyph = 0, fg_color = 7, bg_color = 1\<rparr>]"
    using terminal_new_wf [OF d] by simp
  have "m_viewport_start_line (terminal_new 80 25 256 7 1) = 0"
    by (simp add: terminal_new_def push_blank_row_def)
  with symbol_at_viewport_total [OF d term_reach.fresh, of 0 3 7 1] show ?thesis by (simp add: rows)
qed

section \<open>Reset\<close>

text \<open>
  Note: Reset leaves one blank row in the initial colours, the cursor at the origin and nothing
  queued, but keeps the state of the control-sequence parser: a reset in the middle of a
  sequence makes the next byte part of that sequence.
\<close>

theorem reset_clears_screen_keeps_parser:
  assumes wf: "term_wf t"
  shows "term_rows (terminal_reset t) =
      [replicate (m_viewport_w t) \<lparr>glyph = 0, fg_color = m_fg_color_init t, bg_color = m_bg_color_init t\<rparr>] \<and>
    m_cursor_row (terminal_reset t) = 0 \<and> m_cursor_col (terminal_reset t) = 0 \<and>
    m_viewport_start_line (terminal_reset t) = 0 \<and> m_rx_queue (terminal_reset t) = [] \<and>
    m_state (terminal_reset t) = m_state t \<and> m_ansi_args (terminal_reset t) = m_ansi_args t \<and>
    m_ansi_arg_chars (terminal_reset t) = m_ansi_arg_chars t"
proof -
  let ?t = "clear_buffer (t\<lparr>m_cursor_col := 0, m_cursor_row := 0,
                 m_fg_color := m_fg_color_init t, m_bg_color := m_bg_color_init t, m_rx_queue := []\<rparr>)"
  have ok: "rb_inv (m_buf t)" "rb_cap (m_buf t) = m_buf_cap t" "0 < m_buf_cap t"
    using wf by (auto simp: term_wf_def term_dims_def term_buf_ok_def)
  have buf: "m_buf ?t = rb_clear (m_buf t)" "m_buf_cap ?t = m_buf_cap t" "m_rx_queue ?t = []"
    "m_viewport_start_line ?t = 0" "m_cursor_row ?t = 0" "m_cursor_col ?t = 0" "m_state ?t = m_state t"
    "m_ansi_args ?t = m_ansi_args t" "m_ansi_arg_chars ?t = m_ansi_arg_chars t"
    "blank_line ?t = replicate (m_viewport_w t) \<lparr>glyph = 0, fg_color = m_fg_color_init t, bg_color = m_bg_color_init t\<rparr>"
    by (simp_all add: clear_buffer_def blank_line_def create_symbol_def)
  note clr = rbq.clear_spec [OF ok(1)]
  have "rb_inv (m_buf ?t)" "term_rows ?t = []" "rb_cap (m_buf ?t) = m_buf_cap ?t" "0 < m_buf_cap ?t"
    unfolding term_rows_def buf using clr ok by simp_all
  from push_first_row [OF this] obtain b where b: "push_blank_row ?t = ?t\<lparr>m_buf := b\<rparr>" "rb_abs b = [blank_line ?t]"
    by (elim exE conjE) (rule that)
  have "terminal_reset t = ?t\<lparr>m_buf := b\<rparr>" by (simp only: terminal_reset_def Let_def b(1))
  then show ?thesis by (simp only: term_rows_upd b(2)) (simp add: buf)
qed

theorem reset_clears_screen_keeps_parser_witness:
  "m_state (terminal_reset (demo_term 1 [3])) = ReadState_SEQ_CSI \<and>
   m_cursor_row (terminal_reset (demo_term 1 [3])) = 0"
  using reset_clears_screen_keeps_parser [of "demo_term 1 [3]"] demo_term_facts [of 1 "[3]"] by simp

end
