(* ===== verification/Windows.thy ===== *)
theory Windows
  imports Sidebar Dump_Control Terminal_Io
begin

text \<open>
  The three windows that act on a controller: time, dump and terminal
  (\<open>time_drawer.cpp\<close>, \<open>dump_drawer.cpp\<close> and \<open>term_drawer.cpp\<close> of \<open>sim/src/drawers\<close>).  For each
  of them there is what it draws and what it does.  What the user and ImGui do in a frame is the
  record \<open>ui\<close>: for every widget the value it leaves or the answer it gives.
\<close>

section \<open>The user's side of a frame\<close>

text \<open>The dump window's own state; the dump controller points to its name.\<close>

record dump_drawer =
  dd_length :: int
  dd_name :: string

datatype name_ptr = Dump_drawer_name

text \<open>
  The text field calls its filter with the current name; what it leaves is \<open>ui_name\<close> of the
  filter and the name.
\<close>

record 'f ui =
  ui_panels :: panel_ui
  ui_time_open :: bool
  ui_hz :: "'f \<Rightarrow> 'f"
  ui_auto :: "bool \<Rightarrow> bool"
  ui_step :: bool
  ui_reset :: bool
  ui_dump_open :: bool
  ui_name_edited :: bool
  ui_name :: "(string \<Rightarrow> int) \<Rightarrow> string \<Rightarrow> string"
  ui_length :: "int \<Rightarrow> int"
  ui_start_dump :: bool
  ui_term_open :: bool
  ui_term_focused :: bool
  ui_term_hovered :: bool
  ui_wheel :: int
  ui_enter :: bool
  ui_tab :: bool
  ui_backspace :: bool
  ui_chars :: "nat list"

text \<open>\<open>"%ld"\<close> of a \<open>size_t\<close>, which is read as signed.\<close>

definition dec_long :: "nat \<Rightarrow> string" where
  "dec_long n = dec_int (sint (of_nat n :: u64))"

section \<open>Time\<close>

definition time_drawer_render :: "'f ui \<Rightarrow> ('f, 'd, 't, 'l) time_ctrl \<Rightarrow> ('f, 'd, 't, 'l) time_ctrl" where
  "time_drawer_render ui tc =
     (if \<not> ui_time_open ui then tc
      else let tc1 = tc\<lparr>tc_clk_hz := ui_hz ui (tc_clk_hz tc)\<rparr>;
               tc2 = tc1\<lparr>tc_is_auto := ui_auto ui (tc_is_auto tc1)\<rparr>;
               tc3 = (if ui_step ui then request_step (tc2\<lparr>tc_is_auto := False\<rparr>) else tc2)
           in if ui_reset ui then request_reset (tc3\<lparr>tc_is_auto := False\<rparr>) else tc3)"

text \<open>\<open>show\<close> is \<open>"%.9f"\<close> of a period; how full the bars are is a matter of \<open>float\<close> arithmetic.\<close>

definition time_drawer_items :: "('f, 'd, 't) clock_arith \<Rightarrow> ('d \<Rightarrow> string) \<Rightarrow> 'f ui \<Rightarrow> ('f, 'd, 't, 'l) time_ctrl \<Rightarrow>
    'x container \<Rightarrow> panel_item list" where
  "time_drawer_items A show ui tc v =
     (if \<not> ui_time_open ui then []
      else let tc1 = tc\<lparr>tc_clk_hz := ui_hz ui (tc_clk_hz tc)\<rparr>
           in [Text (''Time    : '' @ dec_int (sint (v_time v))),
               Text (''T-Scale : '' @ vc_timeunit (m_contextp v) @ ''/'' @ vc_timeprecision (m_contextp v)),
               Text (''PC      : '' @ hex8 (v_pc v)),
               Separator,
               Slider ''Clock (Hz)'',
               Text (''Period  : '' @ show (clk_period A tc1) @ '' s''),
               Separator,
               ProgressBar ''Tick cap'',
               ProgressBar ''Tick debt'',
               Checkbox ''Auto'', SameLine, Button ''Step'', SameLine, Button ''Reset''])"

section \<open>Dump\<close>

text \<open>\<open>std::string::rfind\<close>; a miss is \<open>npos\<close>, the largest \<open>size_t\<close>.\<close>

definition npos :: nat where "npos = SIZE_MOD - 1"

fun rfind :: "string \<Rightarrow> string \<Rightarrow> nat" where
  "rfind sub [] = (if sub = [] then 0 else npos)"
| "rfind sub (c # s) =
     (let r = rfind sub s in if r \<noteq> npos then r + 1 else if take (length sub) (c # s) = sub then 0 else npos)"

definition fix_dump_name :: "string \<Rightarrow> string" where
  "fix_dump_name name = (if rfind ''.vcd'' name \<noteq> sz_sub (length name) 4 then name @ ''.vcd'' else name)"

definition DUMP_NAME_BUF_SIZE :: nat where "DUMP_NAME_BUF_SIZE = 25"

text \<open>The filter refuses a character once the name is longer than the buffer size.\<close>

definition dump_name_filter :: "string \<Rightarrow> int" where
  "dump_name_filter name = (if length name > DUMP_NAME_BUF_SIZE then 1 else 0)"

definition dump_drawer_new :: dump_drawer where
  "dump_drawer_new = \<lparr>dd_length = 0, dd_name = ''trace.vcd''\<rparr>"

definition dump_drawer_render :: "'f ui \<Rightarrow> dump_drawer \<Rightarrow> name_ptr dump_ctrl \<Rightarrow> dump_drawer \<times> name_ptr dump_ctrl" where
  "dump_drawer_render ui dd dc =
     (if \<not> ui_dump_open ui then (dd, dc)
      else let dd1 = (if ui_name_edited ui then dd\<lparr>dd_name := fix_dump_name (ui_name ui dump_name_filter (dd_name dd))\<rparr> else dd);
               dd2 = dd1\<lparr>dd_length := min MAX_DUMP_LENGTH (max 0 (ui_length ui (dd_length dd1)))\<rparr>
           in (dd2, if ui_start_dump ui then request_dump Dump_drawer_name (dd_length dd2) dc else dc))"

definition dump_drawer_items :: "'f ui \<Rightarrow> name_ptr dump_ctrl \<Rightarrow> 'x container \<Rightarrow> panel_item list" where
  "dump_drawer_items ui dc v =
     (if \<not> ui_dump_open ui then []
      else [InputText ''Dump name'',
            Slider ''Length'',
            if dc_is_dumping dc then Text (''Dumping '' @ dec_int (m_d_proc_steps v) @ ''/'' @ dec_int (dump_total_steps v))
            else Text ''Not dumping'',
            Button ''Start dump'',
            SameLine] @
           draw_signal ''Dumping'' (dc_is_dumping dc) Col_YELLOW Col_OFF True)"

section \<open>Terminal\<close>

fun enqueue_wchars :: "nat list \<Rightarrow> terminal \<Rightarrow> terminal" where
  "enqueue_wchars [] t = t"
| "enqueue_wchars (c # cs) t =
     enqueue_wchars cs (if 0 < c \<and> c < 0x10000 then enqueue_char (of_nat c) t else t)"

definition term_drawer_render :: "'f ui \<Rightarrow> terminal \<Rightarrow> terminal" where
  "term_drawer_render ui t =
     (if ui_term_open ui \<and> (ui_term_focused ui \<or> ui_term_hovered ui)
      then let t1 = (if ui_wheel ui \<noteq> 0 then scroll (ui_wheel ui) t else t)
           in if ui_term_focused ui
              then let t2 = (if ui_enter ui then enqueue_char 10 t1 else t1);
                       t3 = (if ui_tab ui then enqueue_char 9 t2 else t2);
                       t4 = (if ui_backspace ui then enqueue_char 8 t3 else t3)
                   in enqueue_wchars (ui_chars ui) t4
              else t1
      else t)"

text \<open>The screen the terminal window draws: row by row, the cell or nothing.\<close>

fun draw_cells :: "(nat \<times> nat) list \<Rightarrow> terminal \<Rightarrow> panel_item list result" where
  "draw_cells [] t = Inr []"
| "draw_cells ((row, col) # ps) t =
     res_bind (symbol_at_viewport row col t) (\<lambda>s. res_bind (draw_cells ps t) (\<lambda>xs. Inr (Cell row col s # xs)))"

definition draw_screen :: "terminal \<Rightarrow> panel_item list result" where
  "draw_screen t = draw_cells [(row, col). row \<leftarrow> [0..<m_viewport_h t], col \<leftarrow> [0..<m_viewport_w t]] t"

definition term_drawer_items :: "'f ui \<Rightarrow> terminal \<Rightarrow> panel_item list result" where
  "term_drawer_items ui t =
     (if \<not> ui_term_open ui then Inr []
      else res_bind (draw_screen t) (\<lambda>cells. Inr (
        [Text (''Buffer size   : '' @ dec_long (rb_size (m_buf t)) @ ''/'' @ dec_long (m_buf_cap t) @ '' lines''),
         Text (''Viewport size : '' @ dec_long (m_viewport_w t) @ ''x'' @ dec_long (m_viewport_h t)),
         Text (''Viewport pos  : line '' @ dec_long (sz_add (m_viewport_start_line t) 1) @ '' - '' @
               dec_long (sz_add (m_viewport_start_line t) (m_viewport_h t))),
         Text (''Cursor pos    : row '' @ dec_long (sz_add (m_cursor_row t) 1) @ '', col '' @ dec_long (sz_add (m_cursor_col t) 1)),
         Separator] @
        cells @
        [Dummy, Separator] @
        draw_signal ''Type to input'' (ui_term_focused ui) Col_GREEN Col_OFF False @
        [Text (''Input queue   : '' @ dec_long (length (m_rx_queue t)) @ '' characters'')])))"

end
