(* ===== verification/Elf.thy ===== *)
theory Elf
  imports Views_Props
begin

text \<open>
  \<open>load_elf\<close> of \<open>sim/src/load_elf.cpp\<close>: the boot image loader.  A file is the list of its
  bytes; the stream keeps a position and the fail bit of \<open>std::ifstream\<close> (a short read keeps
  the rest of the target, sets the bit, and from then on reads and seeks do nothing).  The
  structures are those of the system's \<open>elf.h\<close> on a little-endian host.
\<close>

section \<open>The input stream\<close>

record ifs =
  ifs_data :: "u8 list"
  ifs_pos :: nat
  ifs_fail :: bool

definition ifs_open :: "u8 list \<Rightarrow> ifs" where
  "ifs_open bytes = \<lparr>ifs_data = bytes, ifs_pos = 0, ifs_fail = False\<rparr>"

text \<open>Read \<open>n\<close> bytes over the target \<open>buf\<close>.\<close>

definition ifs_read :: "nat \<Rightarrow> u8 list \<Rightarrow> ifs \<Rightarrow> u8 list \<times> ifs" where
  "ifs_read n buf f =
     (if ifs_fail f then (buf, f)
      else let got = take n (drop (ifs_pos f) (ifs_data f))
           in (got @ drop (length got) buf,
               f\<lparr>ifs_pos := ifs_pos f + length got, ifs_fail := length got < n\<rparr>))"

definition ifs_seekg :: "nat \<Rightarrow> ifs \<Rightarrow> ifs" where
  "ifs_seekg p f = (if ifs_fail f then f else f\<lparr>ifs_pos := p\<rparr>)"

text \<open>\<open>tellg\<close>; the value -1 of a failed stream is only ever passed to \<open>seekg\<close>, which ignores it.\<close>

definition ifs_tellg :: "ifs \<Rightarrow> nat" where
  "ifs_tellg f = (if ifs_fail f then 0 else ifs_pos f)"

section \<open>Headers\<close>

definition u16_at :: "u8 list \<Rightarrow> nat \<Rightarrow> nat" where
  "u16_at bs i = unat (bs ! i) + 2 ^ 8 * unat (bs ! (i + 1))"

definition u32_at :: "u8 list \<Rightarrow> nat \<Rightarrow> u32" where
  "u32_at bs i = of_nat (unat (bs ! i) + 2 ^ 8 * unat (bs ! (i + 1)) + 2 ^ 16 * unat (bs ! (i + 2)) +
     2 ^ 24 * unat (bs ! (i + 3)))"

record elf32_ehdr =
  e_ident :: "u8 list"
  e_phoff :: u32
  e_phnum :: nat

record elf32_phdr =
  p_type :: u32
  p_offset :: u32
  p_vaddr :: u32
  p_filesz :: u32
  p_memsz :: u32

definition EHDR_SIZE :: nat where "EHDR_SIZE = 52"

definition PHDR_SIZE :: nat where "PHDR_SIZE = 32"

definition ehdr_of :: "u8 list \<Rightarrow> elf32_ehdr" where
  "ehdr_of bs = \<lparr>e_ident = take 16 bs, e_phoff = u32_at bs 28, e_phnum = u16_at bs 44\<rparr>"

definition phdr_of :: "u8 list \<Rightarrow> elf32_phdr" where
  "phdr_of bs = \<lparr>p_type = u32_at bs 0, p_offset = u32_at bs 4, p_vaddr = u32_at bs 8,
     p_filesz = u32_at bs 16, p_memsz = u32_at bs 20\<rparr>"

definition EI_MAG0 :: nat where "EI_MAG0 = 0"

definition EI_CLASS :: nat where "EI_CLASS = 4"

definition ELFMAG0 :: u8 where "ELFMAG0 = 0x7f"

definition ELFCLASS32 :: u8 where "ELFCLASS32 = 1"

definition PT_LOAD :: u32 where "PT_LOAD = 1"

section \<open>The loader\<close>

datatype elf_message = Read_segment u32 u32 u32 | Failed_to_write nat

text \<open>The copy loop: the index of the first byte that could not be written, if any.\<close>

fun write_segment :: "absent_key \<Rightarrow> u32 \<Rightarrow> nat \<Rightarrow> u8 list \<Rightarrow> 'x container \<Rightarrow> nat option \<times> 'x container" where
  "write_segment absent addr j [] v = (None, v)"
| "write_segment absent addr j (b # bs) v =
     (let (ok, v') = write_byte absent (addr + of_nat j) b v
      in if ok then write_segment absent addr (Suc j) bs v' else (Some j, v'))"

text \<open>
  The loop over the \<open>n\<close> remaining program headers.  \<open>junk n\<close> is the content of the
  uninitialised local \<open>ph\<close> in that iteration.
\<close>

fun load_phdrs :: "absent_key \<Rightarrow> (nat \<Rightarrow> u8 list) \<Rightarrow> nat \<Rightarrow> ifs \<Rightarrow> 'x container \<Rightarrow> elf_message list \<Rightarrow>
    'x container \<times> elf_message list" where
  "load_phdrs absent junk 0 f v log = (v, log)"
| "load_phdrs absent junk (Suc n) f v log =
     (let (bytes, f1) = ifs_read PHDR_SIZE (junk n) f; ph = phdr_of bytes
      in if p_type ph \<noteq> PT_LOAD then load_phdrs absent junk n f1 v log
         else
           let pos = ifs_tellg f1;
               (buf, f3) = ifs_read (unat (p_filesz ph)) (replicate (unat (p_filesz ph)) 0)
                  (ifs_seekg (unat (p_offset ph)) f1);
               f4 = ifs_seekg pos f3;
               log1 = log @ [Read_segment (p_vaddr ph) (p_vaddr ph + p_memsz ph - 1) (p_memsz ph)]
           in case write_segment absent (p_vaddr ph) 0 buf v of
                (Some j, v') \<Rightarrow> (v', log1 @ [Failed_to_write (unat (p_vaddr ph) + j)])
              | (None, v') \<Rightarrow> load_phdrs absent junk n f4 v' log1)"

text \<open>\<open>file\<close> is the content at the path, \<open>None\<close> when it cannot be opened; \<open>junk_eh\<close> the uninitialised header.\<close>

definition load_elf :: "absent_key \<Rightarrow> u8 list \<Rightarrow> (nat \<Rightarrow> u8 list) \<Rightarrow> u8 list option \<Rightarrow> 'x container \<Rightarrow>
    ('x container \<times> elf_message list) result" where
  "load_elf absent junk_eh junk file v =
     (case file of
        None \<Rightarrow> Inl (RuntimeError ''Failed to open ELF'')
      | Some bytes \<Rightarrow>
          let (ebytes, f) = ifs_read EHDR_SIZE junk_eh (ifs_open bytes); eh = ehdr_of ebytes
          in if e_ident eh ! EI_MAG0 \<noteq> ELFMAG0 \<or> e_ident eh ! EI_CLASS \<noteq> ELFCLASS32
             then Inl (RuntimeError ''File is not ELF32'')
             else Inr (load_phdrs absent junk (e_phnum eh) (ifs_seekg (unat (e_phoff eh)) f) v []))"

section \<open>Specification\<close>

text \<open>The program headers of a file, and the memory image they describe.\<close>

fun phdrs_at :: "u8 list \<Rightarrow> nat \<Rightarrow> nat \<Rightarrow> elf32_phdr list" where
  "phdrs_at bytes p 0 = []"
| "phdrs_at bytes p (Suc n) = phdr_of (take PHDR_SIZE (drop p bytes)) # phdrs_at bytes (p + PHDR_SIZE) n"

definition segment_ok :: "u8 list \<Rightarrow> elf32_phdr \<Rightarrow> bool" where
  "segment_ok bytes ph \<longleftrightarrow> unat (p_offset ph) + unat (p_filesz ph) \<le> length bytes \<and>
     unat (p_vaddr ph) + unat (p_filesz ph) \<le> 2 ^ 32 \<and>
     (\<forall>j < unat (p_filesz ph). in_imem (p_vaddr ph + of_nat j) \<or> in_dmem (p_vaddr ph + of_nat j))"

text \<open>Where the bytes of a segment's part of the file go, and the rest of the segment, which ELF asks to be zero.\<close>

definition in_file_part :: "elf32_phdr \<Rightarrow> u32 \<Rightarrow> bool" where
  "in_file_part ph b \<longleftrightarrow> unat (p_vaddr ph) \<le> unat b \<and> unat b < unat (p_vaddr ph) + unat (p_filesz ph)"

definition in_zero_part :: "elf32_phdr \<Rightarrow> u32 \<Rightarrow> bool" where
  "in_zero_part ph b \<longleftrightarrow> unat (p_vaddr ph) + unat (p_filesz ph) \<le> unat b \<and> unat b < unat (p_vaddr ph) + unat (p_memsz ph)"

definition overlay :: "u8 list \<Rightarrow> elf32_phdr \<Rightarrow> (u32 \<Rightarrow> u8 option) \<Rightarrow> u32 \<Rightarrow> u8 option" where
  "overlay bytes ph m b =
     (if in_file_part ph b then Some (bytes ! (unat (p_offset ph) + (unat b - unat (p_vaddr ph)))) else m b)"

text \<open>
  The bytes of the loadable segments that are in the file, later segments over earlier ones; and the image as the ELF
  standard defines it, with the zeros up to \<open>p_memsz\<close>.
\<close>

definition memory_image :: "u8 list \<Rightarrow> elf32_phdr list \<Rightarrow> (u32 \<Rightarrow> u8 option) \<Rightarrow> u32 \<Rightarrow> u8 option" where
  "memory_image bytes phs m = fold (overlay bytes) (filter (\<lambda>ph. p_type ph = PT_LOAD) phs) m"

definition elf_overlay :: "u8 list \<Rightarrow> elf32_phdr \<Rightarrow> (u32 \<Rightarrow> u8 option) \<Rightarrow> u32 \<Rightarrow> u8 option" where
  "elf_overlay bytes ph m b = (if in_zero_part ph b then Some 0 else overlay bytes ph m b)"

definition elf_image :: "u8 list \<Rightarrow> elf32_phdr list \<Rightarrow> (u32 \<Rightarrow> u8 option) \<Rightarrow> u32 \<Rightarrow> u8 option" where
  "elf_image bytes phs m = fold (elf_overlay bytes) (filter (\<lambda>ph. p_type ph = PT_LOAD) phs) m"

text \<open>Addresses at which zeros of the image make no difference: outside all zero parts, or zero before and in no part of the file.\<close>

definition zeros_agree :: "elf32_phdr list \<Rightarrow> (u32 \<Rightarrow> u8 option) \<Rightarrow> u32 \<Rightarrow> bool" where
  "zeros_agree phs m b \<longleftrightarrow> (let ls = filter (\<lambda>ph. p_type ph = PT_LOAD) phs in
     list_all (\<lambda>ph. \<not> in_zero_part ph b) ls \<or> m b = Some 0 \<and> list_all (\<lambda>ph. \<not> in_file_part ph b) ls)"

lemma overlay_at:
  "elf_overlay bytes ph m b = (if in_zero_part ph b then Some 0
     else if in_file_part ph b then Some (bytes ! (unat (p_offset ph) + (unat b - unat (p_vaddr ph)))) else m b)"
  by (simp add: elf_overlay_def overlay_def)

lemma fold_elf_overlay:
  "list_all (\<lambda>ph. \<not> in_zero_part ph b) phs \<Longrightarrow> m b = m' b \<Longrightarrow> fold (overlay bytes) phs m b = fold (elf_overlay bytes) phs m' b"
proof (induction phs arbitrary: m m')
  case (Cons ph phs)
  then have "overlay bytes ph m b = elf_overlay bytes ph m' b" by (simp add: overlay_at overlay_def)
  then show ?case using Cons by simp
qed simp

lemma fold_overlay_zero:
  "list_all (\<lambda>ph. \<not> in_file_part ph b) phs \<Longrightarrow> m b = Some 0 \<Longrightarrow> fold (overlay bytes) phs m b = Some 0"
  "list_all (\<lambda>ph. \<not> in_file_part ph b) phs \<Longrightarrow> m b = Some 0 \<Longrightarrow> fold (elf_overlay bytes) phs m b = Some 0"
  by (induction phs arbitrary: m) (simp_all add: overlay_at overlay_def)

lemma image_is_elf: "zeros_agree phs m b \<Longrightarrow> memory_image bytes phs m b = elf_image bytes phs m b"
  by (auto simp: zeros_agree_def Let_def memory_image_def elf_image_def fold_overlay_zero intro: fold_elf_overlay)

definition peek :: "absent_key \<Rightarrow> 'x container \<Rightarrow> u32 \<Rightarrow> u8 option" where
  "peek absent v b = fst (read_byte absent b v)"

lemma peek_write:
  "in_imem a \<or> in_dmem a \<Longrightarrow> peek absent (snd (write_byte absent a x v)) = (peek absent v)(a := Some x)"
  using memory_write_read_all [of a absent _ x v] by (auto simp: peek_def fun_eq_iff)

end
