(* ===== verification/Elf_Props.thy ===== *)
theory Elf_Props
  imports Elf
begin

text \<open>
  The loader puts into memory exactly the image that the file's program headers describe.
\<close>

section \<open>Copying one segment\<close>

lemma write_segment_ok:
  "\<forall>k < length bs. in_imem (addr + of_nat (j + k)) \<or> in_dmem (addr + of_nat (j + k)) \<Longrightarrow>
   unat addr + j + length bs \<le> 2 ^ 32 \<Longrightarrow>
   \<exists>v'. write_segment absent addr j bs v = (None, v') \<and>
     peek absent v' = (\<lambda>b. if unat addr + j \<le> unat b \<and> unat b < unat addr + j + length bs
        then Some (bs ! (unat b - (unat addr + j))) else peek absent v b)"
proof (induction bs arbitrary: j v)
  case (Cons x bs)
  let ?a = "addr + of_nat j"
  have ram: "in_imem ?a \<or> in_dmem ?a" using Cons.prems(1) by (metis add_0_right length_greater_0_conv list.discI)
  obtain v1 where v1: "write_byte absent ?a x v = (True, v1)"
    using write_byte_true_iff [of absent ?a x v] ram by (cases "write_byte absent ?a x v") auto
  have p1: "peek absent v1 = (peek absent v)(?a := Some x)" using peek_write [OF ram, of absent x v] v1 by simp
  have ua: "unat ?a = unat addr + j" using Cons.prems(2) by (intro u32_shift_unat) simp
  have "\<forall>k < length bs. in_imem (addr + of_nat (Suc j + k)) \<or> in_dmem (addr + of_nat (Suc j + k))"
    using Cons.prems(1) by (metis Suc_less_eq add_Suc add_Suc_right length_Cons)
  from Cons.IH [OF this, of v1] Cons.prems(2) obtain v' where
    v': "write_segment absent addr (Suc j) bs v1 = (None, v')"
    "peek absent v' = (\<lambda>b. if unat addr + Suc j \<le> unat b \<and> unat b < unat addr + Suc j + length bs
        then Some (bs ! (unat b - (unat addr + Suc j))) else peek absent v1 b)"
    by auto
  have "peek absent v' b = (if unat addr + j \<le> unat b \<and> unat b < unat addr + j + length (x # bs)
        then Some ((x # bs) ! (unat b - (unat addr + j))) else peek absent v b)" for b
  proof (cases "b = ?a")
    case True
    then show ?thesis using ua by (simp add: v'(2) p1)
  next
    case False
    then have "unat b \<noteq> unat addr + j" using ua by (metis word_unat_eq_iff)
    then show ?thesis using False
      by (auto simp: v'(2) p1 nth_Cons' Suc_diff_Suc)
  qed
  then show ?case using v1 v'(1) by (intro exI [of _ v']) (auto simp: fun_eq_iff)
qed (auto simp: fun_eq_iff)

section \<open>Reading the file\<close>

lemma ifs_read_enough:
  "\<not> ifs_fail f \<Longrightarrow> ifs_pos f + n \<le> length (ifs_data f) \<Longrightarrow>
   ifs_read n buf f = (take n (drop (ifs_pos f) (ifs_data f)) @ drop n buf, f\<lparr>ifs_pos := ifs_pos f + n, ifs_fail := False\<rparr>)"
  by (simp add: ifs_read_def Let_def)

lemma phdr_of_append: "length xs = PHDR_SIZE \<Longrightarrow> phdr_of (xs @ ys) = phdr_of xs"
  by (simp add: phdr_of_def PHDR_SIZE_def u32_at_def nth_append)

lemma ehdr_of_append: "length xs = EHDR_SIZE \<Longrightarrow> ehdr_of (xs @ ys) = ehdr_of xs"
  by (simp add: ehdr_of_def EHDR_SIZE_def u32_at_def u16_at_def nth_append)

lemma overlay_eq:
  assumes "unat (p_offset ph) + unat (p_filesz ph) \<le> length bytes"
  shows "overlay bytes ph m = (\<lambda>b. if unat (p_vaddr ph) + 0 \<le> unat b \<and>
      unat b < unat (p_vaddr ph) + 0 + length (take (unat (p_filesz ph)) (drop (unat (p_offset ph)) bytes))
    then Some (take (unat (p_filesz ph)) (drop (unat (p_offset ph)) bytes) ! (unat b - (unat (p_vaddr ph) + 0))) else m b)"
  using assms by (auto simp: overlay_def in_file_part_def fun_eq_iff)

lemma load_phdrs_image:
  "\<not> ifs_fail f \<Longrightarrow> ifs_data f = bytes \<Longrightarrow> ifs_pos f + PHDR_SIZE * n \<le> length bytes \<Longrightarrow>
   \<forall>ph \<in> set (phdrs_at bytes (ifs_pos f) n). p_type ph = PT_LOAD \<longrightarrow> segment_ok bytes ph \<Longrightarrow>
   \<exists>v' log'. load_phdrs absent junk n f v log = (v', log') \<and>
     peek absent v' = memory_image bytes (phdrs_at bytes (ifs_pos f) n) (peek absent v)"
proof (induction n arbitrary: f v log)
  case (Suc n)
  let ?p = "ifs_pos f" and ?raw = "take PHDR_SIZE (drop (ifs_pos f) bytes)"
  let ?ph = "phdr_of ?raw" and ?f1 = "f\<lparr>ifs_pos := ifs_pos f + PHDR_SIZE, ifs_fail := False\<rparr>"
  have rd: "ifs_read PHDR_SIZE (junk n) f = (?raw @ drop PHDR_SIZE (junk n), ?f1)"
    using ifs_read_enough [OF Suc.prems(1), of PHDR_SIZE] Suc.prems(2,3) by simp
  have ph: "phdr_of (?raw @ drop PHDR_SIZE (junk n)) = ?ph"
    by (rule phdr_of_append) (use Suc.prems(3) in simp)
  have f1: "\<not> ifs_fail ?f1" "ifs_data ?f1 = bytes" "ifs_pos ?f1 + PHDR_SIZE * n \<le> length bytes"
    "ifs_pos ?f1 = ?p + PHDR_SIZE"
    using Suc.prems(2,3) by simp_all
  have rest: "\<forall>ph \<in> set (phdrs_at bytes (ifs_pos ?f1) n). p_type ph = PT_LOAD \<longrightarrow> segment_ok bytes ph"
    using Suc.prems(4) by simp
  show ?case
  proof (cases "p_type ?ph = PT_LOAD")
    case False
    then show ?thesis
      using Suc.IH [OF f1(1-3) rest, of v log] by (simp add: rd ph Let_def memory_image_def)
  next
    case True
    then have seg: "unat (p_offset ?ph) + unat (p_filesz ?ph) \<le> length bytes"
      "unat (p_vaddr ?ph) + unat (p_filesz ?ph) \<le> 2 ^ 32"
      "\<forall>j < unat (p_filesz ?ph). in_imem (p_vaddr ?ph + of_nat j) \<or> in_dmem (p_vaddr ?ph + of_nat j)"
      using Suc.prems(4) by (auto simp: segment_ok_def)
    let ?data = "take (unat (p_filesz ?ph)) (drop (unat (p_offset ?ph)) bytes)"
    have len: "length ?data = unat (p_filesz ?ph)" using seg(1) by simp
    obtain v' where v': "write_segment absent (p_vaddr ?ph) 0 ?data v = (None, v')"
      "peek absent v' = overlay bytes ?ph (peek absent v)"
      using write_segment_ok [of ?data "p_vaddr ?ph" 0 absent v] seg unfolding overlay_eq [OF seg(1)] len by auto
    have rd2: "ifs_read (unat (p_filesz ?ph)) (replicate (unat (p_filesz ?ph)) 0) (ifs_seekg (unat (p_offset ?ph)) ?f1) =
        (?data, ?f1\<lparr>ifs_pos := unat (p_offset ?ph) + unat (p_filesz ?ph)\<rparr>)"
      using ifs_read_enough [of "ifs_seekg (unat (p_offset ?ph)) ?f1" "unat (p_filesz ?ph)"] seg(1) Suc.prems(2)
      by (simp add: ifs_seekg_def)
    have restored: "ifs_seekg (ifs_tellg ?f1) (?f1\<lparr>ifs_pos := unat (p_offset ?ph) + unat (p_filesz ?ph)\<rparr>) = ?f1"
      by (simp add: ifs_seekg_def ifs_tellg_def)
    let ?log = "log @ [Read_segment (p_vaddr ?ph) (p_vaddr ?ph + p_memsz ?ph - 1) (p_memsz ?ph)]"
    have "load_phdrs absent junk (Suc n) f v log = load_phdrs absent junk n ?f1 v' ?log"
      unfolding load_phdrs.simps rd Let_def prod.case ph rd2 restored v'(1) using True by simp
    then show ?thesis
      using Suc.IH [OF f1(1-3) rest, of v' ?log] True v'(2) by (simp add: memory_image_def)
  qed
qed (simp add: memory_image_def)

section \<open>The whole file\<close>

text \<open>
  C5: For every ELF32 file whose program headers lie inside it and whose loadable segments lie, with their part of the file,
  inside it and inside boot ROM or data memory, \<open>load_elf\<close> succeeds and afterwards every
  address of the machine reads as the byte of the last segment that
  covers it with its part of the file, or what it held before.  That is the image the ELF standard asks for at every address outside the
  segments' zero parts (from \<open>p_filesz\<close> to \<open>p_memsz\<close>) and at those that were zero before; the loader does not write the zeros.
\<close>

theorem load_elf_builds_image:
  fixes v :: "'a container"
  assumes size: "EHDR_SIZE \<le> length bytes" and magic: "bytes ! EI_MAG0 = ELFMAG0" "bytes ! EI_CLASS = ELFCLASS32"
    and table: "unat (u32_at bytes 28) + PHDR_SIZE * u16_at bytes 44 \<le> length bytes"
    and phs: "phs = phdrs_at bytes (unat (u32_at bytes 28)) (u16_at bytes 44)"
    and segs: "\<forall>ph \<in> set phs. p_type ph = PT_LOAD \<longrightarrow> segment_ok bytes ph"
  shows "\<exists>v' log. load_elf absent junk_eh junk (Some bytes) v = Inr (v', log) \<and>
    (\<forall>b. fst (read_byte absent b v') = memory_image bytes phs (\<lambda>b. fst (read_byte absent b v)) b) \<and>
    (\<forall>b. zeros_agree phs (\<lambda>b. fst (read_byte absent b v)) b \<longrightarrow>
       fst (read_byte absent b v') = elf_image bytes phs (\<lambda>b. fst (read_byte absent b v)) b)"
proof -
  let ?f = "(ifs_open bytes)\<lparr>ifs_pos := EHDR_SIZE, ifs_fail := False\<rparr>"
  let ?eh = "ehdr_of (take EHDR_SIZE bytes)"
  have rd: "ifs_read EHDR_SIZE junk_eh (ifs_open bytes) = (take EHDR_SIZE bytes @ drop EHDR_SIZE junk_eh, ?f)"
    using ifs_read_enough [of "ifs_open bytes" EHDR_SIZE] size by (simp add: ifs_open_def)
  have eh: "ehdr_of (take EHDR_SIZE bytes @ drop EHDR_SIZE junk_eh) = ?eh"
    by (rule ehdr_of_append) (use size in simp)
  have fields: "e_phoff ?eh = u32_at bytes 28" "e_phnum ?eh = u16_at bytes 44"
    "e_ident ?eh ! EI_MAG0 = bytes ! EI_MAG0" "e_ident ?eh ! EI_CLASS = bytes ! EI_CLASS"
    using size by (simp_all add: ehdr_of_def u32_at_def u16_at_def EHDR_SIZE_def EI_MAG0_def EI_CLASS_def)
  let ?g = "ifs_seekg (unat (u32_at bytes 28)) ?f"
  have g: "\<not> ifs_fail ?g" "ifs_data ?g = bytes" "ifs_pos ?g = unat (u32_at bytes 28)"
    by (simp_all add: ifs_seekg_def ifs_open_def)
  obtain v' log where r: "load_phdrs absent junk (u16_at bytes 44) ?g v [] = (v', log)"
    "peek absent v' = memory_image bytes (phdrs_at bytes (unat (u32_at bytes 28)) (u16_at bytes 44)) (peek absent v)"
    using load_phdrs_image [OF g(1,2), of "u16_at bytes 44" absent junk v "[]"] table segs [unfolded phs] unfolding g(3) by blast
  have pk: "peek absent v = (\<lambda>b. fst (read_byte absent b v))" for v :: "'a container" by (simp add: peek_def fun_eq_iff)
  have "load_elf absent junk_eh junk (Some bytes) v = Inr (v', log)"
    using r(1) magic by (simp add: load_elf_def rd eh fields Let_def)
  then show ?thesis using r(2) image_is_elf unfolding pk phs by (auto simp: fun_eq_iff)
qed

text \<open>A file with one loadable segment at the start of data memory: two bytes of the file and six zeros.\<close>

definition demo_elf :: "u8 list" where
  "demo_elf = [
     127, 69, 76, 70, 1, 0, 0, 0, 0, 0, 0, 0, 0, 0, 0, 0, 0, 0, 0, 0,
     0, 0, 0, 0, 0, 0, 0, 0, 52, 0, 0, 0, 0, 0, 0, 0, 0, 0, 0, 0,
     0, 0, 0, 0, 1, 0, 0, 0, 0, 0, 0, 0, 1, 0, 0, 0, 84, 0, 0, 0,
     0, 0, 0, 128, 0, 0, 0, 0, 2, 0, 0, 0, 8, 0, 0, 0, 0, 0, 0, 0,
     0, 0, 0, 0, 17, 34]"

theorem load_elf_builds_image_witness:
  "\<exists>v' log. load_elf demo_absent [] (\<lambda>_. []) (Some demo_elf) (demo_container demo_top) = Inr (v', log) \<and>
     fst (read_byte demo_absent 0x80000001 v') = Some 34 \<and>
     fst (read_byte demo_absent 0x80000001 v') = elf_image demo_elf (phdrs_at demo_elf 52 1) (\<lambda>b. fst (read_byte demo_absent b (demo_container demo_top))) 0x80000001"
proof -
  have hdr: "EHDR_SIZE \<le> length demo_elf" "demo_elf ! EI_MAG0 = ELFMAG0" "demo_elf ! EI_CLASS = ELFCLASS32"
    "u32_at demo_elf 28 = 52" "u16_at demo_elf 44 = 1"
    by (simp_all add: demo_elf_def EHDR_SIZE_def EI_MAG0_def EI_CLASS_def ELFMAG0_def ELFCLASS32_def
        u32_at_def u16_at_def)
  have phs: "phdrs_at demo_elf 52 1 = [\<lparr>p_type = 1, p_offset = 84, p_vaddr = 0x80000000, p_filesz = 2, p_memsz = 8\<rparr>]"
    by (simp add: demo_elf_def phdr_of_def PHDR_SIZE_def u32_at_def)
  let ?ph = "\<lparr>p_type = 1, p_offset = 84, p_vaddr = 0x80000000, p_filesz = 2, p_memsz = 8\<rparr> :: elf32_phdr"
  have len: "length demo_elf = 86" "demo_elf ! 85 = 34" by (simp_all add: demo_elf_def)
  have "in_dmem (0x80000000 + of_nat j)" if "j < 2" for j
    using that by (auto simp: less_2_cases_iff in_dmem_def mem_map_defs)
  then have seg: "segment_ok demo_elf ?ph" by (simp add: segment_ok_def len)
  have "unat (u32_at demo_elf 28) + PHDR_SIZE * u16_at demo_elf 44 \<le> length demo_elf"
    by (simp add: hdr(4,5) len PHDR_SIZE_def)
  moreover have "[?ph] = phdrs_at demo_elf (unat (u32_at demo_elf 28)) (u16_at demo_elf 44)"
    unfolding hdr(4,5) using phs by simp
  moreover have "\<forall>ph \<in> set [?ph]. p_type ph = PT_LOAD \<longrightarrow> segment_ok demo_elf ph" using seg by simp
  ultimately have "\<exists>v' log. load_elf demo_absent [] (\<lambda>_. []) (Some demo_elf) (demo_container demo_top) = Inr (v', log) \<and>
      (\<forall>b. fst (read_byte demo_absent b v') = memory_image demo_elf [?ph] (\<lambda>b. fst (read_byte demo_absent b (demo_container demo_top))) b) \<and>
      (\<forall>b. zeros_agree [?ph] (\<lambda>b. fst (read_byte demo_absent b (demo_container demo_top))) b \<longrightarrow>
         fst (read_byte demo_absent b v') = elf_image demo_elf [?ph] (\<lambda>b. fst (read_byte demo_absent b (demo_container demo_top))) b)"
    by (rule load_elf_builds_image [OF hdr(1-3)])
  moreover have "memory_image demo_elf [?ph] m 0x80000001 = Some 34" for m
    by (simp add: memory_image_def overlay_def in_file_part_def PT_LOAD_def len)
  moreover have "zeros_agree [?ph] m 0x80000001" for m by (simp add: zeros_agree_def in_zero_part_def)
  ultimately show ?thesis unfolding phs by metis
qed

end
