(* ===== verification/Simulator.thy ===== *)
theory Simulator
  imports Windows Elf_Props
begin

text \<open>
  The simulator as \<open>sim/src/main.cpp\<close> wires it up: the window loop (\<open>sdl_window.cpp\<close>) with its
  event, update and render listeners, the renderer that turns a render event into a frame of its
  drawers (\<open>imgui_renderer.cpp\<close>), and the update and render listeners of \<open>Simulator\<close>
  (\<open>simulator.cpp\<close>).  Listeners are references in registration order.  Of ImGui the list of items
  drawn so far in the frame is state, and the screen, which shows the last frame that was ended.
\<close>

section \<open>State\<close>

datatype tick_listener = L_c_term

datatype update_listener = L_c_time | L_c_dump

datatype render_listener = L_d_sidebar | L_d_time | L_d_dump | L_d_term

text \<open>The objects that are registered with the window and with the renderer.\<close>

datatype window_event_listener = E_imgui

datatype window_update_listener = U_sim

datatype window_render_listener = R_imgui

datatype imgui_drawer = D_sim

record ('f, 'd, 't, 'x) app =
  sim_v :: "'x container"
  c_time :: "('f, 'd, 't, tick_listener) time_ctrl"
  c_dump :: "name_ptr dump_ctrl"
  c_term :: terminal
  d_sidebar :: sidebar
  d_dump :: dump_drawer
  sim_l_update :: "update_listener list"
  sim_l_render :: "render_listener list"
  win_l_evt :: "window_event_listener list"
  win_l_update :: "window_update_listener list"
  win_l_render :: "window_render_listener list"
  imgui_drawers :: "imgui_drawer list"
  im_items :: "panel_item list"
  im_screen :: "panel_item list"

definition sim_add_update_listener :: "update_listener \<Rightarrow> ('f, 'd, 't, 'x) app \<Rightarrow> ('f, 'd, 't, 'x) app" where
  "sim_add_update_listener l a = a\<lparr>sim_l_update := sim_l_update a @ [l]\<rparr>"

definition sim_add_render_listener :: "render_listener \<Rightarrow> ('f, 'd, 't, 'x) app \<Rightarrow> ('f, 'd, 't, 'x) app" where
  "sim_add_render_listener l a = a\<lparr>sim_l_render := sim_l_render a @ [l]\<rparr>"

definition win_add_event_listener :: "window_event_listener \<Rightarrow> ('f, 'd, 't, 'x) app \<Rightarrow> ('f, 'd, 't, 'x) app" where
  "win_add_event_listener l a = a\<lparr>win_l_evt := win_l_evt a @ [l]\<rparr>"

definition win_add_update_listener :: "window_update_listener \<Rightarrow> ('f, 'd, 't, 'x) app \<Rightarrow> ('f, 'd, 't, 'x) app" where
  "win_add_update_listener l a = a\<lparr>win_l_update := win_l_update a @ [l]\<rparr>"

definition win_add_render_listener :: "window_render_listener \<Rightarrow> ('f, 'd, 't, 'x) app \<Rightarrow> ('f, 'd, 't, 'x) app" where
  "win_add_render_listener l a = a\<lparr>win_l_render := win_l_render a @ [l]\<rparr>"

definition add_drawer :: "imgui_drawer \<Rightarrow> ('f, 'd, 't, 'x) app \<Rightarrow> ('f, 'd, 't, 'x) app" where
  "add_drawer d a = a\<lparr>imgui_drawers := imgui_drawers a @ [d]\<rparr>"

section \<open>Updating\<close>

text \<open>The terminal as a listener of the clock: it sees the UART of the hardware.\<close>

definition on_container :: "('x container \<Rightarrow> 'x container result) \<Rightarrow> 'x container \<times> terminal \<Rightarrow> ('x container \<times> terminal) result" where
  "on_container f s = res_bind (f (fst s)) (\<lambda>v. Inr (v, snd s))"

definition term_per_tick :: "tick_listener \<Rightarrow> 'x container \<times> terminal \<Rightarrow> ('x container \<times> terminal) result" where
  "term_per_tick l s =
     res_bind (Terminal.per_tick_update (snd s) (uart_s (m_top (fst s)))) (\<lambda>(t, u).
       Inr ((fst s)\<lparr>m_top := (m_top (fst s))\<lparr>uart_s := u\<rparr>\<rparr>, t))"

definition term_on_reset :: "tick_listener \<Rightarrow> 'x container \<times> terminal \<Rightarrow> ('x container \<times> terminal) result" where
  "term_on_reset l s = Inr (fst s, terminal_reset (snd s))"

definition sim_env :: "('x vtop \<Rightarrow> 'x vtop) \<Rightarrow> (tick_listener, 'x container \<times> terminal) tick_env" where
  "sim_env eval = \<lparr>hw_update = on_container (v_update eval), hw_reset = on_container (v_reset eval),
     per_tick = term_per_tick, on_reset = term_on_reset\<rparr>"

text \<open>The parameters of a run: the clock arithmetic and how it prints a period, the hardware model,
  the file system.\<close>

record ('f, 'd, 't, 'x) host =
  h_arith :: "('f, 'd, 't) clock_arith"
  h_eval :: "'x vtop \<Rightarrow> 'x vtop"
  h_final :: "'x vtop \<Rightarrow> 'x vtop"
  h_opens :: "string \<Rightarrow> bool"
  h_show :: "'d \<Rightarrow> string"
  h_absent :: absent_key

definition name_of :: "('f, 'd, 't, 'x) app \<Rightarrow> name_ptr \<Rightarrow> string" where
  "name_of a p = dd_name (d_dump a)"

definition listener_update :: "('f, 'd, 't, 'x) host \<Rightarrow> 't \<Rightarrow> 't \<Rightarrow> update_listener \<Rightarrow> ('f, 'd, 't, 'x) app \<Rightarrow>
    ('f, 'd, 't, 'x) app result" where
  "listener_update H now1 now2 l a =
     (case l of
        L_c_time \<Rightarrow>
          res_bind (time_update (h_arith H) (sim_env (h_eval H)) now1 now2 (c_time a) (sim_v a, c_term a))
            (\<lambda>(tc, (v, t)). Inr (a\<lparr>c_time := tc, sim_v := v, c_term := t\<rparr>))
      | L_c_dump \<Rightarrow>
          (let (dc, tc, v) = dump_update (h_opens H) (name_of a) (c_dump a) (c_time a) (sim_v a)
           in Inr (a\<lparr>c_dump := dc, c_time := tc, sim_v := v\<rparr>)))"

definition sim_update :: "('f, 'd, 't, 'x) host \<Rightarrow> 't \<Rightarrow> 't \<Rightarrow> ('f, 'd, 't, 'x) app \<Rightarrow> ('f, 'd, 't, 'x) app result" where
  "sim_update H now1 now2 a = notify (listener_update H now1 now2) (sim_l_update a) a"

section \<open>Drawing\<close>

definition put_items :: "panel_item list \<Rightarrow> ('f, 'd, 't, 'x) app \<Rightarrow> ('f, 'd, 't, 'x) app" where
  "put_items xs a = a\<lparr>im_items := im_items a @ xs\<rparr>"

text \<open>
  The drawers.  Each draws from the state before its input acts, except for the memory inspector
  and the clock period; in the terminal window an exception of the drawing leaves the frame.
\<close>

definition listener_render :: "('f, 'd, 't, 'x) host \<Rightarrow> 'f ui \<Rightarrow> render_listener \<Rightarrow> ('f, 'd, 't, 'x) app \<Rightarrow> ('f, 'd, 't, 'x) app result" where
  "listener_render H ui l a =
     (case l of
        L_d_sidebar \<Rightarrow>
          res_bind (sidebar_render (h_absent H) (ui_panels ui) (sim_v a, d_sidebar a)) (\<lambda>(xs, (v, d)).
            Inr (put_items xs (a\<lparr>sim_v := v, d_sidebar := d\<rparr>)))
      | L_d_time \<Rightarrow>
          Inr (put_items (time_drawer_items (h_arith H) (h_show H) ui (c_time a) (sim_v a))
            (a\<lparr>c_time := time_drawer_render ui (c_time a)\<rparr>))
      | L_d_dump \<Rightarrow>
          (let (dd, dc) = dump_drawer_render ui (d_dump a) (c_dump a)
           in Inr (put_items (dump_drawer_items ui (c_dump a) (sim_v a)) (a\<lparr>d_dump := dd, c_dump := dc\<rparr>)))
      | L_d_term \<Rightarrow>
          res_bind (term_drawer_items ui (c_term a)) (\<lambda>xs.
            Inr (put_items xs (a\<lparr>c_term := term_drawer_render ui (c_term a)\<rparr>))))"

definition sim_draw :: "('f, 'd, 't, 'x) host \<Rightarrow> 'f ui \<Rightarrow> ('f, 'd, 't, 'x) app \<Rightarrow> ('f, 'd, 't, 'x) app result" where
  "sim_draw H ui a = notify (listener_render H ui) (sim_l_render a) a"

text \<open>The renderer: begin a frame, let every drawer draw, end the frame.\<close>

definition begin_frame :: "('f, 'd, 't, 'x) app \<Rightarrow> ('f, 'd, 't, 'x) app" where
  "begin_frame a = a\<lparr>im_items := []\<rparr>"

definition end_frame :: "('f, 'd, 't, 'x) app \<Rightarrow> ('f, 'd, 't, 'x) app" where
  "end_frame a = a\<lparr>im_screen := im_items a\<rparr>"

definition drawer_draw :: "('f, 'd, 't, 'x) host \<Rightarrow> 'f ui \<Rightarrow> imgui_drawer \<Rightarrow> ('f, 'd, 't, 'x) app \<Rightarrow> ('f, 'd, 't, 'x) app result" where
  "drawer_draw H ui d a = (case d of D_sim \<Rightarrow> sim_draw H ui a)"

definition imgui_render :: "('f, 'd, 't, 'x) host \<Rightarrow> 'f ui \<Rightarrow> ('f, 'd, 't, 'x) app \<Rightarrow> ('f, 'd, 't, 'x) app result" where
  "imgui_render H ui a =
     res_bind (notify (drawer_draw H ui) (imgui_drawers a) (begin_frame a)) (\<lambda>a'. Inr (end_frame a'))"

section \<open>The window loop and \<open>main\<close>\<close>

datatype sdl_event = SDL_QUIT | SDL_other

record ('f, 't) frame =
  fr_events :: "sdl_event list"
  fr_now1 :: 't
  fr_now2 :: 't
  fr_ui :: "'f ui"

text \<open>
  An event goes to ImGui, whose answers in the next frame are the \<open>ui\<close> of that frame; the program's
  own state does not change.
\<close>

definition handle_event :: "sdl_event \<Rightarrow> window_event_listener \<Rightarrow> ('f, 'd, 't, 'x) app \<Rightarrow> ('f, 'd, 't, 'x) app result" where
  "handle_event e l a = (case l of E_imgui \<Rightarrow> Inr a)"

fun poll_events :: "sdl_event list \<Rightarrow> bool \<Rightarrow> ('f, 'd, 't, 'x) app \<Rightarrow> (bool \<times> ('f, 'd, 't, 'x) app) result" where
  "poll_events [] running a = Inr (running, a)"
| "poll_events (e # es) running a =
     res_bind (notify (handle_event e) (win_l_evt a) a) (\<lambda>a'. poll_events es (if e = SDL_QUIT then False else running) a')"

definition window_update :: "('f, 'd, 't, 'x) host \<Rightarrow> ('f, 't) frame \<Rightarrow> window_update_listener \<Rightarrow> ('f, 'd, 't, 'x) app \<Rightarrow>
    ('f, 'd, 't, 'x) app result" where
  "window_update H fr l a = (case l of U_sim \<Rightarrow> sim_update H (fr_now1 fr) (fr_now2 fr) a)"

definition window_render :: "('f, 'd, 't, 'x) host \<Rightarrow> ('f, 't) frame \<Rightarrow> window_render_listener \<Rightarrow> ('f, 'd, 't, 'x) app \<Rightarrow>
    ('f, 'd, 't, 'x) app result" where
  "window_render H fr l a = (case l of R_imgui \<Rightarrow> imgui_render H (fr_ui fr) a)"

text \<open>One turn of the loop: poll the events, update, render; the flag is \<open>running\<close>.\<close>

definition window_frame :: "('f, 'd, 't, 'x) host \<Rightarrow> ('f, 't) frame \<Rightarrow> ('f, 'd, 't, 'x) app \<Rightarrow> (bool \<times> ('f, 'd, 't, 'x) app) result" where
  "window_frame H fr a =
     res_bind (poll_events (fr_events fr) True a) (\<lambda>(running, a1).
     res_bind (notify (window_update H fr) (win_l_update a1) a1) (\<lambda>a2.
     res_bind (notify (window_render H fr) (win_l_render a2) a2) (\<lambda>a3. Inr (running, a3))))"

text \<open>\<open>run\<close> over the given frames; the flag tells whether the loop has ended.\<close>

fun window_run :: "('f, 'd, 't, 'x) host \<Rightarrow> ('f, 't) frame list \<Rightarrow> ('f, 'd, 't, 'x) app \<Rightarrow> (('f, 'd, 't, 'x) app \<times> bool) result" where
  "window_run H [] a = Inr (a, False)"
| "window_run H (fr # frs) a =
     res_bind (window_frame H fr a) (\<lambda>(running, a'). if running then window_run H frs a' else Inr (a', True))"

text \<open>
  The objects \<open>main\<close> constructs and the listeners it registers, in its order.  \<open>hz\<close>, \<open>t0\<close>, \<open>b\<close> and \<open>n\<close> are
  the literal frequency and the uninitialised members, \<open>col\<close> the colour packing.
\<close>

definition main_app :: "('f, 'd, 't) clock_arith \<Rightarrow> (u8 \<Rightarrow> u8 \<Rightarrow> u8 \<Rightarrow> u8 \<Rightarrow> u32) \<Rightarrow> 'f \<Rightarrow> 't \<Rightarrow> bool \<Rightarrow> int \<Rightarrow>
    'x container \<Rightarrow> ('f, 'd, 't, 'x) app" where
  "main_app A col hz t0 b n v =
     (let a0 = \<lparr>sim_v = v, c_time = time_ctrl_new A hz t0, c_dump = dump_ctrl_new b Dump_drawer_name n,
                c_term = terminal_new_default col 80 25 256, d_sidebar = sidebar_new, d_dump = dump_drawer_new,
                sim_l_update = [], sim_l_render = [], win_l_evt = [], win_l_update = [], win_l_render = [],
                imgui_drawers = [], im_items = [], im_screen = []\<rparr>;
          a1 = win_add_render_listener R_imgui (win_add_event_listener E_imgui a0);
          a2 = add_drawer D_sim (win_add_update_listener U_sim a1);
          a3 = sim_add_update_listener L_c_dump (sim_add_update_listener L_c_time a2);
          a4 = a3\<lparr>c_time := tc_add_reset_listener L_c_term (tc_add_update_listener L_c_term (c_time a3))\<rparr>
      in sim_add_render_listener L_d_term (sim_add_render_listener L_d_dump
           (sim_add_render_listener L_d_time (sim_add_render_listener L_d_sidebar a4))))"

text \<open>
  The body of the \<open>try\<close> block.  \<open>boot\<close> is the file at \<open>BOOT_ROM_PATH\<close>, \<open>None\<close> when the macro is
  not defined; \<open>je\<close> and \<open>jp\<close> are the uninitialised locals of the loader.
\<close>

definition main_try :: "('f, 'd, 't, 'x) host \<Rightarrow> u8 list option option \<Rightarrow> u8 list \<Rightarrow> (nat \<Rightarrow> u8 list) \<Rightarrow> ('f, 't) frame list \<Rightarrow>
    ('f, 'd, 't, 'x) app \<Rightarrow> (('f, 'd, 't, 'x) app \<times> bool) result" where
  "main_try H boot je jp frs a =
     res_bind (case boot of None \<Rightarrow> Inr (sim_v a, [])
               | Some file \<Rightarrow> load_elf (h_absent H) je jp file (sim_v a)) (\<lambda>(v, log).
     res_bind (v_start (h_eval H) v) (\<lambda>v1.
     res_bind (window_run H frs (a\<lparr>sim_v := v1\<rparr>)) (\<lambda>(a', ended).
       if \<not> ended then Inr (a', False)
       else res_bind (v_finish (h_final H) (sim_v a')) (\<lambda>v2. Inr (a'\<lparr>sim_v := v2\<rparr>, True)))))"

end
