(* ===== verification/Simulator_Props.thy ===== *)
theory Simulator_Props
  imports Simulator Terminal_Reach
begin

text \<open>
  Whole-program properties of the simulator: which exceptions can end it, when its main loop
  ends, and that the dump controller and the container agree after every frame.
\<close>

section \<open>The exceptions of the terminal\<close>

text \<open>An out-of-range access, or undefined behaviour.\<close>

definition display_error :: "cpp_error \<Rightarrow> bool" where
  "display_error e \<longleftrightarrow> (\<exists>i n. e = RangeError i n) \<or> e = OutOfBounds"

lemma blank_row_error:
  "blank_row_from p c t = Inl e \<Longrightarrow> display_error e" "blank_row_until p c t = Inl e \<Longrightarrow> display_error e"
  "rb_ref b i = Inl e \<Longrightarrow> display_error e"
  by (auto simp: blank_row_from_def blank_row_until_def rb_ref_def Let_def display_error_def split: if_splits)

lemma copy_blank_rows_error: "copy_blank_rows p r lst t = Inl e \<Longrightarrow> display_error e"
proof (induction p r lst t rule: copy_blank_rows.induct)
  case (1 p r lst t)
  from "1.prems" show ?case
    by (subst (asm) copy_blank_rows.simps) (auto simp: res_simps dest: blank_row_error "1.IH" split: if_splits)
qed

lemma blank_rows_error: "blank_rows r lst t = Inl e \<Longrightarrow> display_error e"
proof (induction r lst t rule: blank_rows.induct)
  case (1 r lst t)
  from "1.prems" show ?case
    by (subst (asm) blank_rows.simps) (auto simp: res_simps dest: blank_row_error "1.IH" split: if_splits)
qed

lemma erase_display_error: "erase_display n t = Inl e \<Longrightarrow> display_error e"
  by (auto simp: erase_display_def res_simps split: if_splits
      dest: blank_row_error copy_blank_rows_error blank_rows_error)

lemma put_symbol_error: "put_symbol c t = Inl e \<Longrightarrow> display_error e"
  by (auto simp: put_symbol_def res_simps Let_def display_error_def split: if_splits dest: blank_row_error)

lemma process_char_error: "process_char c t = Inl e \<Longrightarrow> display_error e"
  by (auto simp: process_char_def Let_def ground_char_def csi_char_def csi_J_def res_simps
      split: read_state.splits if_splits dest: put_symbol_error erase_display_error)

lemma per_tick_error: "Terminal.per_tick_update t u = Inl e \<Longrightarrow> display_error e"
  by (auto simp: Terminal.per_tick_update_def res_simps split: if_splits dest: process_char_error)

lemma draw_cells_error: "draw_cells ps t = Inl e \<Longrightarrow> display_error e"
  by (induction ps t rule: draw_cells.induct)
    (auto simp: res_simps symbol_at_viewport_def Let_def rb_at_def display_error_def split: if_splits dest: blank_row_error)

lemma term_drawer_items_error: "term_drawer_items ui t = Inl e \<Longrightarrow> display_error e"
  by (auto simp: term_drawer_items_def draw_screen_def res_simps split: if_splits dest: draw_cells_error)

section \<open>Frames keep the program in order\<close>

text \<open>
  The clock: the container is running, a dump is open only if \<open>B\<close> (the clock may finish a dump but
  never starts one), and the terminal is one that can be reached with the size \<open>main\<close> gave it.
\<close>

definition term_sized :: "terminal \<Rightarrow> bool" where
  "term_sized t \<longleftrightarrow> (\<exists>d. term_reach 80 25 256 d t)"

lemma term_sized_new: "term_sized (terminal_new_default col 80 25 256)"
  unfolding term_sized_def terminal_new_default_def using term_reach.fresh by blast

lemma term_sized_screen:
  assumes "term_sized t"
  shows "screen_ok t" "m_viewport_w t = 80" "m_viewport_h t = 25" "m_buf_cap t = 256"
  using assms term_reach_screen [of 80 25 256] by (auto simp: term_sized_def SIZE_MOD_def)

definition sim_running :: "bool \<Rightarrow> 'x container \<times> terminal \<Rightarrow> bool" where
  "sim_running B s \<longleftrightarrow> m_started (fst s) \<and> \<not> m_finished (fst s) \<and> (is_dumping (fst s) \<longrightarrow> B) \<and> term_sized (snd s)"

lemma sized_moves:
  "term_sized t \<Longrightarrow> Terminal.per_tick_update t u = Inr (t', u') \<Longrightarrow> term_sized t'" "term_sized t \<Longrightarrow> term_sized (terminal_reset t)"
  "term_sized t \<Longrightarrow> term_sized (enqueue_char c t)" "term_sized t \<Longrightarrow> term_sized (scroll n t)"
  unfolding term_sized_def by (blast intro: term_reach.intros)+

lemma half_cycle_no_new_dump: "is_dumping (half_cycle eval c v) \<Longrightarrow> is_dumping v"
  by (simp add: half_cycle_def Let_def dump_step_def stop_trace_dump_def is_dumping_def vcd_close_def split: if_splits)

lemma is_dumping_top [simp]: "is_dumping (v\<lparr>m_top := x\<rparr>) = is_dumping v" "is_dumping (v\<lparr>m_started := b\<rparr>) = is_dumping v"
  by (simp_all add: is_dumping_def)

lemma v_update_running:
  "m_started v \<Longrightarrow> \<not> m_finished v \<Longrightarrow> \<exists>v'. v_update eval v = Inr v' \<and> m_started v' \<and> \<not> m_finished v' \<and>
     (is_dumping v' \<longrightarrow> is_dumping v)"
  by (auto simp: v_update_def dest!: half_cycle_no_new_dump)

lemma v_reset_running:
  assumes "m_started v" "\<not> m_finished v"
  shows "\<exists>v'. v_reset eval v = Inr v' \<and> m_started v' \<and> \<not> m_finished v' \<and> (is_dumping v' \<longrightarrow> is_dumping v)"
  using v_update_running [of "v\<lparr>m_top := (m_top v)\<lparr>i_rst := True\<rparr>\<rparr>" eval] assms by (auto simp: v_reset_def)

interpretation running: tick_invariant "sim_env eval" "sim_running B" display_error for eval B
proof
  fix s :: "'a container \<times> terminal" and l
  assume P: "sim_running B s"
  show "case hw_update (sim_env eval) s of Inl e \<Rightarrow> display_error e | Inr s' \<Rightarrow> sim_running B s'"
    using v_update_running [of "fst s" eval] P by (auto simp: sim_env_def on_container_def sim_running_def)
  show "case hw_reset (sim_env eval) s of Inl e \<Rightarrow> display_error e | Inr s' \<Rightarrow> sim_running B s'"
    using v_reset_running [of "fst s" eval] P by (auto simp: sim_env_def on_container_def sim_running_def)
  show "case per_tick (sim_env eval) l s of Inl e \<Rightarrow> display_error e | Inr s' \<Rightarrow> sim_running B s'"
    using P per_tick_error [of "snd s" "uart_s (m_top (fst s))"] sized_moves(1) [of "snd s" "uart_s (m_top (fst s))"]
    by (cases "Terminal.per_tick_update (snd s) (uart_s (m_top (fst s)))")
      (auto simp: sim_env_def term_per_tick_def sim_running_def)
  show "case on_reset (sim_env eval) l s of Inl e \<Rightarrow> display_error e | Inr s' \<Rightarrow> sim_running B s'"
    using P sized_moves(2) [of "snd s"] by (simp add: sim_env_def term_on_reset_def sim_running_def)
qed

lemma time_update_steps:
  assumes "time_update A E n1 n2 tc s = Inr (tc', s')" "tc_exec_step tc \<le> MAX_STEPS_PER_FRAME"
  shows "tc_exec_step tc' \<le> MAX_STEPS_PER_FRAME"
  using assms by (auto simp: time_update_def Let_def res_simps ticked_def split: if_splits dest!: run_ticks_ticked)

text \<open>What holds between frames, for the listeners that \<open>main\<close> registers.\<close>

definition app_wired :: "('f, 'd, 't, 'x) app \<Rightarrow> bool" where
  "app_wired a \<longleftrightarrow> sim_l_update a = [L_c_time, L_c_dump] \<and> sim_l_render a = [L_d_sidebar, L_d_time, L_d_dump, L_d_term] \<and>
     win_l_evt a = [E_imgui] \<and> win_l_update a = [U_sim] \<and> win_l_render a = [R_imgui] \<and> imgui_drawers a = [D_sim]"

text \<open>The members are in the ranges that their users assume.\<close>

definition app_typed :: "('f, 'd, 't, 'x) app \<Rightarrow> bool" where
  "app_typed a \<longleftrightarrow> term_sized (c_term a) \<and> mem_drawer_reach (sb_mem_drawer (d_sidebar a)) \<and>
     0 \<le> dd_length (d_dump a) \<and> dd_length (d_dump a) \<le> MAX_DUMP_LENGTH \<and> tc_exec_step (c_time a) \<le> MAX_STEPS_PER_FRAME"

definition app_running :: "('f, 'd, 't, 'x) app \<Rightarrow> bool" where
  "app_running a \<longleftrightarrow> app_wired a \<and> app_typed a \<and> m_started (sim_v a) \<and> \<not> m_finished (sim_v a) \<and>
     (is_dumping (sim_v a) \<longrightarrow> dc_is_dumping (c_dump a)) \<and> \<not> (dc_req_dump (c_dump a) \<and> dc_is_dumping (c_dump a))"

lemma dump_update_running:
  "dump_update opens deref dc tc v = (dc', tc', v') \<Longrightarrow>
     m_started v' = m_started v \<and> m_finished v' = m_finished v \<and> tc_exec_step tc' = tc_exec_step tc"
  by (auto simp: dump_update_def dump_finish_def start_trace_dump_def Let_def split: if_splits)

lemma sim_update_running:
  assumes "app_running a"
  shows "case sim_update H n1 n2 a of Inl e \<Rightarrow> display_error e
    | Inr a' \<Rightarrow> app_running a' \<and> dump_sync (c_dump a') (sim_v a')"
proof (cases "time_update (h_arith H) (sim_env (h_eval H)) n1 n2 (c_time a) (sim_v a, c_term a)")
  note inv = running.time_update_inv [of "dc_is_dumping (c_dump a)" "(sim_v a, c_term a)" "h_arith H" "h_eval H" n1 n2 "c_time a"]
  have P: "sim_running (dc_is_dumping (c_dump a)) (sim_v a, c_term a)"
    using assms by (simp add: app_running_def sim_running_def app_typed_def)
  note wired = assms [unfolded app_running_def app_wired_def]
  {
    case (Inl e)
    then show ?thesis using inv [OF P] wired by (simp add: sim_update_def listener_update_def)
  next
    case (Inr r)
    obtain tc v t where r: "r = (tc, v, t)" by (cases r) auto
    let ?b = "a\<lparr>c_time := tc, sim_v := v, c_term := t\<rparr>"
    have v: "m_started v" "\<not> m_finished v" "is_dumping v \<longrightarrow> dc_is_dumping (c_dump a)" "term_sized t"
      using inv [OF P] Inr r by (auto simp: sim_running_def)
    have steps: "tc_exec_step tc \<le> MAX_STEPS_PER_FRAME"
      by (rule time_update_steps [OF Inr [unfolded r]]) (use assms in \<open>simp add: app_running_def app_typed_def\<close>)
    obtain dc' tc' v' where d: "dump_update (h_opens H) (name_of ?b) (c_dump a) tc v = (dc', tc', v')"
      by (cases "dump_update (h_opens H) (name_of ?b) (c_dump a) tc v") auto
    have "dump_sync dc' v'" using dump_update_sync [OF v(3) _ d] wired by simp
    moreover have "m_started v'" "\<not> m_finished v'" "tc_exec_step tc' \<le> MAX_STEPS_PER_FRAME"
      using dump_update_running [OF d] v steps by auto
    moreover have "sim_update H n1 n2 a = Inr (?b\<lparr>c_dump := dc', c_time := tc', sim_v := v'\<rparr>)"
      using wired Inr r d by (simp add: sim_update_def listener_update_def)
    ultimately show ?thesis using wired v(4) by (auto simp: app_running_def app_wired_def app_typed_def dump_sync_def)
  }
qed

section \<open>Rendering\<close>

text \<open>The four windows in the order of their registration.\<close>

lemma sim_draw_eq:
  assumes "app_wired a"
  shows "sim_draw H ui a =
    res_bind (sidebar_render (h_absent H) (ui_panels ui) (sim_v a, d_sidebar a)) (\<lambda>(xs, (v, sb)).
    res_bind (term_drawer_items ui (c_term a)) (\<lambda>ys.
      Inr (a\<lparr>sim_v := v, d_sidebar := sb, c_time := time_drawer_render ui (c_time a),
        d_dump := fst (dump_drawer_render ui (d_dump a) (c_dump a)), c_dump := snd (dump_drawer_render ui (d_dump a) (c_dump a)),
        c_term := term_drawer_render ui (c_term a),
        im_items := im_items a @ xs @ time_drawer_items (h_arith H) (h_show H) ui (c_time a) v @ dump_drawer_items ui (c_dump a) v @ ys\<rparr>)))"
  using assms
  by (cases "sidebar_render (h_absent H) (ui_panels ui) (sim_v a, d_sidebar a)"; cases "term_drawer_items ui (c_term a)")
    (auto simp: sim_draw_def listener_render_def app_wired_def put_items_def split_beta)

lemma enqueue_wchars_sized: "term_sized t \<Longrightarrow> term_sized (enqueue_wchars cs t)"
  by (induction cs t rule: enqueue_wchars.induct) (simp_all add: sized_moves)

lemma term_drawer_render_sized: "term_sized t \<Longrightarrow> term_sized (term_drawer_render ui t)"
  by (simp add: term_drawer_render_def Let_def enqueue_wchars_sized sized_moves)

lemma drawers_typed:
  "0 \<le> dd_length dd \<Longrightarrow> dd_length dd \<le> MAX_DUMP_LENGTH \<Longrightarrow>
     0 \<le> dd_length (fst (dump_drawer_render ui dd dc)) \<and> dd_length (fst (dump_drawer_render ui dd dc)) \<le> MAX_DUMP_LENGTH"
  "tc_exec_step (time_drawer_render ui tc) = tc_exec_step tc"
  by (simp_all add: dump_drawer_render_def Let_def time_drawer_render_def request_step_def request_reset_def MAX_DUMP_LENGTH_def)

lemma only_arrays_life:
  "only_arrays v w \<Longrightarrow> m_started w = m_started v \<and> m_finished w = m_finished v \<and> is_dumping w = is_dumping v"
  by (auto simp: only_arrays_def)

lemma sim_draw_running:
  assumes "app_running a"
  shows "case sim_draw H ui a of Inl e \<Rightarrow> display_error e
    | Inr a' \<Rightarrow> app_running a' \<and> is_dumping (sim_v a') = is_dumping (sim_v a) \<and> dc_is_dumping (c_dump a') = dc_is_dumping (c_dump a)"
proof -
  let ?dc = "snd (dump_drawer_render ui (d_dump a) (c_dump a))"
  have dc: "dc_is_dumping ?dc = dc_is_dumping (c_dump a)" "\<not> (dc_req_dump ?dc \<and> dc_is_dumping ?dc)"
    using assms by (auto simp: dump_drawer_render_def Let_def request_dump_def app_running_def)
  have side: "case sidebar_render (h_absent H) (ui_panels ui) (sim_v a, d_sidebar a) of Inl e \<Rightarrow> e = OutOfBounds
      | Inr (xs, s) \<Rightarrow> sidebar_frame (sim_v a, d_sidebar a) s"
    using keeps_sidebar [of "h_absent H" "ui_panels ui"] unfolding keeps_def by (rule spec)
  have w: "app_wired a" using assms by (simp add: app_running_def)
  show ?thesis
  proof (cases "sidebar_render (h_absent H) (ui_panels ui) (sim_v a, d_sidebar a)")
    case (Inl e)
    then show ?thesis using side by (simp add: sim_draw_eq [OF w] display_error_def)
  next
    case (Inr r)
    obtain xs v sb where r: "r = (xs, (v, sb))" by (cases r) auto
    have fr: "only_arrays (sim_v a) v" "mem_drawer_reach (sb_mem_drawer sb)"
      using side Inr assms by (auto simp: r sidebar_frame_def app_running_def app_typed_def)
    show ?thesis
    proof (cases "term_drawer_items ui (c_term a)")
      case (Inl e)
      then show ?thesis using Inr term_drawer_items_error [OF Inl] by (simp add: sim_draw_eq [OF w] r)
    next
      case t: (Inr ys)
      show ?thesis
        using assms dc fr only_arrays_life [OF fr(1)] drawers_typed(1) [of "d_dump a" ui "c_dump a"]
        by (simp add: sim_draw_eq [OF w] Inr r t app_running_def app_wired_def app_typed_def drawers_typed(2) term_drawer_render_sized)
    qed
  qed
qed

lemma imgui_render_eq:
  assumes "app_wired a"
  shows "imgui_render H ui a = res_bind (sim_draw H ui (a\<lparr>im_items := []\<rparr>)) (\<lambda>a'. Inr (a'\<lparr>im_screen := im_items a'\<rparr>))"
  using assms
  by (cases "sim_draw H ui (a\<lparr>im_items := []\<rparr>)")
    (simp_all add: imgui_render_def app_wired_def begin_frame_def end_frame_def drawer_draw_def)

lemma app_running_items [simp]:
  "app_running (a\<lparr>im_items := xs\<rparr>) = app_running a" "app_running (a\<lparr>im_screen := xs\<rparr>) = app_running a"
  "app_wired (a\<lparr>im_items := xs\<rparr>) = app_wired a"
  by (simp_all add: app_running_def app_wired_def app_typed_def)

lemma poll_events_eq: "win_l_evt a = [E_imgui] \<Longrightarrow> poll_events es r a = Inr (r \<and> SDL_QUIT \<notin> set es, a)"
  by (induction es arbitrary: r) (auto simp: handle_event_def)

lemma window_frame_eq:
  assumes "app_running a"
  shows "window_frame H fr a = res_bind (sim_update H (fr_now1 fr) (fr_now2 fr) a) (\<lambda>b.
    res_bind (sim_draw H (fr_ui fr) (b\<lparr>im_items := []\<rparr>)) (\<lambda>a'. Inr (SDL_QUIT \<notin> set (fr_events fr), a'\<lparr>im_screen := im_items a'\<rparr>)))"
proof -
  have w: "win_l_evt a = [E_imgui]" "win_l_update a = [U_sim]" using assms by (auto simp: app_running_def app_wired_def)
  show ?thesis
  proof (cases "sim_update H (fr_now1 fr) (fr_now2 fr) a")
    case (Inl e)
    then show ?thesis by (simp add: window_frame_def poll_events_eq [OF w(1)] w(2) window_update_def)
  next
    case (Inr b)
    then have "app_wired b" using sim_update_running [OF assms, of H "fr_now1 fr" "fr_now2 fr"] by (simp add: app_running_def)
    then show ?thesis using Inr imgui_render_eq [of b H "fr_ui fr"]
      by (cases "sim_draw H (fr_ui fr) (b\<lparr>im_items := []\<rparr>)")
        (simp_all add: window_frame_def poll_events_eq [OF w(1)] w(2) window_update_def window_render_def app_wired_def)
  qed
qed

lemma window_frame_running:
  assumes "app_running a"
  shows "case window_frame H fr a of Inl e \<Rightarrow> display_error e
    | Inr (run, a') \<Rightarrow> app_running a' \<and> (dc_is_dumping (c_dump a') \<longleftrightarrow> is_dumping (sim_v a'))"
proof (cases "sim_update H (fr_now1 fr) (fr_now2 fr) a")
  case (Inl e)
  then show ?thesis using sim_update_running [OF assms, of H "fr_now1 fr" "fr_now2 fr"] by (simp add: window_frame_eq [OF assms])
next
  case (Inr b)
  then have b: "app_running (b\<lparr>im_items := []\<rparr>)" "dump_sync (c_dump b) (sim_v b)"
    using sim_update_running [OF assms, of H "fr_now1 fr" "fr_now2 fr"] by auto
  then show ?thesis
    using sim_draw_running [OF b(1), of H "fr_ui fr"] Inr
    by (cases "sim_draw H (fr_ui fr) (b\<lparr>im_items := []\<rparr>)") (auto simp: window_frame_eq [OF assms] dump_sync_def)
qed

lemma window_run_running:
  assumes "app_running a"
  shows "case window_run H frs a of Inl e \<Rightarrow> display_error e
    | Inr (a', ended) \<Rightarrow> app_running a' \<and> (frs = [] \<or> (dc_is_dumping (c_dump a') \<longleftrightarrow> is_dumping (sim_v a')))"
  using assms
proof (induction frs arbitrary: a)
  case (Cons fr frs)
  note f = window_frame_running [OF Cons.prems, of H fr]
  show ?case
  proof (cases "window_frame H fr a")
    case (Inl e)
    then show ?thesis using f by simp
  next
    case (Inr rb)
    obtain run b where rb: "rb = (run, b)" by (cases rb) auto
    have b: "app_running b" "dc_is_dumping (c_dump b) \<longleftrightarrow> is_dumping (sim_v b)" using f Inr rb by auto
    show ?thesis
    proof (cases run)
      case False
      then show ?thesis using Inr b rb by simp
    next
      case True
      then show ?thesis using Inr b rb Cons.IH [OF b(1)] by (cases frs) (auto split: sum.splits)
    qed
  qed
qed simp

text \<open>Only the slider of the time window moves the clock frequency.\<close>

lemma time_update_hz:
  assumes "time_update A E n1 n2 tc s = Inr (tc', s')"
  shows "tc_clk_hz tc' = tc_clk_hz tc"
  using assms by (auto simp: time_update_def Let_def res_simps ticked_def split: if_splits dest!: run_ticks_ticked)

lemma dump_update_hz: "dump_update opens deref dc tc v = (dc', tc', v') \<Longrightarrow> tc_clk_hz tc' = tc_clk_hz tc"
  by (auto simp: dump_update_def dump_finish_def Let_def split: if_splits)

lemma sim_update_hz:
  assumes "app_running a" "sim_update H n1 n2 a = Inr b"
  shows "tc_clk_hz (c_time b) = tc_clk_hz (c_time a)"
proof -
  have l: "sim_l_update a = [L_c_time, L_c_dump]" using assms(1) by (simp add: app_running_def app_wired_def)
  obtain tc v t where t: "time_update (h_arith H) (sim_env (h_eval H)) n1 n2 (c_time a) (sim_v a, c_term a) = Inr (tc, v, t)"
    using assms(2) by (auto simp: sim_update_def l listener_update_def res_simps)
  obtain dc' tc' v' where d: "dump_update (h_opens H) (name_of (a\<lparr>c_time := tc, sim_v := v, c_term := t\<rparr>)) (c_dump a) tc v = (dc', tc', v')"
    by (rule prod_cases3)
  show ?thesis using assms(2) t d time_update_hz [OF t] dump_update_hz [OF d] by (auto simp: sim_update_def l listener_update_def)
qed

lemma window_frame_hz:
  assumes run: "app_running a" and fr: "window_frame H fr a = Inr (r, a')"
    and R: "R (tc_clk_hz (c_time a))" "\<forall>f. R (ui_hz (fr_ui fr) f)"
  shows "R (tc_clk_hz (c_time a'))"
proof -
  from fr obtain b a'' where b: "sim_update H (fr_now1 fr) (fr_now2 fr) a = Inr b"
    "sim_draw H (fr_ui fr) (b\<lparr>im_items := []\<rparr>) = Inr a''" "a' = a''\<lparr>im_screen := im_items a''\<rparr>"
    by (auto simp: window_frame_eq [OF run] res_simps)
  have "app_wired (b\<lparr>im_items := []\<rparr>)" using sim_update_running [OF run, of H "fr_now1 fr" "fr_now2 fr"] b(1) by (simp add: app_running_def)
  from b(2) [unfolded sim_draw_eq [OF this]] have "c_time a'' = time_drawer_render (fr_ui fr) (c_time b)"
    by (auto simp: res_simps split: prod.splits)
  then show ?thesis using sim_update_hz [OF run b(1)] R b(3)
    by (auto simp: time_drawer_render_def Let_def request_step_def request_reset_def)
qed

lemma window_run_hz:
  "app_running a \<Longrightarrow> window_run H frs a = Inr (a', ended) \<Longrightarrow> R (tc_clk_hz (c_time a)) \<Longrightarrow>
   \<forall>fr \<in> set frs. \<forall>f. R (ui_hz (fr_ui fr) f) \<Longrightarrow> R (tc_clk_hz (c_time a'))"
proof (induction frs arbitrary: a)
  case (Cons fr frs)
  from Cons.prems(2) obtain r b where b: "window_frame H fr a = Inr (r, b)" "(if r then window_run H frs b else Inr (b, True)) = Inr (a', ended)"
    by (auto simp: res_simps)
  have "R (tc_clk_hz (c_time b))" by (rule window_frame_hz [where R = R, OF Cons.prems(1) b(1) Cons.prems(3)]) (use Cons.prems(4) in simp)
  moreover have "app_running b" using window_frame_running [OF Cons.prems(1), of H fr] b(1) by simp
  ultimately show ?case using Cons.IH [of b] b(2) Cons.prems(4) by (cases r) auto
qed simp

section \<open>The whole program\<close>

lemma main_app_wired: "app_wired (main_app A col hz t0 b n v)" "sim_v (main_app A col hz t0 b n v) = v"
  "c_dump (main_app A col hz t0 b n v) = dump_ctrl_new b Dump_drawer_name n" "app_typed (main_app A col hz t0 b n v)"
  by (simp_all add: main_app_def app_wired_def app_typed_def Let_def sim_add_update_listener_def sim_add_render_listener_def
      win_add_event_listener_def win_add_update_listener_def win_add_render_listener_def add_drawer_def term_sized_new
      sidebar_new_def mem_drawer_reach.new dump_drawer_new_def
      MAX_DUMP_LENGTH_def time_ctrl_new_def tc_add_update_listener_def tc_add_reset_listener_def)

lemma write_byte_frame:
  "write_byte absent x b v = (ok, v') \<Longrightarrow> m_started v' = m_started v \<and> m_finished v' = m_finished v \<and> m_tfp v' = m_tfp v"
  by (auto simp: write_byte_def Let_def split_beta split: if_splits)

lemma write_segment_frame:
  "write_segment absent a j bs v = (r, v') \<Longrightarrow> m_started v' = m_started v \<and> m_finished v' = m_finished v \<and> m_tfp v' = m_tfp v"
proof (induction absent a j bs v rule: write_segment.induct)
  case (2 absent a j b bs v)
  obtain ok v1 where w: "write_byte absent (a + of_nat j) b v = (ok, v1)" by fastforce
  then show ?case using "2.IH" [OF refl w [symmetric]] "2.prems" write_byte_frame [OF w]
    by (auto split: if_splits)
qed simp

lemma load_phdrs_frame:
  "load_phdrs absent junk n f v log = (v', log') \<Longrightarrow>
     m_started v' = m_started v \<and> m_finished v' = m_finished v \<and> m_tfp v' = m_tfp v"
proof (induction n arbitrary: f v log)
  case (Suc n)
  obtain bytes f1 where rd: "ifs_read PHDR_SIZE (junk n) f = (bytes, f1)" by fastforce
  let ?ph = "phdr_of bytes"
  obtain buf f3 where rd3: "ifs_read (unat (p_filesz ?ph)) (replicate (unat (p_filesz ?ph)) 0) (ifs_seekg (unat (p_offset ?ph)) f1) = (buf, f3)"
    by fastforce
  obtain r v1 where w: "write_segment absent (p_vaddr ?ph) 0 buf v = (r, v1)" by fastforce
  show ?case
    using Suc.prems Suc.IH write_segment_frame [OF w]
    by (auto simp: rd rd3 w Let_def split: if_splits option.splits)
qed simp

lemma load_elf_frame:
  "load_elf absent je jp file v = Inr (v', log) \<Longrightarrow>
     m_started v' = m_started v \<and> m_finished v' = m_finished v \<and> m_tfp v' = m_tfp v"
  by (auto simp: load_elf_def Let_def split_beta split: option.splits if_splits dest: load_phdrs_frame)

lemma load_elf_error:
  "load_elf absent je jp file v = Inl e \<Longrightarrow> e = RuntimeError ''Failed to open ELF'' \<or> e = RuntimeError ''File is not ELF32''"
  by (auto simp: load_elf_def Let_def split_beta split: option.splits if_splits)

lemma v_start_new:
  assumes "\<not> m_started v" "\<not> m_finished v" "\<not> is_dumping v"
  shows "\<exists>v'. v_start eval v = Inr v' \<and> m_started v' \<and> \<not> m_finished v' \<and> \<not> is_dumping v'"
  using v_reset_running [of "v\<lparr>m_started := True\<rparr>" eval] assms by (auto simp: v_start_def)

text \<open>The object state \<open>main\<close> starts the window loop with, and the loop's outcome.\<close>

lemma main_try_cases:
  fixes a :: "('f, 'd, 't, 'x) app"
  assumes w: "app_wired a" "app_typed a" and fresh: "\<not> m_started (sim_v a)" "\<not> m_finished (sim_v a)" "\<not> is_dumping (sim_v a)"
    and dc: "\<not> dc_req_dump (c_dump a)"
  obtains (load) e where "main_try H boot je jp frs a = Inl e" "\<exists>file. load_elf (h_absent H) je jp file (sim_v a) = Inl e"
  | (fault) e where "main_try H boot je jp frs a = Inl e" "display_error e"
  | (ok) a' ended where "main_try H boot je jp frs a = Inr (a', ended)" "phase_of (sim_v a') = (if ended then Done else Running)"
      "app_wired a'" "app_typed a'"
      "frs = [] \<or> (dc_is_dumping (c_dump a') \<longleftrightarrow> is_dumping (sim_v a'))"
proof (cases "case boot of None \<Rightarrow> Inr (sim_v a, []) | Some file \<Rightarrow> load_elf (h_absent H) je jp file (sim_v a)")
  case (Inl e)
  then show ?thesis using load [of e] by (cases boot) (auto simp: main_try_def)
next
  case (Inr vl)
  obtain v log where vl: "vl = (v, log)" by (cases vl) auto
  have v: "\<not> m_started v" "\<not> m_finished v" "\<not> is_dumping v"
    using Inr fresh load_elf_frame [of "h_absent H" je jp _ "sim_v a" v log]
    by (auto simp: vl is_dumping_def split: option.splits)
  obtain v1 where v1: "v_start (h_eval H) v = Inr v1" "m_started v1" "\<not> m_finished v1" "\<not> is_dumping v1"
    using v_start_new [OF v, of "h_eval H"] by blast
  have "app_running (a\<lparr>sim_v := v1\<rparr>)" using w v1 dc by (simp add: app_running_def app_wired_def app_typed_def)
  note run = window_run_running [OF this, where H = H and frs = frs]
  show ?thesis
  proof (cases "window_run H frs (a\<lparr>sim_v := v1\<rparr>)")
    case (Inl e)
    then show ?thesis using run Inr v1(1) fault [of e] by (simp add: main_try_def vl)
  next
    case r: (Inr ae)
    obtain a' ended where ae: "ae = (a', ended)" by (cases ae) auto
    have a': "app_wired a'" "app_typed a'" "m_started (sim_v a')" "\<not> m_finished (sim_v a')" "frs = [] \<or> (dc_is_dumping (c_dump a') \<longleftrightarrow> is_dumping (sim_v a'))"
      using run r by (simp_all add: ae app_running_def)
    let ?a'' = "if ended then a'\<lparr>sim_v := (sim_v a')\<lparr>m_top := h_final H (m_top (sim_v a')), m_finished := True\<rparr>\<rparr> else a'"
    have "main_try H boot je jp frs a = Inr (?a'', ended)"
      using Inr r v1(1) a' by (simp add: main_try_def vl ae v_finish_def)
    moreover have "phase_of (sim_v ?a'') = (if ended then Done else Running)" using a' by (simp add: phase_of_def)
    moreover have "app_wired ?a''" "app_typed ?a''" using a' by (simp_all add: app_wired_def app_typed_def)
    moreover have "frs = [] \<or> (dc_is_dumping (c_dump ?a'') \<longleftrightarrow> is_dumping (sim_v ?a''))" using a' by (auto simp: is_dumping_def)
    ultimately show ?thesis by (rule ok)
  qed
qed

lemma main_app_fresh:
  "app_wired (main_app A col hz t0 b n (container_new ctx tp p r))"
  "app_typed (main_app A col hz t0 b n (container_new ctx tp p r))"
  "\<not> m_started (sim_v (main_app A col hz t0 b n (container_new ctx tp p r)))"
  "\<not> m_finished (sim_v (main_app A col hz t0 b n (container_new ctx tp p r)))"
  "\<not> is_dumping (sim_v (main_app A col hz t0 b n (container_new ctx tp p r)))"
  "\<not> dc_req_dump (c_dump (main_app A col hz t0 b n (container_new ctx tp p r)))"
  by (simp_all add: main_app_wired container_new_def is_dumping_def dump_ctrl_new_def)

lemma main_app_hz: "tc_clk_hz (c_time (main_app A col hz t0 b n v)) = hz"
  by (simp add: main_app_def Let_def sim_add_update_listener_def sim_add_render_listener_def win_add_event_listener_def
      win_add_update_listener_def win_add_render_listener_def add_drawer_def time_ctrl_new_def tc_add_update_listener_def tc_add_reset_listener_def)

lemma main_try_hz:
  assumes w: "app_wired a" "app_typed a" and fresh: "\<not> m_started (sim_v a)" "\<not> m_finished (sim_v a)" "\<not> is_dumping (sim_v a)"
    and dc: "\<not> dc_req_dump (c_dump a)" and run: "main_try H boot je jp frs a = Inr (a', ended)"
    and R: "R (tc_clk_hz (c_time a))" "\<forall>fr \<in> set frs. \<forall>f. R (ui_hz (fr_ui fr) f)"
  shows "R (tc_clk_hz (c_time a'))"
proof -
  from run obtain v log v1 b e where b: "(case boot of None \<Rightarrow> Inr (sim_v a, []) | Some file \<Rightarrow> load_elf (h_absent H) je jp file (sim_v a)) = Inr (v, log)"
    "v_start (h_eval H) v = Inr v1" "window_run H frs (a\<lparr>sim_v := v1\<rparr>) = Inr (b, e)" "c_time a' = c_time b"
    by (auto simp: main_try_def res_simps split: if_splits)
  have v: "\<not> m_started v" "\<not> m_finished v" "\<not> is_dumping v"
    using b(1) fresh load_elf_frame [of "h_absent H" je jp _ "sim_v a" v log] by (auto simp: is_dumping_def split: option.splits)
  have "app_running (a\<lparr>sim_v := v1\<rparr>)"
    using v_start_new [OF v, of "h_eval H"] b(2) w dc by (auto simp: app_running_def app_wired_def app_typed_def)
  from window_run_hz [where R = R, OF this b(3) _ R(2)] show ?thesis using R(1) b(4) by simp
qed

text \<open>
  C21: Whatever the hardware model, the user and the clock do, the simulator never misuses its
  container: the body of \<open>main\<close> ends either with an exception of the ELF loader, or with an
  out-of-range access of the terminal or undefined behaviour (a display error), or normally, and
  then the container has been started and, when the window was closed, finished exactly once.
\<close>

theorem main_never_violates_lifecycle:
  "case main_try H boot je jp frs (main_app A col hz t0 b n (container_new ctx tp p r)) of
     Inl e \<Rightarrow> e \<in> {RuntimeError ''Failed to open ELF'', RuntimeError ''File is not ELF32''} \<or> display_error e
   | Inr (a', ended) \<Rightarrow> phase_of (sim_v a') = (if ended then Done else Running)"
  by (rule main_try_cases [OF main_app_fresh [where A = A and col = col and hz = hz and ?t0.0 = t0 and b = b and n = n and ctx = ctx and tp = tp and p = p and r = r],
      where H = H and boot = boot and je = je and jp = jp and frs = frs])
    (auto dest: load_elf_error)

text \<open>
  C31: After every frame of the program the dump controller and the container agree on whether
  a waveform dump is running, whatever uninitialised values the controller started with.
\<close>

theorem dump_controller_in_sync:
  assumes "main_try H boot je jp frs (main_app A col hz t0 b n (container_new ctx tp p r)) = Inr (a', ended)" and "frs \<noteq> []"
  shows "dc_is_dumping (c_dump a') \<longleftrightarrow> is_dumping (sim_v a')"
  by (rule main_try_cases [OF main_app_fresh [where A = A and col = col and hz = hz and ?t0.0 = t0 and b = b and n = n and ctx = ctx and tp = tp and p = p and r = r],
      where H = H and boot = boot and je = je and jp = jp and frs = frs])
    (use assms in auto)

definition idle_ui :: "'f ui" where
  "idle_ui = \<lparr>ui_panels = \<lparr>pu_open = (\<lambda>_. False), pu_source = (\<lambda>i. i), pu_width = (\<lambda>i. i), pu_offset = None\<rparr>, ui_time_open = False, ui_hz = (\<lambda>f. f), ui_auto = (\<lambda>b. b), ui_step = False, ui_reset = False,
     ui_dump_open = False, ui_name_edited = False, ui_name = (\<lambda>f s. s), ui_length = (\<lambda>n. n), ui_start_dump = False,
     ui_term_open = False, ui_term_focused = False, ui_term_hovered = False, ui_wheel = 0, ui_enter = False,
     ui_tab = False, ui_backspace = False, ui_chars = []\<rparr>"

definition demo_host :: "(int, int, int, 'x) host" where
  "demo_host = \<lparr>h_arith = int_arith, h_eval = (\<lambda>t. t), h_final = (\<lambda>t. t), h_opens = (\<lambda>f. True), h_show = (\<lambda>d. []),
     h_absent = demo_absent\<rparr>"

text \<open>What it takes to run a frame by rewriting.\<close>

lemmas demo_run_simps = v_start_def v_reset_def v_update_def v_finish_def window_frame_def sim_update_def
  sim_draw_def listener_update_def listener_render_def main_app_def sim_add_update_listener_def
  sim_add_render_listener_def tc_add_reset_listener_def tc_add_update_listener_def time_ctrl_new_def
  time_update_def dump_ctrl_new_def dump_update_def dump_finish_def dump_drawer_render_def
  time_drawer_render_def term_drawer_render_def idle_ui_def container_new_def is_dumping_def Let_def
  window_update_def window_render_def imgui_render_def begin_frame_def end_frame_def drawer_draw_def
  put_items_def sidebar_render_def child_def items_def term_drawer_items_def handle_event_def
  win_add_event_listener_def win_add_update_listener_def win_add_render_listener_def add_drawer_def

theorem dump_controller_in_sync_witness:
  "\<exists>a'. main_try (demo_host :: (int, int, int, nat) host) None [] (\<lambda>_. [])
      [\<lparr>fr_events = [SDL_other, SDL_QUIT], fr_now1 = 0, fr_now2 = 1, fr_ui = idle_ui\<rparr>]
      (main_app int_arith (\<lambda>_ _ _ _. 0) 100 0 True 5 (container_new demo_context demo_top 3 4)) = Inr (a', True) \<and>
    (dc_is_dumping (c_dump a') \<longleftrightarrow> is_dumping (sim_v a'))"
proof -
  let ?a = "main_app int_arith (\<lambda>_ _ _ _. 0) 100 0 True 5 (container_new demo_context demo_top 3 4) :: (int, int, int, nat) app"
  let ?fr = "\<lparr>fr_events = [SDL_other, SDL_QUIT], fr_now1 = 0, fr_now2 = 1, fr_ui = idle_ui\<rparr> :: (int, int) frame"
  have "\<exists>a'. main_try demo_host None [] (\<lambda>_. []) [?fr] ?a = Inr (a', True)"
    by (simp add: main_try_def demo_run_simps)
  then obtain a' where a': "main_try demo_host None [] (\<lambda>_. []) [?fr] ?a = Inr (a', True)" by blast
  from dump_controller_in_sync [OF a'] a' show ?thesis by auto
qed

text \<open>
  C36: After any number of frames that complete, whatever the
  user does: the listeners are the ones \<open>main\<close> registered; the terminal is one that the terminal's own operations reach from
  construction with 80 columns, 25 rows and 256 lines, so its cursor is inside the viewport, its stored lines are at most 256, all 80 wide, and the
  viewport starts no further down than the last full screen; the memory inspector is in a state its controls can reach; the dump length is in
  the range of its slider; no frame has run more ticks than its limit; and the clock frequency is in any range that holds the initial one and
  what the frequency slider leaves.
\<close>

theorem program_state_well_formed:
  assumes run: "main_try H boot je jp frs (main_app A col hz t0 b n (container_new ctx tp p r)) = Inr (a', ended)"
    and hz: "in_range hz" "\<forall>fr \<in> set frs. \<forall>f. in_range (ui_hz (fr_ui fr) f)"
  shows "sim_l_update a' = [L_c_time, L_c_dump] \<and> sim_l_render a' = [L_d_sidebar, L_d_time, L_d_dump, L_d_term] \<and>
    (\<exists>d. term_reach 80 25 256 d (c_term a')) \<and> m_cursor_row (c_term a') < 25 \<and> m_cursor_col (c_term a') < 80 \<and>
    length (term_rows (c_term a')) \<le> 256 \<and> (\<forall>row \<in> set (term_rows (c_term a')). length row = 80) \<and>
    m_viewport_start_line (c_term a') \<le> length (term_rows (c_term a')) - 25 \<and>
    mem_drawer_reach (sb_mem_drawer (d_sidebar a')) \<and>
    0 \<le> dd_length (d_dump a') \<and> dd_length (d_dump a') \<le> 1024 \<and> tc_exec_step (c_time a') \<le> 100000 \<and>
    in_range (tc_clk_hz (c_time a'))"
proof (rule main_try_cases [OF main_app_fresh [where A = A and col = col and hz = hz and ?t0.0 = t0 and b = b and n = n and ctx = ctx and tp = tp and p = p and r = r],
      where H = H and boot = boot and je = je and jp = jp and frs = frs])
  fix a'' e
  assume "main_try H boot je jp frs (main_app A col hz t0 b n (container_new ctx tp p r)) = Inr (a'', e)" and w: "app_wired a''" "app_typed a''"
  then have a: "a'' = a'" using run by simp
  have t: "term_sized (c_term a')" using w(2) by (simp add: a app_typed_def)
  note sc = term_sized_screen [OF t]
  have "length (term_rows (c_term a')) \<le> 256" "\<forall>row \<in> set (term_rows (c_term a')). length row = 80"
    using length_rows_le [OF screen_parts(2) [OF sc(1)]] screen_parts(2) [OF sc(1)] sc(2-4) by (simp_all add: term_buf_ok_def)
  moreover have "in_range (tc_clk_hz (c_time a'))"
    by (rule main_try_hz [where R = in_range, OF main_app_fresh run]) (use hz in \<open>simp_all add: main_app_hz\<close>)
  ultimately show ?thesis using w t screen_parts [OF sc(1)] sc(2-4) unfolding a
    by (simp add: app_wired_def app_typed_def term_sized_def MAX_DUMP_LENGTH_def MAX_STEPS_PER_FRAME_def)
qed (use run in simp_all)

theorem program_state_well_formed_witness:
  "\<exists>a'. main_try (demo_host :: (int, int, int, nat) host) None [] (\<lambda>_. [])
      [\<lparr>fr_events = [SDL_QUIT], fr_now1 = 0, fr_now2 = 1, fr_ui = idle_ui\<lparr>ui_dump_open := True, ui_length := (\<lambda>n. 5000),
         ui_time_open := True, ui_hz := (\<lambda>f. max 1 (min 50000000 (f * 1000000)))\<rparr>\<rparr>]
      (main_app int_arith (\<lambda>_ _ _ _. 0) 100 0 True 5 (container_new demo_context demo_top 3 4)) = Inr (a', True) \<and>
    dd_length (d_dump a') \<le> 1024 \<and> m_cursor_row (c_term a') < 25 \<and> tc_clk_hz (c_time a') \<le> 50000000"
proof -
  let ?a = "main_app int_arith (\<lambda>_ _ _ _. 0) 100 0 True 5 (container_new demo_context demo_top 3 4) :: (int, int, int, nat) app"
  let ?fr = "\<lparr>fr_events = [SDL_QUIT], fr_now1 = 0, fr_now2 = 1, fr_ui = idle_ui\<lparr>ui_dump_open := True, ui_length := (\<lambda>n. 5000),
      ui_time_open := True, ui_hz := (\<lambda>f. max 1 (min 50000000 (f * 1000000)))\<rparr>\<rparr> :: (int, int) frame"
  have "\<exists>a'. main_try demo_host None [] (\<lambda>_. []) [?fr] ?a = Inr (a', True)"
    by (simp add: main_try_def demo_run_simps)
  then obtain a' where a': "main_try demo_host None [] (\<lambda>_. []) [?fr] ?a = Inr (a', True)" by blast
  have hz: "(1 :: int) \<le> 100 \<and> 100 \<le> (50000000 :: int)" "\<forall>fr \<in> set [?fr]. \<forall>f. 1 \<le> ui_hz (fr_ui fr) f \<and> ui_hz (fr_ui fr) f \<le> 50000000" by simp_all
  from program_state_well_formed [where in_range = "\<lambda>f. 1 \<le> f \<and> f \<le> 50000000", OF a' hz] a' show ?thesis by auto
qed

section \<open>What a frame shows\<close>

text \<open>
  Note: The screen after a frame shows the four windows, in the order in which \<open>main\<close> registered them,
  of the state after the frame's update, and nothing of an earlier frame; the loop goes on exactly
  when the window was not closed.
\<close>

theorem frame_shows_the_windows:
  assumes run: "app_running a" and upd: "sim_update H (fr_now1 fr) (fr_now2 fr) a = Inr b"
    and fr: "window_frame H fr a = Inr (running, a')"
  shows "\<exists>side term v.
    sidebar_render (h_absent H) (ui_panels (fr_ui fr)) (sim_v b, d_sidebar b) = Inr (side, (v, d_sidebar a')) \<and>
    term_drawer_items (fr_ui fr) (c_term b) = Inr term \<and> sim_v a' = v \<and>
    im_screen a' = side @ time_drawer_items (h_arith H) (h_show H) (fr_ui fr) (c_time b) v @
      dump_drawer_items (fr_ui fr) (c_dump b) v @ term \<and>
    (running \<longleftrightarrow> SDL_QUIT \<notin> set (fr_events fr))"
proof -
  have w: "app_wired (b\<lparr>im_items := []\<rparr>)" using sim_update_running [OF run, of H "fr_now1 fr" "fr_now2 fr"] upd
    by (simp add: app_running_def)
  show ?thesis using fr unfolding window_frame_eq [OF run] upd res_bind.simps sim_draw_eq [OF w]
    by (auto simp: res_simps split: prod.splits)
qed

theorem frame_shows_the_windows_witness:
  "\<exists>a'. window_frame (demo_host :: (int, int, int, nat) host)
      \<lparr>fr_events = [SDL_other], fr_now1 = 0, fr_now2 = 1, fr_ui = idle_ui\<lparr>ui_dump_open := True\<rparr>\<rparr>
      ((main_app int_arith (\<lambda>_ _ _ _. 0) 100 0 False 5 (container_new demo_context demo_top 3 4))\<lparr>sim_v := demo_container demo_top\<rparr>) =
        Inr (True, a') \<and>
    im_screen a' = [InputText ''Dump name'', Slider ''Length'', Text ''Not dumping'', Button ''Start dump'', SameLine,
      Circle Col_OFF True, Dummy, SameLine, Text ''Dumping'']"
proof -
  let ?a = "(main_app int_arith (\<lambda>_ _ _ _. 0) 100 0 False 5 (container_new demo_context demo_top 3 4))\<lparr>sim_v := demo_container demo_top\<rparr> :: (int, int, int, nat) app"
  let ?fr = "\<lparr>fr_events = [SDL_other], fr_now1 = 0, fr_now2 = 1, fr_ui = idle_ui\<lparr>ui_dump_open := True\<rparr>\<rparr> :: (int, int) frame"
  have r: "app_running ?a"
    using main_app_wired(1,4) [of int_arith "\<lambda>_ _ _ _. 0" 100 0 False 5 "container_new demo_context demo_top 3 4"]
    by (simp add: app_running_def app_wired_def app_typed_def main_app_wired(3) dump_ctrl_new_def)
  obtain b where b: "sim_update demo_host (fr_now1 ?fr) (fr_now2 ?fr) ?a = Inr b" "c_dump b = c_dump ?a"
    by (simp add: demo_run_simps)
  have "\<exists>a'. window_frame demo_host ?fr ?a = Inr (True, a')" by (simp add: demo_run_simps)
  then obtain a' where a': "window_frame demo_host ?fr ?a = Inr (True, a')" by blast
  have "dc_is_dumping (c_dump b) = False" by (simp add: b(2) main_app_wired(3) dump_ctrl_new_def)
  with frame_shows_the_windows [OF r b(1) a'] a' show ?thesis
    by (auto simp: sidebar_render_def Let_def child_def items_def term_drawer_items_def time_drawer_items_def dump_drawer_items_def
        idle_ui_def draw_signal_def)
qed

end
