(* ===== verification/Drawer_Props.thy ===== *)
theory Drawer_Props
  imports Simulator "HOL-Library.Sublist"
begin

text \<open>
  The editing of the dump window's file name (\<open>sim/src/drawers/dump_drawer.cpp\<close>).
\<close>

section \<open>Dump file names\<close>

lemma rfind_facts:
  assumes "sub \<noteq> []" "length s < npos"
  shows "(rfind sub s \<noteq> npos \<longrightarrow> rfind sub s + length sub \<le> length s \<and> take (length sub) (drop (rfind sub s) s) = sub) \<and>
    (suffix sub s \<longrightarrow> rfind sub s = length s - length sub)"
  using assms(2)
proof (induction s)
  case Nil
  then show ?case using assms(1) by (auto simp: suffix_def)
next
  case (Cons c s)
  then have IH: "rfind sub s \<noteq> npos \<Longrightarrow> rfind sub s + length sub \<le> length s \<and> take (length sub) (drop (rfind sub s) s) = sub"
    "suffix sub s \<Longrightarrow> rfind sub s = length s - length sub" by auto
  have hit: "take (length sub) (c # s) = sub \<Longrightarrow> length sub \<le> Suc (length s)"
    by (metis length_Cons length_take min.cobounded1)
  have lt: "length s < npos" using Cons.prems by simp
  have "suffix sub (c # s) \<Longrightarrow> rfind sub (c # s) = length (c # s) - length sub"
  proof -
    assume "suffix sub (c # s)"
    then consider "sub = c # s" | "suffix sub s" by (auto simp: suffix_Cons)
    then show ?thesis
    proof cases
      case 1
      then have "rfind sub s = npos" using IH(1) by (metis impossible_Cons le_add2 order_trans)
      then show ?thesis using 1 by simp
    next
      case 2
      then have "length sub \<le> length s" by (rule suffix_length_le)
      moreover have "rfind sub s \<noteq> npos" using IH(2) [OF 2] lt by simp
      ultimately show ?thesis using IH(2) [OF 2] by (simp add: Let_def Suc_diff_le)
    qed
  qed
  then show ?case using IH(1) hit by (auto simp: Let_def)
qed

lemma fix_dump_name_cases:
  assumes len: "length name < npos"
  shows "fix_dump_name name = (if suffix ''.vcd'' name \<or> length name = 3 \<and> \<not> suffix ''.vcd'' name then name else name @ ''.vcd'')"
proof -
  note f = rfind_facts [of "''.vcd''" name, simplified, OF len]
  have np: "npos < SIZE_MOD" "SIZE_MOD = npos + 1" by (simp_all add: npos_def SIZE_MOD_def)
  show ?thesis
  proof (cases "4 \<le> length name")
    case True
    then have sub: "sz_sub (length name) 4 = length name - 4" using len np by (simp add: sz_sub_exact)
    have "rfind ''.vcd'' name = length name - 4 \<Longrightarrow> suffix ''.vcd'' name"
    proof -
      assume r: "rfind ''.vcd'' name = length name - 4"
      then have "rfind ''.vcd'' name \<noteq> npos" using len by simp
      then have "take 4 (drop (length name - 4) name) = ''.vcd''" using f r by simp
      then have "name = take (length name - 4) name @ ''.vcd''" using True by (metis append_take_drop_id drop_drop take_all_iff diff_diff_cancel length_drop order_refl)
      then show ?thesis by (rule suffixI)
    qed
    then show ?thesis using True f by (auto simp: fix_dump_name_def sub)
  next
    case False
    then have "\<not> suffix ''.vcd'' name" by (auto dest: suffix_length_le)
    moreover have "rfind ''.vcd'' name = npos" using False f by auto
    moreover have "sz_sub (length name) 4 = npos \<longleftrightarrow> length name = 3"
      using False by (auto simp: sz_sub_def npos_def SIZE_MOD_def)
    ultimately show ?thesis by (auto simp: fix_dump_name_def)
  qed
qed

text \<open>
  Note: Editing the dump name leaves a name that ends in \<open>.vcd\<close>: the extension is appended
  unless it is there, with one exception: a name of exactly three characters gets none,
  because the miss value of \<open>rfind\<close> then equals the wrapped \<open>length() - 4\<close>.
\<close>

theorem dump_name_extension:
  assumes "length name < npos"
  shows "fix_dump_name name = (if suffix ''.vcd'' name \<or> length name = 3 then name else name @ ''.vcd'')"
  using fix_dump_name_cases [OF assms] by auto

theorem dump_name_extension_witness: "fix_dump_name ''abc'' = ''abc''"
  using dump_name_extension [of "''abc''"] by (simp add: npos_def SIZE_MOD_def)

end
