(* ===== verification/Panel_Props.thy ===== *)
theory Panel_Props
  imports Sidebar
begin

text \<open>
  What the windows of the sidebar show: the register window prints the register file, the
  pipeline window determines the pipeline registers, the trap window reads a freed string for
  every exception with a description, and drawing leaves the hardware alone.
\<close>

section \<open>The trap window\<close>

definition described_causes :: "u32 set" where
  "described_causes = {0, 1, 2, 4, 5, 6, 7, 8, 11}"

lemma trap_message_freed: "snd (trap_message cause val a7) \<noteq> Null_desc \<longleftrightarrow> cause \<in> described_causes"
  by (simp add: trap_message_def Let_def trap_cause_defs described_causes_def)

lemma draw_cause_error:
  "draw_cause cause val mret v = Inl e \<longleftrightarrow> e = OutOfBounds \<and> cause \<in> described_causes"
proof -
  obtain a7 where a7: "trap_reg_a7 v = Inr a7" by (simp add: trap_reg_a7_def reg_view_at_def REG_A7_IDX_def NUM_REGS_def)
  show ?thesis
    using trap_message_freed [of cause val a7]
    by (cases "snd (trap_message cause val a7)")
      (auto simp: draw_cause_def draw_read_result_def a7 draw_seq_def items_def draw_desc_def)
qed

lemma trap_views_after_read:
  assumes "only_arrays v w"
  shows "trap_in_trap w = trap_in_trap v" "trap_requested w = trap_requested v" "trap_view_mret w = trap_view_mret v"
  using assms by (auto simp: only_arrays_def trap_in_trap_def trap_requested_def trap_view_mret_def)

text \<open>When the trap window reads its description.\<close>

definition trap_text_read :: "absent_key \<Rightarrow> (string \<Rightarrow> bool) \<Rightarrow> 'x container \<Rightarrow> bool" where
  "trap_text_read absent opened v \<longleftrightarrow> opened ''trap'' \<and> opened ''Trap View'' \<and> trap_in_trap v \<and> \<not> trap_requested v \<and>
     fst (trap_cause absent v) \<in> described_causes"

lemma trap_render_error:
  "trap_render absent opened v = Inl e \<longleftrightarrow> e = OutOfBounds \<and> trap_text_read absent opened v"
proof -
  obtain cause v1 where c: "trap_cause absent v = (cause, v1)" by fastforce
  obtain val v2 where t: "trap_tvalue absent v1 = (val, v2)" by fastforce
  have "only_arrays v v2" using only_arrays_views(4) [of v absent] only_arrays_views(5) [of v1 absent] c t arrays.R_trans by simp
  note same = trap_views_after_read [OF this]
  show ?thesis
    using draw_cause_error [of cause val "trap_view_mret v" v2]
    by (cases "draw_cause cause val (trap_view_mret v) v2")
      (auto simp: trap_render_def child_def collapsing_def draw_read_def c t same Let_def draw_seq_def items_def
        trap_text_read_def)
qed

text \<open>
  Note: The trap window runs into undefined behaviour exactly when it has something to describe:
  drawing it reads the freed text of a temporary string if and only if the window is open, the
  processor is in a trap that is not just being entered, and the cause is one of the nine
  exceptions with a description (misaligned, faulting or illegal accesses and environment calls).
\<close>

theorem trap_window_reads_freed_text:
  "trap_render absent opened v = Inl OutOfBounds \<longleftrightarrow>
     opened ''trap'' \<and> opened ''Trap View'' \<and> trap_in_trap v \<and> \<not> trap_requested v \<and>
     fst (trap_cause absent v) \<in> {0, 1, 2, 4, 5, 6, 7, 8, 11}"
  by (simp add: trap_render_error trap_text_read_def described_causes_def)

section \<open>The register window\<close>

definition reg_value :: "'x container \<Rightarrow> nat \<Rightarrow> u32" where
  "reg_value v i = (if i = 0 then 0 else rf_mem (core (m_top v)) (i - 1))"

lemma draw_all_rows:
  "(\<And>i. i \<in> set is \<Longrightarrow> d i v = Inr (xs i, v)) \<Longrightarrow> draw_all (map d is) v = Inr (concat (map xs is), v)"
  by (induction "is") (auto simp: items_def draw_seq_def)

lemma reg_row_eq:
  assumes "i < 32"
  shows "reg_row (int i) v = Inr ([TableRow [reg_names ! i, pad_left 11 (dec_int (sint (reg_value v i))), hex8 (reg_value v i)]], v)"
proof -
  have "reg_view_at (int i) v = Inr (reg_value v i)" using assms by (auto simp: reg_view_at_def NUM_REGS_def reg_value_def nat_diff_distrib)
  moreover have "uint (of_nat i :: u8) = int i" "unat (of_nat i :: u8) = i" using assms by (simp_all add: unat_of_nat uint_nat)
  moreover have "length reg_names = 32" by (simp add: reg_names_def)
  ultimately show ?thesis using assms
    by (simp add: reg_row_def draw_read_result_def items_def value_row_def reg_name_def in_bounds_def)
qed

text \<open>
  Note: The register window shows the register file: when it is open, its table has one row for each
  of the 32 registers in order, with the register's name and its value, zero for register 0, in
  signed decimal and in hexadecimal.
\<close>

theorem register_window_shows_registers:
  "reg_render (\<lambda>_. True) v =
     Inr ([CollapsingHeader ''Register View'',
           Circle (if reg_write_enable v then Col_GREEN else Col_OFF) False, Dummy, SameLine, Text ''Write Enable'',
           TableHeader [''Reg'', ''Dec'', ''Hex'']] @
          map (\<lambda>i. let x = if i = 0 then 0 else rf_mem (core (m_top v)) (i - 1)
                   in TableRow [reg_names ! i, pad_left 11 (dec_int (sint x)), hex8 x]) [0..<32], v)"
proof -
  let ?row = "\<lambda>i. [TableRow [reg_names ! i, pad_left 11 (dec_int (sint (reg_value v i))), hex8 (reg_value v i)]]"
  have upt: "[0..NUM_REGS - 1] = map int [0..<32]" by (simp add: NUM_REGS_def upto_rec1 upt_rec)
  have "draw_all (map reg_row [0..NUM_REGS - 1]) v = Inr (concat (map ?row [0..<32]), v)"
    unfolding upt map_map o_def by (rule draw_all_rows [where xs = ?row]) (simp add: reg_row_eq)
  then show ?thesis
    by (simp add: reg_render_def child_def collapsing_def draw_table_def draw_seq_def items_def draw_signal_def
        reg_value_def Let_def concat_map_singleton del: upt.simps upt_rec_numeral)
qed

section \<open>Drawing leaves the hardware alone\<close>

text \<open>
  Every CSR the windows name and every timer register is stored in its array, as it is once the
  hardware has been reset.
\<close>

definition arrays_filled :: "'x container \<Rightarrow> bool" where
  "arrays_filled v \<longleftrightarrow>
     list_all (\<lambda>c. csr_mem (core (m_top v)) (ucast (of_csr_id c)) \<noteq> None) csr_id_all \<and>
     list_all (\<lambda>a. clint_reg a v \<noteq> None) [0x02000000, 0x02004000, 0x02004004, 0x0200bff8, 0x0200bffc]"

lemma csr_view_still: "arrays_filled v \<Longrightarrow> c \<in> set csr_id_all \<Longrightarrow> snd (csr_view_at absent c v) = v"
  by (auto simp: arrays_filled_def list_all_iff csr_view_at_def assoc_at_def split_beta split: option.splits dest!: bspec [of _ _ c])

lemma clint_words_still:
  assumes "arrays_filled v" "a \<in> {0x02000000, 0x02004000, 0x02004004, 0x0200bff8, 0x0200bffc}"
  shows "\<exists>w. read_word absent a v = (Some w, v)"
proof -
  obtain t where "clint_reg a v = Some t" using assms by (auto simp: arrays_filled_def)
  moreover have "take_bit 2 a = 0 \<and> in_clint a" using assms(2) by (auto simp: in_clint_def mem_map_defs)
  ultimately show ?thesis using read_word_clint by blast
qed

lemma clint_views_still:
  assumes "arrays_filled v"
  shows "snd (clint_msip absent v) = v" "snd (clint_mtime absent v) = v" "snd (clint_mtimecmp absent v) = v"
proof -
  have two: "snd (clint_read64 absent lo hi v) = v"
    if "read_word absent lo v = (Some l, v)" "read_word absent hi v = (Some h, v)" for lo hi l h
    by (simp add: clint_read64_def that)
  note w = clint_words_still [OF assms, of _ absent]
  show "snd (clint_msip absent v) = v" using w [of "0x02000000"] by (auto simp: clint_msip_def)
  show "snd (clint_mtime absent v) = v" using w [of "0x0200bff8"] w [of "0x0200bffc"] two by (auto simp: clint_mtime_def)
  show "snd (clint_mtimecmp absent v) = v" using w [of "0x02004000"] w [of "0x02004004"] two by (auto simp: clint_mtimecmp_def)
qed

lemma still_read_snd: "snd (m s) = s \<Longrightarrow> (\<And>x. still (f x) s) \<Longrightarrow> still (draw_read m f) s"
  by (cases "m s") (auto intro: still_read)

lemma still_csr_row: "arrays_filled v \<Longrightarrow> c \<in> set csr_id_all \<Longrightarrow> still (csr_row absent c) v"
  unfolding csr_row_def by (intro still_read_snd csr_view_still still_items)

lemma still_mem_row:
  assumes "mem_drawer_reach d" "0 \<le> r" "r < 32"
  shows "still (mem_row absent d r) v"
proof -
  have w: "md_disp_w d \<in> {0, 1, 2, 3}" using mem_drawer_reach_inv [OF assms(1)] by blast
  have cols: "0 \<le> c \<and> c < 8 \<and> c mod disp_w (md_disp_w d) = 0" if "c \<in> set (mem_columns d)" for c
    using that w by (auto simp: mem_columns_def disp_w_def DISPLAY_WINDOW_W_def split: if_splits)
  have "snd (mem_cell_text absent d r c v) = v" if "c \<in> set (mem_columns d)" for c
    using window_cell [OF assms, of c absent v] cols [OF that] by blast
  then have "snd (mem_row_texts absent d r cs v) = v" if "set cs \<subseteq> set (mem_columns d)" for cs
    using that by (induction cs) (auto simp: split_beta Let_def)
  then show ?thesis unfolding mem_row_def by (intro still_read_snd still_items) simp
qed

lemma still_mem_items: "mem_drawer_reach d \<Longrightarrow> still (mem_drawer_items absent ui d) v"
proof -
  assume "mem_drawer_reach d"
  then have "still (mem_row absent d r) v" if "r \<in> set [0..DISPLAY_WINDOW_H - 1]" for r
    using that still_mem_row [of d r] by (simp add: DISPLAY_WINDOW_H_def)
  then have "still (draw_table (pu_open ui) n cols (map (mem_row absent d) [0..DISPLAY_WINDOW_H - 1])) v" for n cols
    by (intro still_draw_table) auto
  then show ?thesis
    unfolding still_def mem_drawer_items_def unfolding still_def [symmetric] by (intro still_all) simp
qed

lemma still_at:
  "still (child opened n (D v)) v \<Longrightarrow> still (\<lambda>v. child opened n (D v) v) v"
  "still (items (xs v)) v \<Longrightarrow> still (\<lambda>v. items (xs v) v) v"
  by (simp_all add: still_def)

lemma reg_row_still: "0 \<le> i \<Longrightarrow> i < NUM_REGS \<Longrightarrow> still (reg_row i) v"
  unfolding still_def using reg_row_eq [of "nat i" v] by (auto simp: NUM_REGS_def)

lemma still_reg: "still (reg_render opened) v"
  unfolding reg_render_def [abs_def]
  by (rule still_at) (auto intro!: still_child still_collapsing still_all still_draw_table reg_row_still simp del: draw_seq_items draw_all.simps)

lemma still_csr: "arrays_filled v \<Longrightarrow> still (csr_render absent opened) v"
  unfolding csr_render_def [abs_def] CSR_IDS_all
  by (rule still_at) (auto intro!: still_child still_collapsing still_all still_draw_table still_csr_row simp del: draw_seq_items draw_all.simps)

lemma still_clint: "arrays_filled v \<Longrightarrow> still (clint_render absent opened) v"
  unfolding clint_render_def [abs_def]
  by (rule still_at)
    (auto intro!: still_child still_collapsing still_all still_read_snd clint_views_still simp del: draw_seq_items draw_all.simps)

lemma still_plain: "still (fwd_render opened) v" "still (pipeline_regs_render opened) v"
  unfolding fwd_render_def [abs_def] pipeline_regs_render_def [abs_def]
  by (rule still_at, auto intro!: still_child still_collapsing still_all simp del: draw_seq_items draw_all.simps)+

lemma status_mie_still: "arrays_filled v \<Longrightarrow> snd (status_m_interr_enable absent v) = v"
  using csr_view_still [of v CsrId_MSTATUS absent]
  by (simp add: status_m_interr_enable_def status_mstatus_def split_beta csr_id_all_def)

lemma still_status: "arrays_filled v \<Longrightarrow> still (status_render absent opened) v"
  unfolding status_render_def
  by (intro still_child still_collapsing still_read_snd status_mie_still) (simp_all add: still_def items_def)

lemma still_trap:
  assumes "arrays_filled v" "\<not> trap_text_read absent opened v" shows "still (trap_render absent opened) v"
proof -
  obtain xs v' where r: "trap_render absent opened v = Inr (xs, v')"
    using assms(2) trap_render_error [of absent opened v] by (cases "trap_render absent opened v") auto
  obtain cause where c: "trap_cause absent v = (cause, v)"
    using csr_view_still [OF assms(1), of CsrId_MCAUSE absent] by (cases "trap_cause absent v") (simp add: trap_cause_def csr_id_all_def)
  obtain val where t: "trap_tvalue absent v = (val, v)"
    using csr_view_still [OF assms(1), of CsrId_MTVAL absent] by (cases "trap_tvalue absent v") (simp add: trap_tvalue_def csr_id_all_def)
  have "draw_cause cause val mret v = Inr (ys, w) \<Longrightarrow> w = v" for mret ys w
    by (cases "snd (trap_message cause val (projr (trap_reg_a7 v)))"; cases "trap_reg_a7 v")
      (auto simp: draw_cause_def draw_read_result_def res_simps draw_seq_def items_def draw_desc_def)
  then have "v' = v" using r
    by (auto simp: trap_render_def child_def collapsing_def draw_read_def c t Let_def draw_seq_def items_def res_simps
        split: if_splits prod.splits)
  then show ?thesis using r by (simp add: still_def)
qed

lemma still_on_first: "still d (fst s) \<Longrightarrow> still (on_first d) s"
  by (auto simp: still_def on_first_def)

lemma memory_inspector_draws:
  assumes "mem_drawer_reach (sb_mem_drawer s)"
  shows "\<exists>xs. draw_memory_inspector absent ui (v, s) = Inr (xs, (v, s\<lparr>sb_mem_drawer := inspector_input ui (sb_mem_drawer s)\<rparr>))"
  using still_mem_items [OF mem_drawer_input_reach [OF assms], of absent ui ui v]
  by (auto simp: draw_memory_inspector_def mem_render_eq inspector_input_def still_def)

text \<open>The sidebar as three tabs.\<close>

definition tab_memory :: "absent_key \<Rightarrow> panel_ui \<Rightarrow> ('x container \<times> sidebar) drawing" where
  "tab_memory absent ui = draw_all [on_first (reg_render (pu_open ui)), on_first (csr_render absent (pu_open ui)), draw_memory_inspector absent ui]"

definition tab_privilege :: "absent_key \<Rightarrow> panel_ui \<Rightarrow> ('x container \<times> sidebar) drawing" where
  "tab_privilege absent ui = draw_all [on_first (status_render absent (pu_open ui)), on_first (trap_render absent (pu_open ui)),
     on_first (csr_render absent (pu_open ui)), on_first (clint_render absent (pu_open ui))]"

definition tab_pipelining :: "panel_ui \<Rightarrow> ('x container \<times> sidebar) drawing" where
  "tab_pipelining ui = draw_all [on_first (fwd_render (pu_open ui)), on_first (pipeline_regs_render (pu_open ui))]"

lemma sidebar_tabs:
  "sidebar_render absent ui = child (pu_open ui) ''Sidebar'' (child (pu_open ui) ''sidebar_tabs'' (draw_all
     [child (pu_open ui) ''Memory'' (tab_memory absent ui), child (pu_open ui) ''Privilege'' (tab_privilege absent ui),
      child (pu_open ui) ''Pipelining'' (tab_pipelining ui)]))"
  by (simp add: sidebar_render_def Let_def tab_memory_def tab_privilege_def tab_pipelining_def)

lemma tab_memory_draws:
  assumes "arrays_filled v" "mem_drawer_reach (sb_mem_drawer s)"
  shows "\<exists>xs. tab_memory absent ui (v, s) = Inr (xs, (v, s\<lparr>sb_mem_drawer := inspector_input ui (sb_mem_drawer s)\<rparr>))"
proof -
  obtain a where a: "on_first (reg_render (pu_open ui)) (v, s) = Inr (a, (v, s))"
    using still_reg [of "pu_open ui" v] by (auto simp: still_def on_first_def)
  obtain b where b: "on_first (csr_render absent (pu_open ui)) (v, s) = Inr (b, (v, s))"
    using still_csr [OF assms(1), of absent "pu_open ui"] by (auto simp: still_def on_first_def)
  obtain c where "draw_memory_inspector absent ui (v, s) = Inr (c, (v, s\<lparr>sb_mem_drawer := inspector_input ui (sb_mem_drawer s)\<rparr>))"
    using memory_inspector_draws [OF assms(2)] by blast
  then show ?thesis by (simp add: tab_memory_def draw_seq_def a b items_def)
qed

lemma tab_pipelining_draws: "still (tab_pipelining ui) s"
  unfolding tab_pipelining_def by (intro still_all) (auto intro!: still_on_first still_plain)

lemma tab_privilege_draws:
  assumes "arrays_filled v"
  shows "if trap_text_read absent (pu_open ui) v then tab_privilege absent ui (v, s) = Inl OutOfBounds
    else still (tab_privilege absent ui) (v, s)"
proof (cases "trap_text_read absent (pu_open ui) v")
  case True
  then have "trap_render absent (pu_open ui) v = Inl OutOfBounds" by (simp add: trap_render_error)
  moreover obtain a where "on_first (status_render absent (pu_open ui)) (v, s) = Inr (a, (v, s))"
    using still_status [OF assms, of absent "pu_open ui"] by (auto simp: still_def on_first_def)
  ultimately show ?thesis using True by (simp add: tab_privilege_def draw_seq_def on_first_def)
next
  case False
  then show ?thesis unfolding tab_privilege_def if_not_P [OF False]
    by (intro still_all) (auto intro!: still_on_first still_status still_trap still_csr still_clint assms)
qed

text \<open>
  C34: The sidebar only displays.  Once the hardware has its CSRs and timer registers, drawing the
  sidebar in any arrangement of its tabs and sections leaves the hardware exactly as it was and
  changes nothing but the controls of the memory inspector, with one exception: when the
  Privilege tab opens the trap section on a trap whose text the trap window reads after it was
  freed (\<open>trap_text_read\<close>), the frame is undefined behaviour.
\<close>

theorem sidebar_only_displays:
  assumes filled: "arrays_filled v" and reach: "mem_drawer_reach (sb_mem_drawer s)"
  shows "if pu_open ui ''Sidebar'' \<and> pu_open ui ''sidebar_tabs'' \<and> pu_open ui ''Privilege'' \<and> trap_text_read absent (pu_open ui) v
    then sidebar_render absent ui (v, s) = Inl OutOfBounds
    else \<exists>xs. sidebar_render absent ui (v, s) = Inr (xs, (v,
      if pu_open ui ''Sidebar'' \<and> pu_open ui ''sidebar_tabs'' \<and> pu_open ui ''Memory''
      then s\<lparr>sb_mem_drawer := inspector_input ui (sb_mem_drawer s)\<rparr> else s))"
proof -
  let ?s = "if pu_open ui ''Memory'' then s\<lparr>sb_mem_drawer := inspector_input ui (sb_mem_drawer s)\<rparr> else s"
  obtain xs where m: "child (pu_open ui) ''Memory'' (tab_memory absent ui) (v, s) = Inr (xs, (v, ?s))"
    using tab_memory_draws [OF assms, of absent ui] by (cases "pu_open ui ''Memory''") (auto simp: child_def items_def)
  obtain zs where p: "child (pu_open ui) ''Pipelining'' (tab_pipelining ui) (v, ?s) = Inr (zs, (v, ?s))"
    using still_child [OF tab_pipelining_draws] unfolding still_def by blast
  show ?thesis
    using tab_privilege_draws [OF filled, of absent ui ?s] m p
    by (auto simp: sidebar_tabs child_def items_def draw_seq_def still_def)
qed

definition demo_filled :: "nat container" where
  "demo_filled = demo_container (demo_top\<lparr>clint_mem := (\<lambda>k. Some 0), core := core_zero\<lparr>csr_mem := (\<lambda>k. Some 0)\<rparr>\<rparr>)"

definition demo_panel_ui :: panel_ui where
  "demo_panel_ui = \<lparr>pu_open = (\<lambda>_. True), pu_source = (\<lambda>_. 1), pu_width = (\<lambda>_. 3), pu_offset = Some 70001\<rparr>"

theorem sidebar_only_displays_witness:
  "\<exists>xs. sidebar_render demo_absent demo_panel_ui (demo_filled, sidebar_new) =
     Inr (xs, (demo_filled, \<lparr>sb_mem_drawer = \<lparr>md_sec_curr = 1, md_offset = 65280, md_disp_w = 3\<rparr>\<rparr>))"
proof -
  have "arrays_filled demo_filled" by (simp add: arrays_filled_def demo_filled_def clint_reg_def csr_id_all_def)
  moreover have "mem_drawer_reach (sb_mem_drawer sidebar_new)" by (simp add: sidebar_new_def mem_drawer_reach.new)
  moreover have "\<not> trap_text_read demo_absent (pu_open demo_panel_ui) demo_filled"
    by (simp add: trap_text_read_def demo_filled_def trap_in_trap_def core_zero_def)
  moreover have "inspector_input demo_panel_ui (sb_mem_drawer sidebar_new) = \<lparr>md_sec_curr = 1, md_offset = 65280, md_disp_w = 3\<rparr>"
    by (simp add: inspector_input_def demo_panel_ui_def mem_drawer_input_def mem_drawer_controls_def combo_def sidebar_new_def
        mem_drawer_new_def Let_def offset_max_eq DISPLAY_WINDOW_W_def)
  ultimately show ?thesis
    using sidebar_only_displays [of demo_filled sidebar_new demo_panel_ui demo_absent]
    by (simp add: demo_panel_ui_def sidebar_new_def)
qed

end
