(* ===== verification/Panel_Faithful.thy ===== *)
theory Panel_Faithful
  imports Panel_Pipeline
begin

text \<open>
  The pipeline window is a faithful picture: from what it prints the contents of the pipeline
  registers can be told, except for the fields it does not print.  The locale \<open>shown_table\<close> is
  what makes a printed name or number readable again: no name of a table starts like the
  notation for a value without a name.
\<close>

section \<open>Lines determine what they print\<close>

lemma length_hex8 [simp]: "length (hex8 w) = 10"
proof -
  have "length (hex_digits n x) = n" for n x by (induction n x rule: hex_digits.induct) simp_all
  then show ?thesis by (simp add: hex8_def)
qed

lemma hex_line_eq: "hex_line pre v = hex_line pre w \<longleftrightarrow> v = w"
  by (simp add: hex_line_def hex8_inject)

lemma word_line_eq: "word_line pre v = word_line pre w \<longleftrightarrow> v = w"
  by (auto simp: word_line_def hex8_inject dest: append_eq_append_conv [THEN iffD1, rotated])

lemma sint_eq: "sint (v :: u32) = sint w \<longleftrightarrow> v = w"
  by (metis signed_word_eqI)

lemma draw_signal_eq:
  "c \<noteq> c' \<Longrightarrow> draw_signal l b c c' f = draw_signal l' b' c c' f \<longleftrightarrow> l = l' \<and> b = b'"
  by (auto simp: draw_signal_def)

locale shown_table = name_table +
  assumes no_mark: "list_all (\<lambda>p. hd (snd p) \<noteq> CHR ''?'') table"
begin

lemma shown_eq:
  "name_or_number (get_or_empty table (to_enum v)) (sint v) = name_or_number (get_or_empty table (to_enum w)) (sint w) \<longleftrightarrow> v = w"
proof -
  have name: "get_or_empty table e \<noteq> [] \<and> hd (get_or_empty table e) \<noteq> CHR ''?''" if named: "e \<in> set named" for e
  proof -
    have ne: "get_or_empty table e \<noteq> EMPTY" using get_or_empty_iff named by blast
    then obtain s where "map_of table e = Some s" by (auto simp: get_or_empty_def split: option.splits)
    moreover from this have "(e, s) \<in> set table" by (simp only: map_of_table)
    ultimately show ?thesis using no_mark ne by (auto simp: get_or_empty_def list_all_iff EMPTY_def)
  qed
  have number: "get_or_empty table e = []" if "e \<notin> set named" for e
    using get_or_empty_iff that by (auto simp: EMPTY_def)
  show ?thesis
  proof (cases "to_enum v \<in> set named"; cases "to_enum w \<in> set named")
    assume "to_enum v \<in> set named" "to_enum w \<in> set named"
    then show ?thesis
      using name [of "to_enum v"] name [of "to_enum w"] inj_onD [OF get_or_empty_inj, of "to_enum v" "to_enum w"]
      by (auto simp: name_or_number_def to_enum_inj)
  next
    assume "to_enum v \<in> set named" "to_enum w \<notin> set named"
    then show ?thesis using name [of "to_enum v"] number [of "to_enum w"] by (auto simp: name_or_number_def)
  next
    assume "to_enum v \<notin> set named" "to_enum w \<in> set named"
    then show ?thesis using name [of "to_enum w"] number [of "to_enum v"] by (auto simp: name_or_number_def dest!: sym [of "_ # _"])
  next
    assume "to_enum v \<notin> set named" "to_enum w \<notin> set named"
    then show ?thesis using number [of "to_enum v"] number [of "to_enum w"] by (auto simp: name_or_number_def dec_int_inject sint_eq)
  qed
qed

lemma name_line_eq:
  "name_line pre (get_or_empty table (to_enum v)) (sint (of_enum (to_enum v))) =
   name_line pre (get_or_empty table (to_enum w)) (sint (of_enum (to_enum w))) \<longleftrightarrow> v = w"
  by (simp add: name_line_def of_to shown_eq)

end

interpretation alu_op_shown: shown_table to_alu_op of_alu_op alu_op_all alu_op_names
  by unfold_locales (simp add: alu_op_names_def)

interpretation bu_op_shown: shown_table to_bu_op of_bu_op bu_op_all bu_op_names
  by unfold_locales (simp add: bu_op_names_def)

interpretation alu_a_shown: shown_table to_alu_a of_alu_a alu_a_all alu_a_names
  by unfold_locales (simp add: alu_a_names_def)

interpretation alu_b_shown: shown_table to_alu_b of_alu_b alu_b_all alu_b_names
  by unfold_locales (simp add: alu_b_names_def)

interpretation lsu_ls_shown: shown_table to_lsu_ls of_lsu_ls lsu_ls_all lsu_ls_names
  by unfold_locales (simp add: lsu_ls_names_def)

interpretation reg_wb_shown: shown_table to_reg_wb of_reg_wb reg_wb_all reg_wb_names
  by unfold_locales (simp add: reg_wb_names_def)

interpretation mu_op_shown: shown_table to_mu_op of_mu_op mu_op_all mu_op_names
  by unfold_locales (simp add: mu_op_names_def)

interpretation csr_shown: shown_table to_csr_id of_csr_id csr_id_all csr_names
  by unfold_locales (simp add: csr_names_def)

interpretation csr_write_shown: shown_table to_csr_write of_csr_write csr_write_all csr_write_names
  by unfold_locales (simp add: csr_write_names_def)

interpretation csr_op_shown: shown_table to_csr_op of_csr_op csr_op_all csr_op_names
  by unfold_locales (simp add: csr_op_names_def)

lemma bu_op_line_eq: "bu_op_line (to_bu_op v) = bu_op_line (to_bu_op w) \<longleftrightarrow> v = w"
  using bu_op_shown.shown_eq [of v w]
  by (auto simp: bu_op_line_def bu_op_name_def name_or_number_def bu_op.of_to dec_int_inject sint_eq)

text \<open>A register number is shown as a name, or as nothing when there is no such register.\<close>

definition shown_reg :: "u8 \<Rightarrow> u8" where
  "shown_reg r = (if r < 32 then r else 32)"

lemma reg_name_eq: "reg_name a = reg_name b \<longleftrightarrow> shown_reg a = shown_reg b"
  using register_names_identify [of a b] by (auto simp: shown_reg_def)

lemmas line_eqs = hex_line_eq word_line_eq draw_signal_eq bu_op_line_eq reg_name_eq
  alu_op_shown.name_line_eq alu_a_shown.name_line_eq alu_b_shown.name_line_eq lsu_ls_shown.name_line_eq
  reg_wb_shown.name_line_eq mu_op_shown.name_line_eq csr_shown.name_line_eq csr_write_shown.name_line_eq
  csr_op_shown.name_line_eq

lemmas name_defs = alu_op_name_def alu_a_name_def alu_b_name_def lsu_ls_op_name_def reg_wb_name_def mu_op_name_def
  csr_name_def csr_write_name_def csr_op_name_def

section \<open>Stages\<close>

text \<open>What the window shows of a stage: everything but the immediate of the CSR instructions.\<close>

definition shown_id_ex :: "id_ex_signals \<Rightarrow> id_ex_signals" where
  "shown_id_ex s = s\<lparr>ex_csr_zimm := 0, ex_rd_addr := shown_reg (ex_rd_addr s), ex_rs1_addr := shown_reg (ex_rs1_addr s),
     ex_rs2_addr := shown_reg (ex_rs2_addr s)\<rparr>"

definition shown_ex_mem :: "ex_mem_signals \<Rightarrow> ex_mem_signals" where
  "shown_ex_mem s = s\<lparr>mem_csr_zimm := 0, mem_rd_addr := shown_reg (mem_rd_addr s)\<rparr>"

definition shown_mem_wb :: "mem_wb_signals \<Rightarrow> mem_wb_signals" where
  "shown_mem_wb s = s\<lparr>wb_rd_addr := shown_reg (wb_rd_addr s)\<rparr>"

lemma sig_append: "draw_signal l b c c' f @ xs = draw_signal l' b' c c' f @ ys \<longleftrightarrow> draw_signal l b c c' f = draw_signal l' b' c c' f \<and> xs = ys"
  by (simp add: draw_signal_def)

lemma vsf_append:
  "draw_sig_vsf v s f @ xs = draw_sig_vsf v' s' f' @ ys \<longleftrightarrow> (v = v' \<and> s = s' \<and> f = f') \<and> xs = ys"
  by (auto simp: draw_sig_vsf_def draw_signal_def)

lemma draw_if_id_eq:
  "draw_if_id (view_if_id v) = draw_if_id (view_if_id w) \<longleftrightarrow> if_id_s (core (m_top v)) = if_id_s (core (m_top w))"
  by (cases "if_id_s (core (m_top v))"; cases "if_id_s (core (m_top w))")
    (simp add: draw_if_id_def stage_views vsf_append hex_line_eq)

lemma draw_id_ex_eq:
  "draw_id_ex (view_id_ex v) = draw_id_ex (view_id_ex w) \<longleftrightarrow>
     shown_id_ex (id_ex_s (core (m_top v))) = shown_id_ex (id_ex_s (core (m_top w)))"
  by (cases "id_ex_s (core (m_top v))"; cases "id_ex_s (core (m_top w))")
    (auto simp add: draw_id_ex_def stage_views vsf_append sig_append name_defs line_eqs shown_id_ex_def ucast_inj)

lemma draw_ex_mem_eq:
  "draw_ex_mem (view_ex_mem v) = draw_ex_mem (view_ex_mem w) \<longleftrightarrow>
     shown_ex_mem (ex_mem_s (core (m_top v))) = shown_ex_mem (ex_mem_s (core (m_top w)))"
  by (cases "ex_mem_s (core (m_top v))"; cases "ex_mem_s (core (m_top w))")
    (auto simp add: draw_ex_mem_def stage_views vsf_append sig_append name_defs line_eqs shown_ex_mem_def ucast_inj)

lemma draw_mem_wb_eq:
  "draw_mem_wb (view_mem_wb v) = draw_mem_wb (view_mem_wb w) \<longleftrightarrow>
     shown_mem_wb (mem_wb_s (core (m_top v))) = shown_mem_wb (mem_wb_s (core (m_top w)))"
  by (cases "mem_wb_s (core (m_top v))"; cases "mem_wb_s (core (m_top w))")
    (auto simp add: draw_mem_wb_def stage_views vsf_append sig_append name_defs line_eqs shown_mem_wb_def ucast_inj)

lemma stage_lengths:
  "length (draw_if_id a) = length (draw_if_id a')" "length (draw_id_ex b) = length (draw_id_ex b')"
  "length (draw_ex_mem c) = length (draw_ex_mem c')"
  by (simp_all add: draw_if_id_def draw_id_ex_def draw_ex_mem_def draw_sig_vsf_def draw_signal_def)

text \<open>What a drawing puts on the screen.\<close>

definition drawn :: "'s drawing \<Rightarrow> 's \<Rightarrow> panel_item list" where
  "drawn d s = (case d s of Inl e \<Rightarrow> [] | Inr (xs, s') \<Rightarrow> xs)"

lemma drawn_pipeline:
  "drawn (pipeline_regs_render (\<lambda>_. True)) v =
     [CollapsingHeader ''Pipeline Registers'', CollapsingHeader ''IF/ID''] @ draw_if_id (view_if_id v) @
     [CollapsingHeader ''ID/EX''] @ draw_id_ex (view_id_ex v) @
     [CollapsingHeader ''EX/MEM''] @ draw_ex_mem (view_ex_mem v) @
     [CollapsingHeader ''MEM/WB''] @ draw_mem_wb (view_mem_wb v)"
  by (simp add: drawn_def pipeline_regs_render_def child_def collapsing_def items_def)

text \<open>
  C35: The pipeline window is a faithful picture of the pipeline: with its sections open, two states
  of the hardware are drawn alike exactly when their four pipeline registers agree in everything
  but the zero-extended CSR immediate, which is not printed, and the numbers of registers that
  do not exist, which have no name.  Every operation, source and value can be told apart, the
  undefined encodings included.
\<close>

theorem pipeline_window_faithful:
  "drawn (pipeline_regs_render (\<lambda>_. True)) v = drawn (pipeline_regs_render (\<lambda>_. True)) w \<longleftrightarrow>
     if_id_s (core (m_top v)) = if_id_s (core (m_top w)) \<and>
     shown_id_ex (id_ex_s (core (m_top v))) = shown_id_ex (id_ex_s (core (m_top w))) \<and>
     shown_ex_mem (ex_mem_s (core (m_top v))) = shown_ex_mem (ex_mem_s (core (m_top w))) \<and>
     shown_mem_wb (mem_wb_s (core (m_top v))) = shown_mem_wb (mem_wb_s (core (m_top w)))"
proof -
  note len = stage_lengths(1) [of "view_if_id v" "view_if_id w"] stage_lengths(2) [of "view_id_ex v" "view_id_ex w"]
    stage_lengths(3) [of "view_ex_mem v" "view_ex_mem w"]
  show ?thesis
    by (simp add: drawn_pipeline len draw_if_id_eq draw_id_ex_eq draw_ex_mem_eq draw_mem_wb_eq)
qed

end
