(* ===== verification/Kernel_Heap.thy ===== *)
theory Kernel_Heap
  imports Prelude
begin

text \<open>
  The kernel's heap allocator (\<open>sw/bootc/kernel/heap.c\<close>, \<open>heap.h\<close>): a first-fit allocator over
  a doubly linked list of block headers that sit in the memory they manage.  Addresses and
  sizes are the 32-bit \<open>size_t\<close> of the target, as natural numbers with the wrap-around of
  every sum, difference and product written out.  The memory is the map from addresses to
  the block headers stored there; payload bytes are not part of it.
\<close>

section \<open>The target's arithmetic and failures\<close>

definition W32 :: nat where "W32 = 2 ^ 32"

definition add32 :: "nat \<Rightarrow> nat \<Rightarrow> nat" where "add32 a b = (a + b) mod W32"

definition sub32 :: "nat \<Rightarrow> nat \<Rightarrow> nat" where "sub32 a b = (a + W32 - b mod W32) mod W32"

definition mul32 :: "nat \<Rightarrow> nat \<Rightarrow> nat" where "mul32 a b = (a * b) mod W32"

definition ALIGN_UP :: "nat \<Rightarrow> nat \<Rightarrow> nat" where
  "ALIGN_UP x y = mul32 (sub32 (add32 x y) 1 div y) y"

text \<open>
  \<open>Panic\<close> is a call of \<open>panic()\<close> after its message; \<open>Wild a\<close> a dereference of address \<open>a\<close> where
  no header is stored; \<open>Uninit x\<close> the use of the local variable \<open>x\<close> before it has a value.
\<close>

datatype kerror = Panic string | Wild nat | Uninit string

type_synonym 'a kresult = "kerror + 'a"

section \<open>Headers and memory\<close>

record heap_block =
  hb_size :: nat
  hb_allocated :: bool
  hb_prev :: nat
  hb_next :: nat

record heap_descriptor =
  hd_head :: nat
  hd_max :: nat
  hd_size :: nat
  hd_total :: nat

type_synonym heap_store = "nat \<rightharpoonup> heap_block"

definition SIZEOF_BLOCK :: nat where "SIZEOF_BLOCK = 16"

definition HEAP_ALIGN :: nat where "HEAP_ALIGN = 16"

definition HEAP_MIN_ALLOC :: nat where "HEAP_MIN_ALLOC = 4"

definition hb_get :: "heap_store \<Rightarrow> nat \<Rightarrow> heap_block kresult" where
  "hb_get m a = (case m a of None \<Rightarrow> Inl (Wild a) | Some b \<Rightarrow> Inr b)"

text \<open>
  A field assignment through a pointer.  Memory that holds no header yet gets one; all four
  fields are assigned before any of them is read, so the initial content does not matter.
\<close>

definition hb_set :: "(heap_block \<Rightarrow> heap_block) \<Rightarrow> nat \<Rightarrow> heap_store \<Rightarrow> heap_store" where
  "hb_set f a m = m(a \<mapsto> f (case m a of None \<Rightarrow> \<lparr>hb_size = 0, hb_allocated = False, hb_prev = 0, hb_next = 0\<rparr> | Some b \<Rightarrow> b))"

section \<open>Operations\<close>

definition split_block :: "nat \<Rightarrow> nat \<Rightarrow> heap_store \<Rightarrow> (bool \<times> heap_store) kresult" where
  "split_block block mem_size m =
     res_bind (hb_get m block) (\<lambda>b.
       if hb_size b < add32 (add32 SIZEOF_BLOCK mem_size) HEAP_MIN_ALLOC then Inr (False, m)
       else
         let remaining = sub32 (hb_size b) mem_size
         in if remaining > SIZEOF_BLOCK + HEAP_MIN_ALLOC then
              let insert = add32 (add32 block SIZEOF_BLOCK) mem_size;
                  m1 = hb_set (hb_size_update (\<lambda>_. sub32 remaining SIZEOF_BLOCK)) insert m;
                  m2 = hb_set (hb_allocated_update (\<lambda>_. False)) insert m1;
                  m3 = hb_set (hb_prev_update (\<lambda>_. block)) insert m2
              in res_bind (hb_get m3 block) (\<lambda>b3.
                   let m4 = hb_set (hb_next_update (\<lambda>_. hb_next b3)) insert m3;
                       m5 = (if hb_next b3 \<noteq> 0 then hb_set (hb_prev_update (\<lambda>_. insert)) (hb_next b3) m4 else m4);
                       m6 = hb_set (hb_size_update (\<lambda>_. mem_size)) block m5
                   in Inr (True, hb_set (hb_next_update (\<lambda>_. insert)) block m6))
            else Inr (True, m))"

definition init_heap :: "nat \<Rightarrow> nat \<Rightarrow> heap_store \<Rightarrow> heap_descriptor \<times> heap_store" where
  "init_heap base_addr sz0 m =
     (let head = ALIGN_UP base_addr HEAP_ALIGN;
          mx = ALIGN_UP (add32 base_addr sz0) HEAP_ALIGN;
          sz = sub32 mx head
      in (\<lparr>hd_head = head, hd_max = mx, hd_size = sz, hd_total = 0\<rparr>,
          m(head \<mapsto> \<lparr>hb_size = sub32 sz SIZEOF_BLOCK, hb_allocated = False, hb_prev = 0, hb_next = 0\<rparr>)))"

text \<open>\<open>heap->head + 1\<close> is one byte past the head: \<open>head\<close> is a \<open>void*\<close>.\<close>

definition is_valid_heap_ptr :: "heap_descriptor \<Rightarrow> nat \<Rightarrow> bool" where
  "is_valid_heap_ptr h p \<longleftrightarrow> p \<noteq> 0 \<and> p mod HEAP_ALIGN = 0 \<and> add32 (hd_head h) 1 \<le> p \<and> p \<le> sub32 (hd_max h) SIZEOF_BLOCK"

text \<open>
  The search loop of \<open>alloc_heap\<close>: the block that was taken, or \<open>None\<close> at the end of the list.
  The list may be cyclic, so the loop is a partial function; not returning is the value
  \<open>None\<close> of the outer option.
\<close>

partial_function (option) alloc_search :: "nat \<Rightarrow> heap_store \<Rightarrow> nat \<Rightarrow> (nat option \<times> heap_store) kresult option" where
  "alloc_search n m cur =
     (if cur = 0 then Some (Inr (None, m))
      else case hb_get m cur of
             Inl e \<Rightarrow> Some (Inl e)
           | Inr b \<Rightarrow>
               if hb_allocated b then alloc_search n m (hb_next b)
               else (case split_block cur n m of
                       Inl e \<Rightarrow> Some (Inl e)
                     | Inr (ok, m') \<Rightarrow>
                         if ok then Some (Inr (Some cur, hb_set (hb_allocated_update (\<lambda>_. True)) cur m'))
                         else alloc_search n m' (hb_next b)))"

definition alloc_heap :: "nat \<Rightarrow> heap_descriptor \<times> heap_store \<Rightarrow> (nat \<times> heap_descriptor \<times> heap_store) kresult option" where
  "alloc_heap req hm =
     (let (h, m) = hm in
      if add32 (add32 (hd_total h) SIZEOF_BLOCK) req > hd_size h then Some (Inr (0, h, m))
      else case alloc_search (ALIGN_UP req HEAP_ALIGN) m (hd_head h) of
             None \<Rightarrow> None
           | Some (Inl e) \<Rightarrow> Some (Inl e)
           | Some (Inr (None, m')) \<Rightarrow> Some (Inr (0, h, m'))
           | Some (Inr (Some b, m')) \<Rightarrow>
               Some (Inr (add32 b SIZEOF_BLOCK,
                 h\<lparr>hd_total := add32 (hd_total h) (add32 SIZEOF_BLOCK (ALIGN_UP req HEAP_ALIGN))\<rparr>, m')))"

text \<open>\<open>merge_empty_blocks_adjacent\<close>, the two \<open>if\<close> statements in order.\<close>

definition merge_prev :: "nat \<Rightarrow> heap_store \<Rightarrow> (nat \<times> heap_store) kresult" where
  "merge_prev cur m =
     res_bind (hb_get m cur) (\<lambda>c.
       if hb_prev c = 0 then Inr (cur, m)
       else res_bind (hb_get m (hb_prev c)) (\<lambda>p.
         if hb_allocated p then Inr (cur, m)
         else
           let prev = hb_prev c;
               m1 = hb_set (hb_size_update (\<lambda>s. add32 s (add32 SIZEOF_BLOCK (hb_size c)))) prev m
           in res_bind (hb_get m1 cur) (\<lambda>c1.
                let m2 = hb_set (hb_next_update (\<lambda>_. hb_next c1)) prev m1
                in Inr (prev, if hb_next c1 \<noteq> 0 then hb_set (hb_prev_update (\<lambda>_. prev)) (hb_next c1) m2 else m2))))"

definition merge_next :: "nat \<Rightarrow> heap_store \<Rightarrow> heap_store kresult" where
  "merge_next cur m =
     res_bind (hb_get m cur) (\<lambda>c.
       if hb_next c = 0 then Inr m
       else res_bind (hb_get m (hb_next c)) (\<lambda>n.
         if hb_allocated n then Inr m
         else
           let m1 = hb_set (hb_size_update (\<lambda>s. add32 s (add32 SIZEOF_BLOCK (hb_size n)))) cur m
           in res_bind (hb_get m1 (hb_next c)) (\<lambda>n1.
                let m2 = hb_set (hb_next_update (\<lambda>_. hb_next n1)) cur m1
                in Inr (if hb_next n1 \<noteq> 0 then hb_set (hb_prev_update (\<lambda>_. cur)) (hb_next n1) m2 else m2))))"

definition merge_empty_blocks_adjacent :: "nat \<Rightarrow> heap_store \<Rightarrow> heap_store kresult" where
  "merge_empty_blocks_adjacent block m =
     (if block = 0 then Inr m
      else res_bind (hb_get m block) (\<lambda>b.
        if hb_allocated b then Inr m
        else res_bind (merge_prev block m) (\<lambda>(cur, m1). merge_next cur m1)))"

definition free_heap :: "nat \<Rightarrow> heap_descriptor \<times> heap_store \<Rightarrow> (heap_descriptor \<times> heap_store) kresult" where
  "free_heap ptr hm =
     (let (h, m) = hm in
      if \<not> is_valid_heap_ptr h ptr then Inl (Panic ''Panic: invalid heap pointer'')
      else
        let block = sub32 ptr SIZEOF_BLOCK
        in res_bind (hb_get m block) (\<lambda>b.
             if \<not> hb_allocated b then Inl (Panic ''Panic: double free'')
             else
               let m1 = hb_set (hb_allocated_update (\<lambda>_. False)) block m;
                   h1 = h\<lparr>hd_total := sub32 (hd_total h) (add32 SIZEOF_BLOCK (ALIGN_UP (hb_size b) HEAP_ALIGN))\<rparr>
               in res_bind (merge_empty_blocks_adjacent block m1) (\<lambda>m2. Inr (h1, m2))))"

end
