(* ===== verification/Kernel_Heap_Inv.thy ===== *)
theory Kernel_Heap_Inv
  imports Kernel_Heap
begin

text \<open>
  The heap's invariant.  Abstractly a heap is the list of its blocks in address order, each
  with its payload size and whether it is allocated; \<open>chain\<close> says that a stretch of memory
  holds such a list as contiguous, doubly linked headers.  The operations are shown to act on
  the list.
\<close>

section \<open>Arithmetic without wrap-around\<close>

named_theorems w32_simps

lemma W32_val: "W32 = 4294967296"
  by (simp add: W32_def)

lemma add32_exact: "a + b < W32 \<Longrightarrow> add32 a b = a + b"
  by (simp add: add32_def)

lemma sub32_exact: "b \<le> a \<Longrightarrow> a < W32 \<Longrightarrow> sub32 a b = a - b"
proof -
  assume "b \<le> a" "a < W32"
  then have "a + W32 - b mod W32 = (a - b) + W32" by simp
  with \<open>a < W32\<close> show ?thesis by (simp add: sub32_def)
qed

declare SIZEOF_BLOCK_def [w32_simps] HEAP_ALIGN_def [w32_simps] HEAP_MIN_ALLOC_def [w32_simps]

definition align16 :: "nat \<Rightarrow> nat" where "align16 x = (x + 15) div 16 * 16"

lemma ALIGN_UP_exact: "x + 16 < W32 \<Longrightarrow> ALIGN_UP x HEAP_ALIGN = align16 x"
proof -
  assume x: "x + 16 < W32"
  have "sub32 (add32 x 16) 1 = x + 15" using x by (simp add: add32_exact sub32_exact)
  moreover have "(x + 15) div 16 * 16 < W32" using x by (rule le_less_trans [rotated]) presburger
  ultimately show ?thesis by (simp add: ALIGN_UP_def HEAP_ALIGN_def mul32_def align16_def)
qed

lemma align16_props: "x \<le> align16 x" "align16 x mod 16 = 0" "align16 x < x + 16" "x mod 16 = 0 \<Longrightarrow> align16 x = x"
  unfolding align16_def by presburger+

lemma align16_least:
  assumes "x \<le> y" "y mod 16 = 0"
  shows "align16 x \<le> y"
proof -
  obtain k where k: "y = k * 16" using assms(2) by (metis mod_0_imp_dvd dvd_def mult.commute)
  have "(x + 15) div 16 \<le> (k * 16 + 15) div 16" using assms(1) unfolding k by (intro div_le_mono) simp
  then show ?thesis by (simp add: align16_def k)
qed

lemma mod16_diff: "x mod 16 = 0 \<Longrightarrow> y mod 16 = 0 \<Longrightarrow> (x - y) mod 16 = (0 :: nat)"
  by (metis dvd_diff_nat dvd_eq_mod_eq_0)

section \<open>Contiguous chains of headers\<close>

definition link_to :: "nat \<Rightarrow> nat \<Rightarrow> nat" where
  "link_to mx a = (if a = mx then 0 else a)"

fun chain :: "nat \<Rightarrow> heap_store \<Rightarrow> nat \<Rightarrow> nat \<Rightarrow> (nat \<times> bool) list \<Rightarrow> nat \<Rightarrow> nat \<Rightarrow> bool" where
  "chain mx m p a [] q b \<longleftrightarrow> a = b \<and> p = q"
| "chain mx m p a ((s, al) # bs) q b \<longleftrightarrow>
     m a = Some \<lparr>hb_size = s, hb_allocated = al, hb_prev = p, hb_next = link_to mx (a + 16 + s)\<rparr> \<and>
     chain mx m a (a + 16 + s) bs q b"

definition extent :: "(nat \<times> bool) list \<Rightarrow> nat" where
  "extent bs = sum_list (map (\<lambda>(s, al). 16 + s) bs)"

definition used :: "(nat \<times> bool) list \<Rightarrow> nat" where
  "used bs = sum_list (map (\<lambda>(s, al). if al then 16 + s else 0) bs)"

lemma extent_simps [simp]: "extent [] = 0" "extent ((s, al) # bs) = 16 + s + extent bs"
  "extent (xs @ ys) = extent xs + extent ys"
  by (simp_all add: extent_def)

lemma used_simps [simp]: "used [] = 0" "used ((s, al) # bs) = (if al then 16 + s else 0) + used bs"
  "used (xs @ ys) = used xs + used ys"
  by (simp_all add: used_def)

lemma used_le_extent: "used bs \<le> extent bs"
  by (induction bs) auto

lemma chain_end: "chain mx m p a bs q b \<Longrightarrow> b = a + extent bs"
  by (induction mx m p a bs q b rule: chain.induct) auto

lemma chain_last_unique: "chain mx m p a bs q b \<Longrightarrow> chain mx m p a bs q' b' \<Longrightarrow> q = q'"
  by (induction mx m p a bs q b rule: chain.induct) auto

lemma chain_append:
  "chain mx m p a (xs @ ys) q b \<longleftrightarrow> (\<exists>r. chain mx m p a xs r (a + extent xs) \<and> chain mx m r (a + extent xs) ys q b)"
proof (induction xs arbitrary: p a)
  case (Cons x xs)
  then show ?case by (cases x) (auto simp: add.assoc)
qed auto

lemma chain_frame:
  "chain mx m p a bs q b \<Longrightarrow> (\<And>x. a \<le> x \<Longrightarrow> x < b \<Longrightarrow> m' x = m x) \<Longrightarrow> chain mx m' p a bs q b"
proof (induction mx m p a bs q b rule: chain.induct)
  case (2 mx m p a s al bs q b)
  then have "b = a + 16 + s + extent bs" using chain_end by auto
  with 2 show ?case by auto
qed simp

text \<open>Redirecting the back link of the first block, if there is one.\<close>

definition relink :: "nat \<Rightarrow> nat \<Rightarrow> nat \<Rightarrow> heap_store \<Rightarrow> heap_store" where
  "relink mx p a m = (if link_to mx a \<noteq> 0 then hb_set (hb_prev_update (\<lambda>_. p)) (link_to mx a) m else m)"

lemma relink_other: "x \<noteq> a \<Longrightarrow> relink mx p a m x = m x"
  by (simp add: relink_def hb_set_def link_to_def)

lemma chain_relink:
  assumes "chain mx m p a bs q mx" "0 < a"
  shows "\<exists>q'. chain mx (relink mx p' a m) p' a bs q' mx"
proof (cases bs)
  case Nil
  then show ?thesis using assms by simp
next
  case (Cons x ys)
  obtain s al where x: "x = (s, al)" by fastforce
  have a: "m a = Some \<lparr>hb_size = s, hb_allocated = al, hb_prev = p, hb_next = link_to mx (a + 16 + s)\<rparr>"
    and rest: "chain mx m a (a + 16 + s) ys q mx" using assms(1) by (simp_all add: Cons x)
  have "a \<noteq> mx" using chain_end [OF rest] by simp
  then have "relink mx p' a m a = Some \<lparr>hb_size = s, hb_allocated = al, hb_prev = p', hb_next = link_to mx (a + 16 + s)\<rparr>"
    using assms(2) a by (simp add: relink_def link_to_def hb_set_def)
  moreover have "chain mx (relink mx p' a m) a (a + 16 + s) ys q mx"
    using rest by (rule chain_frame) (simp add: relink_other)
  ultimately show ?thesis by (auto simp: Cons x)
qed

section \<open>The invariant\<close>

definition coalesced :: "(nat \<times> bool) list \<Rightarrow> bool" where
  "coalesced bs \<longleftrightarrow> successively (\<lambda>x y. snd x \<or> snd y) bs"

definition heap_ok :: "heap_descriptor \<Rightarrow> heap_store \<Rightarrow> (nat \<times> bool) list \<Rightarrow> bool" where
  "heap_ok h m bs \<longleftrightarrow>
     0 < hd_head h \<and> hd_head h mod 16 = 0 \<and> hd_max h < W32 \<and> hd_size h < 2 ^ 30 \<and>
     hd_max h = hd_head h + hd_size h \<and> bs \<noteq> [] \<and> \<not> snd (last bs) \<and>
     (\<exists>q. chain (hd_max h) m 0 (hd_head h) bs q (hd_max h)) \<and>
     (\<forall>(s, al) \<in> set bs. s mod 16 = 0) \<and> coalesced bs \<and> hd_total h = used bs"

lemma heap_ok_update:
  assumes "heap_ok h m bs" "chain (hd_max h) m' 0 (hd_head h) bs' q (hd_max h)" "bs' \<noteq> []" "\<not> snd (last bs')"
    "\<forall>(s, al) \<in> set bs'. s mod 16 = 0" "coalesced bs'" "t = used bs'"
  shows "heap_ok (h\<lparr>hd_total := t\<rparr>) m' bs'"
proof -
  have e: "hd_head (h\<lparr>hd_total := t\<rparr>) = hd_head h" "hd_max (h\<lparr>hd_total := t\<rparr>) = hd_max h"
    "hd_size (h\<lparr>hd_total := t\<rparr>) = hd_size h" "hd_total (h\<lparr>hd_total := t\<rparr>) = t" by simp_all
  show ?thesis using assms unfolding heap_ok_def e by blast
qed

lemma heap_okD:
  assumes "heap_ok h m bs"
  shows "\<not> snd (last bs)" "coalesced bs" "\<forall>(s, al) \<in> set bs. s mod 16 = 0" "hd_total h = used bs"
    "\<exists>q. chain (hd_max h) m 0 (hd_head h) bs q (hd_max h)" "bs \<noteq> []" "hd_head h mod 16 = 0"
  using assms unfolding heap_ok_def by blast+

lemma heap_ok_extent: "heap_ok h m bs \<Longrightarrow> hd_size h = extent bs"
  unfolding heap_ok_def using chain_end by fastforce

lemma extent_mod16: "\<forall>(s, al) \<in> set bs. s mod 16 = 0 \<Longrightarrow> extent bs mod 16 = 0"
  by (induction bs) (auto simp: mod_add_eq [symmetric])

section \<open>Searching and splitting\<close>

definition fits :: "nat \<Rightarrow> nat \<times> bool \<Rightarrow> bool" where
  "fits n b \<longleftrightarrow> \<not> snd b \<and> n + 32 \<le> fst b"

text \<open>The memory after block \<open>c\<close> of size \<open>s\<close> was split and its first part allocated.\<close>

definition taken :: "nat \<Rightarrow> nat \<Rightarrow> nat \<Rightarrow> nat \<Rightarrow> nat \<Rightarrow> heap_store \<Rightarrow> heap_store" where
  "taken mx c s n r m =
     (relink mx (c + 16 + n) (c + 16 + s)
        (m(c + 16 + n \<mapsto> \<lparr>hb_size = s - n - 16, hb_allocated = False, hb_prev = c, hb_next = link_to mx (c + 16 + s)\<rparr>)))
     (c \<mapsto> \<lparr>hb_size = n, hb_allocated = True, hb_prev = r, hb_next = c + 16 + n\<rparr>)"

lemma hb_init:
  "hb_set (hb_next_update (\<lambda>_. x)) i (hb_set (hb_prev_update (\<lambda>_. p)) i (hb_set (hb_allocated_update (\<lambda>_. al)) i
     (hb_set (hb_size_update (\<lambda>_. sz)) i m))) = m(i \<mapsto> \<lparr>hb_size = sz, hb_allocated = al, hb_prev = p, hb_next = x\<rparr>)"
  by (cases "m i") (auto simp: hb_set_def)

lemma hb_set_at: "m a = Some b \<Longrightarrow> hb_set f a m = m(a \<mapsto> f b)"
  by (simp add: hb_set_def)

lemma hb_set_upd [simp]: "hb_set f a (m(a \<mapsto> b)) = m(a \<mapsto> f b)"
  by (simp add: hb_set_def)

lemma split_block_fits:
  assumes c: "m c = Some \<lparr>hb_size = s, hb_allocated = False, hb_prev = r, hb_next = link_to mx (c + 16 + s)\<rparr>"
    and n: "n + 32 \<le> s" and bound: "c + 16 + s \<le> mx" "mx < W32" and pos: "0 < c"
  shows "\<exists>m'. split_block c n m = Inr (True, m') \<and> hb_set (hb_allocated_update (\<lambda>_. True)) c m' = taken mx c s n r m"
proof -
  let ?i = "c + 16 + n" and ?x = "link_to mx (c + 16 + s)"
  have g: "add32 (add32 16 n) 4 = n + 20" using n bound by (simp add: add32_exact)
  have rem: "sub32 s n = s - n" "sub32 (s - n) 16 = s - n - 16" using n bound by (simp_all add: sub32_exact)
  have i: "add32 (add32 c 16) n = ?i" using n bound by (simp add: add32_exact)
  have ne: "?i \<noteq> c" "?x \<noteq> c" "?x \<noteq> ?i" using n pos by (simp_all add: link_to_def)
  have get: "hb_get m c = Inr \<lparr>hb_size = s, hb_allocated = False, hb_prev = r, hb_next = ?x\<rparr>"
    by (simp add: hb_get_def c)
  let ?m3 = "hb_set (hb_prev_update (\<lambda>_. c)) ?i (hb_set (hb_allocated_update (\<lambda>_. False)) ?i
     (hb_set (hb_size_update (\<lambda>_. s - n - 16)) ?i m))"
  let ?m4 = "m(?i \<mapsto> \<lparr>hb_size = s - n - 16, hb_allocated = False, hb_prev = c, hb_next = ?x\<rparr>)"
  let ?m5 = "relink mx ?i (c + 16 + s) ?m4"
  have m3: "hb_get ?m3 c = Inr \<lparr>hb_size = s, hb_allocated = False, hb_prev = r, hb_next = ?x\<rparr>"
    using ne c by (simp add: hb_get_def hb_set_def)
  have m5: "?m5 c = m c" using ne by (simp add: relink_def hb_set_def)
  have c1: "\<not> s < n + 20" and c2: "s - n > 16 + 4" using n by simp_all
  have m5s: "hb_set f c ?m5 = ?m5(c \<mapsto> f \<lparr>hb_size = s, hb_allocated = False, hb_prev = r, hb_next = ?x\<rparr>)" for f
    using m5 c by (simp add: hb_set_def)
  have m5': "(if ?x \<noteq> 0 then hb_set (hb_prev_update (\<lambda>_. ?i)) ?x ?m4 else ?m4) = ?m5" by (simp add: relink_def)
  have "split_block c n m = Inr (True, ?m5(c \<mapsto> \<lparr>hb_size = n, hb_allocated = False, hb_prev = r, hb_next = ?i\<rparr>))"
    unfolding split_block_def get res_bind.simps w32_simps heap_block.simps g rem i Let_def m3 hb_init m5'
      if_not_P [OF c1] if_P [OF c2] m5s hb_set_upd by (rule refl)
  then show ?thesis by (intro exI conjI) (assumption, simp add: taken_def)
qed

lemma split_block_small:
  "m c = Some b \<Longrightarrow> hb_size b < n + 20 \<Longrightarrow> n + 20 < W32 \<Longrightarrow> split_block c n m = Inr (False, m)"
  by (simp add: split_block_def hb_get_def w32_simps add32_exact)

lemma chain_split:
  assumes xs: "chain mx m p a xs r c" and c: "chain mx m r c ((s, False) # ys) q mx"
    and n: "n + 32 \<le> s" and pos: "0 < a"
  shows "\<exists>q'. chain mx (taken mx c s n r m) p a (xs @ (n, True) # (s - n - 16, False) # ys) q' mx"
proof -
  let ?i = "c + 16 + n" and ?t = "taken mx c s n r m"
  let ?m4 = "m(?i \<mapsto> \<lparr>hb_size = s - n - 16, hb_allocated = False, hb_prev = c, hb_next = link_to mx (c + 16 + s)\<rparr>)"
  have ca: "c = a + extent xs" using chain_end [OF xs] .
  have ys: "chain mx m c (c + 16 + s) ys q mx" using c by simp
  have le: "c + 16 + s \<le> mx" using chain_end [OF ys] by simp
  have "chain mx ?m4 c (c + 16 + s) ys q mx" using ys by (rule chain_frame) (use n in simp)
  then obtain q' where "chain mx (relink mx ?i (c + 16 + s) ?m4) ?i (c + 16 + s) ys q' mx"
    using chain_relink [of mx ?m4 c "c + 16 + s" ys q ?i] by auto
  then have y: "chain mx ?t ?i (c + 16 + s) ys q' mx"
    by (rule chain_frame) (simp add: taken_def)
  have ti: "?t ?i = Some \<lparr>hb_size = s - n - 16, hb_allocated = False, hb_prev = c, hb_next = link_to mx (c + 16 + s)\<rparr>"
    using n by (simp add: taken_def relink_other)
  have tc: "?t c = Some \<lparr>hb_size = n, hb_allocated = True, hb_prev = r, hb_next = link_to mx ?i\<rparr>"
    using n le by (simp add: taken_def link_to_def)
  have x: "chain mx ?t p a xs r c"
    using xs by (rule chain_frame) (use ca in \<open>simp add: taken_def relink_other\<close>)
  have e: "?i + 16 + (s - n - 16) = c + 16 + s" using n by simp
  have "chain mx ?t r c ((n, True) # (s - n - 16, False) # ys) q' mx"
    unfolding chain.simps e using ti tc y by blast
  then show ?thesis using x ca by (auto simp: chain_append)
qed

lemma alloc_search_chain:
  "chain mx m p a bs q mx \<Longrightarrow> mx < W32 \<Longrightarrow> n + 20 < W32 \<Longrightarrow> n mod 16 = 0 \<Longrightarrow> \<forall>(s, al) \<in> set bs. s mod 16 = 0 \<Longrightarrow> 0 < a \<Longrightarrow>
   (if \<exists>b \<in> set bs. fits n b
    then \<exists>xs s ys r. bs = xs @ (s, False) # ys \<and> fits n (s, False) \<and> (\<forall>b \<in> set xs. \<not> fits n b) \<and>
      chain mx m p a xs r (a + extent xs) \<and>
      alloc_search n m (link_to mx a) = Some (Inr (Some (a + extent xs), taken mx (a + extent xs) s n r m))
    else alloc_search n m (link_to mx a) = Some (Inr (None, m)))"
proof (induction bs arbitrary: p a)
  case Nil
  then show ?case by (simp add: link_to_def alloc_search.simps)
next
  case (Cons x bs)
  obtain s al where x: "x = (s, al)" by fastforce
  have hdr: "m a = Some \<lparr>hb_size = s, hb_allocated = al, hb_prev = p, hb_next = link_to mx (a + 16 + s)\<rparr>"
    and rest: "chain mx m a (a + 16 + s) bs q mx" using Cons.prems(1) by (simp_all add: x)
  have le: "a + 16 + s \<le> mx" using chain_end [OF rest] by simp
  then have la: "link_to mx a = a" "a \<noteq> 0" using Cons.prems(6) by (simp_all add: link_to_def)
  have get: "hb_get m a = Inr \<lparr>hb_size = s, hb_allocated = al, hb_prev = p, hb_next = link_to mx (a + 16 + s)\<rparr>"
    by (simp add: hb_get_def hdr)
  show ?case
  proof (cases "fits n x")
    case True
    then have f: "\<not> al" "n + 32 \<le> s" by (simp_all add: fits_def x)
    obtain m' where m': "split_block a n m = Inr (True, m')" "hb_set (hb_allocated_update (\<lambda>_. True)) a m' = taken mx a s n p m"
      using split_block_fits [of m a s p mx n] hdr f le Cons.prems by auto
    have "alloc_search n m (link_to mx a) = Some (Inr (Some a, taken mx a s n p m))"
      using f la m' by (subst alloc_search.simps) (simp add: get)
    then show ?thesis using True f
      by (intro if_P [THEN iffD2]) (auto simp: x intro!: exI [of _ "[]"])
  next
    case False
    have step: "alloc_search n m (link_to mx a) = alloc_search n m (link_to mx (a + 16 + s))"
    proof (cases al)
      case True
      then show ?thesis using la by (subst alloc_search.simps) (simp add: get)
    next
      case free: False
      have "s mod 16 = 0" using Cons.prems(5) by (simp add: x)
      then have "s < n + 20" using False free Cons.prems(4) by (simp add: fits_def x) presburger
      then show ?thesis
        using la free split_block_small [where m = m and c = a, OF hdr] Cons.prems(3) by (subst alloc_search.simps) (simp add: get)
    qed
    note IH = Cons.IH [OF rest Cons.prems(2,3,4)]
    show ?thesis
    proof (cases "\<exists>b \<in> set bs. fits n b")
      case True
      then obtain xs s' ys r where ys: "bs = xs @ (s', False) # ys" "fits n (s', False)" "\<forall>b \<in> set xs. \<not> fits n b"
        "chain mx m a (a + 16 + s) xs r (a + 16 + s + extent xs)"
        "alloc_search n m (link_to mx (a + 16 + s)) =
           Some (Inr (Some (a + 16 + s + extent xs), taken mx (a + 16 + s + extent xs) s' n r m))"
        using IH Cons.prems by (auto simp: x)
      then show ?thesis using True False hdr unfolding step
        by (intro if_P [THEN iffD2]) (auto simp: x add.assoc intro!: exI [of _ "x # xs"])
    next
      case none: False
      then show ?thesis using IH Cons.prems False unfolding step by (simp add: x)
    qed
  qed
qed

end
