(* ===== verification/Kernel_Heap_Alloc.thy ===== *)
theory Kernel_Heap_Alloc
  imports Kernel_Heap_Inv
begin

text \<open>
  The heap's operations on the list of blocks: \<open>first_fit\<close> and \<open>free_list\<close> say what
  \<open>alloc_heap\<close> and \<open>free_heap\<close> do to it, and the pointer-level operations refine them.
\<close>

section \<open>Initialisation\<close>

lemma init_heap_ok:
  assumes "0 < base" "base + sz + 16 < W32" "sz < 2 ^ 29" "64 \<le> sz"
  shows "heap_ok (fst (init_heap base sz m)) (snd (init_heap base sz m))
           [(align16 (base + sz) - align16 base - 16, False)]"
proof -
  let ?h = "align16 base" and ?x = "align16 (base + sz)"
  have al: "ALIGN_UP base HEAP_ALIGN = ?h" "ALIGN_UP (add32 base sz) HEAP_ALIGN = ?x"
    using assms by (simp_all add: ALIGN_UP_exact add32_exact)
  have b: "base \<le> ?h" "?h < base + 16" "base + sz \<le> ?x" "?x < base + sz + 16"
    using align16_props [of base] align16_props [of "base + sz"] by simp_all
  have m: "?h mod 16 = 0" "?x mod 16 = 0" by (simp_all add: align16_props)
  have d: "sub32 ?x ?h = ?x - ?h" "sub32 (?x - ?h) 16 = ?x - ?h - 16"
    using b assms by (simp_all add: sub32_exact)
  have "(?x - ?h - 16) mod 16 = 0" using m by (intro mod16_diff) simp_all
  moreover have "?h + 16 + (?x - ?h - 16) = ?x" using b assms by linarith
  moreover have "?x - ?h < 2 ^ 30" using b assms by simp
  ultimately show ?thesis
    using b m assms
    by (simp add: heap_ok_def init_heap_def Let_def al d SIZEOF_BLOCK_def coalesced_def link_to_def)
qed

section \<open>First fit\<close>

fun first_fit :: "nat \<Rightarrow> (nat \<times> bool) list \<Rightarrow> (nat \<times> (nat \<times> bool) list) option" where
  "first_fit n [] = None"
| "first_fit n ((s, al) # bs) =
     (if \<not> al \<and> n + 32 \<le> s then Some (16, (n, True) # (s - n - 16, False) # bs)
      else map_option (\<lambda>(off, bs'). (16 + s + off, (s, al) # bs')) (first_fit n bs))"

definition alloc_list :: "nat \<Rightarrow> nat \<Rightarrow> (nat \<times> bool) list \<Rightarrow> (nat \<times> (nat \<times> bool) list) option" where
  "alloc_list sz req bs = (if used bs + 16 + req > sz then None else first_fit (align16 req) bs)"

lemma first_fit_none: "\<not> (\<exists>b \<in> set bs. fits n b) \<Longrightarrow> first_fit n bs = None"
  by (induction n bs rule: first_fit.induct) (auto simp: fits_def)

lemma first_fit_at:
  "fits n (s, False) \<Longrightarrow> \<forall>b \<in> set xs. \<not> fits n b \<Longrightarrow>
   first_fit n (xs @ (s, False) # ys) = Some (extent xs + 16, xs @ (n, True) # (s - n - 16, False) # ys)"
  by (induction n xs rule: first_fit.induct) (auto simp: fits_def)

lemma coalesced_take:
  "coalesced (xs @ (s, False) # ys) \<Longrightarrow> coalesced (xs @ (n, True) # (t, False) # ys)"
  by (auto simp: coalesced_def successively_append_iff successively_Cons)

lemma heap_ok_take:
  assumes ok: "heap_ok h m (xs @ (s, False) # ys)" and n: "n mod 16 = 0" "n + 32 \<le> s"
    and xs: "chain (hd_max h) m 0 (hd_head h) xs r (hd_head h + extent xs)"
  shows "heap_ok (h\<lparr>hd_total := hd_total h + (16 + n)\<rparr>)
           (taken (hd_max h) (hd_head h + extent xs) s n r m) (xs @ (n, True) # (s - n - 16, False) # ys)"
proof -
  obtain q where ch: "chain (hd_max h) m 0 (hd_head h) (xs @ (s, False) # ys) q (hd_max h)"
    using ok by (auto simp: heap_ok_def)
  then obtain r' where r': "chain (hd_max h) m 0 (hd_head h) xs r' (hd_head h + extent xs)"
    "chain (hd_max h) m r' (hd_head h + extent xs) ((s, False) # ys) q (hd_max h)"
    by (auto simp: chain_append)
  have eq: "r' = r"
    by (rule chain_last_unique [OF r'(1) xs])
  have "(s - n - 16) mod 16 = 0" 
    using ok n(1) by (intro mod16_diff) (simp_all add: heap_ok_def)
  moreover have "\<exists>q'. chain (hd_max h) (taken (hd_max h) (hd_head h + extent xs) s n r m) 0 (hd_head h)
      (xs @ (n, True) # (s - n - 16, False) # ys) q' (hd_max h)"
    using chain_split [of "hd_max h" m 0 "hd_head h" xs r "hd_head h + extent xs" s ys q n] r' ok n
    by (simp add: eq heap_ok_def)
  moreover have "coalesced (xs @ (n, True) # (s - n - 16, False) # ys)"
    using ok by (intro coalesced_take [of xs s]) (simp add: heap_ok_def)
  moreover have "last ((s - n - 16, False) # ys) = (s - n - 16, False) \<or> ys \<noteq> [] \<and> last ((s, False) # ys) = last ys"
    by simp
  ultimately show ?thesis using ok n
    by (cases "ys = []") (simp_all add: heap_ok_def)
qed

section \<open>Allocation refines first fit\<close>

abbreviation req_limit :: nat where "req_limit \<equiv> 3 * 2 ^ 30 - 16"

lemma heap_ok_bounds:
  assumes "heap_ok h m bs"
  shows "hd_total h < 2 ^ 30" "0 < hd_head h" "hd_max h < W32" "hd_head h + extent bs = hd_max h"
  using assms heap_ok_extent [OF assms] used_le_extent [of bs] by (auto simp: heap_ok_def)

lemma alloc_guard:
  assumes "heap_ok h m bs" "req < req_limit"
  shows "add32 (add32 (hd_total h) SIZEOF_BLOCK) req = used bs + 16 + req"
  using heap_ok_bounds [OF assms(1)] assms by (simp add: add32_exact SIZEOF_BLOCK_def W32_val heap_ok_def)

lemma alloc_heap_guarded:
  "heap_ok h m bs \<Longrightarrow> req < req_limit \<Longrightarrow> used bs + 16 + req > hd_size h \<Longrightarrow> alloc_heap req (h, m) = Some (Inr (0, h, m))"
  by (simp add: alloc_heap_def alloc_guard)

lemma heap_ok_search:
  assumes ok: "heap_ok h m bs" and n: "n + 20 < W32" "n mod 16 = 0"
  shows "if \<exists>b \<in> set bs. fits n b
    then \<exists>xs s ys r. bs = xs @ (s, False) # ys \<and> fits n (s, False) \<and> (\<forall>b \<in> set xs. \<not> fits n b) \<and>
      chain (hd_max h) m 0 (hd_head h) xs r (hd_head h + extent xs) \<and>
      alloc_search n m (hd_head h) = Some (Inr (Some (hd_head h + extent xs), taken (hd_max h) (hd_head h + extent xs) s n r m))
    else alloc_search n m (hd_head h) = Some (Inr (None, m))"
proof -
  obtain q where ch: "chain (hd_max h) m 0 (hd_head h) bs q (hd_max h)" using ok by (auto simp: heap_ok_def)
  have "0 < extent bs" using ok by (cases bs) (auto simp: heap_ok_def)
  then have l: "link_to (hd_max h) (hd_head h) = hd_head h"
    using heap_ok_bounds [OF ok] by (simp add: link_to_def)
  have "\<forall>(s, al) \<in> set bs. s mod 16 = 0" using ok by (simp add: heap_ok_def)
  from alloc_search_chain [OF ch heap_ok_bounds(3) [OF ok] n this heap_ok_bounds(2) [OF ok]]
  show ?thesis unfolding l .
qed

lemma alloc_heap_refines:
  assumes ok: "heap_ok h m bs" and req: "req < req_limit"
  shows "case alloc_list (hd_size h) req bs of
           None \<Rightarrow> alloc_heap req (h, m) = Some (Inr (0, h, m))
         | Some (off, bs') \<Rightarrow> \<exists>h' m'. alloc_heap req (h, m) = Some (Inr (hd_head h + off, h', m')) \<and> heap_ok h' m' bs' \<and>
             hd_head h' = hd_head h \<and> hd_max h' = hd_max h"
proof (cases "used bs + 16 + req > hd_size h")
  case True
  then show ?thesis using alloc_heap_guarded [OF ok req] by (simp add: alloc_list_def)
next
  case False
  let ?n = "align16 req"
  have sz: "hd_size h < 2 ^ 30" using ok by (simp add: heap_ok_def)
  have al: "ALIGN_UP req HEAP_ALIGN = ?n" using False sz by (simp add: ALIGN_UP_exact W32_val)
  have n: "?n mod 16 = 0" "?n + 20 < W32" "?n < 2 ^ 30 + 16"
    using align16_props [of req] False sz by (simp_all add: W32_val)
  have unf: "alloc_heap req (h, m) =
     (case alloc_search ?n m (hd_head h) of
             None \<Rightarrow> None
           | Some (Inl e) \<Rightarrow> Some (Inl e)
           | Some (Inr (None, m')) \<Rightarrow> Some (Inr (0, h, m'))
           | Some (Inr (Some b, m')) \<Rightarrow>
               Some (Inr (add32 b 16, h\<lparr>hd_total := add32 (hd_total h) (add32 16 ?n)\<rparr>, m')))"
    unfolding alloc_heap_def Let_def prod.case alloc_guard [OF ok req] if_not_P [OF False] al
    by (simp only: SIZEOF_BLOCK_def)
  note srch = heap_ok_search [OF ok n(2,1)]
  show ?thesis
  proof (cases "\<exists>b \<in> set bs. fits ?n b")
    case True
    then obtain xs s ys r where d: "bs = xs @ (s, False) # ys" "fits ?n (s, False)" "\<forall>b \<in> set xs. \<not> fits ?n b"
      "chain (hd_max h) m 0 (hd_head h) xs r (hd_head h + extent xs)"
      "alloc_search ?n m (hd_head h) = Some (Inr (Some (hd_head h + extent xs), taken (hd_max h) (hd_head h + extent xs) s ?n r m))"
      using srch unfolding if_P [OF True] by blast
    have ff: "first_fit ?n bs = Some (extent xs + 16, xs @ (?n, True) # (s - ?n - 16, False) # ys)"
      using d by (simp add: first_fit_at)
    have b: "hd_head h + extent xs + 16 < W32" using heap_ok_bounds [OF ok] by (simp add: d(1))
    have t: "add32 (hd_total h) (add32 16 ?n) = hd_total h + (16 + ?n)"
      using heap_ok_bounds(1) [OF ok] n by (simp add: add32_exact W32_val)
    have "?n + 32 \<le> s" using d(2) by (simp add: fits_def)
    note res = heap_ok_take [OF ok [unfolded d(1)] n(1) this d(4)]
    show ?thesis using False res b by (simp add: alloc_list_def ff unf d(5) t add32_exact)
  next
    case none: False
    have "alloc_search ?n m (hd_head h) = Some (Inr (None, m))" using srch unfolding if_not_P [OF none] .
    then show ?thesis using False none by (simp add: alloc_list_def first_fit_none unf)
  qed
qed

end
