(* ===== verification/Kernel_Heap_Free.thy ===== *)
theory Kernel_Heap_Free
  imports Kernel_Heap_Alloc
begin

text \<open>
  Freeing.  \<open>free_list\<close> is what \<open>free_heap\<close> does to the list of blocks: the block becomes free
  and takes in a free neighbour on each side.
\<close>

definition join_prev :: "(nat \<times> bool) list \<Rightarrow> nat \<Rightarrow> (nat \<times> bool) list \<times> nat" where
  "join_prev xs s = (if xs \<noteq> [] \<and> \<not> snd (last xs) then (butlast xs, fst (last xs) + (16 + s)) else (xs, s))"

definition join_next :: "nat \<Rightarrow> (nat \<times> bool) list \<Rightarrow> nat \<times> (nat \<times> bool) list" where
  "join_next s ys = (case ys of (t, False) # zs \<Rightarrow> (s + (16 + t), zs) | _ \<Rightarrow> (s, ys))"

definition free_list :: "(nat \<times> bool) list \<Rightarrow> nat \<Rightarrow> (nat \<times> bool) list \<Rightarrow> (nat \<times> bool) list" where
  "free_list xs s ys = (case join_prev xs s of (xs', s') \<Rightarrow> case join_next s' ys of (s'', ys') \<Rightarrow> xs' @ (s'', False) # ys')"

section \<open>Merging two neighbours\<close>

text \<open>The memory after the block at \<open>c\<close> took in its successor.\<close>

definition joined :: "nat \<Rightarrow> nat \<Rightarrow> nat \<Rightarrow> nat \<Rightarrow> bool \<Rightarrow> nat \<Rightarrow> heap_store \<Rightarrow> heap_store" where
  "joined mx c s t al r m =
     relink mx c (c + 16 + (s + (16 + t)))
       (m(c \<mapsto> \<lparr>hb_size = s + (16 + t), hb_allocated = al, hb_prev = r, hb_next = link_to mx (c + 16 + (s + (16 + t)))\<rparr>))"

lemma chain_joined:
  assumes "chain mx m r c ((s, al) # (t, al') # ys) q mx" "0 < c"
  shows "\<exists>q'. chain mx (joined mx c s t al r m) r c ((s + (16 + t), al) # ys) q' mx"
proof -
  let ?d = "c + 16 + (s + (16 + t))"
  let ?m1 = "m(c \<mapsto> \<lparr>hb_size = s + (16 + t), hb_allocated = al, hb_prev = r, hb_next = link_to mx ?d\<rparr>)"
  have e: "c + 16 + s + 16 + t = ?d" by simp
  have "chain mx m (c + 16 + s) ?d ys q mx" using assms(1) unfolding chain.simps e by blast
  then have "chain mx ?m1 (c + 16 + s) ?d ys q mx" by (rule chain_frame) simp
  from chain_relink [OF this] obtain q' where q': "chain mx (relink mx c ?d ?m1) c ?d ys q' mx" by auto
  have "relink mx c ?d ?m1 c = ?m1 c" by (simp add: relink_other)
  then show ?thesis using q' by (auto simp: joined_def)
qed

lemma joined_other: "x < c \<Longrightarrow> joined mx c s t al r m x = m x"
  by (simp add: joined_def relink_other)

lemma merge_next_joins:
  assumes ch: "chain mx m r c ((s, al) # (t, False) # ys) q mx" and b: "mx < W32" "0 < c"
  shows "merge_next c m = Inr (joined mx c s t al r m)"
proof -
  let ?n = "c + 16 + s" and ?d = "c + 16 + (s + (16 + t))"
  have e: "c + 16 + s + 16 + t = ?d" by simp
  have hc: "m c = Some \<lparr>hb_size = s, hb_allocated = al, hb_prev = r, hb_next = link_to mx ?n\<rparr>"
    and hn: "m ?n = Some \<lparr>hb_size = t, hb_allocated = False, hb_prev = c, hb_next = link_to mx ?d\<rparr>"
    and rest: "chain mx m ?n ?d ys q mx"
    using ch unfolding chain.simps e by blast+
  have le: "?d \<le> mx" using chain_end [OF rest] by simp
  then have ln: "link_to mx ?n = ?n" "?n \<noteq> 0" "?n \<noteq> c" using b by (simp_all add: link_to_def)
  have sz: "add32 s (add32 16 t) = s + (16 + t)" using le b by (simp add: add32_exact)
  note hc' = hb_set_at [where m = m and a = c, OF hc]
  have "hb_get m c = Inr \<lparr>hb_size = s, hb_allocated = al, hb_prev = r, hb_next = ?n\<rparr>"
    "hb_get m ?n = Inr \<lparr>hb_size = t, hb_allocated = False, hb_prev = c, hb_next = link_to mx ?d\<rparr>"
    using hc hn ln by (simp_all add: hb_get_def)
  moreover have "hb_get (m(c \<mapsto> x)) ?n = hb_get m ?n" for x using ln by (simp add: hb_get_def)
  ultimately show ?thesis using ln(2)
    by (simp add: merge_next_def w32_simps hc' sz joined_def relink_def Let_def ln(1))
qed

lemma merge_next_none:
  "m c = Some b \<Longrightarrow> hb_next b = 0 \<or> (\<exists>n. m (hb_next b) = Some n \<and> hb_allocated n) \<Longrightarrow> merge_next c m = Inr m"
  by (auto simp: merge_next_def hb_get_def)

lemma merge_prev_none:
  "m c = Some b \<Longrightarrow> hb_prev b = 0 \<or> (\<exists>p. m (hb_prev b) = Some p \<and> hb_allocated p) \<Longrightarrow> merge_prev c m = Inr (c, m)"
  by (auto simp: merge_prev_def hb_get_def)

lemma merge_prev_joins:
  assumes ch: "chain mx m r p ((s, False) # (t, al) # ys) q mx" and b: "mx < W32" "0 < p"
  shows "merge_prev (p + 16 + s) m = Inr (p, joined mx p s t False r m)"
proof -
  let ?n = "p + 16 + s" and ?d = "p + 16 + (s + (16 + t))"
  have e: "p + 16 + s + 16 + t = ?d" by simp
  have hc: "m p = Some \<lparr>hb_size = s, hb_allocated = False, hb_prev = r, hb_next = link_to mx ?n\<rparr>"
    and hn: "m ?n = Some \<lparr>hb_size = t, hb_allocated = al, hb_prev = p, hb_next = link_to mx ?d\<rparr>"
    and rest: "chain mx m ?n ?d ys q mx"
    using ch unfolding chain.simps e by blast+
  have le: "?d \<le> mx" using chain_end [OF rest] by simp
  have ne: "?n \<noteq> p" by simp
  have sz: "add32 s (add32 16 t) = s + (16 + t)" using le b by (simp add: add32_exact)
  note hc' = hb_set_at [where m = m and a = p, OF hc]
  have "hb_get m p = Inr \<lparr>hb_size = s, hb_allocated = False, hb_prev = r, hb_next = link_to mx ?n\<rparr>"
    "hb_get m ?n = Inr \<lparr>hb_size = t, hb_allocated = al, hb_prev = p, hb_next = link_to mx ?d\<rparr>"
    using hc hn by (simp_all add: hb_get_def)
  moreover have "hb_get (m(p \<mapsto> x)) ?n = hb_get m ?n" for x using ne by (simp add: hb_get_def)
  ultimately show ?thesis using b(2)
    by (simp add: merge_prev_def w32_simps hc' sz joined_def relink_def Let_def)
qed

section \<open>Merging in the middle of the list\<close>

lemma chain_prefix_frame:
  "chain mx m p a xs r c \<Longrightarrow> (\<And>x. x < c \<Longrightarrow> m' x = m x) \<Longrightarrow> chain mx m' p a xs r c"
  by (erule chain_frame) simp

lemma chain_snocE:
  assumes "chain mx m p a (ws @ [(u, al)]) r c"
  obtains r' where "chain mx m p a ws r' (a + extent ws)" "r = a + extent ws" "c = a + extent ws + 16 + u"
    "m r = Some \<lparr>hb_size = u, hb_allocated = al, hb_prev = r', hb_next = link_to mx c\<rparr>"
  using assms by (auto simp: chain_append)

lemma merge_prev_step:
  assumes ch: "chain mx m 0 a (xs @ (s, False) # ys) q mx" and b: "mx < W32" "0 < a"
    and j: "join_prev xs s = (xs', s')"
  shows "\<exists>m' q'. merge_prev (a + extent xs) m = Inr (a + extent xs', m') \<and> chain mx m' 0 a (xs' @ (s', False) # ys) q' mx"
proof -
  obtain r where xs: "chain mx m 0 a xs r (a + extent xs)"
    and c: "chain mx m r (a + extent xs) ((s, False) # ys) q mx" using ch by (auto simp: chain_append)
  show ?thesis
  proof (cases xs rule: rev_cases)
    case Nil
    then have "xs' = xs" "s' = s" "r = 0" using j xs by (simp_all add: join_prev_def)
    moreover have "merge_prev (a + extent xs) m = Inr (a + extent xs, m)"
      using c \<open>r = 0\<close> by (intro merge_prev_none) auto
    ultimately show ?thesis using ch by blast
  next
    case (snoc ws x)
    obtain u al where x: "x = (u, al)" by fastforce
    obtain r' where d: "chain mx m 0 a ws r' (a + extent ws)" "r = a + extent ws" "a + extent xs = a + extent ws + 16 + u"
      "m r = Some \<lparr>hb_size = u, hb_allocated = al, hb_prev = r', hb_next = link_to mx (a + extent xs)\<rparr>"
      using xs unfolding snoc x by (rule chain_snocE) blast
    show ?thesis
    proof (cases al)
      case True
      then have "xs' = xs" "s' = s" using j by (simp_all add: join_prev_def snoc x)
      moreover have "merge_prev (a + extent xs) m = Inr (a + extent xs, m)"
        using c d(4) True by (intro merge_prev_none) auto
      ultimately show ?thesis using ch by blast
    next
      case False
      let ?p = "a + extent ws"
      have e: "xs' = ws" "s' = u + (16 + s)" using False j by (simp_all add: join_prev_def snoc x)
      have two: "chain mx m r' ?p ((u, False) # (s, False) # ys) q mx"
        using c d False by (simp add: add.assoc)
      obtain q' where "chain mx (joined mx ?p u s False r' m) r' ?p ((u + (16 + s), False) # ys) q' mx"
        using chain_joined [OF two] b by auto
      moreover have "chain mx (joined mx ?p u s False r' m) 0 a ws r' ?p"
        using d(1) by (rule chain_prefix_frame) (simp add: joined_other)
      moreover have "merge_prev (a + extent xs) m = Inr (?p, joined mx ?p u s False r' m)"
        unfolding d(3) by (rule merge_prev_joins [OF two b(1)]) (use b in simp)
      ultimately show ?thesis unfolding e by (auto simp: chain_append)
    qed
  qed
qed

lemma merge_next_step:
  assumes ch: "chain mx m 0 a (xs @ (s, False) # ys) q mx" and b: "mx < W32" "0 < a"
    and j: "join_next s ys = (s', ys')"
  shows "\<exists>m' q'. merge_next (a + extent xs) m = Inr m' \<and> chain mx m' 0 a (xs @ (s', False) # ys') q' mx"
proof -
  let ?c = "a + extent xs"
  obtain r where xs: "chain mx m 0 a xs r ?c" and c: "chain mx m r ?c ((s, False) # ys) q mx"
    using ch by (auto simp: chain_append)
  show ?thesis
  proof (cases "\<exists>t zs. ys = (t, False) # zs")
    case True
    then obtain t where ys: "ys = (t, False) # ys'" "s' = s + (16 + t)" using j by (auto simp: join_next_def)
    have "merge_next ?c m = Inr (joined mx ?c s t False r m)" 
      by (rule merge_next_joins [OF c [unfolded ys(1)] b(1)]) (use b in simp)
    moreover obtain q' where "chain mx (joined mx ?c s t False r m) r ?c ((s', False) # ys') q' mx"
      using chain_joined [of mx m r ?c s False t False ys' q] c b by (auto simp: ys)
    moreover have "chain mx (joined mx ?c s t False r m) 0 a xs r ?c"
      using xs by (rule chain_prefix_frame) (simp add: joined_other)
    ultimately show ?thesis by (auto simp: chain_append)
  next
    case False
    then have e: "s' = s" "ys' = ys" using j by (auto simp: join_next_def split: list.splits prod.splits bool.splits)
    have "merge_next ?c m = Inr m"
    proof (cases ys)
      case Nil
      then show ?thesis using c by (intro merge_next_none) (auto simp: link_to_def)
    next
      case (Cons y zs)
      then obtain t where "y = (t, True)" using False by (cases y) auto
      then have "\<exists>n. m (?c + 16 + s) = Some n \<and> hb_allocated n" "?c + 16 + s \<noteq> mx"
        using c chain_end [of mx m "?c + 16 + s" "?c + 16 + s + 16 + t" zs q mx] by (auto simp: Cons)
      then show ?thesis using c by (intro merge_next_none) (auto simp: link_to_def)
    qed
    then show ?thesis using ch e by blast
  qed
qed

lemma merge_empty_blocks_adjacent_step:
  assumes ch: "chain mx m 0 a (xs @ (s, False) # ys) q mx" and b: "mx < W32" "0 < a"
  shows "\<exists>m' q'. merge_empty_blocks_adjacent (a + extent xs) m = Inr m' \<and> chain mx m' 0 a (free_list xs s ys) q' mx"
proof -
  obtain xs' s' s'' ys' where j: "join_prev xs s = (xs', s')" "join_next s' ys = (s'', ys')" by fastforce
  obtain m1 q1 where p: "merge_prev (a + extent xs) m = Inr (a + extent xs', m1)" "chain mx m1 0 a (xs' @ (s', False) # ys) q1 mx"
    using merge_prev_step [OF ch b j(1)] by blast
  obtain m2 q2 where n: "merge_next (a + extent xs') m1 = Inr m2" "chain mx m2 0 a (xs' @ (s'', False) # ys') q2 mx"
    using merge_next_step [OF p(2) b j(2)] by blast
  obtain r where "m (a + extent xs) = Some \<lparr>hb_size = s, hb_allocated = False, hb_prev = r, hb_next = link_to mx (a + extent xs + 16 + s)\<rparr>"
    using ch by (auto simp: chain_append)
  then have "merge_empty_blocks_adjacent (a + extent xs) m = Inr m2"
    using b p n by (simp add: merge_empty_blocks_adjacent_def hb_get_def)
  then show ?thesis using n(2) j by (auto simp: free_list_def)
qed

lemma chain_mark_free:
  assumes "chain mx m 0 a (xs @ (s, True) # ys) q mx"
  shows "chain mx (hb_set (hb_allocated_update (\<lambda>_. False)) (a + extent xs) m) 0 a (xs @ (s, False) # ys) q mx"
proof -
  let ?c = "a + extent xs" and ?m = "hb_set (hb_allocated_update (\<lambda>_. False)) (a + extent xs) m"
  obtain r where xs: "chain mx m 0 a xs r ?c" and c: "chain mx m r ?c ((s, True) # ys) q mx"
    using assms by (auto simp: chain_append)
  have "chain mx ?m 0 a xs r ?c" using xs by (rule chain_prefix_frame) (simp add: hb_set_def)
  moreover have "chain mx ?m ?c (?c + 16 + s) ys q mx"
    by (rule chain_frame [where m = m]) (use c in \<open>simp_all add: hb_set_def\<close>)
  ultimately show ?thesis using c by (auto simp: chain_append hb_set_def)
qed

section \<open>The list after a free\<close>

lemma successively_free:
  assumes "coalesced (xs @ (s, True) # ys)"
  shows "coalesced (free_list xs s ys)"
proof -
  obtain xs' s' s'' ys' where j: "join_prev xs s = (xs', s')" "join_next s' ys = (s'', ys')" by fastforce
  have x: "coalesced xs'" "xs' = [] \<or> snd (last xs')"
    using assms j(1) by (cases xs rule: rev_cases;
      auto simp: join_prev_def coalesced_def successively_append_iff successively_Cons split: if_splits)+
  have y: "coalesced ys'" "ys' = [] \<or> snd (hd ys')"
    using assms j(2) by (cases ys; auto simp: join_next_def coalesced_def successively_append_iff
      successively_Cons split: bool.splits)+
  show ?thesis using x y j by (auto simp: free_list_def coalesced_def successively_append_iff successively_Cons)
qed

lemma free_list_used [simp]: "used (free_list xs s ys) = used xs + used ys"
  by (cases xs rule: rev_cases; cases ys)
    (auto simp: free_list_def join_prev_def join_next_def split: bool.splits)

lemma free_list_mod16:
  assumes "\<forall>(s, al) \<in> set (xs @ (s, True) # ys). s mod 16 = 0"
  shows "\<forall>(s, al) \<in> set (free_list xs s ys). s mod 16 = 0"
proof -
  have conv: "(\<forall>(s, al) \<in> set bs. s mod 16 = 0) \<longleftrightarrow> list_all (\<lambda>b. 16 dvd fst b) bs" for bs :: "(nat \<times> bool) list"
    by (auto simp: list_all_iff)
  show ?thesis using assms unfolding conv
    by (cases xs rule: rev_cases; cases ys) (auto simp: free_list_def join_prev_def join_next_def split: bool.splits)
qed

lemma free_list_last:
  "\<not> snd (last (xs @ (s, True) # ys)) \<Longrightarrow> free_list xs s ys \<noteq> [] \<and> \<not> snd (last (free_list xs s ys))"
  by (cases ys) (auto simp: free_list_def join_prev_def join_next_def split: bool.splits prod.splits if_splits)

section \<open>Freeing refines the list operation\<close>

lemma is_valid_live_ptr:
  assumes ok: "heap_ok h m (xs @ (s, True) # ys)"
  shows "is_valid_heap_ptr h (hd_head h + extent xs + 16)"
proof -
  have mods: "\<forall>(s, al) \<in> set (xs @ (s, True) # ys). s mod 16 = 0" "hd_head h mod 16 = 0"
    using ok by (simp_all add: heap_ok_def)
  then have "extent xs mod 16 = 0" by (intro extent_mod16) auto
  then have m: "(hd_head h + extent xs + 16) mod 16 = 0" using mods(2) by presburger
  have "ys \<noteq> []" using ok by (auto simp: heap_ok_def)
  then have "16 \<le> extent ys" by (cases ys) auto
  moreover note heap_ok_bounds [OF ok]
  ultimately show ?thesis using m
    by (simp add: is_valid_heap_ptr_def w32_simps add32_exact sub32_exact W32_val)
qed

lemma free_heap_refines:
  assumes ok: "heap_ok h m (xs @ (s, True) # ys)"
  shows "\<exists>h' m'. free_heap (hd_head h + extent xs + 16) (h, m) = Inr (h', m') \<and> heap_ok h' m' (free_list xs s ys) \<and>
           hd_head h' = hd_head h \<and> hd_max h' = hd_max h"
proof -
  let ?c = "hd_head h + extent xs" and ?h = "h\<lparr>hd_total := hd_total h - (16 + s)\<rparr>"
  let ?m1 = "hb_set (hb_allocated_update (\<lambda>_. False)) ?c m"
  note bd = heap_ok_bounds [OF ok]
  obtain q where ch: "chain (hd_max h) m 0 (hd_head h) (xs @ (s, True) # ys) q (hd_max h)"
    using ok by (auto simp: heap_ok_def)
  then obtain r where hc: "m ?c = Some \<lparr>hb_size = s, hb_allocated = True, hb_prev = r, hb_next = link_to (hd_max h) (?c + 16 + s)\<rparr>"
    by (auto simp: chain_append)
  have smod: "s mod 16 = 0" and tot: "hd_total h = used xs + (16 + s) + used ys" using ok by (auto simp: heap_ok_def)
  have al: "ALIGN_UP s HEAP_ALIGN = s" using bd smod by (simp add: ALIGN_UP_exact align16_props W32_val)
  have t: "sub32 (hd_total h) (add32 SIZEOF_BLOCK s) = hd_total h - (16 + s)"
    using bd tot by (simp add: SIZEOF_BLOCK_def add32_exact sub32_exact W32_val)
  have b: "sub32 (?c + 16) SIZEOF_BLOCK = ?c" using bd by (simp add: SIZEOF_BLOCK_def sub32_exact)
  obtain m2 q2 where m2: "merge_empty_blocks_adjacent ?c ?m1 = Inr m2" "chain (hd_max h) m2 0 (hd_head h) (free_list xs s ys) q2 (hd_max h)"
    using merge_empty_blocks_adjacent_step [OF chain_mark_free [OF ch] bd(3,2)] by blast
  have "free_heap (?c + 16) (h, m) = Inr (?h, m2)"
    using is_valid_live_ptr [OF ok] hc al t m2 by (simp add: free_heap_def b hb_get_def Let_def)
  moreover have "heap_ok ?h m2 (free_list xs s ys)"
    using heap_okD [OF ok] free_list_last [of xs s ys]
    by (intro heap_ok_update [OF ok m2(2)] free_list_mod16 successively_free) simp_all
  ultimately show ?thesis by auto
qed

lemma free_list_restores:
  assumes "coalesced (xs @ (s, False) # ys)" "n + 16 \<le> s"
  shows "free_list xs n ((s - n - 16, False) # ys) = xs @ (s, False) # ys"
  using assms by (cases xs rule: rev_cases)
    (auto simp: free_list_def join_prev_def join_next_def coalesced_def successively_append_iff)

end
