(* ===== verification/Kernel_Heap_Live.thy ===== *)
theory Kernel_Heap_Live
  imports Kernel_Heap_Free
begin

text \<open>
  The allocator's contract, as a locale: what the kernel's tasks rely on when they call
  \<open>malloc\<close> and \<open>free\<close>.  A heap's live regions are the payloads of its allocated blocks.  The
  contract is interpreted on \<open>alloc_heap\<close> and \<open>free_heap\<close> through their refinement of the
  block list.
\<close>

section \<open>Live regions\<close>

fun live :: "nat \<Rightarrow> (nat \<times> bool) list \<Rightarrow> (nat \<times> nat) list" where
  "live a [] = []"
| "live a ((s, al) # bs) = (if al then [(a + 16, s)] else []) @ live (a + 16 + s) bs"

lemma live_append: "live a (xs @ ys) = live a xs @ live (a + extent xs) ys"
  by (induction a xs rule: live.induct) (auto simp: add.assoc)

lemma live_bounds: "(p, s) \<in> set (live a bs) \<Longrightarrow> a + 16 \<le> p \<and> p + s \<le> a + extent bs"
  by (induction a bs rule: live.induct) (auto split: if_splits)

lemma live_aligned:
  "(p, s) \<in> set (live a bs) \<Longrightarrow> a mod 16 = 0 \<Longrightarrow> \<forall>(s, al) \<in> set bs. s mod 16 = 0 \<Longrightarrow> p mod 16 = 0"
proof (induction a bs rule: live.induct)
  case (2 a s' al bs)
  have "(a + 16 + s') mod 16 = 0" using "2.prems" by (simp add: mod_add_eq [symmetric])
  then show ?case using 2 by (auto split: if_splits)
qed simp

lemma live_separate:
  "(p, s) \<in> set (live a bs) \<Longrightarrow> (p', s') \<in> set (live a bs) \<Longrightarrow> (p, s) \<noteq> (p', s') \<Longrightarrow>
   p + s + 16 \<le> p' \<or> p' + s' + 16 \<le> p"
proof (induction a bs rule: live.induct)
  case (2 a t al bs)
  then show ?case
    using live_bounds [of p s "a + 16 + t" bs] live_bounds [of p' s' "a + 16 + t" bs]
    by (auto split: if_splits)
qed simp

lemma live_split:
  "(p, s) \<in> set (live a bs) \<Longrightarrow> \<exists>xs ys. bs = xs @ (s, True) # ys \<and> p = a + extent xs + 16"
proof (induction a bs rule: live.induct)
  case (2 a t al bs)
  show ?case
  proof (cases "al \<and> p = a + 16 \<and> s = t")
    case True
    then show ?thesis by (intro exI [of _ "[]"] exI [of _ bs]) simp
  next
    case False
    then have "(p, s) \<in> set (live (a + 16 + t) bs)" using "2.prems" by (auto split: if_splits)
    then obtain xs ys where "bs = xs @ (s, True) # ys" "p = a + 16 + t + extent xs + 16" using "2.IH" by blast
    then show ?thesis by (intro exI [of _ "(t, al) # xs"] exI [of _ ys]) simp
  qed
qed simp

lemma live_free_list: "live a (free_list xs s ys) = live a xs @ live (a + extent xs + 16 + s) ys"
  by (cases xs rule: rev_cases; cases ys)
    (auto simp: free_list_def join_prev_def join_next_def live_append ac_simps split: bool.splits)

lemma live_first_fit:
  "first_fit n bs = Some (off, bs') \<Longrightarrow> set (live a bs') = insert (a + off, n) (set (live a bs)) \<and> 16 \<le> off"
proof (induction n bs arbitrary: a off bs' rule: first_fit.induct)
  case (2 n s al bs)
  show ?case
  proof (cases "\<not> al \<and> n + 32 \<le> s")
    case True
    then have "off = 16" "bs' = (n, True) # (s - n - 16, False) # bs" using "2.prems" by auto
    moreover have "a + 16 + n + 16 + (s - n - 16) = a + 16 + s" using True by simp
    ultimately show ?thesis using True by (simp add: ac_simps)
  next
    case False
    then obtain o' bs'' where "first_fit n bs = Some (o', bs'')" "off = 16 + s + o'" "bs' = (s, al) # bs''"
      using "2.prems" by (auto split: if_splits)
    moreover have "set (live (a + 16 + s) bs'') = insert (a + 16 + s + o', n) (set (live (a + 16 + s) bs)) \<and> 16 \<le> o'"
      by (rule "2.IH" [OF False]) fact
    moreover have "a + 16 + s + o' = a + (16 + s + o')" by simp
    ultimately show ?thesis by (simp only: live.simps set_append Un_insert_right) simp
  qed
qed simp

lemma first_fit_fresh:
  "first_fit n bs = Some (off, bs') \<Longrightarrow> (a + off, s) \<notin> set (live a bs)"
proof (induction n bs arbitrary: a off bs' rule: first_fit.induct)
  case (2 n t al bs)
  show ?case
  proof (cases "\<not> al \<and> n + 32 \<le> t")
    case True
    then have "off = 16" using "2.prems" by auto
    then show ?thesis using True live_bounds [of "a + 16" s "a + 16 + t" bs] by auto
  next
    case False
    then obtain o' bs'' where o: "first_fit n bs = Some (o', bs'')" "off = 16 + t + o'"
      using "2.prems" by (auto split: if_splits)
    have "(a + 16 + t + o', s) \<notin> set (live (a + 16 + t) bs)" by (rule "2.IH" [OF False o(1)])
    moreover have "16 \<le> o'" using live_first_fit [OF o(1)] by blast
    ultimately show ?thesis using o(2) by (simp add: add.assoc)
  qed
qed simp

section \<open>The contract and its clients\<close>

datatype heap_op = Malloc nat | FreeNth nat

text \<open>
  A client: it allocates, keeps each pointer it got with the size it asked for, and frees the
  ones it holds.
\<close>

fun run_ops :: "(nat \<Rightarrow> 's \<Rightarrow> (nat \<times> 's) kresult option) \<Rightarrow> (nat \<Rightarrow> 's \<Rightarrow> 's kresult) \<Rightarrow>
    heap_op list \<Rightarrow> (nat \<times> nat) list \<Rightarrow> 's \<Rightarrow> ((nat \<times> nat) list \<times> 's) kresult option" where
  "run_ops al fr [] hs st = Some (Inr (hs, st))"
| "run_ops al fr (Malloc n # ops) hs st =
     (case al n st of
        None \<Rightarrow> None
      | Some (Inl e) \<Rightarrow> Some (Inl e)
      | Some (Inr (p, st')) \<Rightarrow> run_ops al fr ops (if p = 0 then hs else hs @ [(p, n)]) st')"
| "run_ops al fr (FreeNth i # ops) hs st =
     (if i < length hs
      then (case fr (fst (hs ! i)) st of
              Inl e \<Rightarrow> Some (Inl e)
            | Inr st' \<Rightarrow> run_ops al fr ops (take i hs @ drop (Suc i) hs) st')
      else run_ops al fr ops hs st)"

definition handles :: "(nat \<times> nat) list \<Rightarrow> (nat \<times> nat) set \<Rightarrow> bool" where
  "handles hs L \<longleftrightarrow> distinct (map fst hs) \<and> fst ` set hs = fst ` L \<and> (\<forall>(p, n) \<in> set hs. \<exists>s. n \<le> s \<and> (p, s) \<in> L)"

lemma image_fst_remove:
  assumes "\<And>t. (p, t) \<in> L \<Longrightarrow> t = s"
  shows "fst ` (L - {(p, s)}) = fst ` L - {p}"
proof (intro equalityI subsetI)
  fix x assume "x \<in> fst ` (L - {(p, s)})"
  then obtain t where t: "(x, t) \<in> L" "(x, t) \<noteq> (p, s)" by fastforce
  have "x \<noteq> p" using t assms [of t] by blast
  then show "x \<in> fst ` L - {p}" using t(1) by force
next
  fix x assume "x \<in> fst ` L - {p}"
  then obtain t where "(x, t) \<in> L" "x \<noteq> p" by fastforce
  then have "(x, t) \<in> L - {(p, s)}" by blast
  then show "x \<in> fst ` (L - {(p, s)})" by force
qed

lemma handlesI:
  "distinct (map fst hs) \<Longrightarrow> fst ` set hs = fst ` L \<Longrightarrow> (\<And>p n. (p, n) \<in> set hs \<Longrightarrow> \<exists>s. n \<le> s \<and> (p, s) \<in> L) \<Longrightarrow> handles hs L"
  by (auto simp: handles_def)

lemma handlesD:
  assumes "handles hs L"
  shows "distinct (map fst hs)" "fst ` set hs = fst ` L" "(p, n) \<in> set hs \<Longrightarrow> \<exists>s. n \<le> s \<and> (p, s) \<in> L"
  using assms unfolding handles_def by blast+

locale allocator =
  fixes alloc :: "nat \<Rightarrow> 's \<Rightarrow> (nat \<times> 's) kresult option"
    and free :: "nat \<Rightarrow> 's \<Rightarrow> 's kresult"
    and regions :: "'s \<Rightarrow> (nat \<times> nat) set \<Rightarrow> bool"
    and lim :: nat and lo :: nat and hi :: nat
  assumes alloc_law: "regions st L \<Longrightarrow> n < lim \<Longrightarrow>
      alloc n st = Some (Inr (0, st)) \<or>
      (\<exists>p s st'. alloc n st = Some (Inr (p, st')) \<and> 0 < p \<and> n \<le> s \<and> p \<notin> fst ` L \<and> regions st' (insert (p, s) L))"
    and free_law: "regions st L \<Longrightarrow> (p, s) \<in> L \<Longrightarrow> \<exists>st'. free p st = Inr st' \<and> regions st' (L - {(p, s)})"
    and sep_law: "regions st L \<Longrightarrow> (p, s) \<in> L \<Longrightarrow> (p', s') \<in> L \<Longrightarrow> (p, s) \<noteq> (p', s') \<Longrightarrow>
      p + s + 16 \<le> p' \<or> p' + s' + 16 \<le> p"
    and bounds_law: "regions st L \<Longrightarrow> (p, s) \<in> L \<Longrightarrow> lo + 16 \<le> p \<and> p + s \<le> hi \<and> p mod 16 = 0"
begin

lemma region_unique: "regions st L \<Longrightarrow> (p, s) \<in> L \<Longrightarrow> (p, s') \<in> L \<Longrightarrow> s = s'"
  using sep_law [of st L p s p s'] by fastforce

lemma handles_malloc: "handles hs L \<Longrightarrow> p \<notin> fst ` L \<Longrightarrow> n \<le> s \<Longrightarrow> handles (hs @ [(p, n)]) (insert (p, s) L)"
proof (rule handlesI)
  assume h: "handles hs L" and p: "p \<notin> fst ` L" "n \<le> s"
  show "distinct (map fst (hs @ [(p, n)]))" using handlesD(1) [OF h] p(1) handlesD(2) [OF h] by simp
  show "fst ` set (hs @ [(p, n)]) = fst ` insert (p, s) L" using handlesD(2) [OF h] by simp
  show "\<exists>t. m \<le> t \<and> (q, t) \<in> insert (p, s) L" if "(q, m) \<in> set (hs @ [(p, n)])" for q m
    using that handlesD(3) [OF h, of q m] p(2) by auto
qed

lemma handles_free:
  assumes r: "regions st L" and h: "handles hs L" and i: "i < length hs" and p: "(fst (hs ! i), s) \<in> L"
  shows "handles (take i hs @ drop (Suc i) hs) (L - {(fst (hs ! i), s)})"
proof -
  let ?p = "fst (hs ! i)"
  define us vs where "us = take i hs" and "vs = drop (Suc i) hs"
  have hs: "hs = us @ hs ! i # vs" unfolding us_def vs_def using i by (rule id_take_nth_drop)
  have d: "distinct (map fst (us @ hs ! i # vs))" "fst ` set (us @ hs ! i # vs) = fst ` L"
    using handlesD(1,2) [OF h] hs by simp_all
  have new: "?p \<notin> fst ` set (us @ vs)" using d(1) by auto
  have keys: "fst ` (L - {(?p, s)}) = fst ` L - {?p}" 
    by (rule image_fst_remove) (rule region_unique [OF r _ p])
  show ?thesis unfolding us_def [symmetric] vs_def [symmetric]
  proof (rule handlesI)
    show "distinct (map fst (us @ vs))" using d(1) by simp
    show "fst ` set (us @ vs) = fst ` (L - {(?p, s)})" 
    proof -
      have "fst ` set (us @ hs ! i # vs) = insert ?p (fst ` set (us @ vs))" by simp
      then have "fst ` L = insert ?p (fst ` set (us @ vs))" using d(2) by metis
      then show ?thesis using new unfolding keys by blast
    qed
    show "\<exists>t. n \<le> t \<and> (q, t) \<in> L - {(?p, s)}" if q: "(q, n) \<in> set (us @ vs)" for q n
    proof -
      have "q \<in> fst ` set (us @ vs)" by (rule image_eqI [OF _ q]) simp
      then have "q \<noteq> ?p" using new by blast
      moreover have "(q, n) \<in> set hs" using q by (subst hs) auto
      ultimately show ?thesis using handlesD(3) [OF h] by blast
    qed
  qed
qed

lemma run_safe:
  "regions st L \<Longrightarrow> handles hs L \<Longrightarrow> \<forall>n. Malloc n \<in> set ops \<longrightarrow> n < lim \<Longrightarrow>
   \<exists>hs' st' L'. run_ops alloc free ops hs st = Some (Inr (hs', st')) \<and> regions st' L' \<and> handles hs' L'"
proof (induction ops arbitrary: hs st L)
  case (Cons x ops)
  show ?case
  proof (cases x)
    case (Malloc n)
    then have "n < lim" using Cons.prems(3) by simp
    from alloc_law [OF Cons.prems(1) this] show ?thesis
    proof (elim disjE exE conjE)
      fix p s st' assume a: "alloc n st = Some (Inr (p, st'))" "0 < p" "n \<le> s" "p \<notin> fst ` L" "regions st' (insert (p, s) L)"
      then show ?thesis
        using Cons.IH [OF a(5) handles_malloc [OF Cons.prems(2) a(4,3)]] Cons.prems(3) by (simp add: Malloc)
    qed (use Cons in \<open>simp add: Malloc\<close>)
  next
    case (FreeNth i)
    show ?thesis
    proof (cases "i < length hs")
      case True
      then have "fst (hs ! i) \<in> fst ` L" using Cons.prems(2) unfolding handles_def by (metis image_eqI nth_mem)
      then obtain s where p: "(fst (hs ! i), s) \<in> L" by auto
      obtain st' where s: "free (fst (hs ! i)) st = Inr st'" "regions st' (L - {(fst (hs ! i), s)})"
        using free_law [OF Cons.prems(1) p] by blast
      show ?thesis
        using Cons.IH [OF s(2) handles_free [OF Cons.prems(1,2) True p]] Cons.prems(3) True s(1) by (simp add: FreeNth)
    qed (use Cons in \<open>simp add: FreeNth\<close>)
  qed
qed auto

lemma handles_inside:
  "regions st L \<Longrightarrow> handles hs L \<Longrightarrow> (p, n) \<in> set hs \<Longrightarrow> lo + 16 \<le> p \<and> p + n \<le> hi \<and> p mod 16 = 0"
  unfolding handles_def using bounds_law by fastforce

lemma handles_disjoint:
  assumes "regions st L" "handles hs L" "(p, n) \<in> set hs" "(p', n') \<in> set hs" "(p, n) \<noteq> (p', n')"
  shows "p + n + 16 \<le> p' \<or> p' + n' + 16 \<le> p"
proof -
  have d: "distinct (map fst hs)" using assms(2) by (simp add: handles_def)
  then have "p \<noteq> p'" using assms(3-5) by (metis eq_key_imp_eq_value)
  obtain s s' where "n \<le> s" "(p, s) \<in> L" "n' \<le> s'" "(p', s') \<in> L" 
    using handlesD(3) [OF assms(2) assms(3)] handlesD(3) [OF assms(2) assms(4)] by blast
  then show ?thesis using sep_law [OF assms(1), of p s p' s'] \<open>p \<noteq> p'\<close> by fastforce
qed

end

end
