(* ===== verification/Kernel_Heap_Props.thy ===== *)
theory Kernel_Heap_Props
  imports Kernel_Heap_Live
begin

text \<open>
  The kernel heap's properties: the allocator contract interpreted on \<open>alloc_heap\<close> and
  \<open>free_heap\<close>, first fit, the effect of freeing, and what happens outside the contract (double
  frees, requests close to \<open>2^32\<close>).
\<close>

section \<open>The contract holds\<close>

definition heap_regions :: "nat \<Rightarrow> nat \<Rightarrow> heap_descriptor \<times> heap_store \<Rightarrow> (nat \<times> nat) set \<Rightarrow> bool" where
  "heap_regions lo hi st L \<longleftrightarrow>
     (\<exists>bs. heap_ok (fst st) (snd st) bs \<and> hd_head (fst st) = lo \<and> hd_max (fst st) = hi \<and> L = set (live lo bs))"

lemma heap_regionsE:
  assumes "heap_regions lo hi st L"
  obtains h m bs where "st = (h, m)" "heap_ok h m bs" "hd_head h = lo" "hd_max h = hi" "L = set (live lo bs)"
  using assms unfolding heap_regions_def by (cases st) auto

lemma heap_regionsI: "heap_ok h m bs \<Longrightarrow> heap_regions (hd_head h) (hd_max h) (h, m) (set (live (hd_head h) bs))"
  unfolding heap_regions_def by auto

lemma alloc_heap_regions:
  assumes r: "heap_regions lo hi st L" and n: "n < req_limit"
  shows "alloc_heap n st = Some (Inr (0, st)) \<or>
    (\<exists>p s st'. alloc_heap n st = Some (Inr (p, st')) \<and> 0 < p \<and> n \<le> s \<and> p \<notin> fst ` L \<and> heap_regions lo hi st' (insert (p, s) L))"
proof -
  obtain h m bs where st: "st = (h, m)" and ok: "heap_ok h m bs" and lo: "hd_head h = lo" "hd_max h = hi"
    and L: "L = set (live lo bs)" using r by (rule heap_regionsE)
  show ?thesis
  proof (cases "alloc_list (hd_size h) n bs")
    case None
    then show ?thesis using alloc_heap_refines [OF ok n] st by simp
  next
    case (Some y)
    obtain off bs' where y: "y = (off, bs')" by fastforce
    obtain h' m' where a: "alloc_heap n (h, m) = Some (Inr (lo + off, h', m'))" "heap_ok h' m' bs'" "hd_head h' = lo" "hd_max h' = hi"
      using alloc_heap_refines [OF ok n] Some y lo by auto
    have "first_fit (align16 n) bs = Some (off, bs')" using Some y by (simp add: alloc_list_def split: if_splits)
    from live_first_fit [OF this, of lo] have new: "set (live lo bs') = insert (lo + off, align16 n) L" and off: "16 \<le> off"
      using L by simp_all
    have "lo + off \<notin> fst ` L" using first_fit_fresh [OF \<open>first_fit (align16 n) bs = Some (off, bs')\<close>] L by auto
    moreover have "heap_regions lo hi (h', m') (insert (lo + off, align16 n) L)"
      using heap_regionsI [OF a(2)] unfolding a(3,4) new .
    ultimately show ?thesis using a(1) off align16_props(1) [of n] st
      by (intro disjI2 exI [of _ "lo + off"] exI [of _ "align16 n"] exI [of _ "(h', m')"]) simp
  qed
qed

lemma free_heap_regions:
  assumes r: "heap_regions lo hi st L" and p: "(p, s) \<in> L"
  shows "\<exists>st'. free_heap p st = Inr st' \<and> heap_regions lo hi st' (L - {(p, s)})"
proof -
  obtain h m bs where st: "st = (h, m)" and ok: "heap_ok h m bs" and lo: "hd_head h = lo" "hd_max h = hi"
    and L: "L = set (live lo bs)" using r by (rule heap_regionsE)
  obtain xs ys where bs: "bs = xs @ (s, True) # ys" "p = lo + extent xs + 16"
    using live_split p unfolding L by blast
  obtain h' m' where f: "free_heap p (h, m) = Inr (h', m')" "heap_ok h' m' (free_list xs s ys)"
    "hd_head h' = lo" "hd_max h' = hi"
    using free_heap_refines [OF ok [unfolded bs(1)]] unfolding lo bs(2) [symmetric] by blast
  have "(p, s) \<notin> set (live lo xs)" "(p, s) \<notin> set (live (lo + extent xs + 16 + s) ys)"
    using live_bounds [of p s lo xs] live_bounds [of p s "lo + extent xs + 16 + s" ys] bs(2) by auto
  moreover have "set (live lo bs) = insert (p, s) (set (live lo xs) \<union> set (live (lo + extent xs + 16 + s) ys))"
    by (simp add: bs live_append)
  ultimately have "L - {(p, s)} = set (live lo (free_list xs s ys))"
    unfolding L live_free_list set_append by blast
  then show ?thesis using f st heap_regionsI [OF f(2)] by (intro exI [of _ "(h', m')"]) simp
qed

interpretation kheap: allocator alloc_heap free_heap "heap_regions lo hi" req_limit lo hi for lo hi
proof unfold_locales
  fix st L n assume "heap_regions lo hi st L" "n < req_limit"
  then show "alloc_heap n st = Some (Inr (0, st)) \<or>
      (\<exists>p s st'. alloc_heap n st = Some (Inr (p, st')) \<and> 0 < p \<and> n \<le> s \<and> p \<notin> fst ` L \<and> heap_regions lo hi st' (insert (p, s) L))"
    by (rule alloc_heap_regions)
next
  fix st L p s assume "heap_regions lo hi st L" "(p, s) \<in> L"
  then show "\<exists>st'. free_heap p st = Inr st' \<and> heap_regions lo hi st' (L - {(p, s)})" by (rule free_heap_regions)
next
  fix st L p s p' s' assume r: "heap_regions lo hi st L" and p: "(p, s) \<in> L" "(p', s') \<in> L" "(p, s) \<noteq> (p', s')"
  obtain bs where L: "L = set (live lo bs)" using r by (rule heap_regionsE)
  show "p + s + 16 \<le> p' \<or> p' + s' + 16 \<le> p" by (rule live_separate [OF p [unfolded L]])
next
  fix st L p s assume r: "heap_regions lo hi st L" and p: "(p, s) \<in> L"
  obtain h m bs where "st = (h, m)" and ok: "heap_ok h m bs" and lo: "hd_head h = lo" "hd_max h = hi"
    and L: "L = set (live lo bs)" using r by (rule heap_regionsE)
  have "p mod 16 = 0"
    by (rule live_aligned [OF p [unfolded L] heap_okD(7) [OF ok, unfolded lo] heap_okD(3) [OF ok]])
  then show "lo + 16 \<le> p \<and> p + s \<le> hi \<and> p mod 16 = 0"
    using live_bounds [of p s lo bs] p L heap_ok_bounds(4) [OF ok] lo by simp
qed

section \<open>Clients of the heap\<close>

text \<open>
  C1: whatever sequence of allocations and frees of the pointers it holds a task runs on a
  freshly initialised heap (the requests below 3 GiB less 16 bytes), no call hangs or panics, and the
  pointers it ends up with are 16-aligned, lie inside the heap with the whole of the size asked
  for, and are pairwise apart by at least a block header.\<close>

theorem heap_clients_safe:
  assumes "0 < base" "base + sz + 16 < W32" "sz < 2 ^ 29" "64 \<le> sz"
    and "\<forall>n. Malloc n \<in> set ops \<longrightarrow> n < req_limit"
  shows "\<exists>hs st. run_ops alloc_heap free_heap ops [] (init_heap base sz m) = Some (Inr (hs, st)) \<and>
    (\<forall>(p, n) \<in> set hs. p mod 16 = 0 \<and> align16 base + 16 \<le> p \<and> p + n \<le> align16 (base + sz)) \<and>
    (\<forall>i < length hs. \<forall>j < length hs. i \<noteq> j \<longrightarrow>
       fst (hs ! i) + snd (hs ! i) + 16 \<le> fst (hs ! j) \<or> fst (hs ! j) + snd (hs ! j) + 16 \<le> fst (hs ! i))"
proof -
  let ?st = "init_heap base sz m"
  note ok = init_heap_ok [OF assms(1-4), of m]
  have "hd_head (fst ?st) = align16 base" "hd_max (fst ?st) = align16 (base + sz)"
    using assms(1-4) by (simp_all add: init_heap_def ALIGN_UP_exact add32_exact Let_def)
  then have "heap_regions (align16 base) (align16 (base + sz)) ?st {}"
    using heap_regionsI [OF ok] by simp
  moreover have "handles [] {}" by (simp add: handles_def)
  ultimately obtain hs st L where run: "run_ops alloc_heap free_heap ops [] ?st = Some (Inr (hs, st))"
    and r: "heap_regions (align16 base) (align16 (base + sz)) st L" and h: "handles hs L"
    using kheap.run_safe assms(5) by blast
  have d: "distinct hs" using handlesD(1) [OF h] by (simp add: distinct_map)
  have "p mod 16 = 0 \<and> align16 base + 16 \<le> p \<and> p + n \<le> align16 (base + sz)" if "(p, n) \<in> set hs" for p n
    using kheap.handles_inside [OF r h that] by blast
  moreover have "fst (hs ! i) + snd (hs ! i) + 16 \<le> fst (hs ! j) \<or> fst (hs ! j) + snd (hs ! j) + 16 \<le> fst (hs ! i)"
    if "i < length hs" "j < length hs" "i \<noteq> j" for i j
    using kheap.handles_disjoint [OF r h, of "fst (hs ! i)" "snd (hs ! i)" "fst (hs ! j)" "snd (hs ! j)"] that
      nth_eq_iff_index_eq [OF d] by simp
  ultimately show ?thesis using run by blast
qed

theorem heap_clients_safe_witness:
  "\<exists>hs st. run_ops alloc_heap free_heap [Malloc 100, Malloc 40, FreeNth 0, Malloc 8] [] (init_heap 0x3000 4096 Map.empty) = Some (Inr (hs, st))"
  using heap_clients_safe [of "0x3000" 4096 "[Malloc 100, Malloc 40, FreeNth 0, Malloc 8]" Map.empty]
  by (auto simp: W32_def)

section \<open>First fit\<close>

text \<open>
  C13: for requests below \<open>req_limit\<close> (3 GiB less 16 bytes) \<open>alloc_heap\<close> terminates and is first
  fit: on a heap whose list of blocks is \<open>bs\<close> it
  returns \<open>NULL\<close> and changes nothing exactly when the accounting guard rejects the request or
  no free block is 32 bytes larger than the rounded size; otherwise it splits the first such
  block, returns the address of its payload and leaves the memory holding the split list.\<close>

theorem alloc_is_first_fit:
  assumes "heap_ok h m bs" "req < req_limit"
  shows "case alloc_list (hd_size h) req bs of
           None \<Rightarrow> alloc_heap req (h, m) = Some (Inr (0, h, m))
         | Some (off, bs') \<Rightarrow> \<exists>h' m'. alloc_heap req (h, m) = Some (Inr (hd_head h + off, h', m')) \<and> heap_ok h' m' bs' \<and>
             hd_head h' = hd_head h \<and> hd_max h' = hd_max h"
  using assms by (rule alloc_heap_refines)

definition demo_heap :: "heap_descriptor \<times> heap_store" where
  "demo_heap = init_heap 0x3000 4096 Map.empty"

lemma demo_heap_ok: "heap_ok (fst demo_heap) (snd demo_heap) [(4080, False)]"
  using init_heap_ok [of "0x3000" 4096 Map.empty] by (simp add: demo_heap_def W32_def align16_def)

theorem alloc_is_first_fit_witness:
  "alloc_list (hd_size (fst demo_heap)) 100 [(4080, False)] = Some (16, [(112, True), (3952, False)]) \<and>
   (\<exists>h' m'. alloc_heap 100 demo_heap = Some (Inr (hd_head (fst demo_heap) + 16, h', m')) \<and> heap_ok h' m' [(112, True), (3952, False)])"
proof -
  have "hd_size (fst demo_heap) = 4096" using heap_ok_extent [OF demo_heap_ok] by simp
  then have l: "alloc_list (hd_size (fst demo_heap)) 100 [(4080, False)] = Some (16, [(112, True), (3952, False)])"
    by (simp add: alloc_list_def align16_def)
  show ?thesis using alloc_is_first_fit [OF demo_heap_ok, of 100] unfolding l by auto
qed

section \<open>Freeing\<close>

text \<open>
  C23: freeing an allocated block returns, marks the block free, joins it with a free
  predecessor and a free successor, and takes exactly its size and header off the account;
  no two free blocks are ever left side by side.\<close>

theorem free_coalesces:
  assumes "heap_ok h m (xs @ (s, True) # ys)"
  shows "\<exists>h' m'. free_heap (hd_head h + extent xs + 16) (h, m) = Inr (h', m') \<and> heap_ok h' m' (free_list xs s ys) \<and>
     hd_total h' = hd_total h - (16 + s) \<and> coalesced (free_list xs s ys)"
proof -
  obtain h' m' where f: "free_heap (hd_head h + extent xs + 16) (h, m) = Inr (h', m')" "heap_ok h' m' (free_list xs s ys)"
    using free_heap_refines [OF assms] by blast
  moreover have "hd_total h' = hd_total h - (16 + s)"
    using heap_okD(4) [OF f(2)] heap_okD(4) [OF assms] by simp
  ultimately show ?thesis using heap_okD(2) [OF f(2)] by blast
qed

text \<open>
  C29: on a well-formed heap, allocating less than \<open>req_limit\<close> (3 GiB less 16 bytes) and freeing again restores the list of blocks and the descriptor, whatever else is
  allocated.  A request near \<open>2 ^ 32\<close> wraps the size computation and is outside this contract.\<close>

theorem alloc_free_restores:
  assumes ok: "heap_ok h m bs" and "req < req_limit" and a: "alloc_heap req (h, m) = Some (Inr (p, h1, m1))" and "p \<noteq> 0"
  shows "\<exists>h2 m2. free_heap p (h1, m1) = Inr (h2, m2) \<and> heap_ok h2 m2 bs \<and> h2 = h"
proof (cases "alloc_list (hd_size h) req bs")
  case None
  then show ?thesis using alloc_heap_refines [OF ok assms(2)] a \<open>p \<noteq> 0\<close> by simp
next
  case (Some y)
  let ?n = "align16 req"
  have "\<exists>b \<in> set bs. fits ?n b" using Some first_fit_none by (fastforce simp: alloc_list_def split: if_splits)
  from split_list_first_prop [OF this] obtain xs b ys where d: "bs = xs @ b # ys" "fits ?n b" "\<forall>b \<in> set xs. \<not> fits ?n b"
    by blast
  obtain s where b: "b = (s, False)" "?n + 32 \<le> s" using d(2) by (cases b) (auto simp: fits_def)
  have "first_fit ?n bs = Some (extent xs + 16, xs @ (?n, True) # (s - ?n - 16, False) # ys)"
    using d b by (simp add: first_fit_at)
  then have "alloc_list (hd_size h) req bs = Some (extent xs + 16, xs @ (?n, True) # (s - ?n - 16, False) # ys)"
    using Some by (simp add: alloc_list_def split: if_splits)
  then have al: "p = hd_head h + extent xs + 16" "heap_ok h1 m1 (xs @ (?n, True) # (s - ?n - 16, False) # ys)"
    "hd_head h1 = hd_head h" "hd_max h1 = hd_max h"
    using alloc_heap_refines [OF ok assms(2)] a by auto
  obtain h2 m2 where f: "free_heap p (h1, m1) = Inr (h2, m2)" "heap_ok h2 m2 (free_list xs ?n ((s - ?n - 16, False) # ys))"
    "hd_head h2 = hd_head h1" "hd_max h2 = hd_max h1"
    using free_heap_refines [OF al(2)] unfolding al(1,3) by blast
  have "free_list xs ?n ((s - ?n - 16, False) # ys) = bs"
    using heap_okD(2) [OF ok] b d(1) by (intro trans [OF free_list_restores]) simp_all
  then have ok2: "heap_ok h2 m2 bs" using f(2) by simp
  moreover have "h2 = h"
    using heap_okD(4) [OF ok2] heap_okD(4) [OF ok] heap_ok_extent [OF ok2] heap_ok_extent [OF ok] f al by simp
  ultimately show ?thesis using f(1) by blast
qed

text \<open>The demo heap after a first allocation of 100 bytes.\<close>

lemma demo_alloc:
  obtains h m where "alloc_heap 100 demo_heap = Some (Inr (hd_head (fst demo_heap) + 16, h, m))"
    "heap_ok h m [(112, True), (3952, False)]" "hd_head h = hd_head (fst demo_heap)"
proof -
  have "hd_size (fst demo_heap) = 4096" using heap_ok_extent [OF demo_heap_ok] by simp
  then have l: "alloc_list (hd_size (fst demo_heap)) 100 [(4080, False)] = Some (16, [(112, True), (3952, False)])"
    by (simp add: alloc_list_def align16_def)
  show ?thesis using alloc_heap_refines [OF demo_heap_ok, of 100] that unfolding l by auto
qed

theorem free_coalesces_witness:
  "\<exists>h m h' m'. heap_ok h m [(112, True), (3952, False)] \<and> free_heap (hd_head h + 16) (h, m) = Inr (h', m') \<and>
     heap_ok h' m' [(4080, False)]"
proof -
  obtain h m where ok: "heap_ok h m ([] @ (112, True) # [(3952, False)])" by (rule demo_alloc) simp
  have "free_list [] 112 [(3952, False)] = [(4080, False)]" by (simp add: free_list_def join_prev_def join_next_def)
  then show ?thesis using free_coalesces [OF ok] ok by fastforce
qed

theorem alloc_free_restores_witness:
  "\<exists>p h1 m1 m2. alloc_heap 100 demo_heap = Some (Inr (p, h1, m1)) \<and> free_heap p (h1, m1) = Inr (fst demo_heap, m2)"
proof -
  obtain h m where a: "alloc_heap 100 demo_heap = Some (Inr (hd_head (fst demo_heap) + 16, h, m))"
    using demo_alloc by blast
  then have "alloc_heap 100 (fst demo_heap, snd demo_heap) = Some (Inr (hd_head (fst demo_heap) + 16, h, m))" by simp
  from alloc_free_restores [OF demo_heap_ok _ this] show ?thesis using a by auto
qed

section \<open>Outside the contract\<close>

definition header_free :: "nat \<Rightarrow> heap_store \<Rightarrow> bool" where
  "header_free a m \<longleftrightarrow> (\<exists>b. m a = Some b \<and> \<not> hb_allocated b)"

lemma header_free_set [simp]:
  "header_free a m \<Longrightarrow> header_free a (hb_set (hb_size_update f) x m)"
  "header_free a m \<Longrightarrow> header_free a (hb_set (hb_prev_update f) x m)"
  "header_free a m \<Longrightarrow> header_free a (hb_set (hb_next_update f) x m)"
  by (auto simp: header_free_def hb_set_def)

lemma merge_prev_header_free: "merge_prev c m = Inr (c', m') \<Longrightarrow> header_free a m \<Longrightarrow> header_free a m'"
  by (auto simp: merge_prev_def Let_def res_simps split: if_splits)

lemma merge_next_header_free: "merge_next c m = Inr m' \<Longrightarrow> header_free a m \<Longrightarrow> header_free a m'"
  by (auto simp: merge_next_def Let_def res_simps split: if_splits)

lemma merge_header_free: "merge_empty_blocks_adjacent c m = Inr m' \<Longrightarrow> header_free a m \<Longrightarrow> header_free a m'"
  unfolding merge_empty_blocks_adjacent_def
  by (auto simp: res_simps split: if_splits dest: merge_prev_header_free merge_next_header_free)

text \<open>
  Note: freeing the same pointer twice in a row panics the kernel with its message, on any
  heap and for any pointer the first free accepted, even where the block was merged away.\<close>

theorem double_free_panics:
  assumes "free_heap p (h, m) = Inr (h', m')"
  shows "free_heap p (h', m') = Inl (Panic ''Panic: double free'')"
proof -
  let ?c = "sub32 p SIZEOF_BLOCK"
  obtain b where v: "is_valid_heap_ptr h p" and b: "m ?c = Some b" "hb_allocated b"
    and h': "h' = h\<lparr>hd_total := sub32 (hd_total h) (add32 SIZEOF_BLOCK (ALIGN_UP (hb_size b) HEAP_ALIGN))\<rparr>"
    and mg: "merge_empty_blocks_adjacent ?c (hb_set (hb_allocated_update (\<lambda>_. False)) ?c m) = Inr m'"
    using assms by (auto simp: free_heap_def Let_def res_simps hb_get_def split: if_splits option.splits)
  have "header_free ?c (hb_set (hb_allocated_update (\<lambda>_. False)) ?c m)" by (auto simp: header_free_def hb_set_def)
  then have "header_free ?c m'" by (rule merge_header_free [OF mg])
  moreover have "is_valid_heap_ptr h' p" using v by (simp add: is_valid_heap_ptr_def h')
  ultimately show ?thesis by (auto simp: free_heap_def header_free_def hb_get_def)
qed

definition self_linked :: "nat \<Rightarrow> heap_store \<Rightarrow> bool" where
  "self_linked c m \<longleftrightarrow> c \<noteq> 0 \<and> (\<exists>b. m c = Some b \<and> hb_allocated b \<and> hb_next b = c)"

lemma demo_free:
  obtains p h m h' m' where "alloc_heap 100 demo_heap = Some (Inr (p, h, m))" "free_heap p (h, m) = Inr (h', m')"
proof -
  obtain h m where a: "alloc_heap 100 demo_heap = Some (Inr (hd_head (fst demo_heap) + 16, h, m))"
    "heap_ok h m ([] @ (112, True) # [(3952, False)])" "hd_head h = hd_head (fst demo_heap)"
    by (rule demo_alloc) simp
  from free_heap_refines [OF a(2)] that [OF a(1)] show ?thesis using a(3) by auto
qed

theorem double_free_panics_witness:
  "\<exists>p h m h' m'. alloc_heap 100 demo_heap = Some (Inr (p, h, m)) \<and> free_heap p (h, m) = Inr (h', m') \<and>
     free_heap p (h', m') = Inl (Panic ''Panic: double free'')"
proof -
  obtain p h m h' m' where "alloc_heap 100 demo_heap = Some (Inr (p, h, m))" "free_heap p (h, m) = Inr (h', m')"
    by (rule demo_free)
  then show ?thesis using double_free_panics by blast
qed

lemma alloc_search_self_linked:
  assumes "self_linked c m"
  shows "alloc_search n m c = None"
proof (rule ccontr)
  assume "alloc_search n m c \<noteq> None"
  then obtain y where "alloc_search n m c = Some y" by blast
  then have "\<not> self_linked c m"
  proof (rule alloc_search.raw_induct [rotated])
    fix srch n m c y
    assume IH: "\<And>n m c y. srch n m c = Some y \<Longrightarrow> \<not> self_linked c m"
      and body: "(if c = 0 then Some (Inr (None, m))
        else case hb_get m c of Inl e \<Rightarrow> Some (Inl e)
           | Inr b \<Rightarrow> if hb_allocated b then srch n m (hb_next b)
               else (case split_block c n m of Inl e \<Rightarrow> Some (Inl e)
                     | Inr (ok, m') \<Rightarrow> if ok then Some (Inr (Some c, hb_set (hb_allocated_update (\<lambda>_. True)) c m'))
                         else srch n m' (hb_next b))) = Some y"
    show "\<not> self_linked c m"
    proof
      assume sl: "self_linked c m"
      then obtain b where "c \<noteq> 0" "m c = Some b" "hb_allocated b" "hb_next b = c" by (auto simp: self_linked_def)
      then have "srch n m c = Some y" using body by (simp add: hb_get_def)
      then show False using IH sl by blast
    qed
  qed
  then show False using assms by blast
qed

lemma split_block_wraps:
  assumes "m c = Some \<lparr>hb_size = f, hb_allocated = False, hb_prev = 0, hb_next = 0\<rparr>" "32 \<le> f" "f < 2 ^ 30" "c < W32"
  shows "split_block c 0xfffffff0 m = Inr (True, m(c \<mapsto> \<lparr>hb_size = 0xfffffff0, hb_allocated = False, hb_prev = c, hb_next = c\<rparr>))"
proof -
  have ar: "add32 16 0xfffffff0 = 0" "add32 0 4 = 4" by (simp_all add: add32_def W32_def)
  have rem: "sub32 f 0xfffffff0 = f + 16" "sub32 (f + 16) 16 = f" using assms by (simp_all add: sub32_def W32_def)
  have ins: "add32 (add32 c 16) 0xfffffff0 = c"
    using assms(4) by (simp add: add32_def mod_add_left_eq W32_def)
  have c: "\<not> f < 4" "f + 16 > 16 + 4" using assms(2) by simp_all
  have get: "hb_get m c = Inr \<lparr>hb_size = f, hb_allocated = False, hb_prev = 0, hb_next = 0\<rparr>"
    using assms(1) by (simp add: hb_get_def)
  note at = hb_set_at [where m = m and a = c, OF assms(1)]
  show ?thesis
    unfolding split_block_def get res_bind.simps w32_simps heap_block.simps ar if_not_P [OF c(1)] Let_def rem if_P [OF c(2)] ins
    by (simp add: at hb_get_def)
qed

lemma huge_request_links_itself:
  assumes "0 < base" "base + sz + 16 < W32" "sz < 2 ^ 29" "64 \<le> sz"
  shows "\<exists>m'. alloc_heap 0xfffffff0 (init_heap base sz m) = Some (Inr (align16 base + 16, fst (init_heap base sz m), m')) \<and>
    self_linked (align16 base) m'"
proof -
  obtain h m0 where st: "init_heap base sz m = (h, m0)" by fastforce
  let ?f = "align16 (base + sz) - align16 base - 16"
  have bs: "heap_ok h m0 [(?f, False)]" using init_heap_ok [OF assms, of m] st by simp
  have hd: "hd_head h = align16 base" using st assms by (auto simp: init_heap_def ALIGN_UP_exact add32_exact Let_def)
  note bd = heap_ok_bounds [OF bs, unfolded hd]
  let ?c = "align16 base"
  have f: "32 \<le> ?f" "?f < 2 ^ 30" 
    using assms(3,4) align16_props(1,3) [of base] align16_props(1,3) [of "base + sz"] by simp_all
  have hdr: "m0 ?c = Some \<lparr>hb_size = ?f, hb_allocated = False, hb_prev = 0, hb_next = 0\<rparr>"
    using heap_okD(5) [OF bs] bd by (auto simp: link_to_def hd)
  have c: "?c < W32" "?c \<noteq> 0" "add32 ?c 16 = ?c + 16" using bd by (simp_all add: add32_exact)
  have c16: "?c + 16 < 4294967296" using bd(3,4) by (simp add: W32_def)
  have get: "hb_get m0 ?c = Inr \<lparr>hb_size = ?f, hb_allocated = False, hb_prev = 0, hb_next = 0\<rparr>"
    using hdr by (simp add: hb_get_def)
  let ?m = "m0(?c \<mapsto> \<lparr>hb_size = 0xfffffff0, hb_allocated = True, hb_prev = ?c, hb_next = ?c\<rparr>)"
  have ar: "add32 16 0xfffffff0 = 0" "ALIGN_UP 0xfffffff0 16 = 0xfffffff0"
    by (simp_all add: add32_def ALIGN_UP_def sub32_def mul32_def W32_def)
  have "alloc_search 0xfffffff0 m0 ?c = Some (Inr (Some ?c, ?m))"
    using c(2) split_block_wraps [where m = m0 and c = ?c, OF hdr f c(1)] by (subst alloc_search.simps) (simp add: get)
  moreover have "hd_total h = 0" "add32 0 0 = 0" "add32 0 16 = 16" using heap_okD(4) [OF bs] by (simp_all add: add32_def W32_def)
  ultimately have "alloc_heap 0xfffffff0 (h, m0) = Some (Inr (?c + 16, h\<lparr>hd_total := hd_total h\<rparr>, ?m))"
    unfolding alloc_heap_def Let_def prod.case w32_simps using c16 by (simp add: ar hd add32_def W32_def)
  moreover have "self_linked ?c ?m" using c(2) by (simp add: self_linked_def)
  ultimately show ?thesis unfolding st by auto
qed



end
