(* ===== verification/Kernel_Task.thy ===== *)
theory Kernel_Task
  imports Kernel_Heap
begin

text \<open>
  The kernel's task table (\<open>sw/bootc/kernel/task.c\<close>, \<open>task.h\<close>), the saved processor contexts
  (\<open>context.c\<close>, \<open>context.h\<close>) and the control-register masks (\<open>csr.h\<close>, \<open>trap/enums.h\<close>).  The global
  variables of the kernel's C files are the record \<open>kernel\<close>.  A pointer into the static
  table of tasks or of queue entries is the index of its target; a null pointer is \<open>None\<close>.
  A C function that stores through an output pointer and returns whether it did so returns
  an \<open>option\<close>.
\<close>

section \<open>Kernel computations\<close>

text \<open>
  A kernel call does not return (\<open>None\<close>), stops with an error, or returns a value.
\<close>

type_synonym 'a krun = "'a kresult option"

definition krun_return :: "'a \<Rightarrow> 'a krun" where "krun_return x = Some (Inr x)"

definition krun_fail :: "kerror \<Rightarrow> 'a krun" where "krun_fail e = Some (Inl e)"

definition krun_lift :: "'a kresult \<Rightarrow> 'a krun" where "krun_lift r = Some r"

fun krun_bind :: "'a krun \<Rightarrow> ('a \<Rightarrow> 'b krun) \<Rightarrow> 'b krun" where
  "krun_bind None f = None"
| "krun_bind (Some (Inl e)) f = Some (Inl e)"
| "krun_bind (Some (Inr x)) f = f x"

named_theorems krun_simps

lemma krun_basic [krun_simps]:
  "krun_bind (krun_return x) f = f x"
  "krun_bind (krun_fail e) f = krun_fail e"
  "krun_bind (krun_lift (Inr x)) f = f x"
  "krun_bind (krun_lift (Inl e)) f = krun_fail e"
  by (simp_all add: krun_return_def krun_fail_def krun_lift_def)

lemma krun_exhaust:
  fixes r :: "'a krun"
  obtains "r = None" | e where "r = krun_fail e" | x where "r = krun_return x"
  unfolding krun_fail_def krun_return_def by (metis not_None_eq sum.exhaust)

lemma krun_bind_None [krun_simps]: "krun_bind None f = None"
  by simp

lemma krun_return_inject [simp]: "krun_return x = krun_return y \<longleftrightarrow> x = y"
  by (simp add: krun_return_def)

lemma krun_return_not_fail [simp]: "krun_return x \<noteq> krun_fail e" "krun_fail e \<noteq> krun_return x"
  by (simp_all add: krun_return_def krun_fail_def)

lemma krun_bind_eq_return:
  "krun_bind r f = Some (Inr y) \<longleftrightarrow> (\<exists>x. r = Some (Inr x) \<and> f x = Some (Inr y))"
  by (cases "(r, f)" rule: krun_bind.cases) auto

lemma krun_bind_cong [fundef_cong]:
  "r = r' \<Longrightarrow> (\<And>x. r' = Some (Inr x) \<Longrightarrow> f x = f' x) \<Longrightarrow> krun_bind r f = krun_bind r' f'"
  by (cases "(r', f')" rule: krun_bind.cases) auto

section \<open>Constants, masks and contexts\<close>

definition MAX_TASKS :: nat where "MAX_TASKS = 8"

definition SCHED_QUANTUM_TICKS :: nat where "SCHED_QUANTUM_TICKS = 10"

definition SCHED_PRIORITY_BONUS_TICKS :: nat where "SCHED_PRIORITY_BONUS_TICKS = 1"

definition STACK_INIT_SIZE :: nat where "STACK_INIT_SIZE = 1024"

definition HEAP_INIT_SIZE :: nat where "HEAP_INIT_SIZE = 1024"

definition TASK_ID :: "nat \<Rightarrow> nat \<Rightarrow> int" where
  "TASK_ID slot gen = push_bit 8 (int gen) OR int slot"

definition TASK_GEN :: "int \<Rightarrow> int" where "TASK_GEN tid = drop_bit 8 tid"

definition TASK_SLOT :: "int \<Rightarrow> nat" where "TASK_SLOT tid = nat (tid AND 0xff)"

datatype priv_mode = PrivMode_U | PrivMode_M

fun of_priv_mode :: "priv_mode \<Rightarrow> u32" where
  "of_priv_mode PrivMode_U = 0"
| "of_priv_mode PrivMode_M = 3"

definition bits_mpie :: "bool \<Rightarrow> u32" where "bits_mpie mpie = push_bit 7 (if mpie then 1 else 0)"

definition bits_mpp :: "priv_mode \<Rightarrow> u32" where "bits_mpp priv = push_bit 11 (of_priv_mode priv AND 3)"

datatype interrupt = Interrupt_M_SOFTWARE | Interrupt_M_TIMER | Interrupt_M_EXTERNAL | Interrupt_other nat

fun of_interrupt :: "interrupt \<Rightarrow> nat" where
  "of_interrupt Interrupt_M_SOFTWARE = 3"
| "of_interrupt Interrupt_M_TIMER = 7"
| "of_interrupt Interrupt_M_EXTERNAL = 11"
| "of_interrupt (Interrupt_other n) = n"

definition bits_interr :: "interrupt \<Rightarrow> u32" where "bits_interr interr = push_bit (of_interrupt interr) 1"

definition CTX_REGS :: nat where "CTX_REGS = 32"

record cpu_context =
  ctx_regs :: "u32 list"
  ctx_mstatus :: u32
  ctx_pc :: u32

definition copy_context :: "cpu_context \<Rightarrow> cpu_context \<Rightarrow> cpu_context" where
  "copy_context to src =
     (let to' = to\<lparr>ctx_regs := fold (\<lambda>i rs. rs[i := ctx_regs src ! i]) [0..<CTX_REGS] (ctx_regs to)\<rparr>
      in to'\<lparr>ctx_mstatus := ctx_mstatus src, ctx_pc := ctx_pc src\<rparr>)"

section \<open>Tasks\<close>

datatype task_state = TS_NOT_CREATED | TS_READY | TS_RUNNING | TS_BLOCKED_IRQ | TS_TERMINATED

record task =
  t_ctx :: cpu_context
  t_id :: int
  t_stack_base :: nat
  t_stack_size :: nat
  t_heap :: heap_descriptor
  t_priority :: nat
  t_time_slice :: nat
  t_state :: task_state

record ready_entry =
  re_task_id :: int
  re_prev :: "nat option"
  re_next :: "nat option"

record blocked_entry =
  be_task_id :: int
  be_wait_irq_mask :: u32
  be_blocked :: bool

record kernel =
  tasks :: "task list"
  current_slot :: nat
  n_task :: nat
  t_gen :: nat
  global_heap :: heap_descriptor
  kmem :: heap_store
  qready :: "ready_entry list"
  qready_head :: "nat option"
  n_ready :: nat
  qblocked :: "blocked_entry list"
  csr_mie :: u32

definition get_task_of_id :: "kernel \<Rightarrow> int \<Rightarrow> nat option" where
  "get_task_of_id k tid =
     (let slot = TASK_SLOT tid
      in if slot < MAX_TASKS then (if t_id (tasks k ! slot) = tid then Some slot else None) else None)"

definition task_upd :: "nat \<Rightarrow> (task \<Rightarrow> task) \<Rightarrow> kernel \<Rightarrow> kernel" where
  "task_upd i f k = k\<lparr>tasks := (tasks k)[i := f (tasks k ! i)]\<rparr>"

text \<open>The search for a slot in \<open>create_task\<close>.\<close>

definition free_slot :: "kernel \<Rightarrow> nat option" where
  "free_slot k = find (\<lambda>slot. t_state (tasks k ! slot) = TS_NOT_CREATED) [0..<MAX_TASKS]"

definition galloc :: "nat \<Rightarrow> kernel \<Rightarrow> (nat \<times> kernel) krun" where
  "galloc sz k = krun_bind (alloc_heap sz (global_heap k, kmem k))
     (\<lambda>(p, h, m). krun_return (p, k\<lparr>global_heap := h, kmem := m\<rparr>))"

definition gfree :: "nat \<Rightarrow> kernel \<Rightarrow> kernel krun" where
  "gfree p k = krun_bind (krun_lift (free_heap p (global_heap k, kmem k)))
     (\<lambda>(h, m). krun_return (k\<lparr>global_heap := h, kmem := m\<rparr>))"

definition create_task :: "nat \<Rightarrow> priv_mode \<Rightarrow> nat \<Rightarrow> kernel \<Rightarrow> (nat option \<times> kernel) krun" where
  "create_task entr priv priority k =
     (if n_task k = MAX_TASKS then krun_return (None, k)
      else case free_slot k of
        None \<Rightarrow> krun_return (None, k)
      | Some slot \<Rightarrow>
          let k1 = (task_upd slot (\<lambda>t. t\<lparr>t_id := TASK_ID slot (t_gen k), t_priority := priority\<rparr>) k)\<lparr>t_gen := (t_gen k + 1) mod 2 ^ 16\<rparr>
          in krun_bind (galloc STACK_INIT_SIZE k1) (\<lambda>(s, k2).
            if s = 0 then krun_return (None, k2)
            else krun_bind (galloc HEAP_INIT_SIZE k2) (\<lambda>(h, k3).
              if h = 0 then krun_bind (gfree s k3) (\<lambda>k4. krun_return (None, k4))
              else
                let (hd, m) = init_heap h HEAP_INIT_SIZE (kmem k3);
                    k4 = task_upd slot (\<lambda>t. t\<lparr>t_stack_base := s, t_stack_size := STACK_INIT_SIZE, t_heap := hd,
                           t_priority := priority,
                           t_time_slice := add32 SCHED_QUANTUM_TICKS (mul32 priority SCHED_PRIORITY_BONUS_TICKS),
                           t_state := TS_READY,
                           t_ctx := \<lparr>ctx_regs = (replicate CTX_REGS 0)[2 := of_nat (add32 s STACK_INIT_SIZE)],
                                     ctx_mstatus = bits_mpp priv OR bits_mpie True,
                                     ctx_pc = of_nat entr\<rparr>\<rparr>) (k3\<lparr>kmem := m\<rparr>)
                in krun_return (Some slot, k4\<lparr>n_task := n_task k4 + 1\<rparr>))))"

definition current_task :: "kernel \<Rightarrow> int" where "current_task k = t_id (tasks k ! current_slot k)"

definition set_current_task :: "int \<Rightarrow> kernel \<Rightarrow> kernel krun" where
  "set_current_task tid k =
     (case get_task_of_id k tid of
        Some i \<Rightarrow> if t_state (tasks k ! i) = TS_READY then krun_return (k\<lparr>current_slot := TASK_SLOT tid\<rparr>)
                  else krun_fail (Panic ''Panic: attempting to switch to a non-ready task'')
      | None \<Rightarrow> krun_fail (Panic ''Panic: attempting to switch to a non-ready task''))"

definition destroy_task :: "int \<Rightarrow> kernel \<Rightarrow> kernel krun" where
  "destroy_task tid k =
     (case get_task_of_id k tid of
        None \<Rightarrow> krun_return k
      | Some i \<Rightarrow>
          if t_state (tasks k ! i) \<noteq> TS_NOT_CREATED then
            krun_bind (gfree (t_stack_base (tasks k ! i)) k) (\<lambda>k1.
            krun_bind (gfree (hd_head (t_heap (tasks k1 ! i))) k1) (\<lambda>k2.
              let k3 = task_upd i (\<lambda>t. t\<lparr>t_state := TS_NOT_CREATED\<rparr>) k2
              in krun_return (k3\<lparr>n_task := sub32 (n_task k3) 1\<rparr>)))
          else krun_return k)"

definition task_exists :: "kernel \<Rightarrow> int \<Rightarrow> bool" where "task_exists k tid \<longleftrightarrow> get_task_of_id k tid \<noteq> None"

definition get_task_heap :: "kernel \<Rightarrow> int \<Rightarrow> nat option" where "get_task_heap k tid = get_task_of_id k tid"

definition get_task_state :: "kernel \<Rightarrow> int \<Rightarrow> task_state option" where
  "get_task_state k tid = map_option (\<lambda>i. t_state (tasks k ! i)) (get_task_of_id k tid)"

definition get_task_priority :: "kernel \<Rightarrow> int \<Rightarrow> nat option" where
  "get_task_priority k tid = map_option (\<lambda>i. t_priority (tasks k ! i)) (get_task_of_id k tid)"

definition get_task_time_slice :: "kernel \<Rightarrow> int \<Rightarrow> nat option" where
  "get_task_time_slice k tid = map_option (\<lambda>i. t_time_slice (tasks k ! i)) (get_task_of_id k tid)"

definition upd_task_of_id :: "int \<Rightarrow> (task \<Rightarrow> task) \<Rightarrow> kernel \<Rightarrow> kernel" where
  "upd_task_of_id tid f k = (case get_task_of_id k tid of None \<Rightarrow> k | Some i \<Rightarrow> task_upd i f k)"

definition set_task_ready :: "int \<Rightarrow> kernel \<Rightarrow> kernel" where
  "set_task_ready tid = upd_task_of_id tid (t_state_update (\<lambda>_. TS_READY))"

definition set_task_running :: "int \<Rightarrow> kernel \<Rightarrow> kernel" where
  "set_task_running tid = upd_task_of_id tid (t_state_update (\<lambda>_. TS_RUNNING))"

definition set_task_blocked_irq :: "int \<Rightarrow> kernel \<Rightarrow> kernel" where
  "set_task_blocked_irq tid = upd_task_of_id tid (t_state_update (\<lambda>_. TS_BLOCKED_IRQ))"

definition set_task_time_slice :: "int \<Rightarrow> nat \<Rightarrow> kernel \<Rightarrow> kernel" where
  "set_task_time_slice tid n = upd_task_of_id tid (t_time_slice_update (\<lambda>_. n))"

definition terminate_task :: "int \<Rightarrow> kernel \<Rightarrow> kernel" where
  "terminate_task tid = upd_task_of_id tid (t_state_update (\<lambda>_. TS_TERMINATED))"

text \<open>\<open>enter_task\<close> hands the task's context to the processor and does not come back.\<close>

definition enter_task :: "int \<Rightarrow> kernel \<Rightarrow> cpu_context krun" where
  "enter_task tid k =
     (case get_task_of_id k tid of
        None \<Rightarrow> krun_fail (Panic ''Panic: entering an invalid task'')
      | Some i \<Rightarrow> krun_return (t_ctx (tasks k ! i)))"

end
