(* ===== verification/Kernel_Sched.thy ===== *)
theory Kernel_Sched
  imports Kernel_Task
begin

text \<open>
  The scheduler (\<open>sw/bootc/kernel/scheduler.c\<close>): a ready queue that is a doubly linked list
  through the static array \<open>qready\<close>, one entry per task slot, and the table \<open>qblocked\<close> of tasks
  waiting for an interrupt; with the two operations of \<open>task.c\<close> that call it.
\<close>

section \<open>The ready queue\<close>

definition re_upd :: "nat \<Rightarrow> (ready_entry \<Rightarrow> ready_entry) \<Rightarrow> kernel \<Rightarrow> kernel" where
  "re_upd i f k = k\<lparr>qready := (qready k)[i := f (qready k ! i)]\<rparr>"

text \<open>
  A local variable that \<open>get_task_priority\<close> may leave as it was; \<open>None\<close> before its first value.
\<close>

definition prio_into :: "kernel \<Rightarrow> int \<Rightarrow> nat option \<Rightarrow> nat option" where
  "prio_into k tid old = (case get_task_priority k tid of None \<Rightarrow> old | Some p \<Rightarrow> Some p)"

definition next_prio_into :: "kernel \<Rightarrow> nat option \<Rightarrow> nat option \<Rightarrow> nat option" where
  "next_prio_into k nxt old = (case nxt of None \<Rightarrow> old | Some j \<Rightarrow> prio_into k (re_task_id (qready k ! j)) old)"

text \<open>The search loop of \<open>push_ready_task\<close>: the last entry before the place to insert at.\<close>

partial_function (option) push_search ::
    "kernel \<Rightarrow> int \<Rightarrow> nat \<Rightarrow> nat option \<Rightarrow> nat option \<Rightarrow> nat option \<Rightarrow> ((nat \<times> nat option) kresult) option" where
  "push_search k tid prev nxt curr_prio next_prio =
     (case nxt of
        None \<Rightarrow> Some (Inr (prev, None))
      | Some i \<Rightarrow>
          (case curr_prio of
             None \<Rightarrow> Some (Inl (Uninit ''curr_prio''))
           | Some cp \<Rightarrow>
               (case next_prio of
                  None \<Rightarrow> Some (Inl (Uninit ''next_prio''))
                | Some np \<Rightarrow>
                    if np \<ge> cp then
                      push_search k tid i (re_next (qready k ! i)) (prio_into k tid curr_prio)
                        (next_prio_into k (re_next (qready k ! i)) next_prio)
                    else Some (Inr (prev, Some i)))))"

definition push_front :: "nat \<Rightarrow> kernel \<Rightarrow> kernel" where
  "push_front e k =
     (let k1 = re_upd e (\<lambda>r. r\<lparr>re_prev := None, re_next := qready_head k\<rparr>) k
      in k1\<lparr>qready_head := Some e\<rparr>)"

definition link_between :: "nat \<Rightarrow> nat \<Rightarrow> nat option \<Rightarrow> kernel \<Rightarrow> kernel" where
  "link_between e prev nxt k =
     (let k1 = re_upd e (\<lambda>r. r\<lparr>re_prev := Some prev, re_next := nxt\<rparr>) k;
          k2 = re_upd prev (\<lambda>r. r\<lparr>re_next := Some e\<rparr>) k1
      in case nxt of None \<Rightarrow> k2 | Some n \<Rightarrow> re_upd n (\<lambda>r. r\<lparr>re_prev := Some e\<rparr>) k2)"

text \<open>
  With an empty queue \<open>qready_head\<close> is null and its \<open>task_id\<close> is read all the same; the value
  is used only when \<open>n_ready\<close> is not 0.
\<close>

definition push_ready_task :: "nat option \<Rightarrow> kernel \<Rightarrow> (bool \<times> kernel) krun" where
  "push_ready_task entr k =
     (case entr of
        None \<Rightarrow> krun_return (False, k)
      | Some e \<Rightarrow>
          if n_ready k = MAX_TASKS then krun_return (False, k)
          else
            let tid = re_task_id (qready k ! e)
            in if n_ready k = 0 then krun_return (True, (push_front e k)\<lparr>n_ready := n_ready k + 1\<rparr>)
               else case qready_head k of
                 None \<Rightarrow> krun_fail (Wild 0)
               | Some h \<Rightarrow>
                   (case (prio_into k tid None, prio_into k (re_task_id (qready k ! h)) None) of
                      (Some entr_prio, Some head_prio) \<Rightarrow>
                        if entr_prio > head_prio then krun_return (True, (push_front e k)\<lparr>n_ready := n_ready k + 1\<rparr>)
                        else
                          let nxt = re_next (qready k ! h)
                          in krun_bind (push_search k tid h nxt (prio_into k tid None) (next_prio_into k nxt None))
                               (\<lambda>(prev, nxt'). krun_return (True, (link_between e prev nxt' k)\<lparr>n_ready := n_ready k + 1\<rparr>))
                    | _ \<Rightarrow> krun_fail (Uninit ''entr_prio'')))"

definition remove_ready_task :: "nat option \<Rightarrow> kernel \<Rightarrow> bool \<times> kernel" where
  "remove_ready_task entr k =
     (case entr of
        None \<Rightarrow> (False, k)
      | Some e \<Rightarrow>
          let k1 = (case re_prev (qready k ! e) of
                      Some p \<Rightarrow> re_upd p (\<lambda>r. r\<lparr>re_next := re_next (qready k ! e)\<rparr>) k
                    | None \<Rightarrow> if qready_head k = Some e then k\<lparr>qready_head := re_next (qready k ! e)\<rparr> else k);
              k2 = (case re_next (qready k1 ! e) of
                      Some n \<Rightarrow> re_upd n (\<lambda>r. r\<lparr>re_prev := re_prev (qready k1 ! e)\<rparr>) k1
                    | None \<Rightarrow> k1);
              k3 = re_upd e (\<lambda>r. r\<lparr>re_prev := None, re_next := None\<rparr>) k2
          in (True, k3\<lparr>n_ready := sub32 (n_ready k) 1\<rparr>))"

definition add_task_to_schedule :: "int \<Rightarrow> kernel \<Rightarrow> (bool \<times> kernel) krun" where
  "add_task_to_schedule tid k =
     (if TASK_SLOT tid < MAX_TASKS
      then push_ready_task (Some (TASK_SLOT tid)) (re_upd (TASK_SLOT tid) (\<lambda>r. r\<lparr>re_task_id := tid\<rparr>) k)
      else krun_fail (Wild (TASK_SLOT tid)))"

section \<open>Scheduling\<close>

definition start_schedule :: "int \<Rightarrow> kernel \<Rightarrow> (cpu_context \<times> kernel) krun" where
  "start_schedule tid k =
     (if get_task_state k tid \<noteq> Some TS_READY then krun_fail (Panic ''Panic: invalid entrypoint task'')
      else krun_bind (set_current_task tid k) (\<lambda>k1.
        let k2 = set_task_running tid k1
        in case remove_ready_task (Some (TASK_SLOT tid)) k2 of
             (ok, k3) \<Rightarrow>
               if \<not> ok then krun_fail (Panic ''Panic: failed to remove task from queue'')
               else krun_bind (enter_task tid k3) (\<lambda>ctx. krun_return (ctx, k3))))"

definition requested_mie :: "kernel \<Rightarrow> u32" where
  "requested_mie k =
     fold (\<lambda>b mie. if be_blocked b then mie OR be_wait_irq_mask b else mie) (qblocked k) (bits_interr Interrupt_M_TIMER)"

text \<open>The body of the \<open>if\<close> in the loop of \<open>schedule\<close>: entry \<open>i\<close> with task \<open>tid\<close> is ready and taken.\<close>

definition sched_take :: "nat \<Rightarrow> int \<Rightarrow> kernel \<Rightarrow> kernel krun" where
  "sched_take i tid k =
     (case remove_ready_task (Some i) k of
        (ok, k1) \<Rightarrow>
          if \<not> ok then krun_fail (Panic ''Panic: failed to remove task from queue'')
          else krun_bind (set_current_task tid k1) (\<lambda>k2.
            let k3 = set_task_running tid k2
            in krun_bind
                 (if get_task_time_slice k3 tid = Some 0
                  then (case get_task_priority k3 tid of
                          None \<Rightarrow> krun_fail (Uninit ''t_prio'')
                        | Some p \<Rightarrow> krun_return (set_task_time_slice tid
                            (add32 SCHED_QUANTUM_TICKS (mul32 p SCHED_PRIORITY_BONUS_TICKS)) k3))
                  else krun_return k3)
                 (\<lambda>k4. krun_return (k4\<lparr>csr_mie := requested_mie k4\<rparr>))))"

text \<open>The entry the loop looks at: it passes over the current task's own unless it is the last.\<close>

definition sched_prefer :: "nat \<Rightarrow> nat \<Rightarrow> kernel \<Rightarrow> nat \<times> nat" where
  "sched_prefer count i k =
     (if re_task_id (qready k ! i) = current_task k
      then (case re_next (qready k ! i) of Some j \<Rightarrow> (count + 1, j) | None \<Rightarrow> (count, i))
      else (count, i))"

function sched_loop :: "nat \<Rightarrow> nat option \<Rightarrow> kernel \<Rightarrow> kernel krun" where
  "sched_loop count None k = krun_fail (Panic ''Panic: ran out of tasks'')"
| "sched_loop count (Some i) k =
     (let (count', i') = sched_prefer count i k;
          tid = re_task_id (qready k ! i')
      in if get_task_state k tid = Some TS_READY then sched_take i' tid k
         else if count' + 1 > MAX_TASKS then krun_fail (Panic ''Panic: any task in queue inspected more than once'')
         else sched_loop (count' + 1) (re_next (qready k ! i')) k)"
  by pat_completeness auto

termination
  by (relation "measure (\<lambda>(count, _, _). 9 - count)")
    (auto simp: sched_prefer_def MAX_TASKS_def split: if_splits option.splits)

definition schedule :: "kernel \<Rightarrow> kernel krun" where
  "schedule k =
     (let tid_curr = current_task k
      in case get_task_state k tid_curr of
           None \<Rightarrow> krun_fail (Panic ''Panic: invalid current task detected'')
         | Some st0 \<Rightarrow>
             let k1 = (if st0 = TS_RUNNING then set_task_ready tid_curr k else k);
                 st = (if st0 = TS_RUNNING then (case get_task_state k1 tid_curr of None \<Rightarrow> st0 | Some s \<Rightarrow> s) else st0)
             in krun_bind
                  (if st = TS_TERMINATED then destroy_task tid_curr k1
                   else if st = TS_READY then
                     krun_bind (push_ready_task (Some (TASK_SLOT tid_curr)) k1) (\<lambda>(ok, k2).
                       if ok then krun_return k2 else krun_fail (Panic ''Panic: Failed to push task into queue''))
                   else krun_return k1)
                  (\<lambda>k2. if n_ready k2 > 0 then sched_loop 0 (qready_head k2) k2
                        else krun_fail (Panic ''Panic: invalid task queue state'')))"

section \<open>Waiting for interrupts\<close>

definition be_upd :: "nat \<Rightarrow> (blocked_entry \<Rightarrow> blocked_entry) \<Rightarrow> kernel \<Rightarrow> kernel" where
  "be_upd i f k = k\<lparr>qblocked := (qblocked k)[i := f (qblocked k ! i)]\<rparr>"

definition block_task_irq :: "int \<Rightarrow> interrupt \<Rightarrow> kernel \<Rightarrow> kernel" where
  "block_task_irq tid interr k =
     (if \<not> task_exists k tid then k
      else
        let i = TASK_SLOT tid;
            k1 = be_upd i (\<lambda>b. b\<lparr>be_blocked := True, be_task_id := tid\<rparr>) k;
            k2 = set_task_blocked_irq tid k1
        in be_upd i (\<lambda>b. b\<lparr>be_wait_irq_mask := be_wait_irq_mask b OR bits_interr interr\<rparr>) k2)"

fun wake_loop :: "u32 \<Rightarrow> nat list \<Rightarrow> nat \<Rightarrow> kernel \<Rightarrow> (nat \<times> kernel) krun" where
  "wake_loop ibit [] num_awaken k = krun_return (num_awaken, k)"
| "wake_loop ibit (i # is) num_awaken k =
     (let entr = qblocked k ! i
      in if \<not> be_blocked entr then wake_loop ibit is num_awaken k
         else case get_task_state k (be_task_id entr) of
           None \<Rightarrow> krun_fail (Uninit ''state'')
         | Some st \<Rightarrow>
             if st \<noteq> TS_BLOCKED_IRQ then krun_fail (Panic ''Panic: non-blocked task in block queue'')
             else if be_wait_irq_mask entr AND ibit \<noteq> 0 then
               let k1 = be_upd i (\<lambda>b. b\<lparr>be_wait_irq_mask := 0, be_blocked := False\<rparr>) k;
                   k2 = set_task_ready (be_task_id entr) k1
               in krun_bind (push_ready_task (Some (TASK_SLOT (be_task_id entr))) k2) (\<lambda>(ok, k3).
                    if ok then wake_loop ibit is (num_awaken + 1) k3
                    else krun_fail (Panic ''Panic: failed to move blocked task into the ready queue''))
             else wake_loop ibit is num_awaken k)"

definition wake_irq_tasks :: "interrupt \<Rightarrow> kernel \<Rightarrow> (nat \<times> kernel) krun" where
  "wake_irq_tasks interr k = wake_loop (bits_interr interr) [0..<MAX_TASKS] 0 k"

section \<open>The operations of \<open>task.c\<close> that call the scheduler\<close>

definition spawn_task :: "nat \<Rightarrow> priv_mode \<Rightarrow> nat \<Rightarrow> kernel \<Rightarrow> (int \<times> kernel) krun" where
  "spawn_task entr priv priority k =
     krun_bind (create_task entr priv priority k) (\<lambda>(task, k1).
       case task of
         None \<Rightarrow> krun_return (-1, k1)
       | Some i \<Rightarrow>
           krun_bind (add_task_to_schedule (t_id (tasks k1 ! i)) k1) (\<lambda>(ok, k2).
             if ok then krun_return (t_id (tasks k2 ! i), k2)
             else krun_bind (destroy_task (t_id (tasks k2 ! i)) k2) (\<lambda>k3. krun_return (-1, k3))))"

definition switch_to_next_task :: "cpu_context \<Rightarrow> kernel \<Rightarrow> (cpu_context \<times> kernel) krun" where
  "switch_to_next_task ctx k =
     (let prev_id = current_task k;
          k1 = (case get_task_of_id k prev_id of
                  Some i \<Rightarrow> if t_state (tasks k ! i) \<noteq> TS_TERMINATED
                            then task_upd i (\<lambda>t. t\<lparr>t_ctx := copy_context (t_ctx t) ctx\<rparr>) k else k
                | None \<Rightarrow> k)
      in krun_bind (schedule k1) (\<lambda>k2.
           let next_id = current_task k2
           in krun_return
                (case get_task_of_id k2 next_id of
                   Some i \<Rightarrow> if prev_id \<noteq> next_id then copy_context ctx (t_ctx (tasks k2 ! i)) else ctx
                 | None \<Rightarrow> ctx, k2)))"

end
