(* ===== verification/Kernel_Queue.thy ===== *)
theory Kernel_Queue
  imports Kernel_Sched Kernel_Heap_Inv
begin

text \<open>
  The ready queue as the list of slots on the forward path from its head.  \<open>push_ready_task\<close>
  refines insertion behind all slots of at least the same priority; removing the head refines
  \<open>tl\<close>.
\<close>

section \<open>Paths through the entries\<close>

fun path :: "ready_entry list \<Rightarrow> nat option \<Rightarrow> nat list \<Rightarrow> nat option \<Rightarrow> bool" where
  "path rs p [] q \<longleftrightarrow> p = q"
| "path rs p (i # is) q \<longleftrightarrow> p = Some i \<and> path rs (re_next (rs ! i)) is q"

lemma path_append: "path rs p (xs @ ys) q \<longleftrightarrow> (\<exists>r. path rs p xs r \<and> path rs r ys q)"
  by (induction rs p xs q rule: path.induct) auto

lemma path_update: "i \<notin> set is \<Longrightarrow> path (rs[i := r]) p is q \<longleftrightarrow> path rs p is q"
  by (induction rs p "is" q rule: path.induct) auto

lemma path_update_prev:
  "re_next r = re_next (rs ! i) \<Longrightarrow> i < length rs \<Longrightarrow> path (rs[i := r]) p is q \<longleftrightarrow> path rs p is q"
  by (induction rs p "is" q rule: path.induct) (auto simp: nth_list_update)

lemma path_None_head: "path rs p is None \<Longrightarrow> p = (case is of [] \<Rightarrow> None | i # _ \<Rightarrow> Some i)"
  by (cases "is") auto

section \<open>The representation\<close>

definition slot_ok :: "kernel \<Rightarrow> nat \<Rightarrow> bool" where
  "slot_ok k i \<longleftrightarrow> i < 8 \<and> t_id (tasks k ! i) = re_task_id (qready k ! i) \<and> TASK_SLOT (re_task_id (qready k ! i)) = i"

definition prio :: "kernel \<Rightarrow> nat \<Rightarrow> nat" where "prio k i = t_priority (tasks k ! i)"

definition rq_ok :: "kernel \<Rightarrow> nat list \<Rightarrow> bool" where
  "rq_ok k is \<longleftrightarrow> length (qready k) = 8 \<and> length (tasks k) = 8 \<and> path (qready k) (qready_head k) is None \<and>
     n_ready k = length is \<and> distinct is \<and> (\<forall>i \<in> set is. slot_ok k i \<and> t_state (tasks k ! i) = TS_READY) \<and>
     sorted_wrt (\<lambda>i j. prio k j \<le> prio k i) is \<and> (\<forall>i. qready_head k = Some i \<longrightarrow> re_prev (qready k ! i) = None)"

lemma rq_okD:
  assumes "rq_ok k is"
  shows "length (qready k) = 8" "length (tasks k) = 8" "path (qready k) (qready_head k) is None"
    "n_ready k = length is" "distinct is" "i \<in> set is \<Longrightarrow> slot_ok k i" "i \<in> set is \<Longrightarrow> t_state (tasks k ! i) = TS_READY"
    "sorted_wrt (\<lambda>i j. prio k j \<le> prio k i) is" "qready_head k = Some j \<Longrightarrow> re_prev (qready k ! j) = None"
  using assms unfolding rq_ok_def by blast+

lemma rq_ok_head: "rq_ok k is \<Longrightarrow> qready_head k = (case is of [] \<Rightarrow> None | i # _ \<Rightarrow> Some i)"
  using rq_okD(3) path_None_head by blast

lemma slot_okD:
  assumes "slot_ok k i"
  shows "i < 8" "get_task_of_id k (re_task_id (qready k ! i)) = Some i" "t_id (tasks k ! i) = re_task_id (qready k ! i)"
    "TASK_SLOT (re_task_id (qready k ! i)) = i"
  using assms by (auto simp: slot_ok_def get_task_of_id_def MAX_TASKS_def Let_def)

declare slot_okD(2-4) [simp]

lemma slot_ok_prio [simp]:
  "slot_ok k i \<Longrightarrow> prio_into k (re_task_id (qready k ! i)) old = Some (prio k i)"
  "slot_ok k i \<Longrightarrow> get_task_priority k (re_task_id (qready k ! i)) = Some (prio k i)"
  "slot_ok k i \<Longrightarrow> get_task_state k (re_task_id (qready k ! i)) = Some (t_state (tasks k ! i))"
  "slot_ok k i \<Longrightarrow> get_task_time_slice k (re_task_id (qready k ! i)) = Some (t_time_slice (tasks k ! i))"
  by (auto simp: prio_into_def get_task_priority_def get_task_state_def get_task_time_slice_def prio_def)

lemma rq_ok_length: assumes "rq_ok k is" "e \<notin> set is" "e < 8" shows "length is < 8"
proof -
  have "set (e # is) \<subseteq> {..<8}" using rq_okD(6) [OF assms(1)] assms(3) by (auto dest: slot_okD(1))
  moreover have "card (set (e # is)) = length (e # is)"
    using rq_okD(5) [OF assms(1)] assms(2) by (intro distinct_card) simp
  ultimately show ?thesis using card_mono [of "{..<8 :: nat}" "set (e # is)"] by simp
qed

section \<open>Insertion\<close>

definition insert_prio :: "kernel \<Rightarrow> nat \<Rightarrow> nat list \<Rightarrow> nat list" where
  "insert_prio k e is = takeWhile (\<lambda>i. prio k e \<le> prio k i) is @ e # dropWhile (\<lambda>i. prio k e \<le> prio k i) is"

lemma set_insert_prio [simp]: "set (insert_prio k e is) = insert e (set is)"
proof -
  have "set is = set (takeWhile (\<lambda>i. prio k e \<le> prio k i) is @ dropWhile (\<lambda>i. prio k e \<le> prio k i) is)" by simp
  then show ?thesis unfolding insert_prio_def set_append by simp
qed

lemma insert_prio_length [simp]: "length (insert_prio k e is) = Suc (length is)"
proof -
  have "length is = length (takeWhile (\<lambda>i. prio k e \<le> prio k i) is @ dropWhile (\<lambda>i. prio k e \<le> prio k i) is)" by simp
  then show ?thesis unfolding insert_prio_def length_append by simp
qed

lemma insert_prio_distinct: "distinct is \<Longrightarrow> e \<notin> set is \<Longrightarrow> distinct (insert_prio k e is)"
  by (rule card_distinct) (simp add: distinct_card)

lemma insert_prio_Cons:
  "insert_prio k e (i # is) = (if prio k e \<le> prio k i then i # insert_prio k e is else e # i # is)"
  by (simp add: insert_prio_def)

lemma insert_prio_sorted:
  "sorted_wrt (\<lambda>i j. prio k j \<le> prio k i) is \<Longrightarrow> sorted_wrt (\<lambda>i j. prio k j \<le> prio k i) (insert_prio k e is)"
proof (induction "is")
  case Nil
  then show ?case by (simp add: insert_prio_def)
next
  case (Cons i "is")
  then show ?case by (fastforce simp: insert_prio_Cons)
qed

lemma push_search_path:
  assumes "path (qready k) nxt js None" "\<forall>j \<in> set js. slot_ok k j" "slot_ok k e"
    "js \<noteq> [] \<Longrightarrow> np = Some (prio k (hd js))"
  shows "push_search k (re_task_id (qready k ! e)) prev nxt (Some (prio k e)) np =
    Some (Inr (last (prev # takeWhile (\<lambda>j. prio k e \<le> prio k j) js),
      case dropWhile (\<lambda>j. prio k e \<le> prio k j) js of [] \<Rightarrow> None | j # _ \<Rightarrow> Some j))"
  using assms
proof (induction js arbitrary: prev nxt np)
  case Nil
  then show ?case by (simp add: push_search.simps)
next
  case (Cons j js)
  have nxt: "nxt = Some j" "path (qready k) (re_next (qready k ! j)) js None" "np = Some (prio k j)" "slot_ok k j"
    using Cons.prems by auto
  show ?case
  proof (cases "prio k e \<le> prio k j")
    case True
    have np': "next_prio_into k (re_next (qready k ! j)) np = Some (prio k (hd js))" if "js \<noteq> []"
      using that nxt(2) Cons.prems(2) by (cases js) (auto simp: next_prio_into_def)
    have "push_search k (re_task_id (qready k ! e)) prev nxt (Some (prio k e)) np =
      push_search k (re_task_id (qready k ! e)) j (re_next (qready k ! j)) (Some (prio k e)) (next_prio_into k (re_next (qready k ! j)) np)"
      using True Cons.prems(3) unfolding nxt by (subst push_search.simps) simp
    then show ?thesis using Cons.IH [OF nxt(2) _ Cons.prems(3) np'] Cons.prems(2) True by simp
  next
    case False
    then show ?thesis unfolding nxt by (subst push_search.simps) simp
  qed
qed

section \<open>Pushing refines insertion\<close>

lemma same_ids:
  assumes "tasks k' = tasks k" "\<And>i. re_task_id (qready k' ! i) = re_task_id (qready k ! i)"
  shows "slot_ok k' = slot_ok k" "prio k' = prio k"
proof -
  have "slot_ok k' i = slot_ok k i" "prio k' i = prio k i" for i
    unfolding slot_ok_def prio_def assms by (rule refl)+
  then show "slot_ok k' = slot_ok k" "prio k' = prio k" by auto
qed

lemma re_upd_sel [simp]:
  "tasks (re_upd i f k) = tasks k" "qready_head (re_upd i f k) = qready_head k" "n_ready (re_upd i f k) = n_ready k"
  "qblocked (re_upd i f k) = qblocked k" "current_slot (re_upd i f k) = current_slot k"
  "length (qready (re_upd i f k)) = length (qready k)"
  by (simp_all add: re_upd_def)

lemma re_upd_nth:
  "i < length (qready k) \<Longrightarrow> qready (re_upd i f k) ! j = (if j = i then f (qready k ! i) else qready k ! j)"
  by (simp add: re_upd_def nth_list_update)

lemma re_upd_nth_other [simp]: "j \<noteq> i \<Longrightarrow> qready (re_upd i f k) ! j = qready k ! j"
  by (simp add: re_upd_def)

lemma re_upd_ids:
  assumes "\<And>r. re_task_id (f r) = re_task_id r"
  shows "re_task_id (qready (re_upd i f k) ! j) = re_task_id (qready k ! j)"
proof (cases "i < length (qready k) \<and> j = i")
  case True
  then show ?thesis by (simp add: re_upd_nth assms)
next
  case False
  then have "qready (re_upd i f k) ! j = qready k ! j" by (auto simp: re_upd_def list_update_beyond)
  then show ?thesis by simp
qed

lemma path_re_upd_other: "i \<notin> set is \<Longrightarrow> path (qready (re_upd i f k)) p is q \<longleftrightarrow> path (qready k) p is q"
  by (simp add: re_upd_def path_update)

lemma path_re_upd_prev:
  assumes "\<And>r. re_next (f r) = re_next r"
  shows "path (qready (re_upd i f k)) p is q \<longleftrightarrow> path (qready k) p is q"
proof (cases "i < length (qready k)")
  case True
  show ?thesis using path_update_prev [OF assms True] by (simp add: re_upd_def)
next
  case False
  then show ?thesis by (simp add: re_upd_def list_update_beyond)
qed

lemma push_front_sel [simp]:
  "tasks (push_front e k) = tasks k" "n_ready (push_front e k) = n_ready k" "qready_head (push_front e k) = Some e"
  "qblocked (push_front e k) = qblocked k" "current_slot (push_front e k) = current_slot k"
  "qready (push_front e k) = qready (re_upd e (\<lambda>r. r\<lparr>re_prev := None, re_next := qready_head k\<rparr>) k)"
  by (simp_all add: push_front_def Let_def)

lemma link_between_sel [simp]:
  "tasks (link_between e p n k) = tasks k" "n_ready (link_between e p n k) = n_ready k"
  "qready_head (link_between e p n k) = qready_head k" "length (qready (link_between e p n k)) = length (qready k)"
  "qblocked (link_between e p n k) = qblocked k" "current_slot (link_between e p n k) = current_slot k"
  by (simp_all add: link_between_def Let_def split: option.split)

lemma link_between_ids: "re_task_id (qready (link_between e p n k) ! i) = re_task_id (qready k ! i)"
  unfolding link_between_def Let_def by (cases n) (simp_all add: re_upd_ids)

lemma link_between_path:
  assumes "path (qready k) h (us @ p # vs) None" "e \<notin> set (us @ p # vs)" "distinct (us @ p # vs)"
    "p < length (qready k)" "e < length (qready k)"
    "n = (case vs of [] \<Rightarrow> None | j # _ \<Rightarrow> Some j)"
  shows "path (qready (link_between e p n k)) h (us @ p # e # vs) None"
proof -
  let ?k1 = "re_upd e (\<lambda>r. r\<lparr>re_prev := Some p, re_next := n\<rparr>) k"
  let ?k2 = "re_upd p (\<lambda>r. r\<lparr>re_next := Some e\<rparr>) ?k1"
  have ep: "e \<noteq> p" using assms(2) by auto
  obtain r where r: "path (qready k) h us r" "path (qready k) r (p # vs) None"
    using assms(1) unfolding path_append by blast
  have vs: "path (qready k) n vs None" using r(2) path_None_head [of "qready k" "re_next (qready k ! p)" vs] assms(6) by simp
  have "path (qready ?k2) h us r" using r(1) assms(2,3) by (simp add: path_re_upd_other)
  moreover have "path (qready ?k2) n vs None" using vs assms(2,3) by (simp add: path_re_upd_other)
  ultimately have p2: "path (qready ?k2) h (us @ p # e # vs) None"
    using r(2) ep assms(4,5) by (auto simp: path_append re_upd_nth)
  show ?thesis unfolding link_between_def Let_def
    by (cases n) (use p2 in \<open>simp_all add: path_re_upd_prev\<close>)
qed

lemma link_between_head_prev:
  assumes "h \<noteq> e" "n \<noteq> Some h" "p < length (qready k)"
  shows "re_prev (qready (link_between e p n k) ! h) = re_prev (qready k ! h)"
  unfolding link_between_def Let_def
  by (cases n) (use assms in \<open>auto simp: re_upd_nth\<close>)

lemma rq_ok_transfer:
  assumes "rq_ok k is" "tasks k' = tasks k" "\<And>i. re_task_id (qready k' ! i) = re_task_id (qready k ! i)"
    "length (qready k') = 8" "path (qready k') (qready_head k') is' None" "n_ready k' = length is'" "distinct is'"
    "\<And>i. i \<in> set is' \<Longrightarrow> slot_ok k i \<and> t_state (tasks k ! i) = TS_READY"
    "sorted_wrt (\<lambda>i j. prio k j \<le> prio k i) is'"
    "\<And>i. qready_head k' = Some i \<Longrightarrow> re_prev (qready k' ! i) = None"
  shows "rq_ok k' is'"
  using assms(2,4-10) rq_okD(2) [OF assms(1)]
  unfolding rq_ok_def same_ids [OF assms(2,3)] by simp

lemma push_front_ok:
  assumes ok: "rq_ok k is" and e: "slot_ok k e" "e \<notin> set is" "t_state (tasks k ! e) = TS_READY"
    and hd: "is = [] \<or> prio k (hd is) < prio k e"
  shows "rq_ok ((push_front e k)\<lparr>n_ready := n_ready k + 1\<rparr>) (e # is)"
proof (rule rq_ok_transfer [OF ok])
  have l: "e < length (qready k)" using rq_okD(1) [OF ok] slot_okD(1) [OF e(1)] by simp
  show "path (qready ((push_front e k)\<lparr>n_ready := n_ready k + 1\<rparr>)) (qready_head ((push_front e k)\<lparr>n_ready := n_ready k + 1\<rparr>)) (e # is) None"
    using rq_okD(3) [OF ok] e(2) l by (simp add: re_upd_nth path_re_upd_other)
  show "re_prev (qready ((push_front e k)\<lparr>n_ready := n_ready k + 1\<rparr>) ! i) = None"
    if "qready_head ((push_front e k)\<lparr>n_ready := n_ready k + 1\<rparr>) = Some i" for i
    using that l by (simp add: re_upd_nth)
  show "sorted_wrt (\<lambda>i j. prio k j \<le> prio k i) (e # is)"
    using rq_okD(8) [OF ok] hd by (cases "is") fastforce+
qed (use rq_okD [OF ok] e in \<open>auto simp: re_upd_ids\<close>)

lemma push_link_ok:
  assumes ok: "rq_ok k (h # is)" and e: "slot_ok k e" "e \<notin> set (h # is)" "t_state (tasks k ! e) = TS_READY"
    and hd: "prio k e \<le> prio k h"
    and p: "p = last (h # takeWhile (\<lambda>i. prio k e \<le> prio k i) is)"
    and n: "n = (case dropWhile (\<lambda>i. prio k e \<le> prio k i) is of [] \<Rightarrow> None | j # _ \<Rightarrow> Some j)"
  shows "rq_ok ((link_between e p n k)\<lparr>n_ready := n_ready k + 1\<rparr>) (insert_prio k e (h # is))"
proof (rule rq_ok_transfer [OF ok])
  let ?P = "\<lambda>i. prio k e \<le> prio k i"
  define us vs where "us = butlast (h # takeWhile ?P is)" and "vs = dropWhile ?P is"
  have tw: "h # takeWhile ?P is = us @ [p]" unfolding us_def p by (rule append_butlast_last_id [symmetric]) simp
  have "h # is = (h # takeWhile ?P is) @ vs" unfolding vs_def by simp
  then have split: "h # is = us @ p # vs" unfolding tw by simp
  have ins: "insert_prio k e (h # is) = us @ p # e # vs"
  proof -
    have "insert_prio k e (h # is) = (h # takeWhile ?P is) @ e # vs" using hd by (simp add: insert_prio_def vs_def)
    then show ?thesis unfolding tw by simp
  qed
  have len: "length (qready k) = 8" by (rule rq_okD(1) [OF ok])
  have "slot_ok k p" using rq_okD(6) [OF ok, unfolded split] by simp
  then have l: "e < length (qready k)" "p < length (qready k)" using slot_okD(1) [OF e(1)] slot_okD(1) [of k p] len by simp_all
  show "path (qready ((link_between e p n k)\<lparr>n_ready := n_ready k + 1\<rparr>)) (qready_head ((link_between e p n k)\<lparr>n_ready := n_ready k + 1\<rparr>))
      (insert_prio k e (h # is)) None"
    unfolding ins using link_between_path [of k "qready_head k" us p vs e n] rq_okD(3,5) [OF ok, unfolded split] e(2) [unfolded split] l n
    by (simp add: vs_def)
  have "n \<noteq> Some h"
  proof
    assume "n = Some h"
    then have "h \<in> set vs" unfolding n vs_def by (auto split: list.splits dest: sym)
    then show False using rq_okD(5) [OF ok] set_dropWhileD unfolding vs_def by fastforce
  qed
  then show "re_prev (qready ((link_between e p n k)\<lparr>n_ready := n_ready k + 1\<rparr>) ! i) = None"
    if "qready_head ((link_between e p n k)\<lparr>n_ready := n_ready k + 1\<rparr>) = Some i" for i
    using that rq_ok_head [OF ok] rq_okD(9) [OF ok] e(2) l(2) by (simp add: link_between_head_prev)
  show "sorted_wrt (\<lambda>i j. prio k j \<le> prio k i) (insert_prio k e (h # is))"
    by (rule insert_prio_sorted [OF rq_okD(8) [OF ok]])
  show "distinct (insert_prio k e (h # is))" by (rule insert_prio_distinct [OF rq_okD(5) [OF ok] e(2)])
  show "slot_ok k i \<and> t_state (tasks k ! i) = TS_READY" if "i \<in> set (insert_prio k e (h # is))" for i
    using that rq_okD(6,7) [OF ok] e unfolding set_insert_prio by blast
  show "n_ready ((link_between e p n k)\<lparr>n_ready := n_ready k + 1\<rparr>) = length (insert_prio k e (h # is))"
    using rq_okD(4) [OF ok] by simp
qed (simp_all add: link_between_ids rq_okD(1) [OF ok])

lemma push_refines:
  assumes ok: "rq_ok k is" and e: "slot_ok k e" "e \<notin> set is" "t_state (tasks k ! e) = TS_READY"
  shows "\<exists>k'. push_ready_task (Some e) k = krun_return (True, k') \<and> rq_ok k' (insert_prio k e is) \<and>
    tasks k' = tasks k \<and> current_slot k' = current_slot k \<and> qblocked k' = qblocked k \<and>
    (\<forall>i. re_task_id (qready k' ! i) = re_task_id (qready k ! i))"
proof -
  have n: "n_ready k \<noteq> MAX_TASKS" using rq_ok_length [OF ok e(2) slot_okD(1) [OF e(1)]] rq_okD(4) [OF ok] by (simp add: MAX_TASKS_def)
  show ?thesis
  proof (cases "is")
    case Nil
    then have "n_ready k = 0" using rq_okD(4) [OF ok] by simp
    then show ?thesis using n push_front_ok [OF ok e] Nil by (simp add: push_ready_task_def insert_prio_def re_upd_ids)
  next
    case (Cons h js)
    have h: "slot_ok k h" "qready_head k = Some h" "0 < n_ready k" using rq_okD(4,6) [OF ok] rq_ok_head [OF ok] by (simp_all add: Cons)
    show ?thesis
    proof (cases "prio k h < prio k e")
      case True
      then show ?thesis using n h push_front_ok [OF ok e] e(1) by (simp add: push_ready_task_def insert_prio_Cons Cons Let_def re_upd_ids)
    next
      case False
      let ?P = "\<lambda>j. prio k e \<le> prio k j"
      define p nn where "p = last (h # takeWhile ?P js)"
        and "nn = (case dropWhile ?P js of [] \<Rightarrow> None | j # _ \<Rightarrow> Some j)"
      have pth: "path (qready k) (re_next (qready k ! h)) js None" using rq_okD(3) [OF ok] by (simp add: Cons)
      have np: "next_prio_into k (re_next (qready k ! h)) None = Some (prio k (hd js))" if "js \<noteq> []"
        using that pth rq_okD(6) [OF ok] by (cases js) (auto simp: next_prio_into_def Cons)
      have "push_search k (re_task_id (qready k ! e)) h (re_next (qready k ! h)) (Some (prio k e))
          (next_prio_into k (re_next (qready k ! h)) None) = Some (Inr (p, nn))"
        unfolding p_def nn_def using rq_okD(6) [OF ok]
        by (intro push_search_path [OF pth _ e(1)] np) (simp_all add: Cons)
      then have "push_ready_task (Some e) k = krun_return (True, (link_between e p nn k)\<lparr>n_ready := n_ready k + 1\<rparr>)"
        using False n h e(1) by (simp add: push_ready_task_def Let_def)
      moreover have "rq_ok ((link_between e p nn k)\<lparr>n_ready := n_ready k + 1\<rparr>) (insert_prio k e (h # js))"
        using push_link_ok [OF ok [unfolded Cons] e(1) e(2) [unfolded Cons] e(3) _ p_def nn_def] False by simp
      ultimately show ?thesis by (simp add: Cons link_between_ids)
    qed
  qed
qed

end
