(* ===== verification/Kernel_Ready.thy ===== *)
theory Kernel_Ready
  imports Kernel_Queue
begin

text \<open>
  Removing the head of the ready queue, and the contract the scheduler and the interrupt
  handler rely on: a queue served by priority, and first in first out among equals.  The
  contract is a locale, interpreted on \<open>push_ready_task\<close> and \<open>remove_ready_task\<close>.
\<close>

section \<open>Removing the head\<close>

lemma remove_head_refines:
  assumes ok: "rq_ok k (h # is)"
  shows "\<exists>k'. remove_ready_task (Some h) k = (True, k') \<and> rq_ok k' is \<and> tasks k' = tasks k \<and>
    current_slot k' = current_slot k \<and> qblocked k' = qblocked k \<and> (\<forall>i. re_task_id (qready k' ! i) = re_task_id (qready k ! i))"
proof -
  note d = rq_okD [OF ok]
  let ?k1 = "k\<lparr>qready_head := re_next (qready k ! h)\<rparr>"
  let ?k2 = "case re_next (qready k ! h) of Some n \<Rightarrow> re_upd n (\<lambda>r. r\<lparr>re_prev := None\<rparr>) ?k1 | None \<Rightarrow> ?k1"
  let ?k3 = "(re_upd h (\<lambda>r. r\<lparr>re_prev := None, re_next := None\<rparr>) ?k2)\<lparr>n_ready := sub32 (n_ready k) 1\<rparr>"
  have hd: "qready_head k = Some h" "re_prev (qready k ! h) = None" using rq_ok_head [OF ok] d(9) by simp_all
  have nxt: "path (qready k) (re_next (qready k ! h)) is None" using d(3) by simp
  have rm: "remove_ready_task (Some h) k = (True, ?k3)"
    by (cases "re_next (qready k ! h)") (simp_all add: remove_ready_task_def Let_def hd)
  have len: "length is < 8" "h < 8"
  proof -
    have "slot_ok k h" using d(6) by simp
    then show "h < 8" by (rule slot_okD(1))
    have "set is \<subseteq> {..<8} - {h}" using d(5,6) by (auto dest: slot_okD(1))
    then have "card (set is) \<le> card ({..<8} - {h})" by (intro card_mono) simp_all
    then show "length is < 8" using d(5) \<open>h < 8\<close> by (simp add: distinct_card)
  qed
  have sel: "tasks ?k2 = tasks k" "current_slot ?k2 = current_slot k" "qblocked ?k2 = qblocked k"
    "length (qready ?k2) = length (qready k)" "qready_head ?k2 = re_next (qready k ! h)"
    by (simp_all split: option.split)
  have ids: "re_task_id (qready ?k3 ! i) = re_task_id (qready k ! i)" for i
    by (simp add: re_upd_ids split: option.split)
  have h: "h \<notin> set is" using d(5) by simp
  have "rq_ok ?k3 is"
  proof (rule rq_ok_transfer [OF ok _ ids])
    have "path (qready ?k2) (re_next (qready k ! h)) is None"
      using nxt by (cases "re_next (qready k ! h)") (simp_all add: path_re_upd_prev)
    then show "path (qready ?k3) (qready_head ?k3) is None" using h sel(5) by (simp add: path_re_upd_other)
    show "n_ready ?k3 = length is" using d(4) len by (simp add: sub32_def W32_def)
    show "re_prev (qready ?k3 ! i) = None" if "qready_head ?k3 = Some i" for i
    proof -
      have n: "re_next (qready k ! h) = Some i" using that by (simp split: option.splits)
      then have "i \<in> set is" using path_None_head [OF nxt] by (auto split: list.splits)
      then have "i < length (qready k)" "i \<noteq> h" using d(1,6) h slot_okD(1) by auto
      then show ?thesis by (simp add: n re_upd_nth)
    qed
  qed (use d sel in \<open>simp_all\<close>)
  then show ?thesis using rm sel ids by (intro exI [of _ ?k3]) simp
qed

section \<open>The contract\<close>

text \<open>Pushing a list of entries one after the other.\<close>

fun push_all :: "(nat \<Rightarrow> 's \<Rightarrow> (bool \<times> 's) krun) \<Rightarrow> nat list \<Rightarrow> 's \<Rightarrow> 's krun" where
  "push_all push [] st = krun_return st"
| "push_all push (e # es) st = krun_bind (push e st) (\<lambda>(ok, st'). push_all push es st')"

text \<open>The slots in the order in which the queue hands them out.\<close>

fun drain :: "('s \<Rightarrow> nat option) \<Rightarrow> (nat \<Rightarrow> 's \<Rightarrow> bool \<times> 's) \<Rightarrow> nat \<Rightarrow> 's \<Rightarrow> nat list" where
  "drain front pop 0 st = []"
| "drain front pop (Suc n) st =
     (case front st of None \<Rightarrow> [] | Some e \<Rightarrow> e # drain front pop n (snd (pop e st)))"

locale ready_queue =
  fixes holds :: "'s \<Rightarrow> nat list \<Rightarrow> bool"
    and ready :: "'s \<Rightarrow> nat \<Rightarrow> bool"
    and rank :: "'s \<Rightarrow> nat \<Rightarrow> nat"
    and front :: "'s \<Rightarrow> nat option"
    and push :: "nat \<Rightarrow> 's \<Rightarrow> (bool \<times> 's) krun"
    and pop :: "nat \<Rightarrow> 's \<Rightarrow> bool \<times> 's"
  assumes push_law: "holds st is \<Longrightarrow> ready st e \<Longrightarrow> e \<notin> set is \<Longrightarrow>
      \<exists>st'. push e st = krun_return (True, st') \<and> ready st' = ready st \<and> rank st' = rank st \<and>
        holds st' (takeWhile (\<lambda>i. rank st e \<le> rank st i) is @ e # dropWhile (\<lambda>i. rank st e \<le> rank st i) is)"
    and pop_law: "holds st (e # is) \<Longrightarrow> \<exists>st'. pop e st = (True, st') \<and> holds st' is"
    and front_law: "holds st is \<Longrightarrow> front st = (case is of [] \<Rightarrow> None | e # _ \<Rightarrow> Some e)"
    and sorted_law: "holds st is \<Longrightarrow> sorted_wrt (\<lambda>i j. rank st j \<le> rank st i) is"
begin

lemma filter_insert:
  "filter (\<lambda>i. rank st i = r) (takeWhile (\<lambda>i. rank st e \<le> rank st i) is @ e # dropWhile (\<lambda>i. rank st e \<le> rank st i) is) =
   filter (\<lambda>i. rank st i = r) is @ filter (\<lambda>i. rank st i = r) [e]" if "holds st is"
  using sorted_law [OF that]
proof (induction "is")
  case (Cons i "is")
  show ?case
  proof (cases "rank st e \<le> rank st i")
    case False
    then have "filter (\<lambda>i. rank st i = rank st e) is = []" using Cons.prems by (fastforce simp: filter_empty_conv)
    then show ?thesis using False by auto
  qed (use Cons in auto)
qed simp

lemma push_all_holds:
  "holds st is \<Longrightarrow> \<forall>e \<in> set es. ready st e \<Longrightarrow> distinct (is @ es) \<Longrightarrow>
   \<exists>st' js. push_all push es st = krun_return st' \<and> holds st' js \<and> rank st' = rank st \<and>
     set js = set is \<union> set es \<and> length js = length is + length es \<and>
     (\<forall>r. filter (\<lambda>i. rank st i = r) js = filter (\<lambda>i. rank st i = r) (is @ es))"
proof (induction es arbitrary: st "is")
  case (Cons e es)
  define js where "js = takeWhile (\<lambda>i. rank st e \<le> rank st i) is @ e # dropWhile (\<lambda>i. rank st e \<le> rank st i) is"
  obtain st1 where s: "push e st = krun_return (True, st1)" "ready st1 = ready st" "rank st1 = rank st" "holds st1 js"
    using push_law [OF Cons.prems(1), of e] Cons.prems(2,3) unfolding js_def by auto
  have "is = takeWhile (\<lambda>i. rank st e \<le> rank st i) is @ dropWhile (\<lambda>i. rank st e \<le> rank st i) is" by simp
  then have js: "set js = insert e (set is)" "length js = Suc (length is)"
    unfolding js_def by (metis Un_insert_right list.set(2) set_append, metis length_append length_Cons add_Suc_right)
  have "card (set js) = length js" using js Cons.prems(3) by (simp add: distinct_card)
  then have "distinct (js @ es)" using js(1) Cons.prems(3) by (auto intro: card_distinct)
  from Cons.IH [OF s(4) _ this] obtain st' ks where t: "push_all push es st1 = krun_return st'" "holds st' ks" "rank st' = rank st"
    "set ks = set js \<union> set es" "length ks = length js + length es" "\<forall>r. filter (\<lambda>i. rank st i = r) ks = filter (\<lambda>i. rank st i = r) (js @ es)"
    using Cons.prems(2) s(2,3) by auto
  have "filter (\<lambda>i. rank st i = r) js = filter (\<lambda>i. rank st i = r) is @ filter (\<lambda>i. rank st i = r) [e]" for r
    unfolding js_def by (rule filter_insert [OF Cons.prems(1)])
  then show ?case using s t js by (intro exI [of _ st'] exI [of _ ks]) (simp add: krun_simps)
qed (auto simp: krun_simps)

lemma drain_holds: "holds st is \<Longrightarrow> drain front pop (length is) st = is"
proof (induction "is" arbitrary: st)
  case (Cons e "is")
  then obtain st' where "pop e st = (True, st')" "holds st' is" using pop_law by blast
  then show ?case using Cons front_law [OF Cons.prems] by simp
qed simp

text \<open>What is pushed into an empty queue comes out by priority, first in first out among equals.\<close>

lemma served_in_order:
  assumes "holds st []" "\<forall>e \<in> set es. ready st e" "distinct es"
  shows "\<exists>st'. push_all push es st = krun_return st' \<and>
    set (drain front pop (length es) st') = set es \<and>
    sorted_wrt (\<lambda>i j. rank st j \<le> rank st i) (drain front pop (length es) st') \<and>
    (\<forall>r. filter (\<lambda>i. rank st i = r) (drain front pop (length es) st') = filter (\<lambda>i. rank st i = r) es)"
proof -
  obtain st' js where s: "push_all push es st = krun_return st'" "holds st' js" "rank st' = rank st" "set js = set es"
    "length js = length es" "\<forall>r. filter (\<lambda>i. rank st i = r) js = filter (\<lambda>i. rank st i = r) es"
    using push_all_holds [OF assms(1,2)] assms(3) by auto
  then show ?thesis using drain_holds [OF s(2)] sorted_law [OF s(2)] by auto
qed

end

section \<open>The kernel's ready queue provides it\<close>

interpretation kready: ready_queue rq_ok "\<lambda>k e. slot_ok k e \<and> t_state (tasks k ! e) = TS_READY" prio qready_head
  "\<lambda>e. push_ready_task (Some e)" "\<lambda>e. remove_ready_task (Some e)"
proof unfold_locales
  fix k "is" e
  assume ok: "rq_ok k is" and r: "slot_ok k e \<and> t_state (tasks k ! e) = TS_READY" and e: "e \<notin> set is"
  show "\<exists>k'. push_ready_task (Some e) k = krun_return (True, k') \<and>
      (\<lambda>e. slot_ok k' e \<and> t_state (tasks k' ! e) = TS_READY) = (\<lambda>e. slot_ok k e \<and> t_state (tasks k ! e) = TS_READY) \<and>
      prio k' = prio k \<and>
      rq_ok k' (takeWhile (\<lambda>i. prio k e \<le> prio k i) is @ e # dropWhile (\<lambda>i. prio k e \<le> prio k i) is)"
  proof -
    obtain k' where k': "push_ready_task (Some e) k = krun_return (True, k')" "rq_ok k' (insert_prio k e is)" "tasks k' = tasks k"
      "\<And>i. re_task_id (qready k' ! i) = re_task_id (qready k ! i)"
      using push_refines [OF ok _ e] r by blast
    note same = same_ids [OF k'(3,4)]
    show ?thesis by (intro exI [of _ k'] conjI) (simp_all add: k'(1,3) same k'(2) [unfolded insert_prio_def])
  qed
qed (use remove_head_refines rq_ok_head rq_okD(8) in blast)+

end
