(* ===== verification/Kernel_Sched_Props.thy ===== *)
theory Kernel_Sched_Props
  imports Kernel_Ready
begin

text \<open>
  What \<open>schedule\<close> does: with the ready queue in order it runs the first of the queue; when
  the running task outranks every waiting one it does not, and corrupts the queue.
\<close>

section \<open>Changing a task\<close>

definition fresh_slice :: "task \<Rightarrow> nat" where
  "fresh_slice t = (if t_time_slice t = 0 then add32 SCHED_QUANTUM_TICKS (mul32 (t_priority t) SCHED_PRIORITY_BONUS_TICKS) else t_time_slice t)"

lemma task_upd_sel [simp]:
  "qready (task_upd i f k) = qready k" "qready_head (task_upd i f k) = qready_head k" "n_ready (task_upd i f k) = n_ready k"
  "qblocked (task_upd i f k) = qblocked k" "current_slot (task_upd i f k) = current_slot k"
  "length (tasks (task_upd i f k)) = length (tasks k)" "kmem (task_upd i f k) = kmem k" "global_heap (task_upd i f k) = global_heap k"
  by (simp_all add: task_upd_def)

lemma task_upd_nth: "i < length (tasks k) \<Longrightarrow> tasks (task_upd i f k) ! j = (if j = i then f (tasks k ! i) else tasks k ! j)"
  by (simp add: task_upd_def nth_list_update)

lemma task_upd_id:
  assumes "\<And>t. t_id (f t) = t_id t"
  shows "t_id (tasks (task_upd i f k) ! j) = t_id (tasks k ! j)"
proof (cases "i < length (tasks k)")
  case True
  then show ?thesis by (simp add: task_upd_nth assms)
qed (simp add: task_upd_def list_update_beyond)

lemma task_upd_get:
  assumes "\<And>t. t_id (f t) = t_id t"
  shows "get_task_of_id (task_upd i f k) tid = get_task_of_id k tid"
  unfolding get_task_of_id_def task_upd_id [OF assms] by (rule refl)

lemma task_upd_slot_ok:
  assumes "\<And>t. t_id (f t) = t_id t"
  shows "slot_ok (task_upd i f k) j = slot_ok k j"
  unfolding slot_ok_def task_upd_id [OF assms] task_upd_sel by (rule refl)

lemma rq_ok_task_upd:
  assumes ok: "rq_ok k is" and i: "i \<notin> set is" "i < 8" and f: "\<And>t. t_id (f t) = t_id t"
  shows "rq_ok (task_upd i f k) is"
proof -
  have same: "tasks (task_upd i f k) ! j = tasks k ! j" if "j \<in> set is" for j
    using that i rq_okD(2) [OF ok] by (auto simp: task_upd_nth)
  have "sorted_wrt (\<lambda>i' j. prio (task_upd i f k) j \<le> prio (task_upd i f k) i') is"
    using rq_okD(8) [OF ok] by (rule sorted_wrt_mono_rel [rotated]) (simp add: prio_def same)
  then show ?thesis using rq_okD [OF ok] same unfolding rq_ok_def task_upd_slot_ok [OF f] by simp
qed

lemma upd_task_of_slot:
  "slot_ok k i \<Longrightarrow> upd_task_of_id (re_task_id (qready k ! i)) f k = task_upd i f k"
  by (simp add: upd_task_of_id_def)

text \<open>Fields that the queue does not depend on.\<close>

lemma slot_ok_frame [simp]:
  "slot_ok (k\<lparr>current_slot := c\<rparr>) = slot_ok k" "slot_ok (k\<lparr>csr_mie := w\<rparr>) = slot_ok k" "slot_ok (k\<lparr>qblocked := b\<rparr>) = slot_ok k"
  "slot_ok (k\<lparr>n_ready := n\<rparr>) = slot_ok k" "prio (k\<lparr>current_slot := c\<rparr>) = prio k" "prio (k\<lparr>csr_mie := w\<rparr>) = prio k"
  "prio (k\<lparr>qblocked := b\<rparr>) = prio k" "prio (k\<lparr>n_ready := n\<rparr>) = prio k"
  by (rule same_ids; simp)+

lemma rq_ok_frame [simp]:
  "rq_ok (k\<lparr>current_slot := c\<rparr>) is = rq_ok k is" "rq_ok (k\<lparr>csr_mie := w\<rparr>) is = rq_ok k is"
  "rq_ok (k\<lparr>qblocked := b\<rparr>) is = rq_ok k is"
  by (simp_all add: rq_ok_def)

section \<open>Taking an entry\<close>

text \<open>What \<open>sched_take\<close> does once the entry of slot \<open>i\<close> is out of the queue.\<close>

definition run_slot :: "nat \<Rightarrow> kernel \<Rightarrow> kernel" where
  "run_slot i k = (task_upd i (\<lambda>t. t\<lparr>t_state := TS_RUNNING, t_time_slice := fresh_slice t\<rparr>)
     (k\<lparr>current_slot := i\<rparr>))\<lparr>csr_mie := requested_mie k\<rparr>"

lemma sched_take_removed:
  assumes rm: "remove_ready_task (Some i) k = (True, k1)" and i: "slot_ok k1 i" "i < length (tasks k1)"
    and rdy: "t_state (tasks k1 ! i) = TS_READY" and tid: "tid = re_task_id (qready k1 ! i)"
  shows "sched_take i tid k = krun_return (run_slot i k1)"
proof -
  let ?k2 = "k1\<lparr>current_slot := i\<rparr>" and ?k3 = "task_upd i (t_state_update (\<lambda>_. TS_RUNNING)) (k1\<lparr>current_slot := i\<rparr>)"
  have ok2: "slot_ok ?k2 i" using i(1) by simp
  have set: "set_current_task tid k1 = krun_return ?k2"
    using i(1) rdy by (simp add: set_current_task_def tid)
  have run: "set_task_running tid ?k2 = ?k3"
    using upd_task_of_slot [OF ok2] by (simp add: set_task_running_def tid)
  have ok3: "slot_ok ?k3 i" using ok2 by (simp add: task_upd_slot_ok)
  have q3: "qready ?k3 = qready k1" by simp
  have t3: "tasks ?k3 ! i = (tasks k1 ! i)\<lparr>t_state := TS_RUNNING\<rparr>" using i(2) by (simp add: task_upd_nth)
  have slice: "get_task_time_slice ?k3 tid = Some (t_time_slice (tasks k1 ! i))"
    "get_task_priority ?k3 tid = Some (t_priority (tasks k1 ! i))"
    using slot_ok_prio(2,4) [OF ok3] unfolding q3 by (simp_all add: tid prio_def t3)
  have upd: "set_task_time_slice tid n ?k3 = task_upd i (t_time_slice_update (\<lambda>_. n)) ?k3" for n
    using upd_task_of_slot [OF ok3] unfolding q3 by (simp add: set_task_time_slice_def tid)
  have twice: "task_upd i f (task_upd i g ?k2) = task_upd i (\<lambda>t. f (g t)) ?k2" for f g
    using i(2) by (simp add: task_upd_def)
  have here: "task_upd i f ?k2 = task_upd i g ?k2" if "f (tasks k1 ! i) = g (tasks k1 ! i)" for f g
    using that by (simp add: task_upd_def)
  show ?thesis
  proof (cases "t_time_slice (tasks k1 ! i) = 0")
    case True
    then show ?thesis
      unfolding sched_take_def rm prod.case set krun_basic run Let_def slice upd twice
      by (auto simp: krun_simps run_slot_def requested_mie_def fresh_slice_def intro!: here arg_cong [where f = "\<lambda>k. k\<lparr>csr_mie := _\<rparr>"])
  next
    case False
    then show ?thesis
      unfolding sched_take_def rm prod.case set krun_basic run Let_def slice
      by (auto simp: krun_simps run_slot_def requested_mie_def fresh_slice_def intro!: here arg_cong [where f = "\<lambda>k. k\<lparr>csr_mie := _\<rparr>"])
  qed
qed

lemma run_slot_sel [simp]:
  "qready (run_slot i k) = qready k" "qready_head (run_slot i k) = qready_head k" "n_ready (run_slot i k) = n_ready k"
  "qblocked (run_slot i k) = qblocked k" "current_slot (run_slot i k) = i" "csr_mie (run_slot i k) = requested_mie k"
  by (simp_all add: run_slot_def)

lemma run_slot_tasks:
  "i < length (tasks k) \<Longrightarrow> tasks (run_slot i k) ! j =
     (if j = i then (tasks k ! i)\<lparr>t_state := TS_RUNNING, t_time_slice := fresh_slice (tasks k ! i)\<rparr> else tasks k ! j)"
  by (simp add: run_slot_def task_upd_nth)

lemma rq_ok_run_slot:
  assumes "rq_ok k is" "i \<notin> set is" "i < 8"
  shows "rq_ok (run_slot i k) is"
proof -
  have "rq_ok (task_upd i (\<lambda>t. t\<lparr>t_state := TS_RUNNING, t_time_slice := fresh_slice t\<rparr>) (k\<lparr>current_slot := i\<rparr>)) is"
    by (rule rq_ok_task_upd) (use assms in simp_all)
  then show ?thesis by (simp add: run_slot_def)
qed

lemma sched_take_head:
  assumes ok: "rq_ok k (h # is)"
  shows "\<exists>k1. sched_take h (re_task_id (qready k ! h)) k = krun_return (run_slot h k1) \<and> rq_ok (run_slot h k1) is \<and>
    tasks k1 = tasks k \<and> qblocked k1 = qblocked k"
proof -
  obtain k1 where rm: "remove_ready_task (Some h) k = (True, k1)" "rq_ok k1 is" "tasks k1 = tasks k" "qblocked k1 = qblocked k"
    "\<And>i. re_task_id (qready k1 ! i) = re_task_id (qready k ! i)"
    using remove_head_refines [OF ok] by blast
  have h: "slot_ok k h" "t_state (tasks k ! h) = TS_READY" "h \<notin> set is" using rq_okD(5-7) [OF ok] by auto
  have "slot_ok k1 h" "h < 8" using h(1) same_ids(1) [OF rm(3,5)] slot_okD(1) by auto
  then have "sched_take h (re_task_id (qready k ! h)) k = krun_return (run_slot h k1)"
    using rm h(2) rq_okD(2) [OF ok] by (intro sched_take_removed) simp_all
  then show ?thesis using rq_ok_run_slot [OF rm(2) h(3) \<open>h < 8\<close>] rm(3,4) by blast
qed

section \<open>A scheduling decision\<close>

lemma sched_loop_head:
  assumes ok: "rq_ok k (h # is)" and cur: "re_task_id (qready k ! h) \<noteq> current_task k \<or> is = []"
  shows "\<exists>k1. sched_loop 0 (qready_head k) k = krun_return (run_slot h k1) \<and> rq_ok (run_slot h k1) is \<and>
    tasks k1 = tasks k \<and> qblocked k1 = qblocked k"
proof -
  have h: "slot_ok k h" "t_state (tasks k ! h) = TS_READY" using rq_okD(6,7) [OF ok] by auto
  have "re_next (qready k ! h) = None" if "is = []" using rq_okD(3) [OF ok] that by simp
  then have "sched_prefer 0 h k = (0, h)" using cur by (auto simp: sched_prefer_def)
  moreover have "qready_head k = Some h" using rq_ok_head [OF ok] by simp
  ultimately have "sched_loop 0 (qready_head k) k = sched_take h (re_task_id (qready k ! h)) k"
    using h by (simp add: Let_def)
  then show ?thesis using sched_take_head [OF ok] by simp
qed

text \<open>The running task of slot \<open>c\<close> made ready again, before it is queued.\<close>

definition requeued :: "nat \<Rightarrow> kernel \<Rightarrow> kernel" where
  "requeued c k = task_upd c (t_state_update (\<lambda>_. TS_READY)) k"

lemma requeued_sel [simp]:
  "qready (requeued c k) = qready k" "qready_head (requeued c k) = qready_head k" "n_ready (requeued c k) = n_ready k"
  "qblocked (requeued c k) = qblocked k" "current_slot (requeued c k) = current_slot k"
  "length (tasks (requeued c k)) = length (tasks k)" "slot_ok (requeued c k) = slot_ok k"
  by (simp_all add: requeued_def task_upd_slot_ok fun_eq_iff)

lemma requeued_tasks:
  "c < length (tasks k) \<Longrightarrow> tasks (requeued c k) ! i = (if i = c then (tasks k ! c)\<lparr>t_state := TS_READY\<rparr> else tasks k ! i)"
  by (simp add: requeued_def task_upd_nth)

lemma requeued_prio:
  assumes "c < length (tasks k)"
  shows "prio (requeued c k) = prio k" "insert_prio (requeued c k) = insert_prio k"
proof -
  show "prio (requeued c k) = prio k" using assms by (auto simp: prio_def requeued_tasks fun_eq_iff)
  then show "insert_prio (requeued c k) = insert_prio k" by (simp add: insert_prio_def fun_eq_iff)
qed

lemma rq_ok_requeued: "\<lbrakk>rq_ok k is; slot_ok k c; c \<notin> set is\<rbrakk> \<Longrightarrow> rq_ok (requeued c k) is"
  unfolding requeued_def by (rule rq_ok_task_upd) (auto dest: slot_okD(1))

lemma schedule_running:
  assumes cur: "current_slot k = c" "slot_ok k c" "t_state (tasks k ! c) = TS_RUNNING" and len: "length (tasks k) = 8"
  shows "schedule k = krun_bind (push_ready_task (Some c) (requeued c k)) (\<lambda>(ok, k2).
    if ok then (if n_ready k2 > 0 then sched_loop 0 (qready_head k2) k2 else krun_fail (Panic ''Panic: invalid task queue state''))
    else krun_fail (Panic ''Panic: Failed to push task into queue''))"
proof -
  have tid: "current_task k = re_task_id (qready k ! c)" using cur by (simp add: current_task_def)
  have k1: "set_task_ready (re_task_id (qready k ! c)) k = requeued c k"
    using upd_task_of_slot [OF cur(2)] by (simp add: set_task_ready_def requeued_def)
  have "slot_ok (requeued c k) c" using cur(2) by simp
  from slot_ok_prio(3) [OF this] have st: "get_task_state (requeued c k) (re_task_id (qready k ! c)) = Some TS_READY"
    using slot_okD(1) [OF cur(2)] len by (simp add: requeued_tasks)
  have sl: "TASK_SLOT (re_task_id (qready k ! c)) = c" using cur(2) by simp
  show ?thesis
    unfolding schedule_def tid Let_def slot_ok_prio(3) [OF cur(2)] option.case cur(3) k1 st sl
    by (cases "push_ready_task (Some c) (requeued c k)" rule: krun_exhaust) (simp_all add: krun_simps st sl split: prod.split)
qed

lemma schedule_blocked:
  assumes cur: "current_slot k = c" "slot_ok k c" "t_state (tasks k ! c) = TS_BLOCKED_IRQ"
  shows "schedule k = (if n_ready k > 0 then sched_loop 0 (qready_head k) k else krun_fail (Panic ''Panic: invalid task queue state''))"
proof -
  have tid: "current_task k = re_task_id (qready k ! c)" using cur by (simp add: current_task_def)
  show ?thesis
    unfolding schedule_def tid Let_def slot_ok_prio(3) [OF cur(2)] option.case cur(3) by (simp add: krun_simps)
qed

definition outranks_none :: "kernel \<Rightarrow> nat \<Rightarrow> nat list \<Rightarrow> bool" where
  "outranks_none k c is \<longleftrightarrow> (case is of [] \<Rightarrow> True | h # _ \<Rightarrow> prio k c \<le> prio k h)"

lemma insert_behind:
  "outranks_none k c is \<Longrightarrow> \<exists>h js. insert_prio k c is = h # js \<and> (h \<noteq> c \<or> js = []) \<and> (is = [] \<and> h = c \<or> is \<noteq> [] \<and> h = hd is)" if "c \<notin> set is"
  using that by (cases "is") (auto simp: outranks_none_def insert_prio_def)

text \<open>The running task goes behind its equals, and the first of the queue runs.\<close>

lemma schedule_requeues:
  assumes ok: "rq_ok k is" and cur: "slot_ok k c" "c \<notin> set is" "current_slot k = c" "t_state (tasks k ! c) = TS_RUNNING"
    and rank: "outranks_none k c is"
  shows "\<exists>k3 h js. insert_prio k c is = h # js \<and> schedule k = krun_return (run_slot h k3) \<and> rq_ok (run_slot h k3) js \<and>
    tasks k3 = tasks (requeued c k) \<and> qblocked k3 = qblocked k"
proof -
  have len: "c < length (tasks k)" using slot_okD(1) [OF cur(1)] rq_okD(2) [OF ok] by simp
  note ok1 = rq_ok_requeued [OF ok cur(1,2)]
  have c1: "slot_ok (requeued c k) c" using cur(1) by simp
  obtain k2 where k2: "push_ready_task (Some c) (requeued c k) = krun_return (True, k2)" "rq_ok k2 (insert_prio k c is)"
    "tasks k2 = tasks (requeued c k)" "current_slot k2 = c" "qblocked k2 = qblocked k"
    "\<And>i. re_task_id (qready k2 ! i) = re_task_id (qready k ! i)"
    using push_refines [OF ok1 c1 cur(2)] len cur(3) unfolding requeued_prio(2) [OF len] by (auto simp: requeued_tasks)
  obtain h js where h: "insert_prio k c is = h # js" "h \<noteq> c \<or> js = []" using insert_behind [OF cur(2) rank] by blast
  have "slot_ok k2 h" "slot_ok k2 c" using rq_okD(6) [OF k2(2)] set_insert_prio [of k c "is"] h(1) by auto
  moreover have "current_task k2 = re_task_id (qready k2 ! c)"
    using slot_okD(3) [OF c1] k2(3,4,6) by (simp add: current_task_def)
  ultimately have "re_task_id (qready k2 ! h) \<noteq> current_task k2 \<or> js = []" using slot_okD(4) h(2) by metis
  from sched_loop_head [OF k2(2) [unfolded h(1)] this] obtain k3 where k3:
    "sched_loop 0 (qready_head k2) k2 = krun_return (run_slot h k3)" "rq_ok (run_slot h k3) js" "tasks k3 = tasks k2" "qblocked k3 = qblocked k2"
    by blast
  have "0 < n_ready k2" using rq_okD(4) [OF k2(2)] by (simp add: h(1))
  then have "schedule k = krun_return (run_slot h k3)"
    using k3(1) k2(1) by (simp add: schedule_running [OF cur(3,1,4) rq_okD(2) [OF ok]] krun_simps)
  then show ?thesis using h(1) k2(3,5) k3(2-4) by auto
qed

lemma insert_prio_highest:
  assumes ok: "rq_ok k is" and rank: "outranks_none k c is" and h: "insert_prio k c is = h # js" and i: "i \<in> set (c # is)"
  shows "prio k i \<le> prio k h"
proof (cases "is")
  case Nil
  then show ?thesis using h i by (simp add: insert_prio_def)
next
  case (Cons g gs)
  then have "h = g" using rank h by (auto simp: insert_prio_def outranks_none_def)
  then show ?thesis using i rank rq_okD(8) [OF ok] by (auto simp: Cons outranks_none_def)
qed

lemma schedule_runs_highest:
  assumes ok: "rq_ok k is" and cur: "slot_ok k c" "c \<notin> set is" "current_slot k = c" "t_state (tasks k ! c) = TS_RUNNING"
    and rank: "outranks_none k c is"
  shows "\<exists>k' h js. insert_prio k c is = h # js \<and> schedule k = krun_return k' \<and> rq_ok k' js \<and>
    current_slot k' = h \<and> (\<forall>i \<in> set (c # is). prio k i \<le> prio k h) \<and>
    tasks k' ! h = (tasks k ! h)\<lparr>t_state := TS_RUNNING, t_time_slice := fresh_slice (tasks k ! h)\<rparr> \<and>
    (\<forall>i. i \<noteq> h \<longrightarrow> i \<noteq> c \<longrightarrow> tasks k' ! i = tasks k ! i) \<and>
    (h \<noteq> c \<longrightarrow> tasks k' ! c = (tasks k ! c)\<lparr>t_state := TS_READY\<rparr>) \<and> csr_mie k' = requested_mie k"
proof -
  obtain k3 h js where k3: "insert_prio k c is = h # js" "schedule k = krun_return (run_slot h k3)" "rq_ok (run_slot h k3) js"
    "tasks k3 = tasks (requeued c k)" "qblocked k3 = qblocked k"
    using schedule_requeues [OF ok cur rank] by blast
  have len: "c < length (tasks k)" using slot_okD(1) [OF cur(1)] rq_okD(2) [OF ok] by simp
  have "h \<in> set (c # is)" using set_insert_prio [of k c "is"] k3(1) by auto
  then have "h < length (tasks k3)" using len slot_okD(1) rq_okD(2,6) [OF ok] k3(4) by auto
  moreover have "requested_mie k3 = requested_mie k" using k3(5) by (simp add: requested_mie_def)
  ultimately show ?thesis using insert_prio_highest [OF ok rank k3(1)]
    by (intro exI [of _ "run_slot h k3"] exI [of _ h] exI [of _ js])
      (use k3 len in \<open>auto simp: run_slot_tasks requeued_tasks fresh_slice_def\<close>)
qed

text \<open>
  C3: when no waiting task has a lower priority than the running one at the head of the queue,
  \<open>schedule\<close> puts the running task behind all tasks of its own or a higher priority and runs
  the first of the queue: the chosen task has the highest priority of all ready ones, it alone
  becomes running with a non-expired quantum, the queue stays in order, and \<open>mie\<close> enables
  exactly the timer and the interrupts that blocked tasks wait for.
\<close>

theorem schedule_round_robin:
  assumes ok: "rq_ok k is" and cur: "slot_ok k c" "c \<notin> set is" "current_slot k = c" "t_state (tasks k ! c) = TS_RUNNING"
    and rank: "outranks_none k c is"
  shows "\<exists>k' h js. insert_prio k c is = h # js \<and> schedule k = krun_return k' \<and> rq_ok k' js \<and>
    current_slot k' = h \<and> (\<forall>i \<in> set (c # is). prio k i \<le> prio k h) \<and>
    tasks k' ! h = (tasks k ! h)\<lparr>t_state := TS_RUNNING, t_time_slice := fresh_slice (tasks k ! h)\<rparr> \<and>
    (\<forall>i. i \<noteq> h \<longrightarrow> i \<noteq> c \<longrightarrow> tasks k' ! i = tasks k ! i) \<and>
    (h \<noteq> c \<longrightarrow> tasks k' ! c = (tasks k ! c)\<lparr>t_state := TS_READY\<rparr>) \<and> csr_mie k' = requested_mie k"
  by (rule schedule_runs_highest [OF assms])

section \<open>A running task that outranks the queue\<close>

text \<open>The state of the entries after the running task \<open>c\<close> was pushed in front of \<open>h\<close>.\<close>

lemma push_in_front:
  assumes ok: "rq_ok k (h # is)" and c: "slot_ok k c" "c \<notin> set (h # is)" and rank: "prio k h < prio k c"
  shows "push_ready_task (Some c) k = krun_return (True, (push_front c k)\<lparr>n_ready := n_ready k + 1\<rparr>)"
proof -
  have "n_ready k \<noteq> MAX_TASKS"
    using rq_ok_length [OF ok c(2) slot_okD(1) [OF c(1)]] rq_okD(4) [OF ok] by (simp add: MAX_TASKS_def)
  moreover have "slot_ok k h" "qready_head k = Some h" "0 < n_ready k"
    using rq_okD(4,6) [OF ok] rq_ok_head [OF ok] by simp_all
  ultimately show ?thesis using rank c(1) by (simp add: push_ready_task_def Let_def)
qed

text \<open>Removing an entry that is not the head but has no back link, as \<open>push_ready_task\<close> left it.\<close>

lemma remove_second_stale:
  assumes "qready_head k = Some c" "h \<noteq> c" "re_prev (qready k ! h) = None" "h < length (qready k)" "c < length (qready k)"
    "re_next (qready k ! h) \<noteq> Some c" "re_next (qready k ! c) = Some h"
  shows "\<exists>k'. remove_ready_task (Some h) k = (True, k') \<and> qready_head k' = Some c \<and> re_next (qready k' ! c) = Some h \<and>
    re_next (qready k' ! h) = None \<and> n_ready k' = sub32 (n_ready k) 1 \<and> tasks k' = tasks k \<and>
    (\<forall>i. re_task_id (qready k' ! i) = re_task_id (qready k ! i)) \<and> qblocked k' = qblocked k \<and> current_slot k' = current_slot k"
proof (cases "re_next (qready k ! h)")
  case None
  then show ?thesis using assms
    by (intro exI conjI) (rule refl | simp add: remove_ready_task_def Let_def re_upd_nth re_upd_ids)+
next
  case (Some n)
  have "re_next (qready (re_upd n (\<lambda>r. r\<lparr>re_prev := None\<rparr>) k) ! c) = Some h"
    using Some assms by (cases "n = c") simp_all
  with Some show ?thesis using assms by (simp add: remove_ready_task_def Let_def re_upd_nth re_upd_ids)
qed

lemma stale_back_link:
  assumes ok: "rq_ok k (h # is)" and cur: "slot_ok k c" "c \<notin> set (h # is)"
  defines "k2 \<equiv> (push_front c k)\<lparr>n_ready := n_ready k + 1\<rparr>"
  shows "\<exists>k3. remove_ready_task (Some h) k2 = (True, k3) \<and> path (qready k3) (qready_head k3) [c, h] None \<and>
    n_ready k3 = length (h # is) \<and> tasks k3 = tasks k \<and> slot_ok k3 = slot_ok k \<and> re_task_id (qready k3 ! h) = re_task_id (qready k ! h)"
proof -
  note d = rq_okD [OF ok]
  have c8: "c < 8" "h \<noteq> c" "h < 8" using slot_okD(1) cur d(6) by auto
  have q2: "qready_head k2 = Some c" "re_next (qready k2 ! c) = Some h" "length (qready k2) = 8" "qready k2 ! h = qready k ! h"
    "tasks k2 = tasks k" "\<And>i. re_task_id (qready k2 ! i) = re_task_id (qready k ! i)"
    using c8 d(1) rq_ok_head [OF ok] by (simp_all add: k2_def re_upd_nth re_upd_ids)
  have nx: "re_next (qready k ! h) \<noteq> Some c"
    using d(3) path_None_head [of "qready k" "re_next (qready k ! h)" "is"] cur(2) by (auto split: list.splits)
  have "re_prev (qready k2 ! h) = None" using q2(4) d(9) rq_ok_head [OF ok] by simp
  then obtain k3 where k3: "remove_ready_task (Some h) k2 = (True, k3)" "qready_head k3 = Some c" "re_next (qready k3 ! c) = Some h"
    "re_next (qready k3 ! h) = None" "n_ready k3 = sub32 (n_ready k2) 1" "tasks k3 = tasks k2"
    "\<And>i. re_task_id (qready k3 ! i) = re_task_id (qready k2 ! i)"
    using remove_second_stale [of k2 c h] q2 c8 nx by auto
  have "length (h # is) < 8" by (rule rq_ok_length [OF ok cur(2) c8(1)])
  then have "n_ready k3 = length (h # is)" using k3(5) d(4) by (simp add: k2_def sub32_exact W32_val)
  then show ?thesis using k3 q2(5,6) same_ids(1) [of k3 k] by (intro exI [of _ k3]) simp
qed

text \<open>
  C38: when the running task outranks every waiting task, \<open>schedule\<close> runs the lower-priority head
  of the queue instead of it, and the queue is corrupted: the entry of the task that now runs
  stays linked behind the one that was put back, and every other waiting task is no longer
  reachable from \<open>qready_head\<close>, although \<open>n_ready\<close> still counts it.
\<close>

theorem schedule_loses_ready_tasks:
  assumes ok: "rq_ok k (h # is)" and cur: "slot_ok k c" "c \<notin> set (h # is)" "current_slot k = c" "t_state (tasks k ! c) = TS_RUNNING"
    and rank: "prio k h < prio k c"
  shows "\<exists>k'. schedule k = krun_return k' \<and> current_slot k' = h \<and> t_state (tasks k' ! h) = TS_RUNNING \<and>
    t_state (tasks k' ! c) = TS_READY \<and> path (qready k') (qready_head k') [c, h] None \<and> n_ready k' = length (h # is)"
proof -
  let ?k1 = "requeued c k"
  let ?k2 = "(push_front c ?k1)\<lparr>n_ready := n_ready ?k1 + 1\<rparr>"
  note d = rq_okD [OF ok]
  have l: "c < length (tasks k)" "h < length (tasks k)" using slot_okD(1) cur(1) d(2,6) by auto
  have hc: "h \<noteq> c" "slot_ok ?k1 h" "t_state (tasks k ! h) = TS_READY" "qready_head k = Some h" using cur(2) d(6,7) rq_ok_head [OF ok] by auto
  have c1: "slot_ok ?k1 c" using cur(1) by simp
  note ok1 = rq_ok_requeued [OF ok cur(1,2)]
  have push: "push_ready_task (Some c) ?k1 = krun_return (True, ?k2)"
    by (rule push_in_front [OF ok1 c1 cur(2)]) (simp add: requeued_prio(1) [OF l(1)] rank)
  obtain k3 where k3: "remove_ready_task (Some h) ?k2 = (True, k3)" "path (qready k3) (qready_head k3) [c, h] None"
    "n_ready k3 = length (h # is)" "tasks k3 = tasks ?k1" "slot_ok k3 = slot_ok ?k1" "re_task_id (qready k3 ! h) = re_task_id (qready k ! h)"
    using stale_back_link [OF ok1 c1 cur(2)] by auto
  have q2: "qready_head ?k2 = Some c" "re_next (qready ?k2 ! c) = Some h" "\<And>i. re_task_id (qready ?k2 ! i) = re_task_id (qready k ! i)"
    using l d(1,2) hc by (simp_all add: re_upd_nth re_upd_ids)
  have "current_task ?k2 = re_task_id (qready k ! c)" using cur l by (simp add: current_task_def requeued_tasks)
  then have "sched_prefer 0 c ?k2 = (1, h)" using q2(2,3) by (simp add: sched_prefer_def)
  moreover have "get_task_state ?k2 tid = get_task_state ?k1 tid" for tid
    by (simp add: get_task_state_def get_task_of_id_def Let_def)
  ultimately have "sched_loop 0 (Some c) ?k2 = sched_take h (re_task_id (qready k ! h)) ?k2"
    using slot_ok_prio(3) [OF hc(2)] q2(3) hc l by (simp add: Let_def requeued_tasks)
  also have "\<dots> = krun_return (run_slot h k3)"
    by (rule sched_take_removed [OF k3(1)]) (use k3(4-6) hc l in \<open>simp_all add: requeued_tasks\<close>)
  finally have "schedule k = krun_return (run_slot h k3)"
    using push q2(1) by (simp add: schedule_running [OF cur(3,1,4) d(2)] krun_simps)
  then show ?thesis using k3 hc l
    by (intro exI [of _ "run_slot h k3"]) (simp add: run_slot_tasks requeued_tasks)
qed

section \<open>A kernel with three tasks\<close>

text \<open>
  Slots 0 and 1 wait with priorities 0 and 5; slot 2 runs with priority \<open>p\<close>.
\<close>

definition demo_task :: "int \<Rightarrow> nat \<Rightarrow> task_state \<Rightarrow> task" where
  "demo_task tid p st =
     \<lparr>t_ctx = \<lparr>ctx_regs = replicate 32 (of_int tid), ctx_mstatus = 0, ctx_pc = 0\<rparr>, t_id = tid, t_stack_base = 0, t_stack_size = 0,
      t_heap = \<lparr>hd_head = 0, hd_max = 0, hd_size = 0, hd_total = 0\<rparr>, t_priority = p, t_time_slice = 3, t_state = st\<rparr>"

definition demo_kernel :: "nat \<Rightarrow> kernel" where
  "demo_kernel p =
     \<lparr>tasks = [demo_task 0 0 TS_READY, demo_task 257 5 TS_READY, demo_task 514 p TS_RUNNING,
        demo_task 0 0 TS_NOT_CREATED, demo_task 0 0 TS_NOT_CREATED, demo_task 0 0 TS_NOT_CREATED,
        demo_task 0 0 TS_NOT_CREATED, demo_task 0 0 TS_NOT_CREATED],
      current_slot = 2, n_task = 3, t_gen = 3,
      global_heap = \<lparr>hd_head = 0, hd_max = 0, hd_size = 0, hd_total = 0\<rparr>, kmem = Map.empty,
      qready = [\<lparr>re_task_id = 0, re_prev = Some 1, re_next = None\<rparr>, \<lparr>re_task_id = 257, re_prev = None, re_next = Some 0\<rparr>,
        \<lparr>re_task_id = 514, re_prev = None, re_next = None\<rparr>] @ replicate 5 \<lparr>re_task_id = 0, re_prev = None, re_next = None\<rparr>,
      qready_head = Some 1, n_ready = 2,
      qblocked = replicate 8 \<lparr>be_task_id = 0, be_wait_irq_mask = 0, be_blocked = False\<rparr>, csr_mie = 0\<rparr>"

lemma demo_sel [simp]:
  "tasks (demo_kernel p) ! 0 = demo_task 0 0 TS_READY" "tasks (demo_kernel p) ! Suc 0 = demo_task 257 5 TS_READY"
  "tasks (demo_kernel p) ! 2 = demo_task 514 p TS_RUNNING" "length (tasks (demo_kernel p)) = 8"
  "re_task_id (qready (demo_kernel p) ! 0) = 0" "re_task_id (qready (demo_kernel p) ! Suc 0) = 257"
  "re_task_id (qready (demo_kernel p) ! 2) = 514" "re_next (qready (demo_kernel p) ! 0) = None"
  "re_next (qready (demo_kernel p) ! Suc 0) = Some 0" "re_prev (qready (demo_kernel p) ! Suc 0) = None"
  "length (qready (demo_kernel p)) = 8" "qready_head (demo_kernel p) = Some 1" "n_ready (demo_kernel p) = 2"
  "current_slot (demo_kernel p) = 2"
  by (simp_all add: demo_kernel_def)

lemma demo_slots: "slot_ok (demo_kernel p) 0" "slot_ok (demo_kernel p) (Suc 0)" "slot_ok (demo_kernel p) 2"
  unfolding slot_ok_def by (simp_all add: demo_task_def TASK_SLOT_def)

lemma demo_ok: "rq_ok (demo_kernel p) [1, 0]"
  unfolding rq_ok_def using demo_slots [of p] by (simp add: prio_def demo_task_def)

theorem schedule_round_robin_witness:
  "\<exists>k'. schedule (demo_kernel 5) = krun_return k' \<and> current_slot k' = 1 \<and> rq_ok k' [2, 0]"
proof -
  have "insert_prio (demo_kernel 5) 2 [1, 0] = 1 # [2, 0]" by (simp add: insert_prio_def prio_def demo_task_def)
  moreover have "outranks_none (demo_kernel 5) 2 [1, 0]" by (simp add: outranks_none_def prio_def demo_task_def)
  ultimately show ?thesis
    using schedule_round_robin [OF demo_ok [of 5] demo_slots(3)] by (auto simp: demo_task_def)
qed

theorem schedule_loses_ready_tasks_witness:
  "\<exists>k'. schedule (demo_kernel 50) = krun_return k' \<and> current_slot k' = 1 \<and> t_state (tasks k' ! 2) = TS_READY \<and>
     path (qready k') (qready_head k') [2, 1] None \<and> n_ready k' = 2"
  using schedule_loses_ready_tasks [OF demo_ok [of 50] demo_slots(3)] by (auto simp: demo_task_def prio_def)

end
