(* ===== verification/Kernel_Queue_Props.thy ===== *)
theory Kernel_Queue_Props
  imports Kernel_Sched_Props "HOL-Library.Multiset"
begin

text \<open>
  The order in which the ready queue serves its tasks: the interpretation \<open>kready\<close> of the locale
  \<open>ready_queue\<close>, restated over the kernel's own definitions as a stable sort.
\<close>

text \<open>A list sorted by a key that keeps the order within each key is the stable sort.\<close>

lemma stable_sort_unique:
  fixes f :: "'a \<Rightarrow> int"
  assumes s: "sorted_wrt (\<lambda>i j. f i \<le> f j) ys" and r: "\<And>r. filter (\<lambda>i. f i = r) ys = filter (\<lambda>i. f i = r) xs"
  shows "ys = sort_key f xs"
proof -
  have "count (mset ys) x = count (mset xs) x" for x
  proof -
    have "count (mset zs) x = count (mset (filter (\<lambda>i. f i = f x) zs)) x" for zs by simp
    then show ?thesis using r [of "f x"] by metis
  qed
  then have "mset ys = mset xs" by (simp add: multiset_eq_iff)
  moreover have "sorted (map f ys)" using s by (simp add: sorted_wrt_map)
  moreover have "filter (\<lambda>x. f k = f x) ys = filter (\<lambda>x. f k = f x) xs" for k
    using r [of "f k"] by (simp add: eq_commute)
  ultimately show ?thesis by (intro properties_for_sort_key [symmetric]) simp_all
qed

text \<open>
  C12: whatever ready tasks are pushed into the empty ready queue, in any order, every push
  succeeds, and taking the head until the queue is empty serves exactly these tasks, by
  descending priority and, among tasks of the same priority, in the order of the pushes: the
  queue is a stable sort.
\<close>

theorem ready_queue_serves_in_order:
  assumes "rq_ok k []" "\<forall>e \<in> set es. slot_ok k e \<and> t_state (tasks k ! e) = TS_READY" "distinct es"
  shows "\<exists>k'. push_all (\<lambda>e. push_ready_task (Some e)) es k = krun_return k' \<and>
    drain qready_head (\<lambda>e. remove_ready_task (Some e)) (length es) k' = sort_key (\<lambda>i. - int (prio k i)) es"
proof -
  obtain k' where k': "push_all (\<lambda>e. push_ready_task (Some e)) es k = krun_return k'"
    and s: "sorted_wrt (\<lambda>i j. prio k j \<le> prio k i) (drain qready_head (\<lambda>e. remove_ready_task (Some e)) (length es) k')"
    and r: "\<And>r. filter (\<lambda>i. prio k i = r) (drain qready_head (\<lambda>e. remove_ready_task (Some e)) (length es) k') = filter (\<lambda>i. prio k i = r) es"
    using kready.served_in_order [OF assms] by blast
  let ?d = "drain qready_head (\<lambda>e. remove_ready_task (Some e)) (length es) k'"
  have "filter (\<lambda>i. - int (prio k i) = z) ?d = filter (\<lambda>i. - int (prio k i) = z) es" for z
  proof (cases "z \<le> 0")
    case True
    then have "(- int (prio k i) = z) = (prio k i = nat (- z))" for i by auto
    then show ?thesis using r [of "nat (- z)"] by simp
  next
    case False
    then have "(- int (prio k i) = z) = False" for i by auto
    then show ?thesis by simp
  qed
  then have "?d = sort_key (\<lambda>i. - int (prio k i)) es" by (intro stable_sort_unique) (simp_all add: s)
  then show ?thesis using k' by blast
qed

definition idle_demo :: kernel where
  "idle_demo = (task_upd 2 (t_state_update (\<lambda>_. TS_READY)) (demo_kernel 5))\<lparr>qready_head := None, n_ready := 0\<rparr>"

lemma distinct_demo: "distinct [0, 2, 1 :: nat]"
  by simp

theorem ready_queue_serves_in_order_witness:
  "\<exists>k'. push_all (\<lambda>e. push_ready_task (Some e)) [0, 2, 1] idle_demo = krun_return k' \<and>
    drain qready_head (\<lambda>e. remove_ready_task (Some e)) 3 k' = [2, 1, 0]"
proof -
  have t: "tasks idle_demo ! 0 = demo_task 0 0 TS_READY" "tasks idle_demo ! Suc 0 = demo_task 257 5 TS_READY"
      "tasks idle_demo ! 2 = demo_task 514 5 TS_READY"
    by (simp_all add: idle_demo_def task_upd_nth) (simp add: demo_task_def)
  have slots: "slot_ok idle_demo i = slot_ok (demo_kernel 5) i" for i
    unfolding idle_demo_def slot_ok_def by (simp add: task_upd_nth)
  have s: "slot_ok idle_demo 0" "slot_ok idle_demo 1" "slot_ok idle_demo 2"
    unfolding slots using demo_slots by simp_all
  have p: "prio idle_demo 0 = 0" "prio idle_demo (Suc 0) = 5" "prio idle_demo 2 = 5"
    by (simp_all add: prio_def t) (simp_all add: demo_task_def)
  have "rq_ok idle_demo []" unfolding rq_ok_def by (simp add: idle_demo_def demo_kernel_def task_upd_def)
  moreover have "\<forall>e \<in> set [0, 2, 1]. slot_ok idle_demo e \<and> t_state (tasks idle_demo ! e) = TS_READY"
    using s by (simp add: t) (simp add: demo_task_def)
  moreover have "sort_key (\<lambda>i. - int (prio idle_demo i)) [0, 2, 1] = [2, 1, 0]"
    by (simp add: p)
  moreover have "length [0, 2, 1 :: nat] = 3" by simp
  ultimately show ?thesis using ready_queue_serves_in_order [of idle_demo "[0, 2, 1]"] by (metis distinct_demo)
qed

end
