(* ===== verification/Clint.thy ===== *)
theory Clint
  imports Kernel_Task
begin

text \<open>
  The kernel's timer driver (\<open>sw/bootc/clint.h\<close>) and its byte routines (\<open>lib/cstr.c\<close>).  The two halves
  of \<open>mtimecmp\<close> are registers of the device; \<open>mtime\<close> advances between reads, so it is a
  parameter: the value it has at the n-th register access.
\<close>

section \<open>The compare register\<close>

record timecmp =
  cmp_lo :: u32
  cmp_hi :: u32

definition TICK_LENGTH :: u64 where "TICK_LENGTH = 10"

definition join64 :: "u32 \<Rightarrow> u32 \<Rightarrow> u64" where "join64 hi lo = push_bit 32 (ucast hi) OR ucast lo"

definition lo32 :: "u64 \<Rightarrow> u32" where "lo32 t = ucast (drop_bit 0 t AND 0xffffffff)"

definition hi32 :: "u64 \<Rightarrow> u32" where "hi32 t = ucast (drop_bit 32 t AND 0xffffffff)"

definition get_timecmp :: "timecmp \<Rightarrow> u64" where "get_timecmp d = join64 (cmp_hi d) (cmp_lo d)"

text \<open>The device after the first store of \<open>set_timecmp\<close>, and after both.\<close>

definition set_timecmp_hi :: "u64 \<Rightarrow> timecmp \<Rightarrow> timecmp" where "set_timecmp_hi t d = d\<lparr>cmp_hi := hi32 t\<rparr>"

definition set_timecmp :: "u64 \<Rightarrow> timecmp \<Rightarrow> timecmp" where
  "set_timecmp t d = (set_timecmp_hi t d)\<lparr>cmp_lo := lo32 t\<rparr>"

section \<open>Reading the running clock\<close>

text \<open>
  \<open>get_time now n\<close> starts with access number \<open>n\<close>: each round reads the high, the low and again the
  high half, and repeats when the high half has changed.  The clock may never let it end.
\<close>

partial_function (option) get_time :: "(nat \<Rightarrow> u64) \<Rightarrow> nat \<Rightarrow> (u64 \<times> nat) option" where
  "get_time now n =
     (let t_hi = hi32 (now n); t_lo = lo32 (now (n + 1))
      in if t_hi \<noteq> hi32 (now (n + 2)) then get_time now (n + 3) else Some (join64 t_hi t_lo, n + 3))"

section \<open>Byte copies\<close>

fun memcpy_loop :: "nat \<Rightarrow> u32 \<Rightarrow> u32 \<Rightarrow> nat \<Rightarrow> (u32 \<Rightarrow> u8) \<Rightarrow> (u32 \<Rightarrow> u8)" where
  "memcpy_loop 0 dest src i mem = mem"
| "memcpy_loop (Suc n) dest src i mem = memcpy_loop n dest src (i + 1) (mem(dest + of_nat i := mem (src + of_nat i)))"

definition memcpy :: "u32 \<Rightarrow> u32 \<Rightarrow> nat \<Rightarrow> (u32 \<Rightarrow> u8) \<Rightarrow> (u32 \<Rightarrow> u8)" where
  "memcpy dest src count mem = memcpy_loop count dest src 0 mem"

fun memset_loop :: "nat \<Rightarrow> u32 \<Rightarrow> u8 \<Rightarrow> nat \<Rightarrow> (u32 \<Rightarrow> u8) \<Rightarrow> (u32 \<Rightarrow> u8)" where
  "memset_loop 0 dest ch i mem = mem"
| "memset_loop (Suc n) dest ch i mem = memset_loop n dest ch (i + 1) (mem(dest + of_nat i := ch))"

definition memset :: "u32 \<Rightarrow> u8 \<Rightarrow> nat \<Rightarrow> (u32 \<Rightarrow> u8) \<Rightarrow> (u32 \<Rightarrow> u8)" where
  "memset dest ch count mem = memset_loop count dest ch 0 mem"

section \<open>Facts\<close>

lemma lo32_bit: "bit (lo32 t) i \<longleftrightarrow> i < 32 \<and> bit t i"
proof -
  have m: "(0xffffffff :: u64) = mask 32" by (simp add: mask_eq_exp_minus_1)
  show ?thesis unfolding lo32_def m by (auto simp: bit_simps)
qed

lemma hi32_bit: "bit (hi32 t) i \<longleftrightarrow> i < 32 \<and> bit t (i + 32)"
proof -
  have m: "(0xffffffff :: u64) = mask 32" by (simp add: mask_eq_exp_minus_1)
  show ?thesis unfolding hi32_def m by (auto simp: bit_simps ac_simps)
qed

lemma join_halves [simp]: "join64 (hi32 t) (lo32 t) = t"
proof (rule bit_word_eqI)
  fix i assume "i < LENGTH(64)"
  then show "bit (join64 (hi32 t) (lo32 t)) i = bit t i"
    by (cases "i < 32") (auto simp: join64_def bit_simps lo32_bit hi32_bit)
qed

lemma halves_join [simp]: "hi32 (join64 hi lo) = hi" "lo32 (join64 hi lo) = lo"
  by (rule bit_word_eqI; auto simp: join64_def bit_simps lo32_bit hi32_bit dest: bit_imp_le_length)+

lemma lo32_unat: "unat (lo32 t) = unat t mod 2 ^ 32"
proof -
  have "lo32 t = ucast t" by (rule bit_word_eqI) (auto simp: lo32_bit bit_simps)
  then show ?thesis by (simp add: unsigned_ucast_eq take_bit_eq_mod)
qed

lemma hi32_unat: "unat (hi32 t) = unat t div 2 ^ 32"
proof -
  have "hi32 t = ucast (drop_bit 32 t)" by (rule bit_word_eqI) (auto simp: hi32_bit bit_simps ac_simps)
  then have "unat (hi32 t) = unat (drop_bit 32 t) mod 2 ^ 32" by (simp add: unsigned_ucast_eq take_bit_eq_mod)
  moreover have "unat (drop_bit 32 t) = unat t div 2 ^ 32" 
    unfolding unsigned_drop_bit_eq take_bit_nat_eq_self [OF unsigned_less] by (simp only: drop_bit_eq_div)
  moreover have "unat t < 2 ^ 64" using unsigned_less [where 'a = nat and w = t] by simp
  then have "unat t div 2 ^ 32 < 2 ^ 32" by (simp add: less_mult_imp_div_less)
  ultimately show ?thesis by simp
qed

lemma unat_halves: "unat t = unat (hi32 t) * 2 ^ 32 + unat (lo32 t)"
  unfolding lo32_unat hi32_unat by (rule div_mult_mod_eq [symmetric])

text \<open>
  \<open>get_time\<close> returns a value the clock really had.  If the clock does not run backwards and
  advances by less than \<open>2^32\<close> during six accesses, the loop ends after at most two rounds, and
  the value is exactly \<open>mtime\<close> at the access that read the low half, although the low half may
  overflow between the accesses.
\<close>

lemma get_time_halves:
  assumes mono: "\<forall>i j. n \<le> i \<and> i \<le> j \<and> j \<le> n + 5 \<longrightarrow> unat (now i) \<le> unat (now j)"
    and adv: "unat (now (n + 5)) < unat (now n) + 2 ^ 32"
  shows "get_time now n = Some (now (n + 1), n + 3) \<or> get_time now n = Some (now (n + 4), n + 6)"
proof -
  let ?h = "\<lambda>i. unat (hi32 (now i))"
  have hm: "?h i \<le> ?h j" if "n \<le> i" "i \<le> j" "j \<le> n + 5" for i j
    using mono that unfolding hi32_unat by (simp add: div_le_mono)
  have exact: "join64 (hi32 (now i)) (lo32 (now (i + 1))) = now (i + 1)"
    if "hi32 (now i) = hi32 (now (i + 2))" "n \<le> i" "i \<le> n + 3" for i
  proof -
    have "?h (i + 1) = ?h i" using hm [of i "i + 1"] hm [of "i + 1" "i + 2"] that by simp
    then have "hi32 (now i) = hi32 (now (i + 1))" by (simp add: word_unat_eq_iff)
    then show ?thesis by simp
  qed
  show ?thesis
  proof (cases "hi32 (now n) = hi32 (now (n + 2))")
    case True
    then show ?thesis using exact [OF True] by (subst (1) get_time.simps) (simp add: Let_def)
  next
    case False
    have "unat (now (n + 5)) div 2 ^ 32 \<le> (unat (now n) + 2 ^ 32) div 2 ^ 32" using adv by (intro div_le_mono) simp
    then have "?h (n + 5) \<le> ?h n + 1" unfolding hi32_unat by simp
    moreover have "?h n \<noteq> ?h (n + 2)" using False by (simp add: word_unat_eq_iff)
    ultimately have "?h (n + 3) = ?h (n + 5)"
      using hm [of n "n + 2"] hm [of "n + 2" "n + 3"] hm [of "n + 3" "n + 5"] by linarith
    moreover have idx: "n + 3 + 2 = n + 5" by simp
    ultimately have eq: "hi32 (now (n + 3)) = hi32 (now (n + 3 + 2))" unfolding idx word_unat_eq_iff by blast
    have "get_time now n = get_time now (n + 3)" using False by (subst (1) get_time.simps) (simp add: Let_def)
    moreover have "get_time now (n + 3) = Some (now (n + 3 + 1), n + 3 + 3)"
      using exact [OF eq] eq by (subst (1) get_time.simps) (simp add: Let_def)
    ultimately show ?thesis by (simp add: eval_nat_numeral)
  qed
qed

text \<open>
  When the deadline moves forward, the value between the two stores of \<open>set_timecmp\<close> is not
  earlier than the old one.
\<close>

lemma set_timecmp_hi_above:
  assumes "unat (get_timecmp d) \<le> unat t"
  shows "unat (get_timecmp d) \<le> unat (get_timecmp (set_timecmp_hi t d))"
proof -
  have "unat (cmp_hi d) \<le> unat (hi32 t)"
    using div_le_mono [OF assms, of "2 ^ 32"] hi32_unat [of t] hi32_unat [of "get_timecmp d"] by (simp add: get_timecmp_def)
  moreover have "unat (join64 hi lo) = unat hi * 2 ^ 32 + unat lo" for hi lo
    using unat_halves [of "join64 hi lo"] by simp
  ultimately show ?thesis by (simp add: set_timecmp_hi_def get_timecmp_def)
qed

section \<open>Byte routines\<close>

lemma memset_loop_eq:
  "memset_loop n dest ch i mem a = (if \<exists>j \<in> {i..<i + n}. a = dest + of_nat j then ch else mem a)"
proof (induction n arbitrary: i mem)
  case (Suc n)
  have "{i..<i + Suc n} = insert i {i + 1..<i + 1 + n}" by auto
  then show ?case unfolding memset_loop.simps Suc.IH by (auto simp: fun_upd_def)
qed simp

lemma memset_eq: "memset dest ch n mem a = (if \<exists>j < n. a = dest + of_nat j then ch else mem a)"
  by (auto simp: memset_def memset_loop_eq)

end
