(* ===== verification/Kernel_Sys.thy ===== *)
theory Kernel_Sys
  imports Kernel_Sched Clint
begin

text \<open>
  System calls (\<open>sys/ksys.c\<close>, \<open>sys/ksys_dispatch.c\<close>), the trap handler (\<open>trap_handler.c\<close>), start-up
  (\<open>entry.c\<close>, \<open>kernel/kernel.c\<close>).  The UART is a parameter: the record \<open>port\<close> of what a read of its
  status and receive registers and a store to its transmit register do to a device state.
\<close>

section \<open>The machine the kernel runs on\<close>

record 'u port =
  port_status :: "'u \<Rightarrow> u8 \<times> 'u"
  port_tx :: "u8 \<Rightarrow> 'u \<Rightarrow> 'u"
  port_rx :: "'u \<Rightarrow> u8 \<times> 'u"

record 'u sys =
  sys_k :: kernel
  sys_uart :: 'u
  sys_cmp :: timecmp
  sys_mscratch :: u32
  sys_mtvec :: u32

datatype syscall_status = SyscallStatus_DONE | SyscallStatus_RETRY | SyscallStatus_BLOCKED

definition SyscallCode_EXIT :: u32 where "SyscallCode_EXIT = 1"
definition SyscallCode_YIELD :: u32 where "SyscallCode_YIELD = 2"
definition SyscallCode_FREE :: u32 where "SyscallCode_FREE = 16"
definition SyscallCode_MALLOC :: u32 where "SyscallCode_MALLOC = 17"
definition SyscallCode_PUTC :: u32 where "SyscallCode_PUTC = 32"
definition SyscallCode_GETC :: u32 where "SyscallCode_GETC = 33"
definition SyscallCode_PUTS :: u32 where "SyscallCode_PUTS = 34"

definition MAX_SPIN_ITER :: nat where "MAX_SPIN_ITER = 1024"

abbreviation reg :: "cpu_context \<Rightarrow> nat \<Rightarrow> u32" where "reg ctx i \<equiv> ctx_regs ctx ! i"

definition set_reg :: "nat \<Rightarrow> u32 \<Rightarrow> cpu_context \<Rightarrow> cpu_context" where
  "set_reg i w ctx = ctx\<lparr>ctx_regs := (ctx_regs ctx)[i := w]\<rparr>"

definition adv_pc :: "cpu_context \<Rightarrow> cpu_context" where "adv_pc ctx = ctx\<lparr>ctx_pc := ctx_pc ctx + 4\<rparr>"

definition on_kernel :: "(kernel \<Rightarrow> ('a \<times> kernel) krun) \<Rightarrow> 'u sys \<Rightarrow> ('a \<times> 'u sys) krun" where
  "on_kernel f s = krun_bind (f (sys_k s)) (\<lambda>(x, k). krun_return (x, s\<lparr>sys_k := k\<rparr>))"

section \<open>System calls\<close>

definition k_yield :: "cpu_context \<Rightarrow> 'u sys \<Rightarrow> (syscall_status \<times> cpu_context \<times> 'u sys) krun" where
  "k_yield ctx s = krun_bind (on_kernel (switch_to_next_task ctx) s) (\<lambda>(ctx', s'). krun_return (SyscallStatus_DONE, ctx', s'))"

definition k_exit :: "cpu_context \<Rightarrow> 'u sys \<Rightarrow> (syscall_status \<times> cpu_context \<times> 'u sys) krun" where
  "k_exit ctx s =
     (let k = sys_k s; s1 = s\<lparr>sys_k := terminate_task (current_task k) k\<rparr>
      in krun_bind (on_kernel (switch_to_next_task ctx) s1) (\<lambda>(ctx', s'). krun_return (SyscallStatus_DONE, ctx', s')))"

definition k_free :: "nat \<Rightarrow> 'u sys \<Rightarrow> (syscall_status \<times> 'u sys) krun" where
  "k_free ptr s =
     (let k = sys_k s
      in case get_task_heap k (current_task k) of
           None \<Rightarrow> krun_return (SyscallStatus_DONE, s)
         | Some i \<Rightarrow>
             if is_valid_heap_ptr (t_heap (tasks k ! i)) ptr then
               krun_bind (krun_lift (free_heap ptr (t_heap (tasks k ! i), kmem k))) (\<lambda>(h, m).
                 krun_return (SyscallStatus_DONE, s\<lparr>sys_k := (task_upd i (t_heap_update (\<lambda>_. h)) k)\<lparr>kmem := m\<rparr>\<rparr>))
             else krun_return (SyscallStatus_DONE, s))"

definition k_malloc :: "nat \<Rightarrow> 'u sys \<Rightarrow> (syscall_status \<times> nat \<times> 'u sys) krun" where
  "k_malloc sz s =
     (let k = sys_k s
      in case get_task_heap k (current_task k) of
           None \<Rightarrow> krun_return (SyscallStatus_DONE, 0, s)
         | Some i \<Rightarrow>
             krun_bind (alloc_heap sz (t_heap (tasks k ! i), kmem k)) (\<lambda>(p, h, m).
               krun_return (SyscallStatus_DONE, p, s\<lparr>sys_k := (task_upd i (t_heap_update (\<lambda>_. h)) k)\<lparr>kmem := m\<rparr>\<rparr>)))"

fun putc_spin :: "'u port \<Rightarrow> nat \<Rightarrow> u8 \<Rightarrow> 'u \<Rightarrow> syscall_status \<times> 'u" where
  "putc_spin io 0 c u = (SyscallStatus_RETRY, u)"
| "putc_spin io (Suc n) c u =
     (case port_status io u of (st, u') \<Rightarrow>
        if st AND 1 = 0 then (SyscallStatus_DONE, port_tx io c u') else putc_spin io n c u')"

definition putc_uart :: "'u port \<Rightarrow> u8 \<Rightarrow> 'u \<Rightarrow> syscall_status \<times> 'u" where
  "putc_uart io c u = putc_spin io MAX_SPIN_ITER c u"

definition k_putc :: "'u port \<Rightarrow> u8 \<Rightarrow> 'u sys \<Rightarrow> syscall_status \<times> 'u sys" where
  "k_putc io c s = (case putc_uart io c (sys_uart s) of (st, u) \<Rightarrow> (st, s\<lparr>sys_uart := u\<rparr>))"

text \<open>\<open>out_c\<close> points to the low byte of a register.\<close>

definition set_low_byte :: "u32 \<Rightarrow> u8 \<Rightarrow> u32" where "set_low_byte w c = (w AND NOT 0xff) OR ucast c"

definition k_getc :: "'u port \<Rightarrow> u32 \<Rightarrow> 'u sys \<Rightarrow> syscall_status \<times> u32 \<times> 'u sys" where
  "k_getc io out s =
     (case port_status io (sys_uart s) of (st, u) \<Rightarrow>
        let s1 = s\<lparr>sys_uart := u\<rparr>
        in if st AND 2 = 0 then
             (SyscallStatus_BLOCKED, out, s1\<lparr>sys_k := block_task_irq (current_task (sys_k s1)) Interrupt_M_EXTERNAL (sys_k s1)\<rparr>)
           else (case port_rx io u of (c, u') \<Rightarrow> (SyscallStatus_DONE, set_low_byte out c, s1\<lparr>sys_uart := u'\<rparr>)))"

text \<open>The two loops of \<open>k_puts\<close>; \<open>bytes\<close> is the memory the string is read from.\<close>

partial_function (option) putc_until_done :: "'u port \<Rightarrow> u8 \<Rightarrow> 'u \<Rightarrow> 'u option" where
  "putc_until_done io c u =
     (case putc_uart io c u of (st, u') \<Rightarrow> if st = SyscallStatus_DONE then Some u' else putc_until_done io c u')"

partial_function (option) puts_loop :: "'u port \<Rightarrow> (u32 \<Rightarrow> u8) \<Rightarrow> u32 \<Rightarrow> u32 \<Rightarrow> 'u \<Rightarrow> 'u option" where
  "puts_loop io bytes str i u =
     (case putc_until_done io (if bytes (str + i) \<noteq> 0 then bytes (str + i) else 10) u of
        None \<Rightarrow> None
      | Some u' \<Rightarrow> if bytes (str + i) = 0 then Some u' else puts_loop io bytes str (i + 1) u')"

definition k_puts :: "'u port \<Rightarrow> (u32 \<Rightarrow> u8) \<Rightarrow> u32 \<Rightarrow> 'u sys \<Rightarrow> (syscall_status \<times> 'u sys) krun" where
  "k_puts io bytes str s =
     (case puts_loop io bytes str 0 (sys_uart s) of
        None \<Rightarrow> None
      | Some u \<Rightarrow> krun_return (SyscallStatus_DONE, s\<lparr>sys_uart := u\<rparr>))"

section \<open>The dispatcher\<close>

definition dispatch_syscall :: "'u port \<Rightarrow> (u32 \<Rightarrow> u8) \<Rightarrow> cpu_context \<Rightarrow> 'u sys \<Rightarrow> (cpu_context \<times> 'u sys) krun" where
  "dispatch_syscall io bytes ctx s =
     (let code = reg ctx 17
      in krun_bind
        (if code = SyscallCode_EXIT then
           krun_bind (k_exit ctx s) (\<lambda>(st, ctx', s'). krun_return (st, False, ctx', s'))
         else if code = SyscallCode_YIELD then
           krun_bind (k_yield (adv_pc ctx) s) (\<lambda>(st, ctx', s'). krun_return (st, False, ctx', s'))
         else if code = SyscallCode_FREE then
           krun_bind (k_free (unat (reg ctx 10)) s) (\<lambda>(st, s'). krun_return (st, True, ctx, s'))
         else if code = SyscallCode_MALLOC then
           krun_bind (k_malloc (unat (reg ctx 10)) s) (\<lambda>(st, p, s'). krun_return (st, True, set_reg 10 (of_nat p) ctx, s'))
         else if code = SyscallCode_PUTC then
           (case k_putc io (ucast (reg ctx 10)) s of (st, s') \<Rightarrow> krun_return (st, True, ctx, s'))
         else if code = SyscallCode_GETC then
           (case k_getc io (reg ctx 10) s of (st, w, s') \<Rightarrow> krun_return (st, True, set_reg 10 w ctx, s'))
         else if code = SyscallCode_PUTS then
           krun_bind (k_puts io bytes (reg ctx 10) s) (\<lambda>(st, s'). krun_return (st, True, ctx, s'))
         else krun_return (SyscallStatus_DONE, True, ctx, s))
        (\<lambda>(status, adv, ctx', s').
          if adv \<and> status = SyscallStatus_DONE then krun_return (adv_pc ctx', s')
          else if status = SyscallStatus_BLOCKED then
            krun_bind (k_yield ctx' s') (\<lambda>(_, ctx'', s''). krun_return (ctx'', s''))
          else krun_return (ctx', s')))"

section \<open>Traps\<close>

record trap_frame =
  tf_ctx :: cpu_context
  tf_mcause :: u32

definition interrupt_of :: "u32 \<Rightarrow> interrupt" where
  "interrupt_of n = (if n = 3 then Interrupt_M_SOFTWARE else if n = 7 then Interrupt_M_TIMER
     else if n = 11 then Interrupt_M_EXTERNAL else Interrupt_other (unat n))"

text \<open>
  The interrupt branch.  A time slice that \<open>get_task_time_slice\<close> did not store is the
  uninitialised local variable.
\<close>

definition handle_interrupt :: "interrupt \<Rightarrow> cpu_context \<Rightarrow> 'u sys \<Rightarrow> (cpu_context \<times> 'u sys) krun" where
  "handle_interrupt interr ctx s =
     (case get_task_time_slice (sys_k s) (current_task (sys_k s)) of
        None \<Rightarrow> krun_fail (Uninit ''time_slice'')
      | Some tslice \<Rightarrow>
          let tslice' = (if interr = Interrupt_M_TIMER then sub32 tslice 1 else tslice);
              s1 = (if interr = Interrupt_M_TIMER
                    then s\<lparr>sys_k := set_task_time_slice (current_task (sys_k s)) tslice' (sys_k s),
                           sys_cmp := set_timecmp (get_timecmp (sys_cmp s) + TICK_LENGTH) (sys_cmp s)\<rparr>
                    else s)
          in krun_bind (on_kernel (wake_irq_tasks interr) s1) (\<lambda>(num_awaken, s2).
               if tslice' = 0 \<or> num_awaken > 0 then krun_bind (k_yield ctx s2) (\<lambda>(_, ctx', s'). krun_return (ctx', s'))
               else krun_return (ctx, s2)))"

text \<open>The exception codes of \<open>trap/enums.h\<close>.\<close>

definition Exception_INST_ADDR_MISALIGNED :: u32 where [simp]: "Exception_INST_ADDR_MISALIGNED = 0"
definition Exception_INST_ACCESS_FAULT :: u32 where [simp]: "Exception_INST_ACCESS_FAULT = 1"
definition Exception_ILLEGAL_INST :: u32 where [simp]: "Exception_ILLEGAL_INST = 2"
definition Exception_BREAKPOINT :: u32 where [simp]: "Exception_BREAKPOINT = 3"
definition Exception_LOAD_ADDR_MISALIGNED :: u32 where [simp]: "Exception_LOAD_ADDR_MISALIGNED = 4"
definition Exception_LOAD_ACCESS_FAULT :: u32 where [simp]: "Exception_LOAD_ACCESS_FAULT = 5"
definition Exception_STORE_ADDR_MISALIGNED :: u32 where [simp]: "Exception_STORE_ADDR_MISALIGNED = 6"
definition Exception_STORE_ACCESS_FAULT :: u32 where [simp]: "Exception_STORE_ACCESS_FAULT = 7"
definition Exception_ECALL_U :: u32 where [simp]: "Exception_ECALL_U = 8"
definition Exception_ECALL_M :: u32 where [simp]: "Exception_ECALL_M = 11"

definition trap_handler :: "'u port \<Rightarrow> (u32 \<Rightarrow> u8) \<Rightarrow> trap_frame \<Rightarrow> 'u sys \<Rightarrow> (cpu_context \<times> 'u sys) krun" where
  "trap_handler io bytes frame s =
     (let cause = tf_mcause frame; code = cause AND 0x7fffffff
      in if sint cause < 0 then handle_interrupt (interrupt_of code) (tf_ctx frame) s
         else if code = Exception_INST_ADDR_MISALIGNED \<or> code = Exception_LOAD_ADDR_MISALIGNED \<or> code = Exception_STORE_ADDR_MISALIGNED
           then krun_fail (Panic ''Panic: address misaligned'')
         else if code = Exception_INST_ACCESS_FAULT \<or> code = Exception_LOAD_ACCESS_FAULT \<or> code = Exception_STORE_ACCESS_FAULT
           then krun_fail (Panic ''Panic: access fault'')
         else if code = Exception_ECALL_U \<or> code = Exception_ECALL_M then dispatch_syscall io bytes (tf_ctx frame) s
         else krun_fail (Panic ''''))"

section \<open>Start-up\<close>

text \<open>The kernel's static variables as the program starts with them.\<close>

definition zero_heap :: heap_descriptor where
  "zero_heap = \<lparr>hd_head = 0, hd_max = 0, hd_size = 0, hd_total = 0\<rparr>"

definition zero_task :: task where
  "zero_task = \<lparr>t_ctx = \<lparr>ctx_regs = replicate CTX_REGS 0, ctx_mstatus = 0, ctx_pc = 0\<rparr>, t_id = 0, t_stack_base = 0, t_stack_size = 0,
     t_heap = zero_heap, t_priority = 0, t_time_slice = 0, t_state = TS_NOT_CREATED\<rparr>"

definition zero_kernel :: kernel where
  "zero_kernel =
     \<lparr>tasks = replicate MAX_TASKS zero_task, current_slot = 0, n_task = 0, t_gen = 0, global_heap = zero_heap, kmem = Map.empty,
      qready = replicate MAX_TASKS \<lparr>re_task_id = 0, re_prev = None, re_next = None\<rparr>, qready_head = None, n_ready = 0,
      qblocked = replicate MAX_TASKS \<lparr>be_task_id = 0, be_wait_irq_mask = 0, be_blocked = False\<rparr>, csr_mie = 0\<rparr>"

definition KERNEL_HEAP_SIZE :: nat where "KERNEL_HEAP_SIZE = 32768"

text \<open>
  \<open>kernel_main\<close>: \<open>mem_start\<close> is the linker's end of the static data, \<open>idle_fn\<close> and \<open>user_fn\<close> the entry
  points, \<open>sp\<close> the stack pointer, \<open>now\<close> and \<open>n\<close> the clock as in \<open>get_time\<close>.
\<close>

definition kernel_main :: "nat \<Rightarrow> nat \<Rightarrow> nat \<Rightarrow> u32 \<Rightarrow> (nat \<Rightarrow> u64) \<Rightarrow> nat \<Rightarrow> 'u sys \<Rightarrow> (cpu_context \<times> 'u sys) krun" where
  "kernel_main mem_start idle_fn user_fn sp now n s =
     (let (h, m) = init_heap mem_start KERNEL_HEAP_SIZE (kmem (sys_k s));
          k = (sys_k s)\<lparr>global_heap := h, kmem := m\<rparr>
      in krun_bind (spawn_task idle_fn PrivMode_M 0 k) (\<lambda>(t_idle, k1).
         krun_bind (spawn_task user_fn PrivMode_U 50 k1) (\<lambda>(t_entry, k2).
           if t_idle \<ge> 0 then
             (case get_time now n of
                None \<Rightarrow> None
              | Some (time, _) \<Rightarrow>
                  krun_bind (start_schedule t_entry k2) (\<lambda>(ctx, k3).
                    krun_return (ctx, s\<lparr>sys_k := k3, sys_cmp := set_timecmp (time + TICK_LENGTH) (sys_cmp s), sys_mscratch := sp\<rparr>)))
           else krun_fail (Panic ''Panic: failed to create task''))))"

definition set_trap_entry :: "u32 \<Rightarrow> 'u sys \<Rightarrow> 'u sys" where
  "set_trap_entry fn s = s\<lparr>sys_mtvec := fn AND NOT 3\<rparr>"

text \<open>
  \<open>entry\<close>, where the assembly start-up code jumps to: zero the static data, set the trap vector, call
  \<open>kernel_main\<close>.  Where the compiler and the linker put the static variables is the parameter
  \<open>layout\<close>, which reads them out of the memory \<open>mem\<close>.
\<close>

definition entry :: "((u32 \<Rightarrow> u8) \<Rightarrow> kernel) \<Rightarrow> u32 \<Rightarrow> u32 \<Rightarrow> u32 \<Rightarrow> nat \<Rightarrow> nat \<Rightarrow> nat \<Rightarrow> u32 \<Rightarrow> (nat \<Rightarrow> u64) \<Rightarrow> nat \<Rightarrow>
    (u32 \<Rightarrow> u8) \<Rightarrow> 'u sys \<Rightarrow> (cpu_context \<times> 'u sys) krun" where
  "entry layout bss_start bss_end trap_entry mem_start idle_fn user_fn sp now n mem s =
     (let bss_size = unat (bss_end - bss_start);
          s1 = s\<lparr>sys_k := layout (memset bss_start 0 bss_size mem)\<rparr>
      in kernel_main mem_start idle_fn user_fn sp now n (set_trap_entry trap_entry s1))"

end
