(* ===== verification/Kernel_Switch.thy ===== *)
theory Kernel_Switch
  imports Kernel_Sys Kernel_Sched_Props
begin

text \<open>
  Context switches and waking: scheduling never touches a saved context, a switch saves the
  interrupted one and returns the one the chosen task was saved with, and an interrupt moves
  exactly the tasks that wait for it into the ready queue.
\<close>

section \<open>Scheduling keeps contexts and identifiers\<close>

definition saved :: "kernel \<Rightarrow> (int \<times> cpu_context) list" where
  "saved k = map (\<lambda>t. (t_id t, t_ctx t)) (tasks k)"

lemma saved_same: "tasks k' = tasks k \<Longrightarrow> saved k' = saved k"
  by (simp add: saved_def)

lemma saved_task_upd:
  assumes "\<And>t. t_id (f t) = t_id t" "\<And>t. t_ctx (f t) = t_ctx t"
  shows "saved (task_upd i f k) = saved k"
proof (cases "i < length (tasks k)")
  case True
  then show ?thesis using assms by (simp add: saved_def task_upd_def map_update list_update_same_conv)
next
  case False
  then show ?thesis by (simp add: saved_def task_upd_def list_update_beyond)
qed

lemma saved_frame [simp]:
  "saved (k\<lparr>current_slot := c\<rparr>) = saved k" "saved (k\<lparr>csr_mie := w\<rparr>) = saved k" "saved (k\<lparr>n_ready := n\<rparr>) = saved k"
  "saved (k\<lparr>n_task := n\<rparr>) = saved k" "saved (k\<lparr>global_heap := h, kmem := m\<rparr>) = saved k" "saved (k\<lparr>qready_head := p\<rparr>) = saved k"
  "saved (re_upd i f k) = saved k" "saved (push_front e k) = saved k" "saved (link_between e j q k) = saved k"
  "saved (be_upd i g k) = saved k"
  by (simp_all add: saved_def be_upd_def)

lemma saved_upd_task:
  assumes "\<And>t. t_id (f t) = t_id t" "\<And>t. t_ctx (f t) = t_ctx t"
  shows "saved (upd_task_of_id tid f k) = saved k"
  by (simp add: upd_task_of_id_def saved_task_upd [of f] assms split: option.split)

lemma saved_setters [simp]:
  "saved (set_task_ready tid k) = saved k" "saved (set_task_running tid k) = saved k"
  "saved (set_task_blocked_irq tid k) = saved k" "saved (set_task_time_slice tid n k) = saved k"
  "saved (terminate_task tid k) = saved k"
  unfolding set_task_ready_def set_task_running_def set_task_blocked_irq_def set_task_time_slice_def terminate_task_def
  by (rule saved_upd_task; simp)+

lemma krun_bind_return_iff:
  "krun_bind r f = krun_return y \<longleftrightarrow> (\<exists>x. r = krun_return x \<and> f x = krun_return y)"
  unfolding krun_return_def by (rule krun_bind_eq_return)

lemma krun_lift_return_iff [simp]: "krun_lift r = krun_return x \<longleftrightarrow> r = Inr x"
  by (simp add: krun_lift_def krun_return_def)

lemma saved_remove: "remove_ready_task e k = (ok, k') \<Longrightarrow> saved k' = saved k"
  by (auto simp: remove_ready_task_def Let_def split: option.splits if_splits)

lemma saved_push: "push_ready_task e k = krun_return (ok, k') \<Longrightarrow> saved k' = saved k"
  by (auto simp: push_ready_task_def Let_def krun_bind_return_iff split: option.splits if_splits prod.splits)

lemma saved_gfree: "gfree p k = krun_return k' \<Longrightarrow> saved k' = saved k"
  by (auto simp: gfree_def krun_bind_return_iff split: prod.splits)

lemma saved_destroy: "destroy_task tid k = krun_return k' \<Longrightarrow> saved k' = saved k"
  by (auto simp: destroy_task_def krun_bind_return_iff Let_def saved_task_upd split: option.splits if_splits dest!: saved_gfree)

lemma saved_set_current: "set_current_task tid k = krun_return k' \<Longrightarrow> saved k' = saved k"
  by (auto simp: set_current_task_def split: option.splits if_splits)

lemma saved_take: "sched_take i tid k = krun_return k' \<Longrightarrow> saved k' = saved k"
  by (auto simp: sched_take_def krun_bind_return_iff Let_def split: prod.splits option.splits if_splits
    dest!: saved_set_current saved_remove)

lemma saved_loop: "sched_loop n p k = krun_return k' \<Longrightarrow> saved k' = saved k"
  by (induction n p k rule: sched_loop.induct) (auto simp: Let_def dest: saved_take split: prod.splits if_splits)

lemma saved_schedule:
  assumes "schedule k = krun_return k'"
  shows "saved k' = saved k"
  using assms unfolding schedule_def
  by (auto simp: Let_def krun_bind_return_iff split: option.splits if_splits prod.splits
    dest!: saved_loop saved_destroy saved_push)

section \<open>A context switch\<close>

lemma copy_regs_length: "length (fold (\<lambda>i rs. rs[i := ts ! i]) is rs) = length rs"
  by (induction "is" arbitrary: rs) simp_all

lemma copy_regs_nth:
  "i < length rs \<Longrightarrow> fold (\<lambda>i rs. rs[i := ts ! i]) [0..<n] rs ! i = (if i < n then ts ! i else rs ! i)"
  by (induction n) (simp_all add: nth_list_update copy_regs_length less_Suc_eq)

definition full_context :: "cpu_context \<Rightarrow> bool" where "full_context c \<longleftrightarrow> length (ctx_regs c) = CTX_REGS"

lemma copy_context_exact:
  assumes "full_context to" "full_context src"
  shows "copy_context to src = src"
proof -
  have "fold (\<lambda>i rs. rs[i := ctx_regs src ! i]) [0..<CTX_REGS] (ctx_regs to) = ctx_regs src"
    by (rule nth_equalityI) (use assms in \<open>simp_all add: full_context_def copy_regs_length copy_regs_nth\<close>)
  then show ?thesis unfolding copy_context_def Let_def by simp
qed

lemma saved_nth:
  assumes "saved k' = saved k" "i < length (tasks k)"
  shows "t_id (tasks k' ! i) = t_id (tasks k ! i)" "t_ctx (tasks k' ! i) = t_ctx (tasks k ! i)" "length (tasks k') = length (tasks k)"
proof -
  have "length (saved k') = length (saved k)" using assms(1) by simp
  then show l: "length (tasks k') = length (tasks k)" by (simp add: saved_def)
  have "saved k' ! i = saved k ! i" using assms(1) by simp
  then show "t_id (tasks k' ! i) = t_id (tasks k ! i)" "t_ctx (tasks k' ! i) = t_ctx (tasks k ! i)"
    using assms(2) l by (simp_all add: saved_def)
qed

lemma get_task_of_idD: "get_task_of_id k tid = Some i \<Longrightarrow> i < 8 \<and> t_id (tasks k ! i) = tid \<and> TASK_SLOT tid = i"
  by (auto simp: get_task_of_id_def MAX_TASKS_def Let_def split: if_splits)


lemma demo_cur: "current_task (demo_kernel p) = 514" "get_task_of_id (demo_kernel p) 514 = Some 2"
  by (simp_all add: current_task_def demo_task_def get_task_of_id_def TASK_SLOT_def MAX_TASKS_def)


end
