(* ===== verification/Kernel_Heap_Frame.thy ===== *)
theory Kernel_Heap_Frame
  imports Kernel_Heap_Live
begin

text \<open>
  Locality of the allocator: it writes only inside the heap it is called on, and a heap does not
  notice writes into the payloads of its allocated blocks.  So a heap can live in a block of
  another heap, as the heaps of the tasks do.
\<close>

section \<open>Writing into a payload\<close>

definition in_region :: "nat \<Rightarrow> nat \<times> nat \<Rightarrow> bool" where
  "in_region x r \<longleftrightarrow> fst r \<le> x \<and> x < fst r + snd r"

lemma chain_live_frame:
  "chain mx m p a bs q e \<Longrightarrow> (\<And>x. a \<le> x \<Longrightarrow> \<not> (\<exists>r \<in> set (live a bs). in_region x r) \<Longrightarrow> m' x = m x) \<Longrightarrow>
   chain mx m' p a bs q e"
proof (induction mx m p a bs q e rule: chain.induct)
  case (2 mx m p a s al bs q b)
  have far: "\<not> in_region a r" if "r \<in> set (live (a + 16 + s) bs)" for r
    using that live_bounds [of "fst r" "snd r" "a + 16 + s" bs] by (simp add: in_region_def)
  have "\<not> (\<exists>r \<in> set (live a ((s, al) # bs)). in_region a r)"
    using far by (auto simp: in_region_def [of a "(a + 16, s)"] split: if_splits)
  then have "m' a = m a" by (intro "2.prems"(2)) simp_all
  moreover have "chain mx m' a (a + 16 + s) bs q b"
  proof (rule "2.IH")
    show "chain mx m a (a + 16 + s) bs q b" using "2.prems"(1) by simp
    fix x assume "a + 16 + s \<le> x" "\<not> (\<exists>r \<in> set (live (a + 16 + s) bs). in_region x r)"
    then show "m' x = m x" by (intro "2.prems"(2)) (auto simp: in_region_def split: if_splits)
  qed
  ultimately show ?case using "2.prems"(1) by simp
qed simp

lemma heap_ok_payload:
  assumes ok: "heap_ok h m bs" and r: "(p, s) \<in> set (live (hd_head h) bs)"
    and same: "\<And>x. x < p \<or> p + s \<le> x \<Longrightarrow> m' x = m x"
  shows "heap_ok h m' bs"
proof -
  obtain q where "chain (hd_max h) m 0 (hd_head h) bs q (hd_max h)" using ok by (auto simp: heap_ok_def)
  then have "chain (hd_max h) m' 0 (hd_head h) bs q (hd_max h)"
  proof (rule chain_live_frame)
    fix x assume "\<not> (\<exists>r \<in> set (live (hd_head h) bs). in_region x r)"
    then have "\<not> in_region x (p, s)" using r by blast
    then show "m' x = m x" by (intro same) (auto simp: in_region_def)
  qed
  then show ?thesis using ok unfolding heap_ok_def by blast
qed

section \<open>Allocation writes inside its heap\<close>

lemma taken_local: "c + 16 + s \<le> mx \<Longrightarrow> n + 16 \<le> s \<Longrightarrow> x < c \<or> mx \<le> x \<Longrightarrow> taken mx c s n r m x = m x"
  by (auto simp: taken_def relink_def link_to_def hb_set_def)

lemma alloc_heap_local:
  assumes ok: "heap_ok h m bs" and req: "req < req_limit" and a: "alloc_heap req (h, m) = Some (Inr (p, h', m'))"
    and x: "x < hd_head h \<or> hd_max h \<le> x"
  shows "m' x = m x"
proof (cases "used bs + 16 + req > hd_size h")
  case True
  then show ?thesis using alloc_heap_guarded [OF ok req] a by simp
next
  case False
  let ?n = "align16 req"
  have sz: "hd_size h < 2 ^ 30" using ok by (simp add: heap_ok_def)
  have al: "ALIGN_UP req HEAP_ALIGN = ?n" using False sz by (simp add: ALIGN_UP_exact W32_val)
  have n: "?n mod 16 = 0" "?n + 20 < W32" using align16_props [of req] False sz by (simp_all add: W32_val)
  note srch = heap_ok_search [OF ok n(2,1)]
  note unf = a [unfolded alloc_heap_def Let_def prod.case alloc_guard [OF ok req] if_not_P [OF False] al]
  show ?thesis
  proof (cases "\<exists>b \<in> set bs. fits ?n b")
    case True
    then obtain xs s ys r where d: "bs = xs @ (s, False) # ys" "fits ?n (s, False)"
      "alloc_search ?n m (hd_head h) = Some (Inr (Some (hd_head h + extent xs), taken (hd_max h) (hd_head h + extent xs) s ?n r m))"
      using srch unfolding if_P [OF True] by blast
    have "m' = taken (hd_max h) (hd_head h + extent xs) s ?n r m" using unf unfolding d(3) by simp
    then show ?thesis using x d(2) heap_ok_bounds(4) [OF ok]
      by (simp only:) (rule taken_local; auto simp: d(1) fits_def)
  next
    case none: False
    then have "alloc_search ?n m (hd_head h) = Some (Inr (None, m))" using srch by simp
    then show ?thesis using unf by simp
  qed
qed

section \<open>Freeing writes inside its heap\<close>

lemma hb_set_other: "x \<noteq> a \<Longrightarrow> hb_set f a m x = m x"
  by (simp add: hb_set_def)

lemma hb_get_Inr: "hb_get m a = Inr b \<longleftrightarrow> m a = Some b"
  by (simp add: hb_get_def split: option.split)

lemma merge_prev_local:
  assumes r: "merge_prev cur m = Inr (cur', m')" and c: "m cur = Some c" and x: "x = 0 \<or> x \<noteq> hb_prev c \<and> x \<noteq> hb_next c"
  shows "m' x = m x"
proof -
  have n: "hb_next c1 = hb_next c" if "hb_set (hb_size_update f) p m cur = Some c1" for f p c1
    using that c by (auto simp: hb_set_def split: if_splits)
  show ?thesis using r c x unfolding merge_prev_def res_bind_eq_Inr hb_get_Inr
    by (auto simp: res_bind_eq_Inr hb_get_Inr Let_def hb_set_other dest!: n split: if_splits)
qed

lemma merge_next_local:
  assumes r: "merge_next cur m = Inr m'" and c: "m cur = Some c" and x: "x \<noteq> cur" "\<And>n. hb_next c \<noteq> 0 \<Longrightarrow> m (hb_next c) = Some n \<Longrightarrow> x = 0 \<or> x \<noteq> hb_next n"
  shows "m' x = m x"
proof -
  have n: "\<exists>n. m (hb_next c) = Some n \<and> hb_next n1 = hb_next n" if "hb_set (hb_size_update f) cur m (hb_next c) = Some n1" for f n1
    using that c by (auto simp: hb_set_def split: if_splits)
  show ?thesis using r c x unfolding merge_next_def res_bind_eq_Inr hb_get_Inr
    by (auto simp: res_bind_eq_Inr hb_get_Inr Let_def hb_set_other dest!: n split: if_splits)
qed

text \<open>The headers of a list link to nothing outside its heap.\<close>

lemma header_outside:
  assumes ch: "chain mx m 0 a (xs @ (s, al) # ys) q mx" and x: "x < a \<or> mx \<le> x"
  obtains b where "m (a + extent xs) = Some b" "hb_allocated b = al" "x = 0 \<or> x \<noteq> hb_prev b \<and> x \<noteq> hb_next b"
    "x \<noteq> a + extent xs" "hb_next b \<noteq> 0 \<Longrightarrow> ys \<noteq> [] \<and> hb_next b = a + extent (xs @ [(s, al)])"
proof -
  obtain p where xs: "chain mx m 0 a xs p (a + extent xs)" and c: "chain mx m p (a + extent xs) ((s, al) # ys) q mx"
    using ch by (auto simp: chain_append)
  have p: "p = 0 \<or> a \<le> p \<and> p < a + extent xs"
  proof (cases xs rule: rev_cases)
    case (snoc ws y)
    then obtain u al' where "y = (u, al')" by fastforce
    then show ?thesis using xs by (auto simp: snoc chain_append)
  qed (use xs in simp)
  have e: "mx = a + extent xs + (16 + s) + extent ys" using chain_end [OF c] by simp
  have ys: "a + extent xs + 16 + s \<noteq> mx \<Longrightarrow> ys \<noteq> []" using e by auto
  show ?thesis
  proof (rule that)
    show "m (a + extent xs) = Some \<lparr>hb_size = s, hb_allocated = al, hb_prev = p, hb_next = link_to mx (a + extent xs + 16 + s)\<rparr>"
      using c by simp
  qed (use p e x ys in \<open>auto simp: link_to_def split: if_splits\<close>)
qed

lemma free_heap_local:
  assumes ok: "heap_ok h m (xs @ (s, True) # ys)" and f: "free_heap (hd_head h + extent xs + 16) (h, m) = Inr (h', m')"
    and x: "x < hd_head h \<or> hd_max h \<le> x"
  shows "m' x = m x"
proof -
  let ?c = "hd_head h + extent xs" and ?mx = "hd_max h"
  let ?m1 = "hb_set (hb_allocated_update (\<lambda>_. False)) ?c m"
  note bd = heap_ok_bounds [OF ok]
  obtain q where ch: "chain ?mx m 0 (hd_head h) (xs @ (s, True) # ys) q ?mx" using ok by (auto simp: heap_ok_def)
  note ch1 = chain_mark_free [OF ch]
  obtain xs' s' where j: "join_prev xs s = (xs', s')" by fastforce
  obtain m1 q1 where p: "merge_prev ?c ?m1 = Inr (hd_head h + extent xs', m1)" "chain ?mx m1 0 (hd_head h) (xs' @ (s', False) # ys) q1 ?mx"
    using merge_prev_step [OF ch1 bd(3,2) j(1)] by blast
  obtain c1 where c1: "?m1 ?c = Some c1" "\<not> hb_allocated c1" "x = 0 \<or> x \<noteq> hb_prev c1 \<and> x \<noteq> hb_next c1" "x \<noteq> ?c"
    using header_outside [OF ch1 x] by blast
  obtain c2 where c2: "m1 (hd_head h + extent xs') = Some c2" "x \<noteq> hd_head h + extent xs'"
      "hb_next c2 \<noteq> 0 \<Longrightarrow> ys \<noteq> [] \<and> hb_next c2 = hd_head h + extent (xs' @ [(s', False)])"
    using header_outside [OF p(2) x] by metis
  have n: "x = 0 \<or> x \<noteq> hb_next n" if nz: "hb_next c2 \<noteq> 0" "m1 (hb_next c2) = Some n" for n
  proof -
    obtain t al zs where ys: "ys = (t, al) # zs" using c2(3) [OF nz(1)] by (metis neq_Nil_conv surj_pair)
    have "chain ?mx m1 0 (hd_head h) ((xs' @ [(s', False)]) @ (t, al) # zs) q1 ?mx" using p(2) by (simp add: ys)
    from header_outside [OF this x] show ?thesis using c2(3) nz by (metis option.inject)
  qed
  have "merge_empty_blocks_adjacent ?c ?m1 = merge_next (hd_head h + extent xs') m1"
    using c1 p(1) bd(2) by (simp add: merge_empty_blocks_adjacent_def hb_get_def)
  moreover have "sub32 (?c + 16) SIZEOF_BLOCK = ?c" using bd by (simp add: SIZEOF_BLOCK_def sub32_exact)
  ultimately have "merge_next (hd_head h + extent xs') m1 = Inr m'"
    using f by (auto simp: free_heap_def Let_def res_bind_eq_Inr split: if_splits)
  then have "m' x = m1 x" using c2(1,2) n by (rule merge_next_local)
  also have "m1 x = ?m1 x" using p(1) c1(1,3) by (rule merge_prev_local)
  also have "\<dots> = m x" using c1(4) by (simp add: hb_set_other)
  finally show ?thesis .
qed

end
