(* ===== verification/Kernel_Duo.thy ===== *)
theory Kernel_Duo
  imports Kernel_Switch Kernel_Heap_Frame
begin

text \<open>
  The kernel as it ships: two tasks, \<open>idle\<close> in slot 0 with priority 0 and the user program in slot 1
  with priority 50.  This theory describes the four shapes the kernel's state can have and
  follows every way of scheduling from one shape to the next.
\<close>

section \<open>Shapes\<close>

datatype phase = User_runs | Idle_runs | User_waits | User_gone

text \<open>
  The states of the two tasks, the current slot, the ready queue's head and length, the two
  \<open>next\<close> pointers and whether the user task is registered as blocked.  A head that points to
  entry 0 of an empty queue, and an entry 0 that is its own successor, really occur: the
  insertion does not repair stale pointers.
\<close>

fun phase_ok :: "phase \<Rightarrow> task_state \<Rightarrow> task_state \<Rightarrow> nat \<Rightarrow> nat option \<Rightarrow> nat \<Rightarrow> nat option \<Rightarrow> nat option \<Rightarrow> bool \<Rightarrow> bool" where
  "phase_ok User_runs s0 s1 c hq n next0 next1 bl \<longleftrightarrow>
     s0 = TS_READY \<and> s1 = TS_RUNNING \<and> c = 1 \<and> hq = Some 0 \<and> n = 1 \<and> next0 \<in> {None, Some 0} \<and> \<not> bl"
| "phase_ok Idle_runs s0 s1 c hq n next0 next1 bl \<longleftrightarrow>
     s0 = TS_RUNNING \<and> s1 = TS_READY \<and> c = 0 \<and> hq = Some 1 \<and> n = 1 \<and> next0 = None \<and> next1 = Some 0 \<and> \<not> bl"
| "phase_ok User_waits s0 s1 c hq n next0 next1 bl \<longleftrightarrow>
     s0 = TS_RUNNING \<and> s1 = TS_BLOCKED_IRQ \<and> c = 0 \<and> hq \<in> {None, Some 0} \<and> n = 0 \<and> next0 = None \<and> bl"
| "phase_ok User_gone s0 s1 c hq n next0 next1 bl \<longleftrightarrow>
     s0 = TS_RUNNING \<and> s1 = TS_NOT_CREATED \<and> c = 0 \<and> hq \<in> {None, Some 0} \<and> n = 0 \<and> next0 = None \<and> \<not> bl"

definition duo_task :: "int \<Rightarrow> nat \<Rightarrow> task \<Rightarrow> bool" where
  "duo_task tid p t \<longleftrightarrow> t_id t = tid \<and> t_priority t = p \<and> full_context (t_ctx t) \<and> t_time_slice t < W32"

definition duo_entry :: "int \<Rightarrow> ready_entry \<Rightarrow> bool" where
  "duo_entry tid r \<longleftrightarrow> re_task_id r = tid \<and> re_prev r = None"

text \<open>
  The user task's stack and heap are live blocks of the global heap, and the heap inside the
  second block is well-formed.
\<close>

definition user_memory :: "heap_descriptor \<Rightarrow> heap_store \<Rightarrow> nat \<Rightarrow> heap_descriptor \<Rightarrow> bool" where
  "user_memory gh m sb uh \<longleftrightarrow> (\<exists>gbs ubs. heap_ok gh m gbs \<and> heap_ok uh m ubs \<and> sb \<noteq> hd_head uh \<and>
     (sb, 1024) \<in> set (live (hd_head gh) gbs) \<and> (hd_head uh, 1024) \<in> set (live (hd_head gh) gbs) \<and>
     hd_max uh = hd_head uh + 1024)"

definition duo_parts :: "phase \<Rightarrow> kernel \<Rightarrow> task \<Rightarrow> task \<Rightarrow> task list \<Rightarrow> ready_entry \<Rightarrow> ready_entry \<Rightarrow> ready_entry list \<Rightarrow>
    blocked_entry \<Rightarrow> blocked_entry \<Rightarrow> blocked_entry list \<Rightarrow> bool" where
  "duo_parts ph k t0 t1 ts r0 r1 rs b0 b1 bs \<longleftrightarrow>
     tasks k = t0 # t1 # ts \<and> qready k = r0 # r1 # rs \<and> qblocked k = b0 # b1 # bs \<and> length bs = 6 \<and>
     duo_task 0 0 t0 \<and> duo_task 257 50 t1 \<and> duo_entry 0 r0 \<and> duo_entry 257 r1 \<and>
     \<not> be_blocked b0 \<and> (\<forall>b \<in> set bs. \<not> be_blocked b) \<and> (be_blocked b1 \<longrightarrow> be_task_id b1 = 257) \<and>
     (ph \<noteq> User_gone \<longrightarrow> user_memory (global_heap k) (kmem k) (t_stack_base t1) (t_heap t1)) \<and>
     phase_ok ph (t_state t0) (t_state t1) (current_slot k) (qready_head k) (n_ready k) (re_next r0) (re_next r1) (be_blocked b1)"

definition duo :: "phase \<Rightarrow> kernel \<Rightarrow> bool" where
  "duo ph k \<longleftrightarrow> (\<exists>t0 t1 ts r0 r1 rs b0 b1 bs. duo_parts ph k t0 t1 ts r0 r1 rs b0 b1 bs)"

text \<open>The task on the processor has a tick left.\<close>

definition in_quantum :: "kernel \<Rightarrow> bool" where
  "in_quantum k \<longleftrightarrow> 0 < t_time_slice (tasks k ! current_slot k)"

lemma duoE:
  assumes "duo ph k"
  obtains t0 t1 ts r0 r1 rs b0 b1 bs where "duo_parts ph k t0 t1 ts r0 r1 rs b0 b1 bs"
  using assms unfolding duo_def by blast

section \<open>Running the scheduler on the two tasks\<close>

lemma duo_slots [simp]: "TASK_SLOT 0 = 0" "TASK_SLOT 257 = 1"
  by (simp_all add: TASK_SLOT_def)

lemma push_search_None: "push_search k tid p None cp np = Some (Inr (p, None))"
  by (subst push_search.simps) simp

lemma push_search_Some:
  "push_search k tid p (Some i) (Some cp) (Some np) =
     (if np \<ge> cp then push_search k tid i (re_next (qready k ! i)) (prio_into k tid (Some cp))
        (next_prio_into k (re_next (qready k ! i)) (Some np))
      else Some (Inr (p, Some i)))"
  by (subst push_search.simps) simp

lemma duo_quanta [simp]:
  "add32 SCHED_QUANTUM_TICKS (mul32 0 SCHED_PRIORITY_BONUS_TICKS) = 10"
  "add32 SCHED_QUANTUM_TICKS (mul32 50 SCHED_PRIORITY_BONUS_TICKS) = 60"
  by (simp_all add: add32_def mul32_def SCHED_QUANTUM_TICKS_def SCHED_PRIORITY_BONUS_TICKS_def W32_def)

lemmas duo_shape = duo_parts_def duo_task_def duo_entry_def

lemmas task_access = get_task_of_id_def get_task_state_def get_task_priority_def get_task_time_slice_def set_task_ready_def
  set_task_running_def set_task_time_slice_def upd_task_of_id_def task_upd_def set_current_task_def current_task_def

lemmas run_scheduler = switch_to_next_task_def schedule_def push_ready_task_def push_front_def link_between_def remove_ready_task_def
  sched_prefer_def sched_take_def re_upd_def prio_into_def next_prio_into_def task_access Let_def krun_simps copy_context_exact
  push_search_None push_search_Some MAX_TASKS_def sub32_def W32_def

text \<open>The user program yields, or its quantum has ended: \<open>idle\<close> runs, the user task is ready.\<close>

lemma user_yields:
  assumes "duo User_runs k" "full_context ctx"
  shows "\<exists>ctx' k'. switch_to_next_task ctx k = krun_return (ctx', k') \<and> full_context ctx' \<and> duo Idle_runs k' \<and> in_quantum k'"
proof -
  obtain t0 t1 ts r0 r1 rs b0 b1 bs where d: "duo_parts User_runs k t0 t1 ts r0 r1 rs b0 b1 bs" using assms(1) by (rule duoE)
  show ?thesis using d assms(2) by (cases "re_next r0") (simp_all add: run_scheduler duo_def duo_shape in_quantum_def)
qed

text \<open>\<open>idle\<close> has used up its quantum and the user program is ready: it runs.\<close>

lemma idle_yields:
  assumes "duo Idle_runs k" "full_context ctx"
  shows "\<exists>ctx' k'. switch_to_next_task ctx k = krun_return (ctx', k') \<and> full_context ctx' \<and> duo User_runs k' \<and> in_quantum k'"
proof -
  obtain t0 t1 ts r0 r1 rs b0 b1 bs where d: "duo_parts Idle_runs k t0 t1 ts r0 r1 rs b0 b1 bs" using assms(1) by (rule duoE)
  show ?thesis using d assms(2) by (simp add: run_scheduler duo_def duo_shape in_quantum_def)
qed

text \<open>\<open>idle\<close> is the only task that can run: it gets a new quantum.\<close>

lemma idle_goes_on:
  assumes "duo ph k" "ph = User_waits \<or> ph = User_gone" "full_context ctx"
  shows "\<exists>ctx' k'. switch_to_next_task ctx k = krun_return (ctx', k') \<and> full_context ctx' \<and> duo ph k' \<and> in_quantum k'"
proof -
  obtain t0 t1 ts r0 r1 rs b0 b1 bs where d: "duo_parts ph k t0 t1 ts r0 r1 rs b0 b1 bs" using assms(1) by (rule duoE)
  show ?thesis using assms(2) d assms(3) by (elim disjE; cases "qready_head k") (simp_all add: run_scheduler duo_def duo_shape in_quantum_def)
qed

section \<open>The memory of the user task\<close>

text \<open>Writes inside the user's heap leave its own block list to the allocator and the global heap as it was.\<close>

lemma user_memory_update:
  assumes u: "user_memory gh m sb uh" and ok: "heap_ok uh' m' ubs'" "hd_head uh' = hd_head uh" "hd_max uh' = hd_max uh"
    and loc: "\<And>x. x < hd_head uh \<or> hd_max uh \<le> x \<Longrightarrow> m' x = m x"
  shows "user_memory gh m' sb uh'"
proof -
  obtain gbs where g: "heap_ok gh m gbs" "sb \<noteq> hd_head uh" "(sb, 1024) \<in> set (live (hd_head gh) gbs)"
    "(hd_head uh, 1024) \<in> set (live (hd_head gh) gbs)" "hd_max uh = hd_head uh + 1024"
    using u unfolding user_memory_def by blast
  have "heap_ok gh m' gbs" using g(1,4) by (rule heap_ok_payload) (use loc g(5) in simp)
  then show ?thesis using g ok unfolding user_memory_def by metis
qed

lemma user_memory_alloc:
  assumes u: "user_memory gh m sb uh" and req: "req < req_limit"
  shows "\<exists>p uh' m'. alloc_heap req (uh, m) = Some (Inr (p, uh', m')) \<and> user_memory gh m' sb uh'"
proof -
  obtain ubs where ok: "heap_ok uh m ubs" using u unfolding user_memory_def by blast
  show ?thesis
  proof (cases "alloc_list (hd_size uh) req ubs")
    case None
    then show ?thesis using alloc_heap_refines [OF ok req] u by auto
  next
    case (Some y)
    obtain off ubs' where "y = (off, ubs')" by fastforce
    then obtain uh' m' where a: "alloc_heap req (uh, m) = Some (Inr (hd_head uh + off, uh', m'))" "heap_ok uh' m' ubs'"
      "hd_head uh' = hd_head uh" "hd_max uh' = hd_max uh"
      using alloc_heap_refines [OF ok req] Some by auto
    show ?thesis using a(1) user_memory_update [OF u a(2-4) alloc_heap_local [OF ok req a(1)]] by blast
  qed
qed

definition live_pointer :: "heap_descriptor \<Rightarrow> heap_store \<Rightarrow> nat \<Rightarrow> bool" where
  "live_pointer h m p \<longleftrightarrow> (\<exists>bs s. heap_ok h m bs \<and> (p, s) \<in> set (live (hd_head h) bs))"

lemma user_memory_free:
  assumes u: "user_memory gh m sb uh" and p: "live_pointer uh m p"
  shows "\<exists>uh' m'. free_heap p (uh, m) = Inr (uh', m') \<and> user_memory gh m' sb uh'"
proof -
  obtain bs s where ok: "heap_ok uh m bs" and l: "(p, s) \<in> set (live (hd_head uh) bs)" using p unfolding live_pointer_def by blast
  obtain xs ys where bs: "bs = xs @ (s, True) # ys" "p = hd_head uh + extent xs + 16" using live_split [OF l] by blast
  note ok' = ok [unfolded bs(1)]
  obtain uh' m' where f: "free_heap p (uh, m) = Inr (uh', m')" "heap_ok uh' m' (free_list xs s ys)" "hd_head uh' = hd_head uh" "hd_max uh' = hd_max uh"
    using free_heap_refines [OF ok'] unfolding bs(2) [symmetric] by blast
  show ?thesis using f(1) user_memory_update [OF u f(2-4) free_heap_local [OF ok' f(1) [unfolded bs(2)]]] by blast
qed

lemma user_memory_exit:
  assumes "user_memory gh m sb uh"
  shows "\<exists>h1 m1 h2 m2. free_heap sb (gh, m) = Inr (h1, m1) \<and> free_heap (hd_head uh) (h1, m1) = Inr (h2, m2)"
proof -
  obtain gbs where g: "heap_ok gh m gbs" "sb \<noteq> hd_head uh" "(sb, 1024) \<in> set (live (hd_head gh) gbs)"
    "(hd_head uh, 1024) \<in> set (live (hd_head gh) gbs)"
    using assms unfolding user_memory_def by blast
  obtain xs ys where bs: "gbs = xs @ (1024, True) # ys" "sb = hd_head gh + extent xs + 16" using live_split [OF g(3)] by blast
  obtain h1 m1 where f: "free_heap sb (gh, m) = Inr (h1, m1)" "heap_ok h1 m1 (free_list xs 1024 ys)" "hd_head h1 = hd_head gh"
    using free_heap_refines [OF g(1) [unfolded bs(1)]] unfolding bs(2) [symmetric] by blast
  have "(hd_head uh, 1024) \<in> set (live (hd_head h1) (free_list xs 1024 ys))"
    using g(2,4) by (auto simp: f(3) bs live_append live_free_list)
  from live_split [OF this] obtain vs ws where "free_list xs 1024 ys = vs @ (1024, True) # ws" "hd_head uh = hd_head h1 + extent vs + 16"
    by blast
  then show ?thesis using free_heap_refines [of h1 m1 vs 1024 ws] f(1,2) by fastforce
qed

section \<open>Parking, exiting and waking\<close>

text \<open>The user task waits for an interrupt.\<close>

lemma user_parks:
  assumes "duo User_runs k" "full_context ctx"
  shows "\<exists>ctx' k'. switch_to_next_task ctx (block_task_irq (current_task k) interr k) = krun_return (ctx', k') \<and>
    full_context ctx' \<and> duo User_waits k' \<and> in_quantum k'"
proof -
  obtain t0 t1 ts r0 r1 rs b0 b1 bs where d: "duo_parts User_runs k t0 t1 ts r0 r1 rs b0 b1 bs" using assms(1) by (rule duoE)
  show ?thesis using d assms(2)
    by (cases "re_next r0")
      (simp_all add: run_scheduler duo_def duo_shape in_quantum_def block_task_irq_def task_exists_def set_task_blocked_irq_def be_upd_def)
qed

lemma user_exits:
  assumes "duo User_runs k" "full_context ctx"
  shows "\<exists>ctx' k'. switch_to_next_task ctx (terminate_task (current_task k) k) = krun_return (ctx', k') \<and>
    full_context ctx' \<and> duo User_gone k' \<and> in_quantum k'"
proof -
  obtain t0 t1 ts r0 r1 rs b0 b1 bs where d: "duo_parts User_runs k t0 t1 ts r0 r1 rs b0 b1 bs" using assms(1) by (rule duoE)
  then have "user_memory (global_heap k) (kmem k) (t_stack_base t1) (t_heap t1)" by (simp add: duo_parts_def)
  from user_memory_exit [OF this] obtain h1 m1 h2 m2 where f: "free_heap (t_stack_base t1) (global_heap k, kmem k) = Inr (h1, m1)"
    "free_heap (hd_head (t_heap t1)) (h1, m1) = Inr (h2, m2)" by blast
  show ?thesis using d f assms(2)
    by (cases "re_next r0")
      (simp_all add: run_scheduler duo_def duo_shape in_quantum_def terminate_task_def destroy_task_def gfree_def)
qed

lemma wake_unblocked:
  "\<forall>i \<in> set js. \<not> be_blocked (qblocked k ! i) \<Longrightarrow> wake_loop w js n k = krun_return (n, k)"
  by (induction js) simp_all

lemma tail_unblocked:
  "duo_parts ph k t0 t1 ts r0 r1 rs b0 b1 bs \<Longrightarrow> qblocked k' = x # y # bs \<Longrightarrow> wake_loop w [2..<8] n k' = krun_return (n, k')"
  by (rule wake_unblocked) (auto simp: duo_parts_def nth_Cons' all_set_conv_all_nth)

text \<open>An interrupt finds nothing to wake, or it wakes the user task, which then runs.\<close>

lemma wake_cases:
  assumes "duo ph k"
  shows "wake_irq_tasks interr k = krun_return (0, k) \<or>
    ph = User_waits \<and> (\<exists>k1. wake_irq_tasks interr k = krun_return (1, k1) \<and>
      (\<forall>ctx. full_context ctx \<longrightarrow> (\<exists>ctx' k'. switch_to_next_task ctx k1 = krun_return (ctx', k') \<and> full_context ctx' \<and> duo User_runs k' \<and> in_quantum k')))"
proof -
  obtain t0 t1 ts r0 r1 rs b0 b1 bs where d: "duo_parts ph k t0 t1 ts r0 r1 rs b0 b1 bs" using assms(1) by (rule duoE)
  have upt: "[0..<8] = 0 # 1 # [2..<8 :: nat]" by (simp add: upt_rec)
  note w = wake_irq_tasks_def MAX_TASKS_def upt
  show ?thesis
  proof (cases "ph = User_waits")
    case False
    then have "\<not> be_blocked b1" using d by (cases ph) (simp_all add: duo_parts_def)
    then show ?thesis using d tail_unblocked [OF d, of k]
      by (simp add: wake_irq_tasks_def MAX_TASKS_def upt duo_parts_def del: upt_rec_numeral)
  next
    case True
    note d' = d [unfolded True]
    let ?w = "bits_interr interr"
    show ?thesis
    proof (cases "be_wait_irq_mask b1 AND ?w = 0")
      case m: True
      have "wake_irq_tasks interr k = wake_loop ?w [2..<8] 0 k" using d' m
        by (simp add: w duo_shape task_access Let_def del: upt_rec_numeral)
      then show ?thesis using tail_unblocked [OF d, of k] d by (simp add: duo_parts_def)
    next
      case m: False
      define k1 where "k1 = k\<lparr>qblocked := b0 # b1\<lparr>be_wait_irq_mask := 0, be_blocked := False\<rparr> # bs,
        tasks := t0 # t1\<lparr>t_state := TS_READY\<rparr> # ts, qready := r0 # r1\<lparr>re_prev := None, re_next := qready_head k\<rparr> # rs,
        qready_head := Some 1, n_ready := 1\<rparr>"
      have t: "wake_loop ?w [2..<8] 1 k1 = krun_return (1, k1)" by (rule tail_unblocked [OF d]) (simp add: k1_def)
      have "wake_irq_tasks interr k = wake_loop ?w [2..<8] 1 k1" using d' m
        by (simp add: w duo_shape run_scheduler set_task_ready_def be_upd_def k1_def del: upt_rec_numeral)
      moreover have "\<exists>ctx' k'. switch_to_next_task ctx k1 = krun_return (ctx', k') \<and> full_context ctx' \<and> duo User_runs k' \<and> in_quantum k'"
        if "full_context ctx" for ctx
        using d' that by (cases "qready_head k") (simp_all add: k1_def run_scheduler duo_def duo_shape in_quantum_def)
      ultimately show ?thesis using t True by auto
    qed
  qed
qed

end
