(* ===== verification/Kernel_Duo_Traps.thy ===== *)
theory Kernel_Duo_Traps
  imports Kernel_Duo
begin

text \<open>
  Every trap the two tasks can cause, followed through the trap handler: interrupts at any time,
  system calls of the user program.
\<close>

definition duo_live :: "kernel \<Rightarrow> bool" where
  "duo_live k \<longleftrightarrow> in_quantum k \<and> (\<exists>ph. duo ph k)"

text \<open>
  What the user program may ask for: any call with any arguments, except a request of 3 GiB or
  more, a pointer into the heap that is not an allocated block's, and a string the UART never
  takes.
\<close>

definition user_call_ok :: "'u port \<Rightarrow> (u32 \<Rightarrow> u8) \<Rightarrow> cpu_context \<Rightarrow> 'u sys \<Rightarrow> bool" where
  "user_call_ok io bytes ctx s \<longleftrightarrow>
     (reg ctx 17 = SyscallCode_MALLOC \<longrightarrow> unat (reg ctx 10) < req_limit) \<and>
     (reg ctx 17 = SyscallCode_FREE \<longrightarrow>
        (let uh = t_heap (tasks (sys_k s) ! 1); p = unat (reg ctx 10)
         in is_valid_heap_ptr uh p \<longrightarrow> live_pointer uh (kmem (sys_k s)) p)) \<and>
     (reg ctx 17 = SyscallCode_PUTS \<longrightarrow> puts_loop io bytes (reg ctx 10) 0 (sys_uart s) \<noteq> None)"

definition trap_ok :: "'u port \<Rightarrow> (u32 \<Rightarrow> u8) \<Rightarrow> trap_frame \<Rightarrow> 'u sys \<Rightarrow> bool" where
  "trap_ok io bytes f s \<longleftrightarrow> full_context (tf_ctx f) \<and>
     (sint (tf_mcause f) < 0 \<or> tf_mcause f = 8 \<and> current_slot (sys_k s) = 1 \<and> user_call_ok io bytes (tf_ctx f) s)"

section \<open>Interrupts\<close>

lemma duo_current:
  assumes "duo ph k"
  shows "get_task_time_slice k (current_task k) = Some (t_time_slice (tasks k ! current_slot k))"
    "current_slot k = (if ph = User_runs then 1 else 0)" "t_time_slice (tasks k ! current_slot k) < W32"
proof -
  obtain t0 t1 ts r0 r1 rs b0 b1 bs where d: "duo_parts ph k t0 t1 ts r0 r1 rs b0 b1 bs" using assms by (rule duoE)
  show "get_task_time_slice k (current_task k) = Some (t_time_slice (tasks k ! current_slot k))"
    "current_slot k = (if ph = User_runs then 1 else 0)" "t_time_slice (tasks k ! current_slot k) < W32"
    using d by (cases ph; simp add: duo_shape task_access Let_def MAX_TASKS_def)+
qed

text \<open>Counting the slice of the running task down.\<close>

lemma duo_tick:
  assumes "duo ph k" "n < W32"
  shows "duo ph (set_task_time_slice (current_task k) n k)"
    "t_time_slice (tasks (set_task_time_slice (current_task k) n k) ! current_slot k) = n"
    "current_slot (set_task_time_slice (current_task k) n k) = current_slot k"
proof -
  obtain t0 t1 ts r0 r1 rs b0 b1 bs where d: "duo_parts ph k t0 t1 ts r0 r1 rs b0 b1 bs" using assms by (elim duoE)
  show "duo ph (set_task_time_slice (current_task k) n k)"
    "t_time_slice (tasks (set_task_time_slice (current_task k) n k) ! current_slot k) = n"
    "current_slot (set_task_time_slice (current_task k) n k) = current_slot k"
    using d assms(2) by (cases ph; simp add: duo_def duo_shape task_access Let_def MAX_TASKS_def)+
qed

lemma yield_live:
  assumes "duo ph k" "full_context ctx"
  shows "\<exists>ctx' k'. switch_to_next_task ctx k = krun_return (ctx', k') \<and> full_context ctx' \<and> duo_live k'"
proof (cases ph)
  case User_runs
  then show ?thesis using user_yields [of k ctx] assms unfolding duo_live_def by blast
next
  case Idle_runs
  then show ?thesis using idle_yields [of k ctx] assms unfolding duo_live_def by blast
next
  case User_waits
  then show ?thesis using idle_goes_on [OF assms(1) _ assms(2)] unfolding duo_live_def by blast
next
  case User_gone
  then show ?thesis using idle_goes_on [OF assms(1) disjI2 assms(2)] unfolding duo_live_def by blast
qed

definition returns_live :: "(cpu_context \<times> 'u sys) krun \<Rightarrow> bool" where
  "returns_live r \<longleftrightarrow> (\<exists>ctx s. r = krun_return (ctx, s) \<and> full_context ctx \<and> duo_live (sys_k s))"

lemma k_yield_live:
  assumes "\<exists>ctx' k'. switch_to_next_task ctx (sys_k s) = krun_return (ctx', k') \<and> full_context ctx' \<and> duo_live k'"
  shows "returns_live (krun_bind (k_yield ctx s) (\<lambda>(_, ctx', s'). krun_return (ctx', s')))"
  using assms unfolding returns_live_def by (auto simp: k_yield_def on_kernel_def krun_simps)

lemma interrupt_live:
  assumes d: "duo ph (sys_k s)" and q: "in_quantum (sys_k s)" and ctx: "full_context ctx"
  shows "returns_live (handle_interrupt interr ctx s)"
proof -
  let ?k = "sys_k s" and ?n = "t_time_slice (tasks (sys_k s) ! current_slot (sys_k s))"
  define n' where "n' = (if interr = Interrupt_M_TIMER then sub32 ?n 1 else ?n)"
  define s1 where "s1 = (if interr = Interrupt_M_TIMER
      then s\<lparr>sys_k := set_task_time_slice (current_task ?k) n' ?k, sys_cmp := set_timecmp (get_timecmp (sys_cmp s) + TICK_LENGTH) (sys_cmp s)\<rparr>
      else s)"
  have "n' < W32" using duo_current(3) [OF d] q by (simp add: n'_def sub32_def in_quantum_def)
  then have "duo ph (sys_k s1) \<and> t_time_slice (tasks (sys_k s1) ! current_slot (sys_k s1)) = n'"
    using duo_tick [OF d, of n'] d by (cases "interr = Interrupt_M_TIMER") (simp add: s1_def, simp add: s1_def n'_def)
  then have d1: "duo ph (sys_k s1)" and n': "t_time_slice (tasks (sys_k s1) ! current_slot (sys_k s1)) = n'" by simp_all
  have unf: "handle_interrupt interr ctx s = krun_bind (on_kernel (wake_irq_tasks interr) s1) (\<lambda>(num_awaken, s2).
      if n' = 0 \<or> num_awaken > 0 then krun_bind (k_yield ctx s2) (\<lambda>(_, ctx', s'). krun_return (ctx', s')) else krun_return (ctx, s2))"
    unfolding handle_interrupt_def duo_current(1) [OF d] option.case Let_def n'_def [symmetric] s1_def [symmetric] ..
  consider (none) "wake_irq_tasks interr (sys_k s1) = krun_return (0, sys_k s1)"
    | (wake) k1 where "wake_irq_tasks interr (sys_k s1) = krun_return (1, k1)"
      "\<exists>ctx' k'. switch_to_next_task ctx k1 = krun_return (ctx', k') \<and> full_context ctx' \<and> duo User_runs k' \<and> in_quantum k'"
    using wake_cases [OF d1, of interr] ctx by blast
  then show ?thesis
  proof cases
    case none
    show ?thesis
    proof (cases "n' = 0")
      case True
      then show ?thesis using none k_yield_live [OF yield_live [OF d1 ctx]]
        by (simp add: unf on_kernel_def krun_simps)
    next
      case False
      then have "duo_live (sys_k s1)" using d1 n' unfolding duo_live_def in_quantum_def by auto
      then show ?thesis using none False ctx by (simp add: unf on_kernel_def krun_simps returns_live_def)
    qed
  next
    case wake
    have "\<exists>ctx' k'. switch_to_next_task ctx (sys_k (s1\<lparr>sys_k := k1\<rparr>)) = krun_return (ctx', k') \<and> full_context ctx' \<and> duo_live k'"
      using wake(2) unfolding duo_live_def by auto
    from k_yield_live [OF this] wake(1) show ?thesis by (simp add: unf on_kernel_def krun_simps)
  qed
qed

section \<open>System calls\<close>

lemma full_set_reg [simp]: "full_context (set_reg i w ctx) = full_context ctx" "full_context (adv_pc ctx) = full_context ctx"
  by (simp_all add: full_context_def set_reg_def adv_pc_def)

text \<open>The dispatcher's epilogue after a call that did not give up the processor.\<close>

lemma epilogue_live:
  assumes "st \<noteq> SyscallStatus_BLOCKED" "full_context ctx" "duo_live (sys_k s)"
  shows "returns_live (if adv \<and> st = SyscallStatus_DONE then krun_return (adv_pc ctx, s)
     else if st = SyscallStatus_BLOCKED then krun_bind (k_yield ctx s) (\<lambda>(_, ctx'', s''). krun_return (ctx'', s''))
     else krun_return (ctx, s))"
  using assms by (simp add: returns_live_def)

lemma putc_status: "fst (putc_spin io n c u) \<noteq> SyscallStatus_BLOCKED"
  by (induction n arbitrary: u) (simp_all split: prod.split)

lemma user_running:
  assumes "duo User_runs k"
  shows "current_task k = 257" "get_task_heap k 257 = Some 1"
    "user_memory (global_heap k) (kmem k) (t_stack_base (tasks k ! 1)) (t_heap (tasks k ! 1))"
proof -
  obtain t0 t1 ts r0 r1 rs b0 b1 bs where d: "duo_parts User_runs k t0 t1 ts r0 r1 rs b0 b1 bs" using assms by (rule duoE)
  show "current_task k = 257" "get_task_heap k 257 = Some 1"
    "user_memory (global_heap k) (kmem k) (t_stack_base (tasks k ! 1)) (t_heap (tasks k ! 1))"
    using d by (simp_all add: duo_shape task_access Let_def MAX_TASKS_def get_task_heap_def)
qed

lemma duo_heap_update:
  assumes "duo User_runs k" "in_quantum k" "user_memory (global_heap k) m (t_stack_base (tasks k ! 1)) uh"
  shows "duo_live ((task_upd 1 (t_heap_update (\<lambda>_. uh)) k)\<lparr>kmem := m\<rparr>)"
proof -
  obtain t0 t1 ts r0 r1 rs b0 b1 bs where d: "duo_parts User_runs k t0 t1 ts r0 r1 rs b0 b1 bs" using assms(1) by (rule duoE)
  have "duo User_runs ((task_upd 1 (t_heap_update (\<lambda>_. uh)) k)\<lparr>kmem := m\<rparr>)"
    using d assms(3) by (simp add: duo_def duo_shape task_upd_def)
  then show ?thesis using d assms(2) unfolding duo_live_def by (auto simp: duo_shape task_upd_def in_quantum_def)
qed

lemma malloc_live:
  assumes d: "duo User_runs (sys_k s)" "in_quantum (sys_k s)" and sz: "sz < req_limit"
  shows "\<exists>p s'. k_malloc sz s = krun_return (SyscallStatus_DONE, p, s') \<and> duo_live (sys_k s')"
proof -
  let ?k = "sys_k s"
  note u = user_running [OF d(1)]
  obtain p uh m where a: "alloc_heap sz (t_heap (tasks ?k ! 1), kmem ?k) = Some (Inr (p, uh, m))"
    "user_memory (global_heap ?k) m (t_stack_base (tasks ?k ! 1)) uh"
    using user_memory_alloc [OF u(3) sz] by blast
  have "alloc_heap sz (t_heap (tasks ?k ! 1), kmem ?k) = krun_return (p, uh, m)" using a(1) by (simp add: krun_return_def)
  then show ?thesis using duo_heap_update [OF d a(2)]
    by (simp add: k_malloc_def Let_def u(1,2) krun_simps)
qed

lemma free_live:
  assumes d: "duo User_runs (sys_k s)" "in_quantum (sys_k s)"
    and p: "is_valid_heap_ptr (t_heap (tasks (sys_k s) ! 1)) p \<Longrightarrow> live_pointer (t_heap (tasks (sys_k s) ! 1)) (kmem (sys_k s)) p"
  shows "\<exists>s'. k_free p s = krun_return (SyscallStatus_DONE, s') \<and> duo_live (sys_k s')"
proof (cases "is_valid_heap_ptr (t_heap (tasks (sys_k s) ! 1)) p")
  case True
  let ?k = "sys_k s"
  note u = user_running [OF d(1)]
  obtain uh m where f: "free_heap p (t_heap (tasks ?k ! 1), kmem ?k) = Inr (uh, m)"
    "user_memory (global_heap ?k) m (t_stack_base (tasks ?k ! 1)) uh"
    using user_memory_free [OF u(3) p [OF True]] by blast
  then show ?thesis using True duo_heap_update [OF d f(2)] by (simp add: k_free_def Let_def u(1,2) krun_simps)
next
  case False
  then show ?thesis using d user_running [OF d(1)] by (auto simp: k_free_def duo_live_def)
qed

lemma syscall_live:
  assumes d: "duo User_runs (sys_k s)" and q: "in_quantum (sys_k s)" and ctx: "full_context ctx" and ok: "user_call_ok io bytes ctx s"
  shows "returns_live (dispatch_syscall io bytes ctx s)"
proof -
  have live: "duo_live (sys_k s)" using d q unfolding duo_live_def by blast
  note e = epilogue_live [OF _ _ live] and codes = SyscallCode_EXIT_def SyscallCode_YIELD_def SyscallCode_FREE_def SyscallCode_MALLOC_def
    SyscallCode_PUTC_def SyscallCode_GETC_def SyscallCode_PUTS_def
  note ds = dispatch_syscall_def Let_def
  consider (exit) "reg ctx 17 = SyscallCode_EXIT" | (yield) "reg ctx 17 = SyscallCode_YIELD" | (free) "reg ctx 17 = SyscallCode_FREE"
    | (malloc) "reg ctx 17 = SyscallCode_MALLOC" | (putc) "reg ctx 17 = SyscallCode_PUTC" | (getc) "reg ctx 17 = SyscallCode_GETC"
    | (puts) "reg ctx 17 = SyscallCode_PUTS"
    | (other) "reg ctx 17 \<notin> {SyscallCode_EXIT, SyscallCode_YIELD, SyscallCode_FREE, SyscallCode_MALLOC, SyscallCode_PUTC, SyscallCode_GETC, SyscallCode_PUTS}"
    by blast
  then show ?thesis
  proof cases
    case exit
    then show ?thesis using user_exits [OF d ctx]
      by (auto simp: ds k_exit_def on_kernel_def krun_simps returns_live_def duo_live_def)
  next
    case yield
    then show ?thesis using user_yields [OF d, of "adv_pc ctx"] ctx
      by (auto simp: ds codes k_yield_def on_kernel_def krun_simps returns_live_def duo_live_def)
  next
    case free
    then obtain s' where "k_free (unat (reg ctx 10)) s = krun_return (SyscallStatus_DONE, s')" "duo_live (sys_k s')"
      using free_live [OF d q] ok unfolding user_call_ok_def Let_def by blast
    then show ?thesis using free ctx by (simp add: ds codes krun_simps returns_live_def)
  next
    case malloc
    then obtain p s' where "k_malloc (unat (reg ctx 10)) s = krun_return (SyscallStatus_DONE, p, s')" "duo_live (sys_k s')"
      using malloc_live [OF d q] ok unfolding user_call_ok_def by blast
    then show ?thesis using malloc ctx by (simp add: ds codes krun_simps returns_live_def)
  next
    case putc
    obtain st u where p: "putc_spin io MAX_SPIN_ITER (ucast (reg ctx 10)) (sys_uart s) = (st, u)" by fastforce
    then have "st \<noteq> SyscallStatus_BLOCKED" using putc_status by (metis fst_conv)
    then show ?thesis using putc p ctx live
      by (simp add: ds codes k_putc_def putc_uart_def krun_simps returns_live_def)
  next
    case getc
    obtain st u where rx: "port_status io (sys_uart s) = (st, u)" by fastforce
    show ?thesis
    proof (cases "st AND 2 = 0")
      case True
      have same: "set_reg 10 (reg ctx 10) ctx = ctx" by (simp add: set_reg_def)
      show ?thesis using getc rx True user_parks [OF d ctx, of Interrupt_M_EXTERNAL]
        by (auto simp: ds codes k_getc_def krun_simps returns_live_def duo_live_def k_yield_def on_kernel_def same)
    next
      case False
      obtain c u' where "port_rx io u = (c, u')" by fastforce
      then show ?thesis using getc rx False ctx live
        by (simp add: ds codes k_getc_def krun_simps returns_live_def)
    qed
  next
    case puts
    then obtain u where "puts_loop io bytes (reg ctx 10) 0 (sys_uart s) = Some u"
      using ok unfolding user_call_ok_def by auto
    then show ?thesis using puts ctx live by (simp add: ds codes k_puts_def krun_simps returns_live_def)
  next
    case other
    then have "dispatch_syscall io bytes ctx s = krun_return (adv_pc ctx, s)" by (simp add: ds krun_simps)
    then show ?thesis using ctx live by (simp add: returns_live_def)
  qed
qed

lemma trap_live:
  assumes live: "duo_live (sys_k s)" and ok: "trap_ok io bytes f s"
  shows "returns_live (trap_handler io bytes f s)"
proof (cases "sint (tf_mcause f) < 0")
  case True
  obtain ph where "duo ph (sys_k s)" "in_quantum (sys_k s)" using live unfolding duo_live_def by blast
  from interrupt_live [OF this] True ok show ?thesis unfolding trap_ok_def by (simp add: trap_handler_def Let_def)
next
  case False
  then have c: "tf_mcause f = 8" "current_slot (sys_k s) = 1" "user_call_ok io bytes (tf_ctx f) s" "full_context (tf_ctx f)"
    using ok unfolding trap_ok_def by auto
  obtain ph where d: "duo ph (sys_k s)" "in_quantum (sys_k s)" using live unfolding duo_live_def by blast
  then have "duo User_runs (sys_k s)" using duo_current(2) [OF d(1)] c(2) by (cases "ph = User_runs") simp_all
  from syscall_live [OF this d(2) c(4,3)] show ?thesis by (simp add: trap_handler_def Let_def c(1))
qed

end
