(* ===== verification/Kernel_Wake.thy ===== *)
theory Kernel_Wake
  imports Kernel_Switch
begin

text \<open>
  Interrupts: the table of blocked tasks, the tasks an interrupt wakes, the timer tick, and a
  \<open>getc\<close> that finds no input.
\<close>

section \<open>The table of blocked tasks\<close>

definition blocked_slot :: "kernel \<Rightarrow> nat \<Rightarrow> bool" where
  "blocked_slot k i \<longleftrightarrow> (be_blocked (qblocked k ! i) \<longrightarrow>
     be_task_id (qblocked k ! i) = re_task_id (qready k ! i) \<and> slot_ok k i \<and> t_state (tasks k ! i) = TS_BLOCKED_IRQ)"

definition blocked_ok :: "kernel \<Rightarrow> bool" where
  "blocked_ok k \<longleftrightarrow> length (qblocked k) = 8 \<and> (\<forall>i < 8. blocked_slot k i)"

definition wakes :: "kernel \<Rightarrow> u32 \<Rightarrow> nat \<Rightarrow> bool" where
  "wakes k w i \<longleftrightarrow> be_blocked (qblocked k ! i) \<and> be_wait_irq_mask (qblocked k ! i) AND w \<noteq> 0"

lemma be_upd_sel [simp]:
  "tasks (be_upd i f k) = tasks k" "qready (be_upd i f k) = qready k" "qready_head (be_upd i f k) = qready_head k"
  "n_ready (be_upd i f k) = n_ready k" "current_slot (be_upd i f k) = current_slot k"
  "length (qblocked (be_upd i f k)) = length (qblocked k)"
  by (simp_all add: be_upd_def)

lemma be_upd_nth: "i < length (qblocked k) \<Longrightarrow> qblocked (be_upd i f k) ! j = (if j = i then f (qblocked k ! i) else qblocked k ! j)"
  by (simp add: be_upd_def nth_list_update)

text \<open>Entry \<open>i\<close> released and its task made ready, before it is pushed.\<close>

definition released :: "nat \<Rightarrow> kernel \<Rightarrow> kernel" where
  "released i k = task_upd i (t_state_update (\<lambda>_. TS_READY)) (be_upd i (\<lambda>b. b\<lparr>be_wait_irq_mask := 0, be_blocked := False\<rparr>) k)"

lemma released_slot: "slot_ok (released i k) = slot_ok k"
proof -
  have "slot_ok (be_upd i f k) = slot_ok k" for f by (rule same_ids(1)) simp_all
  then show ?thesis by (auto simp: released_def task_upd_slot_ok fun_eq_iff)
qed

lemma released_wake_step:
  assumes b: "wakes k w i" "blocked_slot k i"
  shows "wake_loop w (i # is) n k = krun_bind (push_ready_task (Some i) (released i k)) (\<lambda>(ok, k3).
    if ok then wake_loop w is (n + 1) k3 else krun_fail (Panic ''Panic: failed to move blocked task into the ready queue''))"
proof -
  have e: "be_blocked (qblocked k ! i)" "be_wait_irq_mask (qblocked k ! i) AND w \<noteq> 0" using b(1) by (auto simp: wakes_def)
  have s: "be_task_id (qblocked k ! i) = re_task_id (qready k ! i)" "slot_ok k i" "t_state (tasks k ! i) = TS_BLOCKED_IRQ"
    using b(2) e(1) by (auto simp: blocked_slot_def)
  let ?k1 = "be_upd i (\<lambda>b. b\<lparr>be_wait_irq_mask := 0, be_blocked := False\<rparr>) k"
  have "slot_ok ?k1 = slot_ok k" by (rule same_ids(1)) simp_all
  then have "slot_ok ?k1 i" using s(2) by simp
  from upd_task_of_slot [OF this] have r: "set_task_ready (re_task_id (qready k ! i)) ?k1 = released i k"
    by (simp add: set_task_ready_def released_def)
  have st: "get_task_state k (re_task_id (qready k ! i)) = Some TS_BLOCKED_IRQ" using slot_ok_prio(3) [OF s(2)] s(3) by simp
  have sl: "TASK_SLOT (re_task_id (qready k ! i)) = i" using s(2) by simp
  show ?thesis unfolding wake_loop.simps Let_def s(1) st option.case r sl using e by simp
qed

lemma wake_skip:
  assumes "\<not> wakes k w i" "blocked_slot k i"
  shows "wake_loop w (i # is) n k = wake_loop w is n k"
proof (cases "be_blocked (qblocked k ! i)")
  case True
  then have s: "be_task_id (qblocked k ! i) = re_task_id (qready k ! i)" "slot_ok k i" "t_state (tasks k ! i) = TS_BLOCKED_IRQ"
    using assms(2) by (auto simp: blocked_slot_def)
  have st: "get_task_state k (re_task_id (qready k ! i)) = Some TS_BLOCKED_IRQ" using slot_ok_prio(3) [OF s(2)] s(3) by simp
  show ?thesis unfolding wake_loop.simps Let_def s(1) st option.case using True assms(1) by (simp add: wakes_def)
qed simp

lemma rq_ok_be_upd: "rq_ok k is \<Longrightarrow> rq_ok (be_upd i f k) is"
proof -
  assume ok: "rq_ok k is"
  have ids: "slot_ok (be_upd i f k) = slot_ok k" "prio (be_upd i f k) = prio k" by (rule same_ids; simp)+
  show ?thesis using rq_okD [OF ok] unfolding rq_ok_def ids by simp
qed

lemma rq_ok_released:
  assumes ok: "rq_ok k is" and i: "i \<notin> set is" "i < 8"
  shows "rq_ok (released i k) is"
proof -
  show ?thesis unfolding released_def by (rule rq_ok_task_upd [OF rq_ok_be_upd [OF ok]]) (use i in simp_all)
qed

text \<open>One waking step: its effect on the queue, the tasks and the table.\<close>

lemma wake_step:
  assumes ok: "rq_ok k is" "blocked_ok k" and i: "wakes k w i" "i < 8"
  obtains k3 where "\<And>js n. wake_loop w (i # js) n k = wake_loop w js (n + 1) k3" "rq_ok k3 (insert_prio (released i k) i is)"
    "blocked_ok k3" "\<And>j. wakes k3 w j = (wakes k w j \<and> j \<noteq> i)" "current_slot k3 = current_slot k"
    "\<And>j. tasks k3 ! j = (if j = i then (tasks k ! i)\<lparr>t_state := TS_READY\<rparr> else tasks k ! j)" "saved k3 = saved k"
    "\<And>j. qblocked k3 ! j = (if j = i then (qblocked k ! i)\<lparr>be_wait_irq_mask := 0, be_blocked := False\<rparr> else qblocked k ! j)"
proof -
  have bs: "blocked_slot k i" and l: "length (qblocked k) = 8" "i < length (tasks k)"
    using ok i rq_okD(2) [OF ok(1)] by (auto simp: blocked_ok_def)
  have s: "slot_ok k i" "t_state (tasks k ! i) = TS_BLOCKED_IRQ" using bs i(1) by (auto simp: blocked_slot_def wakes_def)
  have nin: "i \<notin> set is" using rq_okD(7) [OF ok(1), of i] s(2) by auto
  have th: "tasks (released i k) ! j = (if j = i then (tasks k ! i)\<lparr>t_state := TS_READY\<rparr> else tasks k ! j)" for j
    using l by (simp add: released_def task_upd_nth)
  have qb: "qblocked (released i k) ! j = (if j = i then (qblocked k ! i)\<lparr>be_wait_irq_mask := 0, be_blocked := False\<rparr> else qblocked k ! j)" for j
    using l i(2) by (simp add: released_def be_upd_nth)
  have sl: "slot_ok (released i k) i" using s(1) by (simp add: released_slot)
  obtain k3 where k3: "push_ready_task (Some i) (released i k) = krun_return (True, k3)" "rq_ok k3 (insert_prio (released i k) i is)"
    "tasks k3 = tasks (released i k)" "current_slot k3 = current_slot (released i k)" "qblocked k3 = qblocked (released i k)"
    "\<And>j. re_task_id (qready k3 ! j) = re_task_id (qready (released i k) ! j)"
    using push_refines [OF rq_ok_released [OF ok(1) nin i(2)] sl nin] th by auto
  have ids: "re_task_id (qready k3 ! j) = re_task_id (qready k ! j)" for j using k3(6) by (simp add: released_def)
  have slots: "slot_ok k3 = slot_ok k" using same_ids(1) [OF k3(3,6)] by (simp add: released_slot)
  have "blocked_slot k3 j" if "j < 8" for j
    using that ok(2) unfolding blocked_ok_def blocked_slot_def slots ids k3(3,5) th qb by auto
  then have bok: "blocked_ok k3" using l unfolding blocked_ok_def k3(5) by (simp add: released_def)
  have sv: "saved k3 = saved k"
    using saved_same [OF k3(3)] saved_task_upd [of "t_state_update (\<lambda>_. TS_READY)" i "be_upd i (\<lambda>b. b\<lparr>be_wait_irq_mask := 0, be_blocked := False\<rparr>) k"]
    by (simp add: released_def)
  show ?thesis
  proof (rule that)
    show "wake_loop w (i # js) n k = wake_loop w js (n + 1) k3" for js n
      unfolding released_wake_step [OF i(1) bs] k3(1) by (simp add: krun_simps)
    show "wakes k3 w j = (wakes k w j \<and> j \<noteq> i)" for j unfolding wakes_def k3(5) qb by simp
  qed (use k3 bok sv th qb in \<open>simp_all add: released_def\<close>)
qed

lemma wake_loop_all:
  "rq_ok k is \<Longrightarrow> blocked_ok k \<Longrightarrow> distinct js \<Longrightarrow> set js \<subseteq> {..<8} \<Longrightarrow>
   \<exists>k' is'. wake_loop w js n k = krun_return (n + card {i \<in> set js. wakes k w i}, k') \<and> rq_ok k' is' \<and> blocked_ok k' \<and>
     set is' = set is \<union> {i \<in> set js. wakes k w i} \<and> current_slot k' = current_slot k \<and> saved k' = saved k \<and>
     (\<forall>j. tasks k' ! j = (if j \<in> set js \<and> wakes k w j then (tasks k ! j)\<lparr>t_state := TS_READY\<rparr> else tasks k ! j)) \<and>
     (\<forall>j. qblocked k' ! j = (if j \<in> set js \<and> wakes k w j
        then (qblocked k ! j)\<lparr>be_wait_irq_mask := 0, be_blocked := False\<rparr> else qblocked k ! j))"
proof (induction js arbitrary: k "is" n)
  case Nil
  then show ?case by auto
next
  case (Cons i js)
  have i: "i < 8" "i \<notin> set js" "distinct js" "set js \<subseteq> {..<8}" using Cons.prems by auto
  have bs: "blocked_slot k i" using Cons.prems(2) i(1) by (simp add: blocked_ok_def)
  show ?case
  proof (cases "wakes k w i")
    case False
    have "{j \<in> set (i # js). wakes k w j} = {j \<in> set js. wakes k w j}" using False by auto
    moreover have "(j \<in> set (i # js) \<and> wakes k w j) = (j \<in> set js \<and> wakes k w j)" for j using False by auto
    ultimately show ?thesis
      using Cons.IH [OF Cons.prems(1,2) i(3,4), of n] unfolding wake_skip [OF False bs] by simp
  next
    case True
    obtain k3 where k3: "\<And>js n. wake_loop w (i # js) n k = wake_loop w js (n + 1) k3" "rq_ok k3 (insert_prio (released i k) i is)"
      "blocked_ok k3" "\<And>j. wakes k3 w j = (wakes k w j \<and> j \<noteq> i)" "current_slot k3 = current_slot k"
      "\<And>j. tasks k3 ! j = (if j = i then (tasks k ! i)\<lparr>t_state := TS_READY\<rparr> else tasks k ! j)" "saved k3 = saved k"
      "\<And>j. qblocked k3 ! j = (if j = i then (qblocked k ! i)\<lparr>be_wait_irq_mask := 0, be_blocked := False\<rparr> else qblocked k ! j)"
      using wake_step [OF Cons.prems(1,2) True i(1)] by metis
    have sets: "{j \<in> set js. wakes k3 w j} = {j \<in> set js. wakes k w j}"
      "{j \<in> set (i # js). wakes k w j} = insert i {j \<in> set js. wakes k w j}"
      "card (insert i {j \<in> set js. wakes k w j}) = Suc (card {j \<in> set js. wakes k w j})"
      using i(2) True k3(4) by auto
    obtain k' is' where r: "wake_loop w js (n + 1) k3 = krun_return (n + 1 + card {i \<in> set js. wakes k3 w i}, k')" "rq_ok k' is'" "blocked_ok k'"
      "set is' = set (insert_prio (released i k) i is) \<union> {i \<in> set js. wakes k3 w i}" "current_slot k' = current_slot k3" "saved k' = saved k3"
      "\<forall>j. tasks k' ! j = (if j \<in> set js \<and> wakes k3 w j then (tasks k3 ! j)\<lparr>t_state := TS_READY\<rparr> else tasks k3 ! j)"
      "\<forall>j. qblocked k' ! j = (if j \<in> set js \<and> wakes k3 w j
        then (qblocked k3 ! j)\<lparr>be_wait_irq_mask := 0, be_blocked := False\<rparr> else qblocked k3 ! j)"
      using Cons.IH [OF k3(2,3) i(3,4), of "n + 1"] by blast
    have tasks: "tasks k' ! j = (if j \<in> set (i # js) \<and> wakes k w j then (tasks k ! j)\<lparr>t_state := TS_READY\<rparr> else tasks k ! j)" for j
      using i(2) True unfolding r(7) [rule_format, of j] k3(4,6) by (cases "j = i") simp_all
    have blocked: "qblocked k' ! j = (if j \<in> set (i # js) \<and> wakes k w j
        then (qblocked k ! j)\<lparr>be_wait_irq_mask := 0, be_blocked := False\<rparr> else qblocked k ! j)" for j
      using i(2) True unfolding r(8) [rule_format, of j] k3(4,8) by (cases "j = i") simp_all
    have "wake_loop w (i # js) n k = krun_return (n + card {j \<in> set (i # js). wakes k w j}, k')"
      unfolding k3(1) r(1) sets by simp
    moreover have "set is' = set is \<union> {j \<in> set (i # js). wakes k w j}" unfolding r(4) sets by simp
    moreover have "current_slot k' = current_slot k" "saved k' = saved k" using r(5,6) k3(5,7) by simp_all
    ultimately show ?thesis using r(2,3) tasks blocked by (intro exI [of _ k'] exI [of _ is'] conjI allI)
  qed
qed

text \<open>
  C27: an interrupt wakes exactly the blocked tasks whose mask contains it, and returns their
  number: each becomes ready and enters the ready queue, which stays in order and loses
  nobody; its entry is cleared; no other task, entry or saved context changes.
\<close>

theorem wake_exactly_the_waiting:
  assumes "rq_ok k is" "blocked_ok k"
  shows "\<exists>k' is'. wake_irq_tasks interr k = krun_return (card {i. i < 8 \<and> wakes k (bits_interr interr) i}, k') \<and>
     rq_ok k' is' \<and> blocked_ok k' \<and> set is' = set is \<union> {i. i < 8 \<and> wakes k (bits_interr interr) i} \<and>
     current_slot k' = current_slot k \<and> saved k' = saved k \<and>
     (\<forall>j. tasks k' ! j = (if j < 8 \<and> wakes k (bits_interr interr) j then (tasks k ! j)\<lparr>t_state := TS_READY\<rparr> else tasks k ! j)) \<and>
     (\<forall>j. qblocked k' ! j = (if j < 8 \<and> wakes k (bits_interr interr) j
        then (qblocked k ! j)\<lparr>be_wait_irq_mask := 0, be_blocked := False\<rparr> else qblocked k ! j))"
proof -
  have "set [0..<8 :: nat] \<subseteq> {..<8}" by auto
  from wake_loop_all [OF assms distinct_upt this, of "bits_interr interr" 0] show ?thesis
    unfolding wake_irq_tasks_def MAX_TASKS_def by simp
qed

section \<open>A kernel with a blocked task\<close>

text \<open>Slots 0 and 1 of the demo kernel wait for the processor; slot 2 waits for a character.\<close>

definition demo_blocked :: kernel where
  "demo_blocked = be_upd 2 (\<lambda>_. \<lparr>be_task_id = 514, be_wait_irq_mask = 0x800, be_blocked = True\<rparr>)
     (task_upd 2 (t_state_update (\<lambda>_. TS_BLOCKED_IRQ)) (demo_kernel 50))"

lemma demo_blocked_tasks: "tasks demo_blocked ! j = (if j = 2 then demo_task 514 50 TS_BLOCKED_IRQ else tasks (demo_kernel 50) ! j)"
  by (simp add: demo_blocked_def task_upd_nth demo_task_def)

lemma demo_blocked_table:
  "j < 8 \<Longrightarrow> qblocked demo_blocked ! j = (if j = 2 then \<lparr>be_task_id = 514, be_wait_irq_mask = 0x800, be_blocked = True\<rparr>
     else \<lparr>be_task_id = 0, be_wait_irq_mask = 0, be_blocked = False\<rparr>)"
  unfolding demo_blocked_def by (simp add: be_upd_nth demo_kernel_def)

lemma demo_blocked_slots: "slot_ok demo_blocked = slot_ok (demo_kernel 50)"
proof -
  have "slot_ok (be_upd i f k) = slot_ok k" for i f k by (rule same_ids(1)) simp_all
  then show ?thesis by (auto simp: demo_blocked_def task_upd_slot_ok fun_eq_iff)
qed

lemma demo_blocked_queue: "qready demo_blocked = qready (demo_kernel 50)"
  by (simp add: demo_blocked_def)

lemma demo_blocked_ok: "rq_ok demo_blocked [1, 0]" "blocked_ok demo_blocked"
proof -
  have "rq_ok (task_upd 2 (t_state_update (\<lambda>_. TS_BLOCKED_IRQ)) (demo_kernel 50)) [1, 0]"
    by (rule rq_ok_task_upd [OF demo_ok]) simp_all
  then show "rq_ok demo_blocked [1, 0]" unfolding demo_blocked_def by (rule rq_ok_be_upd)
  have "blocked_slot demo_blocked j" if "j < 8" for j
    using that demo_slots(3) [of 50] demo_blocked_table [OF that]
    by (cases "j = 2") (simp_all add: blocked_slot_def demo_blocked_slots demo_blocked_tasks demo_blocked_queue demo_task_def)
  then show "blocked_ok demo_blocked" by (simp add: blocked_ok_def demo_blocked_def demo_kernel_def)
qed

lemma demo_wakes: "j < 8 \<Longrightarrow> wakes demo_blocked (bits_interr Interrupt_M_EXTERNAL) j \<longleftrightarrow> j = 2"
  by (simp add: wakes_def demo_blocked_table bits_interr_def)

theorem wake_exactly_the_waiting_witness:
  "\<exists>k' is'. wake_irq_tasks Interrupt_M_EXTERNAL demo_blocked = krun_return (1, k') \<and> rq_ok k' is' \<and> set is' = {0, 1, 2} \<and>
     t_state (tasks k' ! 2) = TS_READY"
proof -
  have s: "{i. i < 8 \<and> wakes demo_blocked (bits_interr Interrupt_M_EXTERNAL) i} = {2}" using demo_wakes by auto
  obtain k' is' where w: "wake_irq_tasks Interrupt_M_EXTERNAL demo_blocked = krun_return (card {2 :: nat}, k')" "rq_ok k' is'"
    "set is' = set [1, 0] \<union> {2}"
    "\<forall>j. tasks k' ! j = (if j < 8 \<and> wakes demo_blocked (bits_interr Interrupt_M_EXTERNAL) j
       then (tasks demo_blocked ! j)\<lparr>t_state := TS_READY\<rparr> else tasks demo_blocked ! j)"
    using wake_exactly_the_waiting [OF demo_blocked_ok, of Interrupt_M_EXTERNAL] unfolding s by blast
  have "t_state (tasks k' ! 2) = TS_READY" using w(4) [rule_format, of 2] demo_wakes [of 2] by simp
  then show ?thesis using w(1-3) by (intro exI [of _ k'] exI [of _ is']) auto
qed

end
