(* ===== verification/Kernel_Trap.thy ===== *)
theory Kernel_Trap
  imports Kernel_Wake
begin

text \<open>
  The trap handler and the dispatcher: the length of a quantum, a \<open>getc\<close> without input, and
  the program counter of every system call.
\<close>

section \<open>Timer ticks\<close>

definition tick_ready :: "kernel \<Rightarrow> nat \<Rightarrow> bool" where
  "tick_ready k c \<longleftrightarrow> slot_ok k c \<and> current_slot k = c \<and> length (tasks k) = 8 \<and>
     (\<forall>i < 8. blocked_slot k i \<and> \<not> wakes k (bits_interr Interrupt_M_TIMER) i)"

lemma wake_none:
  "\<forall>i \<in> set js. \<not> wakes k w i \<and> blocked_slot k i \<Longrightarrow> wake_loop w js n k = krun_return (n, k)"
proof (induction js)
  case (Cons i js)
  then have "wake_loop w (i # js) n k = wake_loop w js n k" by (intro wake_skip) simp_all
  then show ?case using Cons by simp
qed simp

text \<open>The system after a tick that does not end the quantum.\<close>

definition ticked :: "nat \<Rightarrow> 'u sys \<Rightarrow> 'u sys" where
  "ticked c s = s\<lparr>sys_k := task_upd c (\<lambda>t. t\<lparr>t_time_slice := sub32 (t_time_slice t) 1\<rparr>) (sys_k s),
     sys_cmp := set_timecmp (get_timecmp (sys_cmp s) + TICK_LENGTH) (sys_cmp s)\<rparr>"

lemma tick_ready_ticked: "tick_ready (sys_k s) c \<Longrightarrow> tick_ready (sys_k (ticked c s)) c"
proof -
  let ?k = "sys_k s" and ?f = "\<lambda>t. t\<lparr>t_time_slice := sub32 (t_time_slice t) 1\<rparr>"
  assume t: "tick_ready ?k c"
  then have c: "c < length (tasks ?k)" unfolding tick_ready_def using slot_okD(1) by metis
  have st: "t_state (tasks (task_upd c ?f ?k) ! i) = t_state (tasks ?k ! i)" for i
    using c by (simp add: task_upd_nth)
  have slot: "slot_ok (task_upd c ?f ?k) i = slot_ok ?k i" for i by (rule task_upd_slot_ok) simp
  have "blocked_slot (task_upd c ?f ?k) i = blocked_slot ?k i" "wakes (task_upd c ?f ?k) w i = wakes ?k w i" for i w
    unfolding blocked_slot_def wakes_def st slot by simp_all
  then show ?thesis using t slot unfolding tick_ready_def ticked_def by simp
qed

lemma tick_step:
  assumes t: "tick_ready (sys_k s) c"
  shows "handle_interrupt Interrupt_M_TIMER ctx s =
    (if sub32 (t_time_slice (tasks (sys_k s) ! c)) 1 = 0
     then krun_bind (k_yield ctx (ticked c s)) (\<lambda>(_, ctx', s'). krun_return (ctx', s'))
     else krun_return (ctx, ticked c s))"
proof -
  let ?k = "sys_k s" and ?n = "sub32 (t_time_slice (tasks (sys_k s) ! c)) 1"
  have c: "slot_ok ?k c" "current_slot ?k = c" "c < length (tasks ?k)"
    using t slot_okD(1) unfolding tick_ready_def by auto
  have tid: "current_task ?k = re_task_id (qready ?k ! c)" using c by (simp add: current_task_def)
  have upd: "set_task_time_slice (re_task_id (qready ?k ! c)) ?n ?k = task_upd c (\<lambda>t. t\<lparr>t_time_slice := sub32 (t_time_slice t) 1\<rparr>) ?k"
    using upd_task_of_slot [OF c(1)] by (simp add: set_task_time_slice_def task_upd_def)
  have "wake_irq_tasks Interrupt_M_TIMER (sys_k (ticked c s)) = krun_return (0, sys_k (ticked c s))"
    unfolding wake_irq_tasks_def
    by (rule wake_none) (use tick_ready_ticked [OF t] in \<open>auto simp: tick_ready_def MAX_TASKS_def\<close>)
  then have wake: "on_kernel (wake_irq_tasks Interrupt_M_TIMER) (ticked c s) = krun_return (0, ticked c s)"
    by (simp add: on_kernel_def krun_simps)
  have tk: "s\<lparr>sys_k := set_task_time_slice (re_task_id (qready ?k ! c)) ?n ?k,
      sys_cmp := set_timecmp (get_timecmp (sys_cmp s) + TICK_LENGTH) (sys_cmp s)\<rparr> = ticked c s"
    unfolding upd ticked_def ..
  show ?thesis
    unfolding handle_interrupt_def tid slot_ok_prio(4) [OF c(1)] option.case Let_def if_P [OF refl] tk wake
    by (simp add: krun_simps)
qed

fun timer_ticks :: "nat \<Rightarrow> cpu_context \<Rightarrow> 'u sys \<Rightarrow> (cpu_context \<times> 'u sys) krun" where
  "timer_ticks 0 ctx s = krun_return (ctx, s)"
| "timer_ticks (Suc n) ctx s = krun_bind (handle_interrupt Interrupt_M_TIMER ctx s) (\<lambda>(ctx', s'). timer_ticks n ctx' s')"

lemma ticked_slice:
  "tick_ready (sys_k s) c \<Longrightarrow> 0 < t_time_slice (tasks (sys_k s) ! c) \<Longrightarrow> t_time_slice (tasks (sys_k s) ! c) < W32 \<Longrightarrow>
   t_time_slice (tasks (sys_k (ticked c s)) ! c) = t_time_slice (tasks (sys_k s) ! c) - 1"
  using slot_okD(1) by (auto simp: ticked_def tick_ready_def task_upd_nth sub32_exact)

lemma timer_ticks_running:
  "tick_ready (sys_k s) c \<Longrightarrow> n < t_time_slice (tasks (sys_k s) ! c) \<Longrightarrow> t_time_slice (tasks (sys_k s) ! c) < W32 \<Longrightarrow>
   timer_ticks n ctx s = krun_return (ctx, (ticked c ^^ n) s) \<and> tick_ready (sys_k ((ticked c ^^ n) s)) c \<and>
   t_time_slice (tasks (sys_k ((ticked c ^^ n) s)) ! c) = t_time_slice (tasks (sys_k s) ! c) - n \<and>
   get_timecmp (sys_cmp ((ticked c ^^ n) s)) = get_timecmp (sys_cmp s) + of_nat n * TICK_LENGTH"
proof (induction n arbitrary: s)
  case (Suc n)
  let ?s = "ticked c s"
  have sl: "t_time_slice (tasks (sys_k ?s) ! c) = t_time_slice (tasks (sys_k s) ! c) - 1"
    using Suc.prems by (intro ticked_slice) simp_all
  have "sub32 (t_time_slice (tasks (sys_k s) ! c)) 1 \<noteq> 0" using Suc.prems by (simp add: sub32_exact)
  then have "timer_ticks (Suc n) ctx s = timer_ticks n ctx ?s" using tick_step [OF Suc.prems(1)] by (simp add: krun_simps)
  moreover have "(ticked c ^^ Suc n) s = (ticked c ^^ n) ?s" by (simp add: funpow_swap1)
  moreover have "get_timecmp (sys_cmp ?s) = get_timecmp (sys_cmp s) + TICK_LENGTH"
    by (simp add: ticked_def set_timecmp_def set_timecmp_hi_def get_timecmp_def)
  ultimately show ?case
    using Suc.IH [OF tick_ready_ticked [OF Suc.prems(1)]] Suc.prems(2,3) sl by (simp add: algebra_simps)
qed (simp add: krun_simps)

text \<open>
  C17: the running task keeps the processor for exactly its time slice: for fewer timer ticks the
  handler returns its context unchanged, counting the slice down and moving the deadline by
  ten cycles a tick; the tick that uses the slice up yields to the scheduler.
\<close>

theorem quantum_is_exact:
  assumes "tick_ready (sys_k s) c" "t_time_slice (tasks (sys_k s) ! c) = Suc n" "Suc n < W32"
  shows "timer_ticks n ctx s = krun_return (ctx, (ticked c ^^ n) s) \<and>
    get_timecmp (sys_cmp ((ticked c ^^ n) s)) = get_timecmp (sys_cmp s) + of_nat n * TICK_LENGTH \<and>
    handle_interrupt Interrupt_M_TIMER ctx ((ticked c ^^ n) s) =
      krun_bind (k_yield ctx ((ticked c ^^ Suc n) s)) (\<lambda>(_, ctx', s'). krun_return (ctx', s'))"
proof -
  note r = timer_ticks_running [OF assms(1), of n ctx]
  have t: "timer_ticks n ctx s = krun_return (ctx, (ticked c ^^ n) s)" "tick_ready (sys_k ((ticked c ^^ n) s)) c"
    "t_time_slice (tasks (sys_k ((ticked c ^^ n) s)) ! c) = 1"
    "get_timecmp (sys_cmp ((ticked c ^^ n) s)) = get_timecmp (sys_cmp s) + of_nat n * TICK_LENGTH"
    using r assms(2,3) by auto
  have "sub32 1 1 = 0" by (simp add: sub32_def W32_def)
  then show ?thesis using t tick_step [OF t(2), of ctx] by simp
qed

definition demo_sys :: "kernel \<Rightarrow> u8 list sys" where
  "demo_sys k = \<lparr>sys_k = k, sys_uart = [], sys_cmp = \<lparr>cmp_lo = 100, cmp_hi = 0\<rparr>, sys_mscratch = 0, sys_mtvec = 0\<rparr>"

lemma demo_unblocked: "i < 8 \<Longrightarrow> \<not> be_blocked (qblocked (demo_kernel p) ! i)"
  by (simp add: demo_kernel_def)

theorem quantum_is_exact_witness:
  "timer_ticks 2 \<lparr>ctx_regs = replicate 32 9, ctx_mstatus = 0, ctx_pc = 4\<rparr> (demo_sys (demo_kernel 5)) =
     krun_return (\<lparr>ctx_regs = replicate 32 9, ctx_mstatus = 0, ctx_pc = 4\<rparr>, (ticked 2 ^^ 2) (demo_sys (demo_kernel 5))) \<and>
   get_timecmp (sys_cmp ((ticked 2 ^^ 2) (demo_sys (demo_kernel 5)))) = 120"
proof -
  have "tick_ready (sys_k (demo_sys (demo_kernel 5))) 2"
    using demo_slots(3) [of 5] by (simp add: tick_ready_def demo_sys_def blocked_slot_def wakes_def demo_unblocked)
  moreover have "t_time_slice (tasks (sys_k (demo_sys (demo_kernel 5))) ! 2) = Suc 2" by (simp add: demo_sys_def demo_task_def)
  moreover have "get_timecmp (sys_cmp (demo_sys (demo_kernel 5))) + of_nat 2 * TICK_LENGTH = 120"
    by (simp add: demo_sys_def get_timecmp_def join64_def TICK_LENGTH_def)
  ultimately show ?thesis using quantum_is_exact [of "demo_sys (demo_kernel 5)" 2 2] by (simp add: W32_def)
qed

section \<open>Parking a caller\<close>

lemma block_current:
  assumes c: "slot_ok k c" "current_slot k = c" "length (qblocked k) = 8"
  shows "block_task_irq (current_task k) interr k =
    be_upd c (\<lambda>b. b\<lparr>be_blocked := True, be_task_id := re_task_id (qready k ! c), be_wait_irq_mask := be_wait_irq_mask b OR bits_interr interr\<rparr>)
      (task_upd c (t_state_update (\<lambda>_. TS_BLOCKED_IRQ)) k)"
proof -
  have tid: "current_task k = re_task_id (qready k ! c)" using c by (simp add: current_task_def)
  let ?k1 = "be_upd c (\<lambda>b. b\<lparr>be_blocked := True, be_task_id := re_task_id (qready k ! c)\<rparr>) k"
  have "slot_ok ?k1 = slot_ok k" by (rule same_ids(1)) simp_all
  then have "slot_ok ?k1 c" using c(1) by simp
  from upd_task_of_slot [OF this] have "set_task_blocked_irq (re_task_id (qready k ! c)) ?k1 = task_upd c (t_state_update (\<lambda>_. TS_BLOCKED_IRQ)) ?k1"
    by (simp add: set_task_blocked_irq_def)
  moreover have "task_exists k (re_task_id (qready k ! c))" using c(1) by (simp add: task_exists_def)
  moreover have "TASK_SLOT (re_task_id (qready k ! c)) = c" "c < length (qblocked k)" using c(1,3) slot_okD(1) by simp_all
  ultimately show ?thesis unfolding block_task_irq_def tid Let_def
    by (simp add: be_upd_def task_upd_def nth_list_update)
qed

text \<open>A switch away from a blocked task.\<close>

lemma switch_blocked:
  assumes ok: "rq_ok k (h # js)" and c: "slot_ok k c" "current_slot k = c" "c \<notin> set (h # js)" "t_state (tasks k ! c) = TS_BLOCKED_IRQ"
    and full: "full_context ctx" "\<forall>i < 8. full_context (t_ctx (tasks k ! i))"
  shows "\<exists>k'. switch_to_next_task ctx k = krun_return (t_ctx (tasks k ! h), k') \<and> rq_ok k' js \<and> current_slot k' = h \<and>
    qblocked k' = qblocked k \<and> (\<forall>i. i \<noteq> h \<longrightarrow> i \<noteq> c \<longrightarrow> tasks k' ! i = tasks k ! i) \<and> t_state (tasks k' ! h) = TS_RUNNING \<and>
    tasks k' ! c = (tasks k ! c)\<lparr>t_ctx := ctx\<rparr>"
proof -
  let ?k2 = "task_upd c (\<lambda>t. t\<lparr>t_ctx := copy_context (t_ctx t) ctx\<rparr>) k"
  have c8: "c < 8" "c < length (tasks k)" "h < 8" "h \<noteq> c" using slot_okD(1) c rq_okD(2,6) [OF ok] by auto
  have t2: "tasks ?k2 ! i = (if i = c then (tasks k ! c)\<lparr>t_ctx := ctx\<rparr> else tasks k ! i)" for i
    using c8 full by (simp add: task_upd_nth copy_context_exact)
  have ok2: "rq_ok ?k2 (h # js)" by (rule rq_ok_task_upd [OF ok c(3)]) (use c8 in simp_all)
  have slots: "slot_ok ?k2 i = slot_ok k i" for i by (rule task_upd_slot_ok) simp
  have ids: "current_task k = re_task_id (qready k ! c)" "current_task ?k2 = re_task_id (qready k ! c)"
    using c by (simp_all add: current_task_def t2)
  have hid: "re_task_id (qready k ! h) \<noteq> re_task_id (qready k ! c)"
    using c8(4) slot_okD(4) [OF c(1)] slot_okD(4) [OF rq_okD(6) [OF ok, of h]] by (metis list.set_intros(1))
  have "re_task_id (qready ?k2 ! h) \<noteq> current_task ?k2 \<or> js = []" unfolding ids using hid by simp
  from sched_loop_head [OF ok2 this] obtain k3 where k3: "sched_loop 0 (qready_head ?k2) ?k2 = krun_return (run_slot h k3)"
    "rq_ok (run_slot h k3) js" "tasks k3 = tasks ?k2" "qblocked k3 = qblocked ?k2" by blast
  have sch: "schedule ?k2 = krun_return (run_slot h k3)"
    using schedule_blocked [of ?k2 c] c slots k3(1) rq_okD(4) [OF ok] by (simp add: t2)
  have t3: "tasks (run_slot h k3) ! i = (if i = h then (tasks k ! h)\<lparr>t_state := TS_RUNNING, t_time_slice := fresh_slice (tasks k ! h)\<rparr>
      else if i = c then (tasks k ! c)\<lparr>t_ctx := ctx\<rparr> else tasks k ! i)" for i
    using c8 k3(3) rq_okD(2) [OF ok] by (simp add: run_slot_tasks t2)
  have hk: "slot_ok k h" using rq_okD(6) [OF ok, of h] by simp
  then have cur': "current_task (run_slot h k3) = re_task_id (qready k ! h)" by (simp add: current_task_def t3)
  have get': "get_task_of_id (run_slot h k3) (re_task_id (qready k ! h)) = Some h"
    using hk slot_okD(1) [OF hk] by (simp add: get_task_of_id_def MAX_TASKS_def t3)
  have "switch_to_next_task ctx k = krun_return (t_ctx (tasks k ! h), run_slot h k3)"
    unfolding switch_to_next_task_def Let_def ids(1) slot_okD(2) [OF c(1)] option.case
    using c(4) sch cur' get' hid hid [symmetric] full c8 by (simp add: krun_simps t3 copy_context_exact)
  then show ?thesis using k3(2,4) t3 c8(4) by (intro exI [of _ "run_slot h k3"]) simp
qed

lemma dispatch_getc_empty:
  assumes code: "reg ctx 17 = SyscallCode_GETC" and rx: "port_status io (sys_uart s) = (st, u)" "st AND 2 = 0"
  shows "dispatch_syscall io bytes ctx s =
    krun_bind (k_yield ctx (s\<lparr>sys_uart := u, sys_k := block_task_irq (current_task (sys_k s)) Interrupt_M_EXTERNAL (sys_k s)\<rparr>))
      (\<lambda>(_, ctx', s'). krun_return (ctx', s'))"
proof -
  have k: "k_getc io (reg ctx 10) s = (SyscallStatus_BLOCKED, reg ctx 10,
      s\<lparr>sys_uart := u, sys_k := block_task_irq (current_task (sys_k s)) Interrupt_M_EXTERNAL (sys_k s)\<rparr>)"
    using rx by (simp add: k_getc_def Let_def)
  have "set_reg 10 (reg ctx 10) ctx = ctx" by (simp add: set_reg_def)
  then show ?thesis unfolding dispatch_syscall_def Let_def code k
    by (simp add: krun_simps SyscallCode_EXIT_def SyscallCode_YIELD_def SyscallCode_FREE_def SyscallCode_MALLOC_def
      SyscallCode_PUTC_def SyscallCode_GETC_def)
qed

text \<open>
  C14: a \<open>getc\<close> that finds no character parks its caller: the task is blocked and registered for
  the external interrupt, its saved context is the trapped one with the program counter still
  at the \<open>ecall\<close>, so that the call is repeated after the wake-up, and the first ready task
  is resumed with exactly its saved context.
\<close>

theorem getc_parks_caller:
  assumes code: "reg ctx 17 = SyscallCode_GETC" and rx: "port_status io (sys_uart s) = (st, u)" "st AND 2 = 0"
    and ok: "rq_ok (sys_k s) (h # js)" and c: "slot_ok (sys_k s) c" "current_slot (sys_k s) = c" "c \<notin> set (h # js)"
    and full: "length (qblocked (sys_k s)) = 8" "full_context ctx" "\<forall>i < 8. full_context (t_ctx (tasks (sys_k s) ! i))"
  shows "\<exists>s'. dispatch_syscall io bytes ctx s = krun_return (t_ctx (tasks (sys_k s) ! h), s') \<and>
    rq_ok (sys_k s') js \<and> current_slot (sys_k s') = h \<and> t_state (tasks (sys_k s') ! h) = TS_RUNNING \<and>
    t_state (tasks (sys_k s') ! c) = TS_BLOCKED_IRQ \<and> t_ctx (tasks (sys_k s') ! c) = ctx \<and>
    be_blocked (qblocked (sys_k s') ! c) \<and> wakes (sys_k s') (bits_interr Interrupt_M_EXTERNAL) c"
proof -
  let ?k = "sys_k s"
  let ?k1 = "block_task_irq (current_task ?k) Interrupt_M_EXTERNAL ?k"
  have c8: "c < 8" "c < length (tasks ?k)" "h \<noteq> c" using slot_okD(1) c rq_okD(2) [OF ok] by auto
  have k1: "?k1 = be_upd c (\<lambda>b. b\<lparr>be_blocked := True, be_task_id := re_task_id (qready ?k ! c), be_wait_irq_mask := be_wait_irq_mask b OR bits_interr Interrupt_M_EXTERNAL\<rparr>)
      (task_upd c (t_state_update (\<lambda>_. TS_BLOCKED_IRQ)) ?k)"
    by (rule block_current [OF c(1,2) full(1)])
  have t1: "tasks ?k1 ! i = (if i = c then (tasks ?k ! c)\<lparr>t_state := TS_BLOCKED_IRQ\<rparr> else tasks ?k ! i)" for i
    unfolding k1 using c8 by (simp add: task_upd_nth)
  have ok1: "rq_ok ?k1 (h # js)" unfolding k1
    by (rule rq_ok_be_upd, rule rq_ok_task_upd [OF ok c(3)]) (use c8 in simp_all)
  have "slot_ok ?k1 = slot_ok (task_upd c (t_state_update (\<lambda>_. TS_BLOCKED_IRQ)) ?k)" unfolding k1 by (rule same_ids(1)) simp_all
  then have sl: "slot_ok ?k1 c" using c(1) by (simp add: task_upd_slot_ok)
  have cur: "current_slot ?k1 = c" unfolding k1 using c(2) by simp
  obtain k' where sw: "switch_to_next_task ctx ?k1 = krun_return (t_ctx (tasks ?k1 ! h), k')" "rq_ok k' js" "current_slot k' = h"
    "qblocked k' = qblocked ?k1" "t_state (tasks k' ! h) = TS_RUNNING" "tasks k' ! c = (tasks ?k1 ! c)\<lparr>t_ctx := ctx\<rparr>"
  proof -
    have "t_state (tasks ?k1 ! c) = TS_BLOCKED_IRQ" "\<forall>i < 8. full_context (t_ctx (tasks ?k1 ! i))"
      using full(3) by (simp_all add: t1)
    from switch_blocked [OF ok1 sl cur c(3) this(1) full(2) this(2)] that show ?thesis by blast
  qed
  have b: "qblocked k' ! c = (qblocked ?k ! c)\<lparr>be_blocked := True, be_task_id := re_task_id (qready ?k ! c),
      be_wait_irq_mask := be_wait_irq_mask (qblocked ?k ! c) OR bits_interr Interrupt_M_EXTERNAL\<rparr>"
    unfolding sw(4) k1 using c8 full(1) by (simp add: be_upd_nth)
  have m: "(w OR bits_interr Interrupt_M_EXTERNAL) AND bits_interr Interrupt_M_EXTERNAL \<noteq> 0" for w
  proof
    assume "(w OR bits_interr Interrupt_M_EXTERNAL) AND bits_interr Interrupt_M_EXTERNAL = 0"
    then have "\<not> bit ((w OR bits_interr Interrupt_M_EXTERNAL) AND bits_interr Interrupt_M_EXTERNAL) 11" by simp
    then show False by (simp add: bits_interr_def bit_simps)
  qed
  have "dispatch_syscall io bytes ctx s = krun_return (t_ctx (tasks ?k ! h), s\<lparr>sys_uart := u, sys_k := k'\<rparr>)"
    using sw(1) c8(3) by (simp add: dispatch_getc_empty [OF code rx] k_yield_def on_kernel_def krun_simps t1)
  then show ?thesis using sw b m c8(3)
    by (intro exI [of _ "s\<lparr>sys_uart := u, sys_k := k'\<rparr>"]) (simp add: wakes_def t1)
qed

text \<open>A port whose receiver is empty.\<close>

definition quiet_port :: "u8 list port" where
  "quiet_port = \<lparr>port_status = (\<lambda>u. (0, u)), port_tx = (\<lambda>c u. u @ [c]), port_rx = (\<lambda>u. (0, u))\<rparr>"

theorem getc_parks_caller_witness:
  "\<exists>s'. dispatch_syscall quiet_port (\<lambda>_. 0) \<lparr>ctx_regs = replicate 32 33, ctx_mstatus = 0, ctx_pc = 4\<rparr> (demo_sys (demo_kernel 5)) =
      krun_return (t_ctx (demo_task 257 5 TS_READY), s') \<and> current_slot (sys_k s') = Suc 0 \<and>
    ctx_pc (t_ctx (tasks (sys_k s') ! 2)) = 4"
proof -
  let ?ctx = "\<lparr>ctx_regs = replicate 32 33, ctx_mstatus = 0, ctx_pc = 4\<rparr>"
  have full: "full_context ?ctx" "\<forall>i < 8. full_context (t_ctx (tasks (demo_kernel 5) ! i))"
    "length (qblocked (demo_kernel 5)) = 8"
  proof -
    show "full_context ?ctx" by (simp add: full_context_def CTX_REGS_def)
    show "\<forall>i < 8. full_context (t_ctx (tasks (demo_kernel 5) ! i))"
      by (simp add: full_context_def CTX_REGS_def demo_kernel_def demo_task_def less_Suc_eq eval_nat_numeral)
    show "length (qblocked (demo_kernel 5)) = 8" by (simp add: demo_kernel_def)
  qed
  have "\<exists>s'. dispatch_syscall quiet_port (\<lambda>_. 0) ?ctx (demo_sys (demo_kernel 5)) =
      krun_return (t_ctx (tasks (sys_k (demo_sys (demo_kernel 5))) ! 1), s') \<and>
    rq_ok (sys_k s') [0] \<and> current_slot (sys_k s') = 1 \<and> t_state (tasks (sys_k s') ! 1) = TS_RUNNING \<and>
    t_state (tasks (sys_k s') ! 2) = TS_BLOCKED_IRQ \<and> t_ctx (tasks (sys_k s') ! 2) = ?ctx \<and>
    be_blocked (qblocked (sys_k s') ! 2) \<and> wakes (sys_k s') (bits_interr Interrupt_M_EXTERNAL) 2"
    by (rule getc_parks_caller [where u = "[]" and st = 0])
      (use full demo_ok [of 5] demo_slots(3) [of 5] in \<open>simp_all add: demo_sys_def quiet_port_def SyscallCode_GETC_def\<close>)
  then show ?thesis by (auto simp: demo_sys_def)
qed

end
