(* ===== verification/Kernel_Boot.thy ===== *)
theory Kernel_Boot
  imports Kernel_Duo_Traps Kernel_Trap
begin

text \<open>
  From the zeroed static data through \<open>kernel_main\<close> to every state the kernel can reach with its
  two tasks.
\<close>

section \<open>Creating the two tasks\<close>

lemma galloc_at:
  assumes ok: "heap_ok (global_heap k) (kmem k) bs" and a: "alloc_list (hd_size (global_heap k)) 1024 bs = Some (off, bs')"
  shows "\<exists>h m. galloc 1024 k = krun_return (hd_head (global_heap k) + off, k\<lparr>global_heap := h, kmem := m\<rparr>) \<and> heap_ok h m bs' \<and>
    hd_head h = hd_head (global_heap k)"
proof -
  obtain h m where "alloc_heap 1024 (global_heap k, kmem k) = Some (Inr (hd_head (global_heap k) + off, h, m))" "heap_ok h m bs'"
    "hd_head h = hd_head (global_heap k)"
    using alloc_heap_refines [OF ok, of 1024] a by auto
  then show ?thesis by (intro exI [of _ h] exI [of _ m]) (simp add: galloc_def krun_return_def)
qed

text \<open>The heap that \<open>create_task\<close> makes inside a block.\<close>

lemma init_heap_inside:
  assumes ok: "heap_ok gh m gbs" and l: "(p, 1024) \<in> set (live (hd_head gh) gbs)" and p: "p + 1040 < W32"
  shows "hd_head (fst (init_heap p 1024 m)) = p" "hd_max (fst (init_heap p 1024 m)) = p + 1024"
    "\<exists>ubs. heap_ok (fst (init_heap p 1024 m)) (snd (init_heap p 1024 m)) ubs"
    "heap_ok gh (snd (init_heap p 1024 m)) gbs"
    "\<And>x. x < p \<or> p + 1024 \<le> x \<Longrightarrow> snd (init_heap p 1024 m) x = m x"
proof -
  have mod: "p mod 16 = 0" by (rule live_aligned [OF l heap_okD(7,3) [OF ok]])
  then have "(p + 1024) mod 16 = 0" by presburger
  then have al: "align16 p = p" "align16 (p + 1024) = p + 1024" using mod by (simp_all add: align16_props)
  have au: "ALIGN_UP p HEAP_ALIGN = p" "ALIGN_UP (add32 p 1024) HEAP_ALIGN = p + 1024"
    using p al by (simp_all add: ALIGN_UP_exact add32_exact W32_def)
  show h: "hd_head (fst (init_heap p 1024 m)) = p" "hd_max (fst (init_heap p 1024 m)) = p + 1024"
    by (simp_all add: init_heap_def au Let_def)
  show same: "snd (init_heap p 1024 m) x = m x" if "x < p \<or> p + 1024 \<le> x" for x
    using that by (auto simp: init_heap_def au Let_def)
  have "0 < p" using live_bounds [OF l] heap_ok_bounds(2) [OF ok] by simp
  then show "\<exists>ubs. heap_ok (fst (init_heap p 1024 m)) (snd (init_heap p 1024 m)) ubs"
    using init_heap_ok [of p 1024 m] p by (auto simp: W32_def)
  show "heap_ok gh (snd (init_heap p 1024 m)) gbs" using ok l same by (rule heap_ok_payload)
qed

definition new_task :: "nat \<Rightarrow> nat \<Rightarrow> nat \<Rightarrow> priv_mode \<Rightarrow> nat \<Rightarrow> nat \<Rightarrow> heap_descriptor \<Rightarrow> task" where
  "new_task slot gen entr priv priority st uh =
     \<lparr>t_ctx = \<lparr>ctx_regs = (replicate CTX_REGS 0)[2 := of_nat (add32 st STACK_INIT_SIZE)],
        ctx_mstatus = bits_mpp priv OR bits_mpie True, ctx_pc = of_nat entr\<rparr>,
      t_id = TASK_ID slot gen, t_stack_base = st, t_stack_size = STACK_INIT_SIZE, t_heap = uh, t_priority = priority,
      t_time_slice = add32 SCHED_QUANTUM_TICKS (mul32 priority SCHED_PRIORITY_BONUS_TICKS), t_state = TS_READY\<rparr>"

lemma create_task_ok:
  assumes ok: "heap_ok (global_heap k) (kmem k) bs"
    and a: "alloc_list (extent bs) 1024 bs = Some (o1, bs1)" "alloc_list (extent bs1) 1024 bs1 = Some (o2, bs2)"
    and l: "(hd_head (global_heap k) + o2, 1024) \<in> set (live (hd_head (global_heap k)) bs2)"
    and p: "hd_head (global_heap k) + o2 + 1040 < W32"
    and k: "n_task k \<noteq> MAX_TASKS" "free_slot k = Some slot" "slot < length (tasks k)"
  shows "\<exists>gh m uh. create_task entr priv priority k = krun_return (Some slot,
       k\<lparr>tasks := (tasks k)[slot := new_task slot (t_gen k) entr priv priority (hd_head (global_heap k) + o1) uh],
         t_gen := (t_gen k + 1) mod 2 ^ 16, global_heap := gh, kmem := m, n_task := n_task k + 1\<rparr>) \<and>
     heap_ok gh m bs2 \<and> hd_head gh = hd_head (global_heap k) \<and> (\<exists>ubs. heap_ok uh m ubs) \<and>
     hd_head uh = hd_head (global_heap k) + o2 \<and> hd_max uh = hd_head (global_heap k) + o2 + 1024"
proof -
  let ?H = "hd_head (global_heap k)" and ?t = "tasks k ! slot"
  let ?k1 = "(task_upd slot (\<lambda>t. t\<lparr>t_id := TASK_ID slot (t_gen k), t_priority := priority\<rparr>) k)\<lparr>t_gen := (t_gen k + 1) mod 2 ^ 16\<rparr>"
  have k1: "global_heap ?k1 = global_heap k" "kmem ?k1 = kmem k" by (simp_all add: task_upd_def)
  obtain h1 m1 where g1: "galloc 1024 ?k1 = krun_return (?H + o1, ?k1\<lparr>global_heap := h1, kmem := m1\<rparr>)" "heap_ok h1 m1 bs1" "hd_head h1 = ?H"
    using galloc_at [of ?k1 bs o1 bs1] ok a(1) heap_ok_extent [OF ok] unfolding k1 by auto
  let ?k2 = "?k1\<lparr>global_heap := h1, kmem := m1\<rparr>"
  obtain h2 m2 where g2: "galloc 1024 ?k2 = krun_return (?H + o2, ?k2\<lparr>global_heap := h2, kmem := m2\<rparr>)" "heap_ok h2 m2 bs2" "hd_head h2 = ?H"
    using galloc_at [of ?k2 bs1 o2 bs2] g1(2,3) a(2) heap_ok_extent [OF g1(2)] by auto
  have nz: "?H \<noteq> 0" using heap_ok_bounds(2) [OF ok] by simp
  define uh where "uh = fst (init_heap (?H + o2) 1024 m2)"
  define m3 where "m3 = snd (init_heap (?H + o2) 1024 m2)"
  have ih: "init_heap (?H + o2) 1024 m2 = (uh, m3)" by (simp add: uh_def m3_def)
  note inside = init_heap_inside [OF g2(2) l [folded g2(3)] p [folded g2(3)], unfolded g2(3), folded uh_def m3_def]
  have t: "?t\<lparr>t_id := TASK_ID slot (t_gen k), t_priority := priority, t_stack_base := ?H + o1, t_stack_size := STACK_INIT_SIZE, t_heap := uh,
      t_priority := priority, t_time_slice := add32 SCHED_QUANTUM_TICKS (mul32 priority SCHED_PRIORITY_BONUS_TICKS),
      t_state := TS_READY, t_ctx := \<lparr>ctx_regs = (replicate CTX_REGS 0)[2 := of_nat (add32 (?H + o1) STACK_INIT_SIZE)],
        ctx_mstatus = bits_mpp priv OR bits_mpie True, ctx_pc = of_nat entr\<rparr>\<rparr> =
      new_task slot (t_gen k) entr priv priority (?H + o1) uh"
    by (cases ?t) (simp add: new_task_def)
  have sizes: "STACK_INIT_SIZE = 1024" "HEAP_INIT_SIZE = 1024" by (simp_all add: STACK_INIT_SIZE_def HEAP_INIT_SIZE_def)
  have "create_task entr priv priority k = krun_return (Some slot,
       k\<lparr>tasks := (tasks k)[slot := new_task slot (t_gen k) entr priv priority (?H + o1) uh],
         t_gen := (t_gen k + 1) mod 2 ^ 16, global_heap := h2, kmem := m3, n_task := n_task k + 1\<rparr>)"
    unfolding create_task_def if_not_P [OF k(1)] k(2) option.case Let_def sizes(2)
    using g1(1) g2(1) nz k(3) t ih
    by (simp add: krun_simps sizes task_upd_def)
  then show ?thesis using inside(1-4) g2(3) by blast
qed

section \<open>Booting\<close>

definition booted_heap :: "nat \<Rightarrow> nat \<Rightarrow> (nat \<times> bool) list" where
  "booted_heap n room = replicate n (1024, True) @ [(room - n * 1040, False)]"

lemma booted_heap_alloc:
  assumes "n < 4"
  shows "alloc_list (extent (booted_heap n 32752)) 1024 (booted_heap n 32752) = Some (n * 1040 + 16, booted_heap (Suc n) 32752)"
proof -
  have "n = 0 \<or> n = 1 \<or> n = 2 \<or> n = 3" using assms by linarith
  then show ?thesis
    by (elim disjE) (simp_all add: booted_heap_def alloc_list_def align16_def numeral_2_eq_2 numeral_3_eq_3)
qed

lemma booted_heap_live: "i < n \<Longrightarrow> (a + i * 1040 + 16, 1024) \<in> set (live a (booted_heap n room))"
proof (induction n arbitrary: a i room)
  case (Suc n)
  have b: "booted_heap (Suc n) room = (1024, True) # booted_heap n (room - 1040)"
    by (simp add: booted_heap_def)
  show ?case
  proof (cases i)
    case (Suc j)
    then have "(a + 1040 + j * 1040 + 16, 1024) \<in> set (live (a + 1040) (booted_heap n (room - 1040)))"
      using Suc.prems by (intro Suc.IH) simp
    then show ?thesis unfolding b by (simp add: Suc algebra_simps)
  qed (simp add: b)
qed simp

lemma create_booted:
  assumes ok: "heap_ok (global_heap k) (kmem k) (booted_heap n 32752)" "n \<le> 2" "hd_head (global_heap k) + 32768 < W32"
    and k: "n_task k \<noteq> MAX_TASKS" "free_slot k = Some slot" "slot < length (tasks k)"
    and eqs: "t_gen k = g" "n_task k = j" "g' = g + 1" "g < 100" "j' = j + 1" "n' = n + 2"
      "a1 = hd_head (global_heap k) + (n * 1040 + 16)" "a2 = hd_head (global_heap k) + (Suc n * 1040 + 16)"
  shows "\<exists>gh m uh. create_task entr priv priority k = krun_return (Some slot,
       k\<lparr>tasks := (tasks k)[slot := new_task slot g entr priv priority a1 uh],
         t_gen := g', global_heap := gh, kmem := m, n_task := j'\<rparr>) \<and>
     heap_ok gh m (booted_heap n' 32752) \<and> hd_head gh = hd_head (global_heap k) \<and> (\<exists>ubs. heap_ok uh m ubs) \<and>
     hd_head uh = a2 \<and> hd_max uh = a2 + 1024"
proof -
  have l: "(hd_head (global_heap k) + (Suc n * 1040 + 16), 1024) \<in> set (live (hd_head (global_heap k)) (booted_heap (n + 2) 32752))"
    using booted_heap_live [of "Suc n" "n + 2" "hd_head (global_heap k)" 32752] by (simp add: add.assoc)
  have a: "alloc_list (extent (booted_heap n 32752)) 1024 (booted_heap n 32752) = Some (n * 1040 + 16, booted_heap (Suc n) 32752)"
    "alloc_list (extent (booted_heap (Suc n) 32752)) 1024 (booted_heap (Suc n) 32752) = Some (Suc n * 1040 + 16, booted_heap (n + 2) 32752)"
    using booted_heap_alloc [of n] booted_heap_alloc [of "Suc n"] ok(2) by simp_all
  have p: "hd_head (global_heap k) + (Suc n * 1040 + 16) + 1040 < W32" using ok(2,3) by simp
  have "(g + 1) mod 2 ^ 16 = g'" using eqs(3,4) by simp
  with create_task_ok [OF ok(1) a l p k, of entr priv priority] show ?thesis
    unfolding eqs(1,2) eqs(5-8) by simp
qed

text \<open>The kernel after the first and after the second task was created.\<close>

definition one_task :: "heap_descriptor \<Rightarrow> heap_store \<Rightarrow> task \<Rightarrow> kernel" where
  "one_task gh m t0 = zero_kernel\<lparr>tasks := (replicate 8 zero_task)[0 := t0], t_gen := 1, global_heap := gh, kmem := m, n_task := 1,
     qready := replicate 8 \<lparr>re_task_id = 0, re_prev = None, re_next = None\<rparr>, qready_head := Some 0, n_ready := 1\<rparr>"

lemma task_ids [simp]: "TASK_ID 0 0 = 0" "TASK_ID 1 1 = 257" "TASK_ID (Suc 0) (Suc 0) = 257"
  by (simp_all add: TASK_ID_def)

lemma upt_slots: "[0..<8] = 0 # 1 # [2..<8 :: nat]"
  by (simp add: upt_rec)

lemmas run_boot = add_task_to_schedule_def push_ready_task_def push_front_def re_upd_def MAX_TASKS_def new_task_def Let_def krun_simps

lemma first_spawn:
  assumes ok: "heap_ok gh m (booted_heap 0 32752)" and p: "hd_head gh + 32768 < W32"
  shows "\<exists>gh1 m1 uh. spawn_task idle_fn PrivMode_M 0 (zero_kernel\<lparr>global_heap := gh, kmem := m\<rparr>) =
      krun_return (0, one_task gh1 m1 (new_task 0 0 idle_fn PrivMode_M 0 (hd_head gh + 16) uh)) \<and>
    heap_ok gh1 m1 (booted_heap 2 32752) \<and> hd_head gh1 = hd_head gh"
proof -
  let ?k = "zero_kernel\<lparr>global_heap := gh, kmem := m\<rparr>"
  have slot: "free_slot ?k = Some 0" by (simp add: free_slot_def zero_kernel_def MAX_TASKS_def zero_task_def upt_slots del: upt_rec_numeral)
  have k: "n_task ?k \<noteq> MAX_TASKS" "0 < length (tasks ?k)" "t_gen ?k = 0" "n_task ?k = 0" by (simp_all add: zero_kernel_def MAX_TASKS_def)
  have "heap_ok (global_heap ?k) (kmem ?k) (booted_heap 0 32752)" "0 \<le> (2::nat)" "hd_head (global_heap ?k) + 32768 < W32" using ok p by simp_all
  from create_booted [OF this k(1) slot k(2) k(3,4), of 1 1 2 "hd_head gh + 16" "hd_head gh + 1056" idle_fn PrivMode_M 0]
  obtain gh1 m1 uh where c: "create_task idle_fn PrivMode_M 0 ?k = krun_return (Some 0,
       ?k\<lparr>tasks := (tasks ?k)[0 := new_task 0 0 idle_fn PrivMode_M 0 (hd_head gh + 16) uh],
         t_gen := 1, global_heap := gh1, kmem := m1, n_task := 1\<rparr>)"
    "heap_ok gh1 m1 (booted_heap 2 32752)" "hd_head gh1 = hd_head gh"
    by auto
  have "spawn_task idle_fn PrivMode_M 0 ?k = krun_return (0, one_task gh1 m1 (new_task 0 0 idle_fn PrivMode_M 0 (hd_head gh + 16) uh))"
    unfolding spawn_task_def c(1)
    by (simp add: run_boot zero_kernel_def one_task_def list_update_same_conv)
  then show ?thesis using c(2,3) by blast
qed

lemma second_spawn:
  assumes ok: "heap_ok gh m (booted_heap 2 32752)" and p: "hd_head gh + 32768 < W32" and t0: "duo_task 0 0 t0" "t_state t0 = TS_READY"
  shows "\<exists>k. spawn_task user_fn PrivMode_U 50 (one_task gh m t0) = krun_return (257, k) \<and>
    (\<exists>ctx k'. start_schedule 257 k = krun_return (ctx, k') \<and> full_context ctx \<and> ctx_pc ctx = of_nat user_fn \<and> duo User_runs k' \<and> in_quantum k')"
proof -
  let ?k = "one_task gh m t0"
  have slot: "free_slot ?k = Some 1" using t0
    by (simp add: free_slot_def one_task_def zero_kernel_def MAX_TASKS_def zero_task_def upt_slots del: upt_rec_numeral)
  have k: "n_task ?k \<noteq> MAX_TASKS" "1 < length (tasks ?k)" "t_gen ?k = 1" "n_task ?k = 1" "global_heap ?k = gh"
    by (simp_all add: one_task_def MAX_TASKS_def)
  have "heap_ok (global_heap ?k) (kmem ?k) (booted_heap 2 32752)" "2 \<le> (2::nat)" "hd_head (global_heap ?k) + 32768 < W32"
    using ok p by (simp_all add: one_task_def)
  from create_booted [OF this k(1) slot k(2) k(3,4), of 2 2 4 "hd_head gh + 2096" "hd_head gh + 3136" user_fn PrivMode_U 50]
  obtain gh1 m1 uh where c: "create_task user_fn PrivMode_U 50 ?k = krun_return (Some 1,
       ?k\<lparr>tasks := (tasks ?k)[1 := new_task 1 1 user_fn PrivMode_U 50 (hd_head gh + 2096) uh],
         t_gen := 2, global_heap := gh1, kmem := m1, n_task := 2\<rparr>)"
    "heap_ok gh1 m1 (booted_heap 4 32752)" "hd_head gh1 = hd_head gh" "\<exists>ubs. heap_ok uh m1 ubs"
    "hd_head uh = hd_head gh + 3136" "hd_max uh = hd_head gh + 3136 + 1024"
    using k(5) by auto
  have mem: "user_memory gh1 m1 (hd_head gh + 2096) uh"
  proof -
    have "(hd_head gh1 + 2096, 1024) \<in> set (live (hd_head gh1) (booted_heap 4 32752))"
      "(hd_head gh1 + 3136, 1024) \<in> set (live (hd_head gh1) (booted_heap 4 32752))"
      using booted_heap_live [of 2 4 "hd_head gh1" 32752] booted_heap_live [of 3 4 "hd_head gh1" 32752] by (simp_all add: ac_simps)
    moreover obtain ubs where "heap_ok uh m1 ubs" using c(4) by blast
    moreover have "hd_head gh + 2096 \<noteq> hd_head uh" "hd_max uh = hd_head uh + 1024" using c(5,6) by simp_all
    ultimately show ?thesis using c(2) unfolding user_memory_def c(3,5) by blast
  qed
  define k1 where "k1 = ?k\<lparr>tasks := (tasks ?k)[1 := new_task 1 1 user_fn PrivMode_U 50 (hd_head gh + 2096) uh],
    t_gen := 2, global_heap := gh1, kmem := m1, n_task := 2,
    qready := \<lparr>re_task_id = 0, re_prev = None, re_next = None\<rparr> # \<lparr>re_task_id = 257, re_prev = None, re_next = Some 0\<rparr> #
      replicate 6 \<lparr>re_task_id = 0, re_prev = None, re_next = None\<rparr>, qready_head := Some 1, n_ready := 2\<rparr>"
  have eight: "replicate 8 x = x # x # replicate 6 x" for x :: 'a by (simp add: eval_nat_numeral)
  have "spawn_task user_fn PrivMode_U 50 ?k = krun_return (257, k1)"
    unfolding spawn_task_def c(1) using t0
    by (simp add: run_boot run_scheduler duo_shape one_task_def k1_def eight)
  moreover have "\<exists>ctx k'. start_schedule 257 k1 = krun_return (ctx, k') \<and> full_context ctx \<and> ctx_pc ctx = of_nat user_fn \<and>
      duo User_runs k' \<and> in_quantum k'"
    using t0 mem
    by (simp add: run_boot run_scheduler duo_def duo_shape one_task_def k1_def eight start_schedule_def enter_task_def in_quantum_def
      zero_kernel_def full_context_def CTX_REGS_def)
  ultimately show ?thesis by blast
qed

lemma boot_heap:
  assumes "0 < mem_start" "mem_start + 32800 < W32"
  shows "heap_ok (fst (init_heap mem_start KERNEL_HEAP_SIZE m)) (snd (init_heap mem_start KERNEL_HEAP_SIZE m)) (booted_heap 0 32752)"
    "hd_head (fst (init_heap mem_start KERNEL_HEAP_SIZE m)) + 32768 < W32"
proof -
  have "(mem_start + 15 + 16 * 2048) div 16 = (mem_start + 15) div 16 + 2048" by simp
  then have a: "align16 (mem_start + 32768) = align16 mem_start + 32768" by (simp add: align16_def ac_simps)
  then show "heap_ok (fst (init_heap mem_start KERNEL_HEAP_SIZE m)) (snd (init_heap mem_start KERNEL_HEAP_SIZE m)) (booted_heap 0 32752)"
    using init_heap_ok [of mem_start 32768 m] assms by (simp add: KERNEL_HEAP_SIZE_def booted_heap_def)
  show "hd_head (fst (init_heap mem_start KERNEL_HEAP_SIZE m)) + 32768 < W32"
    using assms align16_props(3) [of mem_start] by (simp add: init_heap_def Let_def ALIGN_UP_exact)
qed

lemma kernel_main_boots:
  assumes mem: "0 < mem_start" "mem_start + 32800 < W32" and clock: "get_time now n = Some (t, n')" and start: "sys_k s = zero_kernel"
  shows "\<exists>ctx s0. kernel_main mem_start idle_fn user_fn sp now n s = krun_return (ctx, s0) \<and> full_context ctx \<and>
    ctx_pc ctx = of_nat user_fn \<and> get_timecmp (sys_cmp s0) = t + TICK_LENGTH \<and> duo_live (sys_k s0) \<and> sys_mtvec s0 = sys_mtvec s"
proof -
  obtain gh m where ih: "init_heap mem_start KERNEL_HEAP_SIZE (kmem zero_kernel) = (gh, m)" by fastforce
  have gh: "heap_ok gh m (booted_heap 0 32752)" "hd_head gh + 32768 < W32"
    using boot_heap [OF mem, of "kmem zero_kernel"] by (simp_all add: ih)
  obtain gh1 m1 uh where one: "spawn_task idle_fn PrivMode_M 0 (zero_kernel\<lparr>global_heap := gh, kmem := m\<rparr>) =
      krun_return (0, one_task gh1 m1 (new_task 0 0 idle_fn PrivMode_M 0 (hd_head gh + 16) uh))"
    "heap_ok gh1 m1 (booted_heap 2 32752)" "hd_head gh1 = hd_head gh"
    using first_spawn [OF gh] by blast
  have t0: "duo_task 0 0 (new_task 0 0 idle_fn PrivMode_M 0 (hd_head gh + 16) uh)" "t_state (new_task 0 0 idle_fn PrivMode_M 0 (hd_head gh + 16) uh) = TS_READY"
    by (simp_all add: duo_task_def new_task_def full_context_def CTX_REGS_def W32_def)
  obtain k ctx k' where two: "spawn_task user_fn PrivMode_U 50 (one_task gh1 m1 (new_task 0 0 idle_fn PrivMode_M 0 (hd_head gh + 16) uh)) = krun_return (257, k)"
    "start_schedule 257 k = krun_return (ctx, k')" "full_context ctx" "ctx_pc ctx = of_nat user_fn" "duo User_runs k'" "in_quantum k'"
    using second_spawn [OF one(2) _ t0] gh(2) unfolding one(3) by blast
  have "kernel_main mem_start idle_fn user_fn sp now n s =
      krun_return (ctx, s\<lparr>sys_k := k', sys_cmp := set_timecmp (t + TICK_LENGTH) (sys_cmp s), sys_mscratch := sp\<rparr>)"
    by (simp add: kernel_main_def start ih one(1) two(1,2) clock krun_simps Let_def)
  moreover have "get_timecmp (set_timecmp x d) = x" for x d by (simp add: set_timecmp_def set_timecmp_hi_def get_timecmp_def)
  moreover have "duo_live k'" using two(5,6) unfolding duo_live_def by blast
  ultimately show ?thesis using two(3,4) by simp
qed

section \<open>Every reachable state\<close>

text \<open>
  From one trap to the next the tasks may do anything to their registers and to user memory, and
  the UART may change its state: the frame and the bytes of each trap are arbitrary.
\<close>

inductive kernel_reach :: "'u port \<Rightarrow> 'u sys \<Rightarrow> 'u sys \<Rightarrow> bool" for io s0 where
  booted: "kernel_reach io s0 s0"
| trapped: "kernel_reach io s0 s \<Longrightarrow> trap_ok io bytes f s \<Longrightarrow> trap_handler io bytes f s = krun_return (ctx, s') \<Longrightarrow> kernel_reach io s0 s'"
| device: "kernel_reach io s0 s \<Longrightarrow> kernel_reach io s0 (s\<lparr>sys_uart := u\<rparr>)"

lemma reach_live: "kernel_reach io s0 s \<Longrightarrow> duo_live (sys_k s0) \<Longrightarrow> duo_live (sys_k s)"
proof (induction rule: kernel_reach.induct)
  case (trapped s bytes f ctx s')
  then show ?case using trap_live [of s io bytes f] unfolding returns_live_def by auto
qed simp_all

lemma memset_zeroes:
  assumes "unat b \<le> unat a" "unat a < unat e" shows "memset b 0 (unat (e - b)) mem a = 0"
proof -
  have "unat (e - b) = unat e - unat b" using assms by (simp add: unat_sub word_le_nat_alt)
  moreover have "a = b + of_nat (unat a - unat b)" using assms(1) by (simp add: of_nat_diff)
  moreover have "unat a - unat b < unat e - unat b" using assms by arith
  ultimately have "\<exists>j < unat (e - b). a = b + of_nat j" by metis
  then show ?thesis by (simp add: memset_eq)
qed

text \<open>
  C7: From reset, with any contents of the memory and provided that the static variables lie in the
  zeroed section and are zero when its bytes are, the start-up code sets an aligned trap vector and
  a timer deadline and runs the user program first; and from then on no sequence of interrupts at
  any time and system calls of the user program makes the kernel panic, hang, or use a local
  variable before it is set: every trap returns with a complete context.  The user program may
  exit, wait for input, yield, allocate and free in any order, with the exceptions of
  \<open>user_call_ok\<close>.
\<close>

theorem two_task_kernel_never_panics:
  assumes "0 < mem_start" "mem_start + 32800 < W32" and clock: "get_time now n = Some (t, n')"
    and bss: "\<And>m. (\<And>a. unat bss_start \<le> unat a \<Longrightarrow> unat a < unat bss_end \<Longrightarrow> m a = 0) \<Longrightarrow> layout m = zero_kernel"
  shows "\<exists>ctx s0. entry layout bss_start bss_end trap_entry mem_start idle_fn user_fn sp now n mem s = krun_return (ctx, s0) \<and>
    ctx_pc ctx = of_nat user_fn \<and> get_timecmp (sys_cmp s0) = t + TICK_LENGTH \<and> sys_mtvec s0 = trap_entry AND NOT 3 \<and>
    (\<forall>io bytes f s1. kernel_reach io s0 s1 \<and> trap_ok io bytes f s1 \<longrightarrow>
       (\<exists>ctx' s2. trap_handler io bytes f s1 = krun_return (ctx', s2) \<and> full_context ctx'))"
proof -
  let ?s = "set_trap_entry trap_entry (s\<lparr>sys_k := layout (memset bss_start 0 (unat (bss_end - bss_start)) mem)\<rparr>)"
  have "sys_k ?s = zero_kernel" using bss [OF memset_zeroes] by (simp add: set_trap_entry_def)
  from kernel_main_boots [OF assms(1,2) clock this] obtain ctx s0 where
    k: "kernel_main mem_start idle_fn user_fn sp now n ?s = krun_return (ctx, s0)" "ctx_pc ctx = of_nat user_fn"
      "get_timecmp (sys_cmp s0) = t + TICK_LENGTH" "duo_live (sys_k s0)" "sys_mtvec s0 = sys_mtvec ?s"
    by blast
  have "entry layout bss_start bss_end trap_entry mem_start idle_fn user_fn sp now n mem s = krun_return (ctx, s0)"
    using k(1) by (simp add: entry_def Let_def)
  moreover have "sys_mtvec s0 = trap_entry AND NOT 3" using k(5) by (simp add: set_trap_entry_def)
  ultimately show ?thesis using k trap_live [OF reach_live [OF _ k(4)]] unfolding returns_live_def by blast
qed

text \<open>A memory full of sevens, with one of the variables at the start of the section.\<close>

definition demo_layout :: "(u32 \<Rightarrow> u8) \<Rightarrow> kernel" where
  "demo_layout m = zero_kernel\<lparr>n_task := unat (m 0x1000)\<rparr>"

definition demo_entry :: "(cpu_context \<times> u8 list sys) krun" where
  "demo_entry = entry demo_layout 0x1000 0x1004 0x83 0x3000 0x100 0x200 0x2ff0 (\<lambda>_. 5) 0 (\<lambda>_. 7) (demo_sys (zero_kernel\<lparr>n_task := 7\<rparr>))"

theorem two_task_kernel_never_panics_witness:
  "\<exists>ctx s0 ctx1 s1 ctx2 s2.
     demo_entry = krun_return (ctx, s0) \<and> get_timecmp (sys_cmp s0) = 15 \<and> sys_mtvec s0 = 0x80 \<and>
     trap_handler quiet_port (\<lambda>_. 0) \<lparr>tf_ctx = \<lparr>ctx_regs = replicate 32 33, ctx_mstatus = 0, ctx_pc = 0x200\<rparr>, tf_mcause = 0x80000007\<rparr> s0 = krun_return (ctx1, s1) \<and>
     trap_handler quiet_port (\<lambda>_. 0) \<lparr>tf_ctx = \<lparr>ctx_regs = replicate 32 0, ctx_mstatus = 0, ctx_pc = 0x100\<rparr>, tf_mcause = 0x8000000b\<rparr> s1 = krun_return (ctx2, s2)"
proof -
  have t: "get_time (\<lambda>_. 5) 0 = Some (5, 3)" by (subst get_time.simps) simp
  have z: "demo_layout m = zero_kernel" if "\<And>a. unat (0x1000 :: u32) \<le> unat a \<Longrightarrow> unat a < unat (0x1004 :: u32) \<Longrightarrow> m a = 0" for m
    using that [of "0x1000"] by (simp add: demo_layout_def zero_kernel_def)
  have "\<exists>ctx s0. demo_entry = krun_return (ctx, s0) \<and>
    ctx_pc ctx = of_nat 0x200 \<and> get_timecmp (sys_cmp s0) = 5 + TICK_LENGTH \<and> sys_mtvec s0 = 0x83 AND NOT 3 \<and>
    (\<forall>io bytes f s1. kernel_reach io s0 s1 \<and> trap_ok io bytes f s1 \<longrightarrow>
       (\<exists>ctx' s2. trap_handler io bytes f s1 = krun_return (ctx', s2) \<and> full_context ctx'))"
    unfolding demo_entry_def by (rule two_task_kernel_never_panics [OF _ _ t z]) (simp_all add: W32_def)
  then obtain ctx s0 where k: "demo_entry = krun_return (ctx, s0)" "get_timecmp (sys_cmp s0) = 5 + TICK_LENGTH" "sys_mtvec s0 = 0x83 AND NOT 3"
    and r: "\<And>io bytes f s1. kernel_reach io s0 s1 \<Longrightarrow> trap_ok io bytes f s1 \<Longrightarrow> \<exists>ctx' s2. trap_handler io bytes f s1 = krun_return (ctx', s2)"
    by blast
  have ok: "trap_ok quiet_port (\<lambda>_. 0) \<lparr>tf_ctx = \<lparr>ctx_regs = replicate 32 w, ctx_mstatus = 0, ctx_pc = p\<rparr>, tf_mcause = c\<rparr> s" if "sint c < 0" for w p c s
    using that by (simp add: trap_ok_def full_context_def CTX_REGS_def)
  obtain ctx1 s1 where one: "trap_handler quiet_port (\<lambda>_. 0) \<lparr>tf_ctx = \<lparr>ctx_regs = replicate 32 33, ctx_mstatus = 0, ctx_pc = 0x200\<rparr>, tf_mcause = 0x80000007\<rparr> s0 = krun_return (ctx1, s1)"
    using r [OF booted ok] by fastforce
  have "kernel_reach quiet_port s0 s1" by (rule trapped [OF booted ok one]) simp
  from r [OF this ok] obtain ctx2 s2 where two: "trap_handler quiet_port (\<lambda>_. 0) \<lparr>tf_ctx = \<lparr>ctx_regs = replicate 32 0, ctx_mstatus = 0, ctx_pc = 0x100\<rparr>, tf_mcause = 0x8000000b\<rparr> s1 = krun_return (ctx2, s2)"
    by fastforce
  have "get_timecmp (sys_cmp s0) = 15" "sys_mtvec s0 = 0x80" using k(2,3) by (simp_all add: TICK_LENGTH_def)
  with k(1) one two show ?thesis by (intro exI conjI)
qed

end
