(* ===== verification/User_Entry.thy ===== *)
theory User_Entry
  imports Prelude
begin

text \<open>
  The user program (\<open>sw/bootc/user/entry.c\<close>): it reads a line with echo and backspace into a
  buffer of 64 bytes, prints it and exits.  The system calls it makes are \<open>getc\<close>, whose results
  are the input list, and \<open>putc\<close> and \<open>puts\<close>, whose bytes are the output list; memory is a
  function from addresses to bytes.
\<close>

definition BUF_MAX :: u32 where "BUF_MAX = 64"

record line_state =
  ls_mem :: "u32 \<Rightarrow> u8"
  ls_n :: u32
  ls_out :: "u8 list"

text \<open>The bytes of a string in memory up to its terminator.\<close>

partial_function (option) cstr_at :: "(u32 \<Rightarrow> u8) \<Rightarrow> u32 \<Rightarrow> u8 list option" where
  "cstr_at mem p = (if mem p = 0 then Some [] else Option.bind (cstr_at mem (p + 1)) (\<lambda>cs. Some (mem p # cs)))"

definition user_char :: "u32 \<Rightarrow> u8 \<Rightarrow> line_state \<Rightarrow> line_state" where
  "user_char buf c s =
     (if c = 8 then s\<lparr>ls_out := ls_out s @ [32, 8, 8, 95, 8], ls_n := ls_n s - 1\<rparr>
      else if ls_n s < BUF_MAX - 1 then
        s\<lparr>ls_out := ls_out s @ [c, 95, 8], ls_mem := (ls_mem s)(buf + ls_n s := c), ls_n := ls_n s + 1\<rparr>
      else s)"

text \<open>
  The \<open>for\<close> loop: it ends at a newline.  \<open>None\<close> is the task waiting for more input.
\<close>

fun user_loop :: "u32 \<Rightarrow> u8 list \<Rightarrow> line_state \<Rightarrow> line_state option" where
  "user_loop buf [] s = None"
| "user_loop buf (c # cs) s =
     (if c = 10 then Some (s\<lparr>ls_out := ls_out s @ [32, 10], ls_mem := (ls_mem s)(buf + ls_n s := 0)\<rparr>)
      else user_loop buf cs (user_char buf c s))"

text \<open>
  \<open>user_entry\<close> with the pointer \<open>buf\<close> that \<open>malloc\<close> returned, up to \<open>free\<close> and \<open>exit\<close>.
\<close>

definition malloc_failed :: "u8 list" where
  "malloc_failed = map of_nat [70, 97, 105, 108, 101, 100, 32, 116, 111, 32, 97, 108, 108, 111, 99, 97, 116, 101, 32, 98, 117, 102, 102, 101, 114, 33]"

definition user_entry :: "u32 \<Rightarrow> (u32 \<Rightarrow> u8) \<Rightarrow> u8 list \<Rightarrow> line_state option" where
  "user_entry buf mem input =
     (if buf = 0 then Some \<lparr>ls_mem = mem, ls_n = 0, ls_out = malloc_failed @ [10]\<rparr>
      else case user_loop buf input \<lparr>ls_mem = mem, ls_n = 0, ls_out = [95, 8]\<rparr> of
             None \<Rightarrow> None
           | Some s \<Rightarrow>
               (case cstr_at (ls_mem s) buf of
                  None \<Rightarrow> None
                | Some line \<Rightarrow> Some (s\<lparr>ls_out := ls_out s @ line @ [10]\<rparr>)))"

section \<open>The line an editor should produce\<close>

definition edit_key :: "u8 list \<Rightarrow> u8 \<Rightarrow> u8 list" where
  "edit_key line c = (if c = 8 then butlast line else if length line < 63 then line @ [c] else line)"

definition edit_line :: "u8 list \<Rightarrow> u8 list" where "edit_line cs = foldl edit_key [] cs"

text \<open>No backspace is pressed on an empty line.\<close>

fun never_underflows :: "u8 list \<Rightarrow> u8 list \<Rightarrow> bool" where
  "never_underflows line [] = True"
| "never_underflows line (c # cs) = ((c = 8 \<longrightarrow> line \<noteq> []) \<and> never_underflows (edit_key line c) cs)"

definition holds_line :: "u32 \<Rightarrow> (u32 \<Rightarrow> u8) \<Rightarrow> u8 list \<Rightarrow> line_state \<Rightarrow> bool" where
  "holds_line buf mem line s \<longleftrightarrow> length line \<le> 63 \<and> ls_n s = of_nat (length line) \<and>
     (\<forall>i < length line. ls_mem s (buf + of_nat i) = line ! i) \<and> (\<forall>a. 64 \<le> unat (a - buf) \<longrightarrow> ls_mem s a = mem a)"

lemma of_nat_small: "n < 2 ^ 32 \<Longrightarrow> unat (of_nat n :: u32) = n"
  by (simp add: unsigned_of_nat take_bit_nat_eq_self)

lemma of_nat_offset_eq:
  "i < 64 \<Longrightarrow> j < 64 \<Longrightarrow> buf + of_nat i = buf + (of_nat j :: u32) \<longleftrightarrow> i = j"
proof -
  assume ij: "i < 64" "j < 64"
  have "unat (of_nat i :: u32) = i" "unat (of_nat j :: u32) = j" using ij by (simp_all add: of_nat_small)
  then have "(of_nat i :: u32) = of_nat j \<longleftrightarrow> i = j" by metis
  then show ?thesis by simp
qed

lemma user_char_holds:
  assumes h: "holds_line buf mem line s" and c: "c = 8 \<longrightarrow> line \<noteq> []"
  shows "holds_line buf mem (edit_key line c) (user_char buf c s)"
proof -
  have n: "length line \<le> 63" "ls_n s = of_nat (length line)" "\<And>i. i < length line \<Longrightarrow> ls_mem s (buf + of_nat i) = line ! i"
    "\<And>a. 64 \<le> unat (a - buf) \<Longrightarrow> ls_mem s a = mem a" using h by (auto simp: holds_line_def)
  have un: "unat (ls_n s) = length line" using n(1,2) by (simp add: of_nat_small)
  have lt: "ls_n s < BUF_MAX - 1 \<longleftrightarrow> length line < 63" by (simp add: word_less_nat_alt un BUF_MAX_def)
  show ?thesis
  proof (cases "c = 8")
    case True
    then have "length line = length (butlast line) + 1" using c by (cases line) simp_all
    then have "(of_nat (length line) :: u32) - 1 = of_nat (length (butlast line))" by (metis add_diff_cancel_right' of_nat_1 of_nat_add)
    moreover have "user_char buf c s = s\<lparr>ls_out := ls_out s @ [32, 8, 8, 95, 8], ls_n := ls_n s - 1\<rparr>" "edit_key line c = butlast line"
      using True by (simp_all add: user_char_def edit_key_def)
    moreover have "length (butlast line) \<le> 63" using n(1) by simp
    moreover have "ls_mem s (buf + of_nat i) = butlast line ! i" if "i < length (butlast line)" for i
      using that n(3) [of i] by (simp add: nth_butlast)
    ultimately show ?thesis using n(2,4) unfolding holds_line_def by (simp del: length_butlast)
  next
    case False
    show ?thesis
    proof (cases "length line < 63")
      case True
      have "ls_mem (user_char buf c s) (buf + of_nat i) = (line @ [c]) ! i" if "i < length (line @ [c])" for i
        using that False True lt n(2,3) of_nat_offset_eq [of i "length line" buf]
        by (auto simp: user_char_def nth_append less_Suc_eq)
      moreover have "ls_mem (user_char buf c s) a = mem a" if "64 \<le> unat (a - buf)" for a
      proof -
        have "a \<noteq> buf + ls_n s" using that un True by auto
        then show ?thesis using n(4) [OF that] False True lt by (simp add: user_char_def)
      qed
      ultimately show ?thesis using False True lt n(2) by (simp add: holds_line_def user_char_def edit_key_def)
    next
      case full: False
      then show ?thesis using h False lt by (simp add: user_char_def edit_key_def)
    qed
  qed
qed

lemma user_loop_holds:
  "holds_line buf mem line s \<Longrightarrow> never_underflows line cs \<Longrightarrow> 10 \<notin> set cs \<Longrightarrow>
   \<exists>s1 echo. holds_line buf mem (foldl edit_key line cs) s1 \<and>
     user_loop buf (cs @ 10 # rest) s = Some (s1\<lparr>ls_out := echo @ [32, 10], ls_mem := (ls_mem s1)(buf + ls_n s1 := 0)\<rparr>)"
proof (induction cs arbitrary: line s)
  case Nil
  then show ?case by (intro exI [of _ s] exI [of _ "ls_out s"]) (simp add: fun_upd_def)
next
  case (Cons c cs)
  have "holds_line buf mem (edit_key line c) (user_char buf c s)" using Cons.prems by (intro user_char_holds) simp_all
  from Cons.IH [OF this] show ?case using Cons.prems by simp
qed

lemma cstr_at_line:
  "\<forall>i < length line. mem (p + of_nat i) = line ! i \<Longrightarrow> mem (p + of_nat (length line)) = 0 \<Longrightarrow>
   cstr_at mem p = Some (takeWhile (\<lambda>c. c \<noteq> 0) line)"
proof (induction line arbitrary: p)
  case Nil
  then show ?case by (subst cstr_at.simps) simp
next
  case (Cons c line)
  have "mem (p + 1 + of_nat i) = line ! i" if "i < length line" for i
    using Cons.prems(1) that by (auto dest!: spec [of _ "Suc i"] simp: add.assoc)
  moreover have "mem (p + 1 + of_nat (length line)) = 0" using Cons.prems(2) by (simp add: add.assoc)
  ultimately have "cstr_at mem (p + 1) = Some (takeWhile (\<lambda>c. c \<noteq> 0) line)" using Cons.IH by simp
  moreover have "mem p = c" using Cons.prems(1) by (auto dest!: spec [of _ 0])
  ultimately show ?case by (subst cstr_at.simps) simp
qed

text \<open>
  C28: for every input line without a backspace on an empty line, the user program prints back
  exactly the edited line (backspaces applied, input beyond 63 characters dropped) up to its first NUL, if it has one, and it
  writes nothing outside the 64 bytes of its buffer.
\<close>

theorem user_program_edits_line:
  assumes "buf \<noteq> 0" "10 \<notin> set cs" "never_underflows [] cs"
  shows "\<exists>s echo. user_entry buf mem (cs @ 10 # rest) = Some s \<and>
    ls_out s = echo @ [32, 10] @ takeWhile (\<lambda>c. c \<noteq> 0) (edit_line cs) @ [10] \<and>
    (\<forall>a. 64 \<le> unat (a - buf) \<longrightarrow> ls_mem s a = mem a)"
proof -
  let ?line = "edit_line cs"
  have "holds_line buf mem [] \<lparr>ls_mem = mem, ls_n = 0, ls_out = [95, 8]\<rparr>" by (simp add: holds_line_def)
  from user_loop_holds [OF this assms(3,2)] obtain s1 echo where h: "holds_line buf mem ?line s1"
    and run: "user_loop buf (cs @ 10 # rest) \<lparr>ls_mem = mem, ls_n = 0, ls_out = [95, 8]\<rparr> =
      Some (s1\<lparr>ls_out := echo @ [32, 10], ls_mem := (ls_mem s1)(buf + ls_n s1 := 0)\<rparr>)"
    unfolding edit_line_def by blast
  let ?m = "(ls_mem s1)(buf + ls_n s1 := 0)"
  have n: "length ?line \<le> 63" "ls_n s1 = of_nat (length ?line)" "\<And>i. i < length ?line \<Longrightarrow> ls_mem s1 (buf + of_nat i) = ?line ! i"
    "\<And>a. 64 \<le> unat (a - buf) \<Longrightarrow> ls_mem s1 a = mem a" using h by (auto simp: holds_line_def)
  have "?m (buf + of_nat i) = ?line ! i" if "i < length ?line" for i
    using that n(1,2,3) of_nat_offset_eq [of i "length ?line" buf] by simp
  moreover have "?m (buf + of_nat (length ?line)) = 0" using n(2) by simp
  ultimately have str: "cstr_at ?m buf = Some (takeWhile (\<lambda>c. c \<noteq> 0) ?line)" by (intro cstr_at_line) blast+
  have out: "?m a = mem a" if "64 \<le> unat (a - buf)" for a
  proof -
    have "unat (ls_n s1) < 64" using n(1,2) by (simp add: of_nat_small)
    then have "a \<noteq> buf + ls_n s1" using that by auto
    then show ?thesis using n(4) [OF that] by simp
  qed
  show ?thesis
    by (intro exI [of _ "s1\<lparr>ls_out := echo @ [32, 10] @ takeWhile (\<lambda>c. c \<noteq> 0) ?line @ [10], ls_mem := ?m\<rparr>"] exI [of _ echo])
      (use assms(1) run str out in \<open>simp add: user_entry_def\<close>)
qed

theorem user_program_edits_line_witness:
  "\<exists>s echo. user_entry 0x80000010 (\<lambda>_. 7) ([104, 105, 8, 106] @ 10 # []) = Some s \<and>
     ls_out s = echo @ [32, 10] @ [104, 106] @ [10] \<and> ls_mem s 0x8000000f = 7"
proof -
  have l: "edit_line [104, 105, 8, 106] = [104, 106]" by (simp add: edit_line_def edit_key_def)
  have "\<exists>s echo. user_entry 0x80000010 (\<lambda>_. 7) ([104, 105, 8, 106] @ 10 # []) = Some s \<and>
      ls_out s = echo @ [32, 10] @ takeWhile (\<lambda>c. c \<noteq> 0) (edit_line [104, 105, 8, 106]) @ [10] \<and>
      (\<forall>a. 64 \<le> unat (a - 0x80000010) \<longrightarrow> ls_mem s a = 7)"
    by (rule user_program_edits_line) (simp_all add: edit_key_def)
  then obtain s echo where s: "user_entry 0x80000010 (\<lambda>_. 7) ([104, 105, 8, 106] @ 10 # []) = Some s"
    "ls_out s = echo @ [32, 10] @ [104, 106] @ [10]" and m: "\<forall>a. 64 \<le> unat (a - 0x80000010) \<longrightarrow> ls_mem s a = 7"
    unfolding l by auto
  have "ls_mem s 0x8000000f = 7" using m [rule_format, of "0x8000000f"] by (simp add: unsigned_minus_1_eq_mask mask_eq_exp_minus_1)
  then show ?thesis using s by blast
qed

lemma user_loop_underflowed:
  "ls_n s = - 1 \<Longrightarrow> 8 \<notin> set ds \<Longrightarrow> 10 \<notin> set ds \<Longrightarrow>
   user_loop buf (ds @ 10 # rest) s = Some (s\<lparr>ls_out := ls_out s @ [32, 10], ls_mem := (ls_mem s)(buf - 1 := 0)\<rparr>)"
proof (induction ds)
  case (Cons d ds)
  have "\<not> ls_n s < BUF_MAX - 1" using Cons.prems(1) by (simp add: BUF_MAX_def)
  then have "user_char buf d s = s" using Cons.prems(2) by (simp add: user_char_def)
  then show ?case using Cons by simp
qed simp

text \<open>
  C40: a backspace on the empty line makes the counter wrap around: every further character is
  ignored, and the newline stores the terminator one byte below the buffer, into the header of
  the heap block, while the buffer is printed uninitialised.
\<close>

theorem backspace_on_empty_line_underflows:
  assumes "8 \<notin> set ds" "10 \<notin> set ds"
  shows "\<exists>s. user_loop buf (8 # ds @ 10 # rest) \<lparr>ls_mem = mem, ls_n = 0, ls_out = [95, 8]\<rparr> = Some s \<and> ls_mem s = mem(buf - 1 := 0)"
proof -
  let ?s = "user_char buf 8 \<lparr>ls_mem = mem, ls_n = 0, ls_out = [95, 8]\<rparr>"
  have "ls_n ?s = - 1" "ls_mem ?s = mem" by (simp_all add: user_char_def)
  from user_loop_underflowed [OF this(1) assms, of buf rest] this(2) show ?thesis by simp
qed

theorem backspace_on_empty_line_underflows_witness:
  "\<exists>s. user_loop 0x80000010 (8 # [104, 105] @ 10 # []) \<lparr>ls_mem = (\<lambda>_. 0x80), ls_n = 0, ls_out = [95, 8]\<rparr> = Some s \<and>
     ls_mem s 0x8000000f = 0 \<and> ls_mem s 0x80000010 = 0x80"
  using backspace_on_empty_line_underflows [of "[104, 105]" "0x80000010" "[]" "\<lambda>_. 0x80"] by auto

end
