(* ===== verification/User_Syscall.thy ===== *)
theory User_Syscall
  imports Kernel_Trap Kernel_Heap_Frame User_Entry
begin

text \<open>
  The system-call wrappers of user programs (\<open>sw/bootc/user/syscall.c\<close>): each puts its arguments
  into registers, executes \<open>ecall\<close>, and reads its result from \<open>a0\<close>.  What \<open>ecall\<close> does to the
  registers and to the rest of the system is a parameter; \<open>kernel_ecall\<close> is the kernel's own
  trap handler.
\<close>

section \<open>The wrappers\<close>

type_synonym 'm ecall = "cpu_context \<Rightarrow> 'm \<Rightarrow> (cpu_context \<times> 'm) krun"

definition a0 :: nat where "a0 = 10"
definition a7 :: nat where "a7 = 17"

text \<open>After its \<open>ecall\<close> the wrapper of \<open>exit\<close> loops for ever.\<close>

definition u_exit :: "'m ecall \<Rightarrow> cpu_context \<Rightarrow> 'm \<Rightarrow> (cpu_context \<times> 'm) krun" where
  "u_exit ecall ctx m = krun_bind (ecall (set_reg a7 SyscallCode_EXIT ctx) m) (\<lambda>_. None)"

definition u_yield :: "'m ecall \<Rightarrow> cpu_context \<Rightarrow> 'm \<Rightarrow> (cpu_context \<times> 'm) krun" where
  "u_yield ecall ctx m = ecall (set_reg a7 SyscallCode_YIELD ctx) m"

definition u_free :: "'m ecall \<Rightarrow> u32 \<Rightarrow> cpu_context \<Rightarrow> 'm \<Rightarrow> (cpu_context \<times> 'm) krun" where
  "u_free ecall ptr ctx m = ecall (set_reg a7 SyscallCode_FREE (set_reg a0 ptr ctx)) m"

definition u_malloc :: "'m ecall \<Rightarrow> u32 \<Rightarrow> cpu_context \<Rightarrow> 'm \<Rightarrow> (u32 \<times> cpu_context \<times> 'm) krun" where
  "u_malloc ecall sz ctx m =
     krun_bind (ecall (set_reg a7 SyscallCode_MALLOC (set_reg a0 sz ctx)) m) (\<lambda>(ctx', m'). krun_return (reg ctx' a0, ctx', m'))"

definition u_putc :: "'m ecall \<Rightarrow> u8 \<Rightarrow> cpu_context \<Rightarrow> 'm \<Rightarrow> (cpu_context \<times> 'm) krun" where
  "u_putc ecall c ctx m = ecall (set_reg a7 SyscallCode_PUTC (set_reg a0 (ucast c) ctx)) m"

text \<open>\<open>getc\<close> leaves \<open>a0\<close> as it is before the call.\<close>

definition u_getc :: "'m ecall \<Rightarrow> cpu_context \<Rightarrow> 'm \<Rightarrow> (u8 \<times> cpu_context \<times> 'm) krun" where
  "u_getc ecall ctx m =
     krun_bind (ecall (set_reg a7 SyscallCode_GETC ctx) m) (\<lambda>(ctx', m'). krun_return (ucast (reg ctx' a0), ctx', m'))"

definition u_puts :: "'m ecall \<Rightarrow> u32 \<Rightarrow> cpu_context \<Rightarrow> 'm \<Rightarrow> (cpu_context \<times> 'm) krun" where
  "u_puts ecall s ctx m = ecall (set_reg a7 SyscallCode_PUTS (set_reg a0 s ctx)) m"

section \<open>The kernel behind \<open>ecall\<close>\<close>

definition kernel_ecall :: "'u port \<Rightarrow> (u32 \<Rightarrow> u8) \<Rightarrow> 'u sys ecall" where
  "kernel_ecall io bytes ctx s = trap_handler io bytes \<lparr>tf_ctx = ctx, tf_mcause = 8\<rparr> s"

lemma kernel_ecall_dispatch: "kernel_ecall io bytes ctx s = dispatch_syscall io bytes ctx s"
  by (simp add: kernel_ecall_def trap_handler_def Let_def)

lemma reg_set: "full_context ctx \<Longrightarrow> i < 32 \<Longrightarrow> reg (set_reg i w ctx) j = (if j = i then w else reg ctx j)"
  by (simp add: set_reg_def full_context_def CTX_REGS_def)

lemma full_set: "full_context (set_reg i w ctx) = full_context ctx"
  by (simp add: full_context_def set_reg_def)

lemma call_regs:
  assumes "full_context ctx"
  shows "reg (set_reg a7 code (set_reg a0 x ctx)) 17 = code" "reg (set_reg a7 code (set_reg a0 x ctx)) 10 = x"
  using assms by (simp_all add: reg_set full_set a0_def a7_def)

lemmas syscall_codes = SyscallCode_EXIT_def SyscallCode_YIELD_def SyscallCode_FREE_def SyscallCode_MALLOC_def
  SyscallCode_PUTC_def SyscallCode_GETC_def SyscallCode_PUTS_def

text \<open>
  C11: a user program's \<open>malloc\<close> of less than \<open>req_limit\<close> (3 GiB less 16 bytes) reaches the allocator of its own heap and nothing else: it returns
  the first-fit address, or NULL exactly when first fit finds no block, and then nothing has changed.  The caller continues
  behind its \<open>ecall\<close> with every register but \<open>a0\<close> and \<open>a7\<close> and its \<open>mstatus\<close> as they were; of
  the system only the descriptor of the caller's heap and block headers inside that heap change.
\<close>

theorem user_malloc_is_first_fit:
  assumes c: "slot_ok (sys_k s) c" "current_slot (sys_k s) = c" "length (tasks (sys_k s)) = 8"
    and ok: "heap_ok (t_heap (tasks (sys_k s) ! c)) (kmem (sys_k s)) bs" and sz: "unat sz < req_limit" and ctx: "full_context ctx"
  shows "\<exists>p ctx' h m. u_malloc (kernel_ecall io bytes) sz ctx s =
      krun_return (p, ctx', s\<lparr>sys_k := (task_upd c (t_heap_update (\<lambda>_. h)) (sys_k s))\<lparr>kmem := m\<rparr>\<rparr>) \<and>
    ctx_pc ctx' = ctx_pc ctx + 4 \<and> ctx_mstatus ctx' = ctx_mstatus ctx \<and> (\<forall>i. i \<noteq> a0 \<longrightarrow> i \<noteq> a7 \<longrightarrow> reg ctx' i = reg ctx i) \<and>
    (\<forall>x. x < hd_head (t_heap (tasks (sys_k s) ! c)) \<or> hd_max (t_heap (tasks (sys_k s) ! c)) \<le> x \<longrightarrow> m x = kmem (sys_k s) x) \<and>
    (case alloc_list (hd_size (t_heap (tasks (sys_k s) ! c))) (unat sz) bs of
       None \<Rightarrow> p = 0 \<and> h = t_heap (tasks (sys_k s) ! c) \<and> m = kmem (sys_k s)
     | Some (off, bs') \<Rightarrow> p = of_nat (hd_head (t_heap (tasks (sys_k s) ! c)) + off) \<and> heap_ok h m bs' \<and>
         hd_head h = hd_head (t_heap (tasks (sys_k s) ! c)) \<and> hd_max h = hd_max (t_heap (tasks (sys_k s) ! c)))"
proof -
  let ?k = "sys_k s" and ?h = "t_heap (tasks (sys_k s) ! c)" and ?ctx = "set_reg a7 SyscallCode_MALLOC (set_reg a0 sz ctx)"
  have c8: "c < length (tasks ?k)" using slot_okD(1) [OF c(1)] c(3) by simp
  have own: "get_task_heap ?k (current_task ?k) = Some c" using c by (simp add: get_task_heap_def current_task_def)
  obtain p h m where a: "alloc_heap (unat sz) (?h, kmem ?k) = krun_return (p, h, m)"
    and res: "case alloc_list (hd_size ?h) (unat sz) bs of None \<Rightarrow> p = 0 \<and> h = ?h \<and> m = kmem ?k
      | Some (off, bs') \<Rightarrow> p = hd_head ?h + off \<and> heap_ok h m bs' \<and> hd_head h = hd_head ?h \<and> hd_max h = hd_max ?h"
    using alloc_heap_refines [OF ok sz] ok by (cases "alloc_list (hd_size ?h) (unat sz) bs") (auto simp: krun_return_def)
  let ?s' = "s\<lparr>sys_k := (task_upd c (t_heap_update (\<lambda>_. h)) ?k)\<lparr>kmem := m\<rparr>\<rparr>"
  have "k_malloc (unat sz) s = krun_return (SyscallStatus_DONE, p, ?s')"
    by (simp add: k_malloc_def Let_def own a krun_simps)
  then have "kernel_ecall io bytes ?ctx s = krun_return (adv_pc (set_reg 10 (of_nat p) ?ctx), ?s')"
    unfolding kernel_ecall_dispatch dispatch_syscall_def Let_def call_regs [OF ctx]
    by (simp add: krun_simps syscall_codes)
  then have "u_malloc (kernel_ecall io bytes) sz ctx s = krun_return (of_nat p, adv_pc (set_reg 10 (of_nat p) ?ctx), ?s')"
    using ctx by (simp add: u_malloc_def krun_simps adv_pc_def reg_set full_set a0_def)
  moreover have "reg (adv_pc (set_reg 10 (of_nat p) ?ctx)) i = reg ctx i" if "i \<noteq> a0" "i \<noteq> a7" for i
    using that ctx by (simp add: adv_pc_def reg_set full_set a0_def a7_def)
  moreover have "ctx_pc (adv_pc (set_reg 10 (of_nat p) ?ctx)) = ctx_pc ctx + 4"
      "ctx_mstatus (adv_pc (set_reg 10 (of_nat p) ?ctx)) = ctx_mstatus ctx"
    by (simp_all add: adv_pc_def set_reg_def)
  moreover have "m x = kmem ?k x" if "x < hd_head ?h \<or> hd_max ?h \<le> x" for x
    using alloc_heap_local [OF ok sz _ that] a by (simp add: krun_return_def)
  ultimately show ?thesis using res
    by (intro exI [of _ "of_nat p"] exI [of _ "adv_pc (set_reg 10 (of_nat p) ?ctx)"] exI [of _ h] exI [of _ m])
      (auto split: option.splits prod.splits)
qed

text \<open>The running task of the demonstration kernel with a heap of its own at 0x3000.\<close>

definition owner_demo :: "u8 list sys" where
  "owner_demo = demo_sys ((task_upd 2 (t_heap_update (\<lambda>_. fst (init_heap 0x3000 1024 Map.empty))) (demo_kernel 5))
     \<lparr>kmem := snd (init_heap 0x3000 1024 Map.empty)\<rparr>)"

theorem user_malloc_is_first_fit_witness:
  "\<exists>ctx' s'. u_malloc (kernel_ecall quiet_port (\<lambda>_. 0)) 64 \<lparr>ctx_regs = replicate 32 7, ctx_mstatus = 0, ctx_pc = 8\<rparr> owner_demo =
     krun_return (0x3010, ctx', s') \<and> ctx_pc ctx' = 12 \<and> reg ctx' 2 = 7"
proof -
  let ?ctx = "\<lparr>ctx_regs = replicate 32 7, ctx_mstatus = 0, ctx_pc = 8\<rparr>" and ?h = "fst (init_heap 0x3000 1024 Map.empty)"
  let ?m = "snd (init_heap 0x3000 1024 Map.empty)"
  have h: "t_heap (tasks (sys_k owner_demo) ! 2) = ?h" "kmem (sys_k owner_demo) = ?m" "current_slot (sys_k owner_demo) = 2"
    "length (tasks (sys_k owner_demo)) = 8"
    by (simp_all add: owner_demo_def demo_sys_def task_upd_def)
  have ok: "heap_ok ?h ?m [(1008, False)]"
    using init_heap_ok [of "0x3000" 1024 Map.empty] by (simp add: W32_def align16_def)
  have hh: "hd_head ?h = 0x3000" by (simp add: init_heap_def Let_def ALIGN_UP_exact W32_def align16_def)
  have al: "alloc_list (hd_size ?h) (unat (64 :: u32)) [(1008, False)] = Some (16, [(64, True), (928, False)])"
    using heap_ok_extent [OF ok] by (simp add: alloc_list_def align16_def)
  have slot: "slot_ok (sys_k owner_demo) 2"
    using demo_slots(3) [of 5] unfolding slot_ok_def owner_demo_def by (simp add: demo_sys_def task_upd_def)
  have "full_context ?ctx" by (simp add: full_context_def CTX_REGS_def)
  from user_malloc_is_first_fit [OF slot h(3,4), unfolded h(1,2), OF ok _ this, of 64 quiet_port "\<lambda>_. 0"]
  obtain p ctx' s' where "u_malloc (kernel_ecall quiet_port (\<lambda>_. 0)) 64 ?ctx owner_demo = krun_return (p, ctx', s')"
    "ctx_pc ctx' = 8 + 4" "reg ctx' 2 = reg ?ctx 2" "p = of_nat (hd_head ?h + 16)"
    unfolding al by (auto simp: a0_def a7_def)
  then show ?thesis by (simp add: hh)
qed

section \<open>Printing a string\<close>

definition sent :: "'u port \<Rightarrow> u8 \<Rightarrow> 'u \<Rightarrow> 'u" where
  "sent io c u = port_tx io c (snd (port_status io u))"

definition tx_ready :: "'u port \<Rightarrow> bool" where
  "tx_ready io \<longleftrightarrow> (\<forall>u. fst (port_status io u) AND 1 = 0)"

lemma putc_ready: "tx_ready io \<Longrightarrow> putc_until_done io c u = Some (sent io c u)"
proof -
  assume "tx_ready io"
  then have r: "fst (port_status io u) AND 1 = 0" unfolding tx_ready_def by blast
  have "putc_spin io (Suc n) c u = (SyscallStatus_DONE, sent io c u)" for n
    using r by (simp add: sent_def split_beta)
  moreover obtain n where "MAX_SPIN_ITER = Suc n" by (cases MAX_SPIN_ITER) (simp_all add: MAX_SPIN_ITER_def)
  ultimately have "putc_uart io c u = (SyscallStatus_DONE, sent io c u)" unfolding putc_uart_def by metis
  then show ?thesis by (subst putc_until_done.simps) simp
qed

lemma cstr_Nil: "cstr_at mem p = Some [] \<Longrightarrow> mem p = 0"
  by (subst (asm) cstr_at.simps) (auto split: if_splits bind_splits)

lemma cstr_Cons: "cstr_at mem p = Some (c # cs) \<Longrightarrow> mem p = c \<and> c \<noteq> 0 \<and> cstr_at mem (p + 1) = Some cs"
  by (subst (asm) cstr_at.simps) (auto split: if_splits bind_splits)

lemma puts_loop_sends:
  "tx_ready io \<Longrightarrow> cstr_at bytes (p + i) = Some cs \<Longrightarrow> puts_loop io bytes p i u = Some (fold (sent io) (cs @ [10]) u)"
proof (induction cs arbitrary: i u)
  case Nil
  then show ?case using cstr_Nil [OF Nil.prems(2)] by (subst puts_loop.simps) (simp add: putc_ready)
next
  case (Cons c cs)
  note c = cstr_Cons [OF Cons.prems(2)]
  then have "cstr_at bytes (p + (i + 1)) = Some cs" by (simp add: add.assoc)
  from Cons.IH [OF Cons.prems(1) this] show ?case using c Cons.prems(1)
    by (subst puts_loop.simps) (simp add: putc_ready)
qed

text \<open>
  Note: with a transmitter that is ready, \<open>puts\<close> returns to its caller behind the \<open>ecall\<close> after
  sending the bytes of the string in order and then a newline in place of the terminator, and
  nothing else in the kernel changes.
\<close>

theorem user_puts_sends_line:
  assumes "tx_ready io" "cstr_at bytes p = Some cs" "full_context ctx"
  shows "u_puts (kernel_ecall io bytes) p ctx s =
    krun_return (adv_pc (set_reg a7 SyscallCode_PUTS (set_reg a0 p ctx)), s\<lparr>sys_uart := fold (sent io) (cs @ [10]) (sys_uart s)\<rparr>)"
proof -
  have "puts_loop io bytes p 0 (sys_uart s) = Some (fold (sent io) (cs @ [10]) (sys_uart s))"
    using assms(1,2) by (intro puts_loop_sends) simp_all
  then show ?thesis unfolding u_puts_def kernel_ecall_dispatch dispatch_syscall_def Let_def call_regs [OF assms(3)]
    by (simp add: krun_simps syscall_codes k_puts_def)
qed

theorem user_puts_sends_line_witness:
  "\<exists>ctx'. u_puts (kernel_ecall quiet_port ((\<lambda>_. 0)(0x50 := 104, 0x51 := 105))) 0x50 \<lparr>ctx_regs = replicate 32 7, ctx_mstatus = 0, ctx_pc = 8\<rparr>
     (demo_sys (demo_kernel 5)) = krun_return (ctx', (demo_sys (demo_kernel 5))\<lparr>sys_uart := [104, 105, 10]\<rparr>) \<and> ctx_pc ctx' = 12"
proof -
  let ?m = "(\<lambda>_. 0)(0x50 := 104, 0x51 := 105) :: u32 \<Rightarrow> u8"
  have e: "cstr_at ?m 0x52 = Some []" by (subst cstr_at.simps) simp
  have "cstr_at ?m 0x51 = Some [105]" using e by (subst cstr_at.simps) simp
  then have "cstr_at ?m 0x50 = Some [104, 105]" by (subst cstr_at.simps) simp
  moreover have "tx_ready quiet_port" by (simp add: tx_ready_def quiet_port_def)
  moreover have "full_context \<lparr>ctx_regs = replicate 32 7, ctx_mstatus = 0, ctx_pc = 8\<rparr>" by (simp add: full_context_def CTX_REGS_def)
  moreover have "fold (sent quiet_port) ([104, 105] @ [10]) (sys_uart (demo_sys (demo_kernel 5))) = [104, 105, 10]"
    by (simp add: sent_def quiet_port_def demo_sys_def)
  ultimately show ?thesis
    using user_puts_sends_line [of quiet_port ?m "0x50" "[104, 105]" "\<lparr>ctx_regs = replicate 32 7, ctx_mstatus = 0, ctx_pc = 8\<rparr>" "demo_sys (demo_kernel 5)"]
    by (auto simp: adv_pc_def set_reg_def)
qed

end
