(* ===== verification/Rtl_Clint.thy ===== *)
theory Rtl_Clint
  imports Clint
begin

text \<open>
  The core-local interruptor \<open>rtl/peripheral/clint.sv\<close>, cycle by cycle: the registers before a
  rising clock edge, the bus inputs at the edge, the registers after it.  Non-blocking
  assignments read the old registers, and the last of two to the same register wins.
\<close>

section \<open>Registers and ports\<close>

record clint_regs =
  rc_msip :: bool
  rc_mtime :: u64
  rc_mtimecmp :: u64
  rc_prescaler :: "7 word"

record clint_bus =
  cb_rst :: bool
  cb_we :: bool
  cb_addr :: u16
  cb_wdata :: u32

definition TIMER_PRESCALER :: "7 word" where "TIMER_PRESCALER = 100"

text \<open>The offsets that \<open>normalize_addr\<close> computes from the register addresses of the package.\<close>

definition ADDR_MSIP :: u16 where [simp]: "ADDR_MSIP = 0x0000"
definition ADDR_MTIMECMP :: u16 where [simp]: "ADDR_MTIMECMP = 0x4000"
definition ADDR_MTIMECMPH :: u16 where [simp]: "ADDR_MTIMECMPH = 0x4004"
definition ADDR_MTIME :: u16 where [simp]: "ADDR_MTIME = 0xbff8"
definition ADDR_MTIMEH :: u16 where [simp]: "ADDR_MTIMEH = 0xbffc"

text \<open>The associative array \<open>mem\<close>, which continuous assignments fill.\<close>

definition clint_mem_of :: "clint_regs \<Rightarrow> u16 \<Rightarrow> u32 option" where
  "clint_mem_of r a =
     (if a = ADDR_MSIP then Some (of_bool (rc_msip r))
      else if a = ADDR_MTIME then Some (lo32 (rc_mtime r))
      else if a = ADDR_MTIMEH then Some (hi32 (rc_mtime r))
      else if a = ADDR_MTIMECMP then Some (lo32 (rc_mtimecmp r))
      else if a = ADDR_MTIMECMPH then Some (hi32 (rc_mtimecmp r))
      else None)"

definition clint_rdata :: "clint_regs \<Rightarrow> u16 \<Rightarrow> u32" where
  "clint_rdata r a = (case clint_mem_of r a of None \<Rightarrow> 0 | Some w \<Rightarrow> w)"

definition clint_mtip :: "clint_regs \<Rightarrow> bool" where
  "clint_mtip r \<longleftrightarrow> rc_mtimecmp r \<le> rc_mtime r"

section \<open>A clock edge\<close>

definition clint_write :: "u16 \<Rightarrow> u32 \<Rightarrow> clint_regs \<Rightarrow> clint_regs" where
  "clint_write a w r =
     (if a = ADDR_MSIP then r\<lparr>rc_msip := bit w 0\<rparr>
      else if a = ADDR_MTIME then r\<lparr>rc_mtime := join64 (hi32 (rc_mtime r)) w\<rparr>
      else if a = ADDR_MTIMEH then r\<lparr>rc_mtime := join64 w (lo32 (rc_mtime r))\<rparr>
      else if a = ADDR_MTIMECMP then r\<lparr>rc_mtimecmp := join64 (hi32 (rc_mtimecmp r)) w\<rparr>
      else if a = ADDR_MTIMECMPH then r\<lparr>rc_mtimecmp := join64 w (lo32 (rc_mtimecmp r))\<rparr>
      else r)"

definition clint_reset :: "clint_regs" where
  "clint_reset = \<lparr>rc_msip = False, rc_mtime = 0, rc_mtimecmp = - 1, rc_prescaler = TIMER_PRESCALER\<rparr>"

definition clint_cycle :: "clint_bus \<Rightarrow> clint_regs \<Rightarrow> clint_regs" where
  "clint_cycle b r =
     (if cb_rst b then clint_reset
      else let r1 = (if cb_we b \<and> clint_mem_of r (cb_addr b) \<noteq> None then clint_write (cb_addr b) (cb_wdata b) r else r)
           in if 0 < rc_prescaler r then r1\<lparr>rc_prescaler := rc_prescaler r - 1\<rparr>
              else r1\<lparr>rc_mtime := rc_mtime r + 1, rc_prescaler := TIMER_PRESCALER\<rparr>)"

text \<open>The registers after a sequence of cycles.\<close>

fun clint_run :: "clint_bus list \<Rightarrow> clint_regs \<Rightarrow> clint_regs" where
  "clint_run [] r = r"
| "clint_run (b # bs) r = clint_run bs (clint_cycle b r)"

lemma clint_run_append: "clint_run (bs @ bs') r = clint_run bs' (clint_run bs r)"
  by (induction bs arbitrary: r) simp_all

section \<open>Time\<close>

text \<open>The age of the timer in clock cycles; \<open>101\<close> of them make one unit of \<open>mtime\<close>.\<close>

definition CYCLES_PER_TICK :: nat where "CYCLES_PER_TICK = 101"

definition clint_age :: "clint_regs \<Rightarrow> nat" where
  "clint_age r = CYCLES_PER_TICK * unat (rc_mtime r) + (100 - unat (rc_prescaler r))"

definition clint_ok :: "clint_regs \<Rightarrow> bool" where
  "clint_ok r \<longleftrightarrow> rc_prescaler r \<le> TIMER_PRESCALER"

text \<open>A cycle that neither resets the device nor writes the clock.\<close>

definition leaves_clock :: "clint_bus \<Rightarrow> bool" where
  "leaves_clock b \<longleftrightarrow> \<not> cb_rst b \<and> (cb_we b \<longrightarrow> cb_addr b \<noteq> ADDR_MTIME \<and> cb_addr b \<noteq> ADDR_MTIMEH)"

lemma clint_ok_cycle: "clint_ok r \<Longrightarrow> clint_ok (clint_cycle b r)"
  by (auto simp: clint_ok_def clint_cycle_def clint_reset_def clint_write_def TIMER_PRESCALER_def Let_def
      word_le_nat_alt word_less_nat_alt unat_sub)

lemma clint_ok_run: "clint_ok r \<Longrightarrow> clint_ok (clint_run bs r)"
  by (induction bs arbitrary: r) (simp_all add: clint_ok_cycle)

end
