(* ===== verification/Rtl_Clint_Props.thy ===== *)
theory Rtl_Clint_Props
  imports Rtl_Clint
begin

text \<open>
  The timer of the hardware under the kernel's driver: how fast it runs, what a driver that
  reads or writes its halves one after the other sees, and when it asks for an interrupt.
\<close>

section \<open>How fast the clock runs\<close>

lemma word64_step: "unat (t :: u64) + 1 < 2 ^ 64 \<Longrightarrow> unat (t + 1) = unat t + 1"
  using unat_word_ariths(1) [of t 1] by simp

lemma clint_age_cycle:
  assumes ok: "clint_ok r" and b: "leaves_clock b" and fit: "clint_age r + 1 < CYCLES_PER_TICK * 2 ^ 64"
  shows "clint_age (clint_cycle b r) = clint_age r + 1"
proof -
  let ?w = "if cb_we b \<and> clint_mem_of r (cb_addr b) \<noteq> None then clint_write (cb_addr b) (cb_wdata b) r else r"
  have w: "rc_mtime ?w = rc_mtime r" using b by (auto simp: leaves_clock_def clint_write_def)
  have p: "unat (rc_prescaler r) \<le> 100" using ok by (simp add: clint_ok_def TIMER_PRESCALER_def word_le_nat_alt)
  show ?thesis
  proof (cases "0 < rc_prescaler r")
    case True
    then have "unat (rc_prescaler r - 1) = unat (rc_prescaler r) - 1" "0 < unat (rc_prescaler r)"
      by (simp_all add: unat_sub word_less_nat_alt word_le_nat_alt)
    then show ?thesis using True w b p by (simp add: clint_cycle_def leaves_clock_def clint_age_def Let_def)
  next
    case False
    then have z: "rc_prescaler r = 0" by (simp add: word_less_nat_alt word_unat_eq_iff)
    then have "unat (rc_mtime r) + 1 < 2 ^ 64" using fit by (simp add: clint_age_def CYCLES_PER_TICK_def)
    from word64_step [OF this] show ?thesis
      using z w b by (simp add: clint_cycle_def leaves_clock_def clint_age_def Let_def TIMER_PRESCALER_def CYCLES_PER_TICK_def)
  qed
qed

lemma clint_age_run:
  "\<lbrakk>clint_ok r; \<forall>b \<in> set bs. leaves_clock b; clint_age r + length bs < CYCLES_PER_TICK * 2 ^ 64\<rbrakk> \<Longrightarrow>
   clint_age (clint_run bs r) = clint_age r + length bs"
proof (induction bs arbitrary: r)
  case (Cons b bs)
  have "clint_age (clint_cycle b r) = clint_age r + 1" using Cons.prems by (intro clint_age_cycle) simp_all
  then show ?case using Cons.prems Cons.IH [OF clint_ok_cycle [OF Cons.prems(1)], of b] by simp
qed simp

lemma mtime_of_age:
  assumes "clint_ok r"
  shows "unat (rc_mtime r) = clint_age r div CYCLES_PER_TICK"
proof -
  have "100 - unat (rc_prescaler r) < 101" by simp
  then show ?thesis by (simp add: clint_age_def CYCLES_PER_TICK_def)
qed

text \<open>
  Note: The clock counts one unit for every 101 cycles that leave it alone, whatever else the bus
  does: the prescaler counts down from 100 and spends one more cycle at 0.
\<close>

theorem clint_keeps_time:
  assumes "clint_ok r" "\<forall>b \<in> set bs. leaves_clock b" "clint_age r + length bs < CYCLES_PER_TICK * 2 ^ 64"
  shows "unat (rc_mtime (clint_run bs r)) = (clint_age r + length bs) div CYCLES_PER_TICK"
  using mtime_of_age [OF clint_ok_run [OF assms(1)]] clint_age_run [OF assms] by simp

text \<open>
  Note: A store to a half of \<open>mtime\<close> in the one cycle of 101 in which the clock advances is lost.
\<close>

theorem mtime_write_lost:
  assumes "\<not> cb_rst b" "cb_addr b = ADDR_MTIME \<or> cb_addr b = ADDR_MTIMEH" "rc_prescaler r = 0"
  shows "clint_cycle b r = r\<lparr>rc_mtime := rc_mtime r + 1, rc_prescaler := TIMER_PRESCALER\<rparr>"
  using assms by (auto simp: clint_cycle_def Let_def clint_write_def)

section \<open>The compare register\<close>

text \<open>A cycle that also leaves the compare register alone, and the stores of the driver.\<close>

definition quiet :: "clint_bus \<Rightarrow> bool" where
  "quiet b \<longleftrightarrow> leaves_clock b \<and> (cb_we b \<longrightarrow> cb_addr b \<noteq> ADDR_MTIMECMP \<and> cb_addr b \<noteq> ADDR_MTIMECMPH)"

definition bus_store :: "u16 \<Rightarrow> u32 \<Rightarrow> clint_bus" where
  "bus_store a w = \<lparr>cb_rst = False, cb_we = True, cb_addr = a, cb_wdata = w\<rparr>"

text \<open>
  The bus while \<open>set_timecmp\<close> runs: other traffic before, between and after its two stores.
\<close>

definition set_timecmp_bus :: "u64 \<Rightarrow> clint_bus list \<Rightarrow> clint_bus list \<Rightarrow> clint_bus list \<Rightarrow> clint_bus list" where
  "set_timecmp_bus t bs1 bs2 bs3 =
     bs1 @ [bus_store ADDR_MTIMECMPH (hi32 t)] @ bs2 @ [bus_store ADDR_MTIMECMP (lo32 t)] @ bs3"

text \<open>The compare register as the record of the driver's model.\<close>

definition timecmp_of :: "clint_regs \<Rightarrow> timecmp" where
  "timecmp_of r = \<lparr>cmp_lo = lo32 (rc_mtimecmp r), cmp_hi = hi32 (rc_mtimecmp r)\<rparr>"

lemma get_timecmp_of [simp]: "get_timecmp (timecmp_of r) = rc_mtimecmp r"
  by (simp add: timecmp_of_def get_timecmp_def)

lemma quiet_cycle: "quiet b \<Longrightarrow> rc_mtimecmp (clint_cycle b r) = rc_mtimecmp r"
  by (auto simp: quiet_def leaves_clock_def clint_cycle_def clint_write_def Let_def)

lemma quiet_run: "\<forall>b \<in> set bs. quiet b \<Longrightarrow> rc_mtimecmp (clint_run bs r) = rc_mtimecmp r"
  by (induction bs arbitrary: r) (simp_all add: quiet_cycle)

lemma store_cycle:
  "rc_mtimecmp (clint_cycle (bus_store ADDR_MTIMECMPH w) r) = join64 w (lo32 (rc_mtimecmp r))"
  "rc_mtimecmp (clint_cycle (bus_store ADDR_MTIMECMP w) r) = join64 (hi32 (rc_mtimecmp r)) w"
  by (simp_all add: clint_cycle_def bus_store_def clint_mem_of_def clint_write_def Let_def)

lemma bus_store_leaves_clock [simp]:
  "leaves_clock (bus_store ADDR_MTIMECMPH w)" "leaves_clock (bus_store ADDR_MTIMECMP w)"
  by (simp_all add: leaves_clock_def bus_store_def)

lemma set_timecmp_run:
  assumes "\<forall>b \<in> set bs1 \<union> set bs2 \<union> set bs3. quiet b"
  shows "timecmp_of (clint_run (set_timecmp_bus t bs1 bs2 bs3) r) = set_timecmp t (timecmp_of r)"
  using assms
  by (simp add: set_timecmp_bus_def clint_run_append quiet_run store_cycle timecmp_of_def set_timecmp_def set_timecmp_hi_def
      del: ADDR_MTIMECMP_def ADDR_MTIMECMPH_def)

section \<open>The timer interrupt\<close>

lemma mtip_iff:
  assumes "clint_ok r"
  shows "clint_mtip r \<longleftrightarrow> CYCLES_PER_TICK * unat (rc_mtimecmp r) \<le> clint_age r"
proof -
  have "clint_mtip r \<longleftrightarrow> unat (rc_mtimecmp r) \<le> clint_age r div CYCLES_PER_TICK"
    by (simp add: clint_mtip_def word_le_nat_alt mtime_of_age [OF assms])
  then show ?thesis by (simp add: less_eq_div_iff_mult_less_eq CYCLES_PER_TICK_def mult.commute)
qed

text \<open>What the compare register holds after any number of the cycles of \<open>set_timecmp_bus\<close>.\<close>

lemma set_timecmp_prefix:
  assumes q: "\<forall>b \<in> set bs1 \<union> set bs2 \<union> set bs3. quiet b"
  shows "rc_mtimecmp (clint_run (take n (set_timecmp_bus t bs1 bs2 bs3)) r) \<in>
    {rc_mtimecmp r, get_timecmp (set_timecmp_hi t (timecmp_of r)), t}"
proof -
  have qt: "\<forall>b \<in> set (take k bs1). quiet b" "\<forall>b \<in> set (take k bs2). quiet b" "\<forall>b \<in> set (take k bs3). quiet b" for k
    using q by (auto dest: in_set_takeD)
  have h: "get_timecmp (set_timecmp_hi t (timecmp_of r)) = join64 (hi32 t) (lo32 (rc_mtimecmp r))"
    by (simp add: set_timecmp_hi_def get_timecmp_def timecmp_of_def)
  show ?thesis unfolding h set_timecmp_bus_def take_append clint_run_append
    using q qt
    by (cases "n - length bs1"; cases "n - length bs1 - 1 - length bs2")
      (auto simp: quiet_run store_cycle clint_run_append simp del: ADDR_MTIMECMP_def ADDR_MTIMECMPH_def)
qed

lemma set_timecmp_bus_leaves_clock:
  "\<forall>b \<in> set bs1 \<union> set bs2 \<union> set bs3. quiet b \<Longrightarrow> \<forall>b \<in> set (set_timecmp_bus t bs1 bs2 bs3). leaves_clock b"
  by (auto simp: set_timecmp_bus_def quiet_def simp del: ADDR_MTIMECMP_def ADDR_MTIMECMPH_def)

text \<open>
  C25: The timer tick does not drift and does not glitch.  While the handler moves the deadline
  \<open>d\<close> forward by one tick with two separate stores, however long it takes and whatever else
  the bus carries, the interrupt line is never high before the old deadline, and from then
  on it is high exactly when 1010 cycles have passed since the old deadline.
\<close>

theorem timer_tick_exact:
  assumes ok: "clint_ok r" and q: "\<forall>b \<in> set bs1 \<union> set bs2 \<union> set bs3. quiet b"
    and d: "d = rc_mtimecmp r" "unat d + 10 < 2 ^ 64"
    and bus: "bus = set_timecmp_bus (get_timecmp (timecmp_of r) + TICK_LENGTH) bs1 bs2 bs3"
    and fit: "clint_age r + length bus < CYCLES_PER_TICK * 2 ^ 64"
  shows "timecmp_of (clint_run bus r) = set_timecmp (get_timecmp (timecmp_of r) + TICK_LENGTH) (timecmp_of r) \<and>
    (\<forall>n \<le> length bus. clint_mtip (clint_run (take n bus) r) \<longrightarrow> CYCLES_PER_TICK * unat d \<le> clint_age r + n) \<and>
    (clint_mtip (clint_run bus r) \<longleftrightarrow> CYCLES_PER_TICK * unat d + 1010 \<le> clint_age r + length bus)"
proof -
  let ?t = "d + TICK_LENGTH"
  have t: "unat ?t = unat d + 10" using d(2) unat_word_ariths(1) [of d TICK_LENGTH] by (simp add: TICK_LENGTH_def)
  have bus': "bus = set_timecmp_bus ?t bs1 bs2 bs3" by (simp add: bus d(1))
  have clk: "\<forall>b \<in> set bus. leaves_clock b" unfolding bus' by (rule set_timecmp_bus_leaves_clock [OF q])
  have age: "clint_age (clint_run (take n bus) r) = clint_age r + n" if "n \<le> length bus" for n
    using clint_age_run [OF ok, of "take n bus"] clk fit that by (auto dest: in_set_takeD)
  have "unat d \<le> unat (get_timecmp (set_timecmp_hi ?t (timecmp_of r)))"
    using set_timecmp_hi_above [of "timecmp_of r" ?t] t d(1) by simp
  then have above: "unat d \<le> unat (rc_mtimecmp (clint_run (take n bus) r))" for n
    using set_timecmp_prefix [OF q, of n ?t r] t d(1) unfolding bus' by auto
  have early: "CYCLES_PER_TICK * unat d \<le> clint_age r + n" if "n \<le> length bus" "clint_mtip (clint_run (take n bus) r)" for n
    using that above [of n] unfolding mtip_iff [OF clint_ok_run [OF ok]] age [OF that(1)] CYCLES_PER_TICK_def by simp
  have tc: "timecmp_of (clint_run bus r) = set_timecmp ?t (timecmp_of r)" unfolding bus' by (rule set_timecmp_run [OF q])
  then have "rc_mtimecmp (clint_run bus r) = ?t"
    using get_timecmp_of [of "clint_run bus r"] by (simp add: set_timecmp_def set_timecmp_hi_def get_timecmp_def)
  then have "clint_mtip (clint_run bus r) \<longleftrightarrow> CYCLES_PER_TICK * unat d + 1010 \<le> clint_age r + length bus"
    using mtip_iff [OF clint_ok_run [OF ok], of bus] age [of "length bus"] t by (simp add: CYCLES_PER_TICK_def)
  then show ?thesis using tc early d(1) by simp
qed

section \<open>Reading the running clock\<close>

text \<open>
  The registers at cycle \<open>n\<close> of an endless run; the accesses of \<open>get_time\<close> happen at the
  cycles \<open>c 0\<close>, \<open>c 1\<close>, \<dots>
\<close>

definition clint_at :: "(nat \<Rightarrow> clint_bus) \<Rightarrow> clint_regs \<Rightarrow> nat \<Rightarrow> clint_regs" where
  "clint_at bus r n = clint_run (map bus [0..<n]) r"

definition clint_now :: "(nat \<Rightarrow> clint_bus) \<Rightarrow> clint_regs \<Rightarrow> (nat \<Rightarrow> nat) \<Rightarrow> nat \<Rightarrow> u64" where
  "clint_now bus r c i =
     join64 (clint_rdata (clint_at bus r (c i)) ADDR_MTIMEH) (clint_rdata (clint_at bus r (c i)) ADDR_MTIME)"

lemma clint_now_eq: "clint_now bus r c i = rc_mtime (clint_at bus r (c i))"
  by (simp add: clint_now_def clint_rdata_def clint_mem_of_def)

text \<open>
  C32: \<open>get_time\<close> on this device: if nobody writes the clock meanwhile, its two loops at most
  return the time the device had at the access to the low half, although it reads the halves one
  after the other at the cycles \<open>c n\<close>, \<dots>, \<open>c (n + 5)\<close> at which the processor gets to them.
\<close>

theorem get_time_on_clint:
  assumes ok: "clint_ok r" and clk: "\<forall>i. leaves_clock (bus i)" and c: "mono c"
    and adv: "c (n + 5) < c n + CYCLES_PER_TICK * (2 ^ 32 - 1)"
    and fit: "clint_age r + c (n + 5) < CYCLES_PER_TICK * 2 ^ 64"
  shows "get_time (clint_now bus r c) n = Some (rc_mtime (clint_at bus r (c (n + 1))), n + 3) \<or>
    get_time (clint_now bus r c) n = Some (rc_mtime (clint_at bus r (c (n + 4))), n + 6)"
proof -
  have time: "unat (rc_mtime (clint_at bus r (c i))) = (clint_age r + c i) div CYCLES_PER_TICK" if "i \<le> n + 5" for i
  proof -
    have "c i \<le> c (n + 5)" using c that by (simp add: monoD)
    then show ?thesis unfolding clint_at_def using clint_keeps_time [OF ok, of "map bus [0..<c i]"] clk fit by auto
  qed
  have mono: "\<forall>i j. n \<le> i \<and> i \<le> j \<and> j \<le> n + 5 \<longrightarrow>
      unat (rc_mtime (clint_at bus r (c i))) \<le> unat (rc_mtime (clint_at bus r (c j)))"
    using c by (auto simp: time div_le_mono monoD)
  have "clint_age r + c (n + 5) \<le> clint_age r + c n + CYCLES_PER_TICK * (2 ^ 32 - 1)" using adv by simp
  from div_le_mono [OF this, of CYCLES_PER_TICK]
  have "unat (rc_mtime (clint_at bus r (c (n + 5)))) < unat (rc_mtime (clint_at bus r (c n))) + 2 ^ 32"
    unfolding time [of n, simplified] time [of "n + 5", simplified] by (simp add: CYCLES_PER_TICK_def)
  from get_time_halves [OF mono this] show ?thesis unfolding clint_now_eq [abs_def] .
qed

definition idle_bus :: clint_bus where
  "idle_bus = \<lparr>cb_rst = False, cb_we = False, cb_addr = 0, cb_wdata = 0\<rparr>"

lemma quiet_idle [simp]: "quiet idle_bus" "leaves_clock idle_bus"
  by (simp_all add: quiet_def leaves_clock_def idle_bus_def)

theorem get_time_on_clint_witness:
  "get_time (clint_now (\<lambda>_. idle_bus) \<lparr>rc_msip = False, rc_mtime = 0xffffffff, rc_mtimecmp = 0, rc_prescaler = 0\<rparr> id) 0 =
     Some (0x100000000, 3) \<or>
   get_time (clint_now (\<lambda>_. idle_bus) \<lparr>rc_msip = False, rc_mtime = 0xffffffff, rc_mtimecmp = 0, rc_prescaler = 0\<rparr> id) 0 =
     Some (0x100000000, 6)"
proof -
  let ?r = "\<lparr>rc_msip = False, rc_mtime = 0xffffffff, rc_mtimecmp = 0, rc_prescaler = 0\<rparr> :: clint_regs"
  have "mono (id :: nat \<Rightarrow> nat)" "clint_ok ?r" by (simp_all add: mono_def clint_ok_def TIMER_PRESCALER_def)
  moreover have "rc_mtime (clint_at (\<lambda>_. idle_bus) ?r 1) = 0x100000000" "rc_mtime (clint_at (\<lambda>_. idle_bus) ?r 4) = 0x100000000"
    by (simp_all add: clint_at_def clint_cycle_def idle_bus_def TIMER_PRESCALER_def Let_def upt_rec)
  ultimately show ?thesis
    using get_time_on_clint [of ?r "\<lambda>_. idle_bus" id 0] by (simp add: CYCLES_PER_TICK_def clint_age_def)
qed

theorem timer_tick_exact_witness:
  "\<not> clint_mtip (clint_run (set_timecmp_bus 15 [idle_bus] [idle_bus] [idle_bus])
     \<lparr>rc_msip = False, rc_mtime = 5, rc_mtimecmp = 5, rc_prescaler = 7\<rparr>)"
proof -
  let ?r = "\<lparr>rc_msip = False, rc_mtime = 5, rc_mtimecmp = 5, rc_prescaler = 7\<rparr> :: clint_regs"
  let ?bus = "set_timecmp_bus (get_timecmp (timecmp_of ?r) + TICK_LENGTH) [idle_bus] [idle_bus] [idle_bus]"
  have "clint_ok ?r" by (simp add: clint_ok_def TIMER_PRESCALER_def)
  moreover have "length ?bus = 5" by (simp add: set_timecmp_bus_def)
  ultimately show ?thesis
    using timer_tick_exact [of ?r "[idle_bus]" "[idle_bus]" "[idle_bus]" 5 ?bus]
    by (simp add: CYCLES_PER_TICK_def clint_age_def TICK_LENGTH_def)
qed

end
