(* ===== verification/Rtl_Uart.thy ===== *)
theory Rtl_Uart
  imports Terminal_Io
begin

text \<open>
  The terminal UART \<open>rtl/peripheral/uart/uart_term.sv\<close> cycle by cycle, and the closed loop of the
  processor's bus, this device and the \<open>TerminalController\<close> of the simulator, which after every
  cycle reads \<open>tx_data\<close>, \<open>tx_valid\<close> and writes \<open>rx_data\<close>, \<open>rx_valid\<close>.
\<close>

section \<open>The device\<close>

record uart_bus =
  ub_rst :: bool
  ub_re :: bool
  ub_we :: bool
  ub_addr :: u8
  ub_wdata :: u32

definition ADDR_TXDATA :: u8 where [simp]: "ADDR_TXDATA = 0x00"
definition ADDR_RXDATA :: u8 where [simp]: "ADDR_RXDATA = 0x04"
definition ADDR_STATUS :: u8 where [simp]: "ADDR_STATUS = 0x08"

definition uart_re :: "uart_bus \<Rightarrow> bool" where
  "uart_re b \<longleftrightarrow> ub_re b \<and> (ub_addr b = ADDR_TXDATA \<or> ub_addr b = ADDR_RXDATA \<or> ub_addr b = ADDR_STATUS)"

definition uart_we :: "uart_bus \<Rightarrow> bool" where
  "uart_we b \<longleftrightarrow> ub_we b \<and> (ub_addr b = ADDR_TXDATA \<or> ub_addr b = ADDR_RXDATA \<or> ub_addr b = ADDR_STATUS)"

definition uart_meip :: "uart \<Rightarrow> bool" where "uart_meip u = rx_valid u"

definition uart_rdata :: "uart \<Rightarrow> u8 \<Rightarrow> u32" where
  "uart_rdata u a =
     (if a = ADDR_RXDATA then push_bit 8 (of_bool (rx_valid u)) OR ucast (rx_data u)
      else if a = ADDR_STATUS then push_bit 1 (of_bool (rx_valid u))
      else 0)"

definition uart_cycle :: "uart_bus \<Rightarrow> uart \<Rightarrow> uart" where
  "uart_cycle b u =
     (let u1 = (if ub_rst b then u\<lparr>tx_valid := False\<rparr>
                else if uart_we b \<and> ub_addr b = ADDR_TXDATA then u\<lparr>tx_data := ucast (ub_wdata b), tx_valid := True\<rparr>
                else u\<lparr>tx_valid := False\<rparr>)
      in if ub_rst b then u1\<lparr>rx_valid := False\<rparr>
         else if uart_re b \<and> ub_addr b = ADDR_RXDATA then u1\<lparr>rx_valid := False\<rparr>
         else u1)"

section \<open>The closed loop\<close>

text \<open>
  A clock cycle with what the processor does on the bus, a typed character, a turn of the
  mouse wheel.  The run also returns the characters the processor read: the low byte of a
  read of \<open>RXDATA\<close> whose valid bit is set.
\<close>

datatype hw_event = Bus uart_bus | Press u8 | Turn int

definition cpu_reads :: "uart_bus \<Rightarrow> uart \<Rightarrow> u8 list" where
  "cpu_reads b u =
     (if uart_re b \<and> ub_addr b = ADDR_RXDATA \<and> bit (uart_rdata u (ub_addr b)) 8 then [ucast (uart_rdata u (ub_addr b))] else [])"

fun hw_run :: "hw_event list \<Rightarrow> terminal \<Rightarrow> uart \<Rightarrow> (terminal \<times> uart \<times> u8 list) result" where
  "hw_run [] t u = Inr (t, u, [])"
| "hw_run (Bus b # es) t u = res_bind (per_tick_update t (uart_cycle b u)) (\<lambda>(t1, u1).
     res_bind (hw_run es t1 u1) (\<lambda>(t2, u2, out). Inr (t2, u2, cpu_reads b u @ out)))"
| "hw_run (Press c # es) t u = hw_run es (enqueue_char c t) u"
| "hw_run (Turn d # es) t u = hw_run es (scroll d t) u"

definition no_reset :: "hw_event list \<Rightarrow> bool" where
  "no_reset es \<longleftrightarrow> (\<forall>b. Bus b \<in> set es \<longrightarrow> \<not> ub_rst b)"

lemma no_reset_simps [simp]:
  "no_reset []" "no_reset (Bus b # es) \<longleftrightarrow> \<not> ub_rst b \<and> no_reset es"
  "no_reset (Press c # es) \<longleftrightarrow> no_reset es" "no_reset (Turn d # es) \<longleftrightarrow> no_reset es"
  by (auto simp: no_reset_def)

section \<open>From the keyboard to the processor\<close>

fun pressed :: "hw_event list \<Rightarrow> u8 list" where
  "pressed [] = []"
| "pressed (Press c # es) = c # pressed es"
| "pressed (e # es) = pressed es"

text \<open>The character the device holds for the processor.\<close>

definition pending :: "uart \<Rightarrow> u8 list" where
  "pending u = (if rx_valid u then [rx_data u] else [])"

lemma uart_rdata_RXDATA:
  "bit (uart_rdata u ADDR_RXDATA) 8 \<longleftrightarrow> rx_valid u" "ucast (uart_rdata u ADDR_RXDATA) = rx_data u"
proof -
  show "bit (uart_rdata u ADDR_RXDATA) 8 \<longleftrightarrow> rx_valid u"
    by (auto simp: uart_rdata_def bit_simps dest: bit_imp_le_length)
  show "ucast (uart_rdata u ADDR_RXDATA) = rx_data u"
    by (rule bit_word_eqI) (auto simp: uart_rdata_def bit_simps)
qed

lemma uart_cycle_rx:
  assumes "\<not> ub_rst b"
  shows "cpu_reads b u @ pending (uart_cycle b u) = pending u"
  using assms uart_rdata_RXDATA [of u]
  by (auto simp: cpu_reads_def pending_def uart_cycle_def Let_def simp del: ADDR_RXDATA_def)

lemma per_tick_rx:
  assumes "per_tick_update t u = Inr (t', u')"
  shows "pending u' @ m_rx_queue t' = pending u @ m_rx_queue t"
proof -
  from per_tick_same_io [OF assms] obtain t1 where
    "same_io t t1" "(t', u') = feed_rx (t1\<lparr>m_prev_tx_valid := tx_valid u\<rparr>) u" by blast
  then show ?thesis by (auto simp: same_io_def feed_rx_def pending_def split: list.splits if_splits)
qed

text \<open>
  C19: No typed character is lost, duplicated or reordered on its way to the processor: at any
  time, what the processor has read, the character waiting in the device and the queue of
  the terminal are together what was there at the start followed by what was typed,
  whenever the processor reads, also in the cycle in which the terminal refills the device.
\<close>

theorem keyboard_reaches_processor:
  assumes "hw_run es t u = Inr (t', u', out)" "no_reset es"
  shows "out @ pending u' @ m_rx_queue t' = pending u @ m_rx_queue t @ pressed es"
  using assms
proof (induction es t u arbitrary: t' u' out rule: hw_run.induct)
  case (2 b es t u)
  then obtain t1 u1 o1 where s: "per_tick_update t (uart_cycle b u) = Inr (t1, u1)" "hw_run es t1 u1 = Inr (t', u', o1)"
    "out = cpu_reads b u @ o1" "\<not> ub_rst b" "no_reset es"
    by (auto simp: res_simps)
  from "2.IH" [OF s(1) refl s(2,5)] per_tick_rx [OF s(1)] uart_cycle_rx [OF s(4), of u] s(3) show ?case
    by (metis append.assoc pressed.simps(3))
qed (simp_all add: enqueue_char_def)

definition bus_idle :: uart_bus where
  "bus_idle = \<lparr>ub_rst = False, ub_re = False, ub_we = False, ub_addr = 0, ub_wdata = 0\<rparr>"

definition bus_read :: "u8 \<Rightarrow> uart_bus" where
  "bus_read a = \<lparr>ub_rst = False, ub_re = True, ub_we = False, ub_addr = a, ub_wdata = 0\<rparr>"

definition bus_write :: "u8 \<Rightarrow> u32 \<Rightarrow> uart_bus" where
  "bus_write a w = \<lparr>ub_rst = False, ub_re = False, ub_we = True, ub_addr = a, ub_wdata = w\<rparr>"

definition uart_zero :: uart where
  "uart_zero = \<lparr>tx_data = 0, tx_valid = False, rx_data = 0, rx_valid = False\<rparr>"

theorem keyboard_reaches_processor_witness:
  "\<exists>t' u'. hw_run [Press 104, Press 105, Bus bus_idle, Bus (bus_read ADDR_RXDATA)] (terminal_new 80 25 256 7 1) uart_zero =
     Inr (t', u', [104]) \<and> [104] @ pending u' @ m_rx_queue t' = [104, 105]"
proof -
  let ?es = "[Press 104, Press 105, Bus bus_idle, Bus (bus_read ADDR_RXDATA)]" and ?t = "terminal_new 80 25 256 7 1"
  have q: "m_rx_queue ?t = []" "m_prev_tx_valid ?t = False" by (simp_all add: terminal_new_def push_blank_row_def)
  then obtain t' u' where run: "hw_run ?es ?t uart_zero = Inr (t', u', [104])"
    by (simp add: per_tick_update_def feed_rx_def enqueue_char_def uart_zero_def bus_idle_def bus_read_def uart_cycle_def
        uart_re_def uart_we_def cpu_reads_def uart_rdata_def Let_def)
  moreover have "no_reset ?es" by (simp add: bus_idle_def bus_read_def)
  ultimately show ?thesis using keyboard_reaches_processor [OF run] q by (auto simp: pending_def uart_zero_def)
qed

end
