(* ===== verification/Rtl_Screen.thy ===== *)
theory Rtl_Screen
  imports Rtl_Uart
begin

text \<open>
  From the processor's stores to the screen: the terminal's screen does not depend on the
  UART handshake, as long as stores are not in consecutive cycles.
\<close>

section \<open>The byte interpreter and the handshake fields\<close>

definition with_io :: "u8 list \<Rightarrow> bool \<Rightarrow> terminal \<Rightarrow> terminal" where
  "with_io q p t = t\<lparr>m_rx_queue := q, m_prev_tx_valid := p\<rparr>"

lemma with_io_sel [simp]:
  "m_state (with_io q p t) = m_state t" "m_ansi_args (with_io q p t) = m_ansi_args t"
  "m_ansi_arg_chars (with_io q p t) = m_ansi_arg_chars t" "m_viewport_w (with_io q p t) = m_viewport_w t"
  "m_viewport_h (with_io q p t) = m_viewport_h t" "m_fg_color (with_io q p t) = m_fg_color t"
  "m_bg_color (with_io q p t) = m_bg_color t" "m_cursor_row (with_io q p t) = m_cursor_row t"
  "m_cursor_col (with_io q p t) = m_cursor_col t" "m_buf (with_io q p t) = m_buf t"
  "m_buf_cap (with_io q p t) = m_buf_cap t" "m_viewport_start_line (with_io q p t) = m_viewport_start_line t"
  "m_rx_queue (with_io q p t) = q" "m_prev_tx_valid (with_io q p t) = p"
  by (simp_all add: with_io_def)

lemma with_io_with_io [simp]: "with_io q p (with_io q' p' t) = with_io q p t"
  by (simp add: with_io_def)

lemma with_io_upd [simp]:
  "(with_io q p t)\<lparr>m_state := s\<rparr> = with_io q p (t\<lparr>m_state := s\<rparr>)"
  "(with_io q p t)\<lparr>m_ansi_args := l\<rparr> = with_io q p (t\<lparr>m_ansi_args := l\<rparr>)"
  "(with_io q p t)\<lparr>m_ansi_arg_chars := cs\<rparr> = with_io q p (t\<lparr>m_ansi_arg_chars := cs\<rparr>)"
  "(with_io q p t)\<lparr>m_cursor_row := r\<rparr> = with_io q p (t\<lparr>m_cursor_row := r\<rparr>)"
  "(with_io q p t)\<lparr>m_cursor_col := c\<rparr> = with_io q p (t\<lparr>m_cursor_col := c\<rparr>)"
  "(with_io q p t)\<lparr>m_buf := b\<rparr> = with_io q p (t\<lparr>m_buf := b\<rparr>)"
  "(with_io q p t)\<lparr>m_viewport_start_line := v\<rparr> = with_io q p (t\<lparr>m_viewport_start_line := v\<rparr>)"
  by (simp_all add: with_io_def)

lemma with_io_small [simp]:
  "restore_viewport (with_io q p t) = with_io q p (restore_viewport t)"
  "create_symbol c (with_io q p t) = create_symbol c t" "active_row (with_io q p t) = active_row t"
  "viewport_to_buf_row r (with_io q p t) = viewport_to_buf_row r t"
  "push_blank_row (with_io q p t) = with_io q p (push_blank_row t)"
  "clear_buffer (with_io q p t) = with_io q p (clear_buffer t)"
  "push_arg (with_io q p t) = with_io q p (push_arg t)" "flush_arg (with_io q p t) = with_io q p (flush_arg t)"
  "to_ground (with_io q p t) = with_io q p (to_ground t)" "escape_char c (with_io q p t) = with_io q p (escape_char c t)"
  by (simp_all add: restore_viewport_def create_symbol_def active_row_def viewport_to_buf_row_def push_blank_row_def
      clear_buffer_def push_arg_def flush_arg_def to_ground_def escape_char_def)

lemma with_io_until [simp]: "push_blank_until n (with_io q p t) = with_io q p (push_blank_until n t)"
proof (induction n t rule: push_blank_until.induct)
  case (1 n t)
  show ?case using 1 by (subst (1 2) push_blank_until.simps) simp
qed

lemma with_io_newline [simp]: "cursor_newline (with_io q p t) = with_io q p (cursor_newline t)"
  by (simp add: cursor_newline_def Let_def)

lemma with_io_adv [simp]: "cursor_adv (with_io q p t) = with_io q p (cursor_adv t)"
  by (simp add: cursor_adv_def Let_def)

lemma with_io_csi [simp]:
  "csi_A (with_io q p t) = with_io q p (csi_A t)" "csi_B (with_io q p t) = with_io q p (csi_B t)"
  "csi_C (with_io q p t) = with_io q p (csi_C t)" "csi_D (with_io q p t) = with_io q p (csi_D t)"
  "csi_H (with_io q p t) = with_io q p (csi_H t)"
  by (simp_all add: csi_A_def csi_B_def csi_C_def csi_D_def csi_H_def Let_def)

section \<open>Operations that can fail\<close>

fun res_map :: "('a \<Rightarrow> 'b) \<Rightarrow> 'a result \<Rightarrow> 'b result" where
  "res_map g (Inl e) = Inl e"
| "res_map g (Inr x) = Inr (g x)"

text \<open>The operation acts alike with other handshake fields.\<close>

definition io_blind :: "(terminal \<Rightarrow> terminal result) \<Rightarrow> bool" where
  "io_blind f \<longleftrightarrow> (\<forall>q p t. f (with_io q p t) = res_map (with_io q p) (f t))"

lemma io_blindD: "io_blind f \<Longrightarrow> f (with_io q p t) = res_map (with_io q p) (f t)"
  by (simp add: io_blind_def)

lemma res_bind_map [simp]: "res_bind (res_map g m) f = res_bind m (\<lambda>x. f (g x))"
  by (cases m) simp_all

lemma map_res_bind: "res_map g (res_bind m f) = res_bind m (\<lambda>x. res_map g (f x))"
  by (cases m) simp_all

lemma io_blind_bind: "\<lbrakk>io_blind f; io_blind g\<rbrakk> \<Longrightarrow> io_blind (\<lambda>t. res_bind (f t) g)"
  by (simp add: io_blind_def map_res_bind)

lemma io_blind_row: "io_blind (blank_row_from r c)" "io_blind (blank_row_until r c)"
  by (simp_all add: io_blind_def blank_row_from_def blank_row_until_def Let_def)

lemma io_blind_copy: "io_blind (copy_blank_rows slot r lst)"
proof -
  have "copy_blank_rows slot r lst (with_io q p t) = res_map (with_io q p) (copy_blank_rows slot r lst t)" for q p t
  proof (induction slot r lst t rule: copy_blank_rows.induct)
    case (1 slot r lst t)
    show ?case
      by (subst (1 2) copy_blank_rows.simps)
        (auto simp: map_res_bind io_blindD [OF io_blind_row(1)] intro!: res_bind_cong 1)
  qed
  then show ?thesis by (simp add: io_blind_def)
qed

lemma io_blind_rows: "io_blind (blank_rows r lst)"
proof -
  have "blank_rows r lst (with_io q p t) = res_map (with_io q p) (blank_rows r lst t)" for q p t
  proof (induction r lst t rule: blank_rows.induct)
    case (1 r lst t)
    show ?case
      by (subst (1 2) blank_rows.simps)
        (auto simp: map_res_bind io_blindD [OF io_blind_row(1)] intro!: res_bind_cong 1)
  qed
  then show ?thesis by (simp add: io_blind_def)
qed

lemmas io_blind_rules = io_blindD [OF io_blind_row(1)] io_blindD [OF io_blind_row(2)] io_blindD [OF io_blind_copy]
  io_blindD [OF io_blind_rows] map_res_bind Let_def

lemma io_blind_erase: "io_blind (erase_display n)"
  by (simp add: io_blind_def erase_display_def io_blind_rules)

lemma io_blind_char: "io_blind (process_char c)"
proof -
  have "io_blind (put_symbol c)" by (auto simp: io_blind_def put_symbol_def io_blind_rules intro!: res_bind_cong)
  then have "io_blind (ground_char c)"
    by (simp add: io_blind_def ground_char_def Let_def)
  moreover have "io_blind (csi_char c)"
    by (auto simp: io_blind_def csi_char_def csi_J_def io_blind_rules io_blindD [OF io_blind_erase])
  ultimately show ?thesis
    by (simp add: io_blind_def process_char_def Let_def split: read_state.split)
qed

lemma with_io_scroll [simp]: "scroll d (with_io q p t) = with_io q p (scroll d t)"
  by (simp add: scroll_def scroll_up_def scroll_down_def Let_def)

section \<open>From the processor to the screen\<close>

text \<open>The cycle stores a byte to \<open>TXDATA\<close>.\<close>

definition stores_tx :: "uart_bus \<Rightarrow> bool" where
  "stores_tx b \<longleftrightarrow> uart_we b \<and> ub_addr b = ADDR_TXDATA"

text \<open>No two stores in consecutive cycles; \<open>p\<close> tells whether the cycle before stored one.\<close>

fun spaced :: "bool \<Rightarrow> hw_event list \<Rightarrow> bool" where
  "spaced p [] \<longleftrightarrow> True"
| "spaced p (Bus b # es) \<longleftrightarrow> \<not> (p \<and> stores_tx b) \<and> spaced (stores_tx b) es"
| "spaced p (e # es) \<longleftrightarrow> spaced p es"

text \<open>The reference: a terminal wired to the stores themselves.\<close>

fun wired_run :: "hw_event list \<Rightarrow> terminal \<Rightarrow> terminal result" where
  "wired_run [] t = Inr t"
| "wired_run (Bus b # es) t =
     res_bind (if stores_tx b then process_char (ucast (ub_wdata b)) t else Inr t) (wired_run es)"
| "wired_run (Press c # es) t = wired_run es t"
| "wired_run (Turn d # es) t = wired_run es (scroll d t)"

text \<open>The terminal without the fields of the handshake.\<close>

definition screen_of :: "terminal \<Rightarrow> terminal" where
  "screen_of t = with_io [] False t"

lemma wired_run_io: "wired_run es (with_io q p t) = res_map (with_io q p) (wired_run es t)"
proof (induction es t rule: wired_run.induct)
  case (2 b es t)
  then show ?case by (cases "process_char (ucast (ub_wdata b)) t") (auto simp: io_blindD [OF io_blind_char])
qed simp_all

lemma screen_wired: "res_map screen_of (wired_run es (with_io q p t)) = res_map screen_of (wired_run es t)"
  by (cases "wired_run es t") (simp_all add: wired_run_io screen_of_def)

lemma with_io_self: "t\<lparr>m_prev_tx_valid := p\<rparr> = with_io (m_rx_queue t) p t" "enqueue_char c t = with_io (m_rx_queue t @ [c]) (m_prev_tx_valid t) t"
  by (simp_all add: with_io_def enqueue_char_def)

lemma feed_rx_io: "\<exists>q. fst (feed_rx t u) = with_io q (m_prev_tx_valid t) t"
  by (cases "m_rx_queue t"; cases "rx_valid u") (auto simp: feed_rx_def with_io_def intro: exI [of _ "m_rx_queue t"])

lemma uart_cycle_tx:
  "\<not> ub_rst b \<Longrightarrow> tx_valid (uart_cycle b u) \<longleftrightarrow> stores_tx b"
  "\<not> ub_rst b \<Longrightarrow> stores_tx b \<Longrightarrow> tx_data (uart_cycle b u) = ucast (ub_wdata b)"
  by (simp_all add: uart_cycle_def stores_tx_def Let_def)

text \<open>One cycle of the loop, up to the handshake fields.\<close>

lemma per_tick_wired:
  assumes b: "\<not> ub_rst b" "\<not> (m_prev_tx_valid t \<and> stores_tx b)"
  shows "case (if stores_tx b then process_char (ucast (ub_wdata b)) t else Inr t) of
      Inl e \<Rightarrow> per_tick_update t (uart_cycle b u) = Inl e
    | Inr s \<Rightarrow> \<exists>q u'. per_tick_update t (uart_cycle b u) = Inr (with_io q (stores_tx b) s, u')"
proof -
  have fed: "\<exists>q u'. feed_rx (s\<lparr>m_prev_tx_valid := v\<rparr>) w = (with_io q v s, u')" for s v w
    using feed_rx_io [of "s\<lparr>m_prev_tx_valid := v\<rparr>" w]
    by (cases "feed_rx (s\<lparr>m_prev_tx_valid := v\<rparr>) w") (auto simp: with_io_self(1))
  show ?thesis using b uart_cycle_tx [OF b(1)] fed [where v = "stores_tx b" and w = "uart_cycle b u"]
    by (cases "process_char (ucast (ub_wdata b)) t"; cases "stores_tx b") (auto simp: per_tick_update_def)
qed

text \<open>
  C20: The screen shows exactly the bytes the processor stores, in order: while no two stores fall
  in consecutive cycles, the terminal behaves, errors included, as if every store were
  handed to its byte interpreter directly, whatever is typed and read meanwhile.
\<close>

theorem screen_follows_stores:
  assumes "no_reset es" "spaced (m_prev_tx_valid t) es"
  shows "res_map (\<lambda>x. screen_of (fst x)) (hw_run es t u) = res_map screen_of (wired_run es t)"
  using assms
proof (induction es arbitrary: t u)
  case (Cons e es)
  show ?case
  proof (cases e)
    case (Bus b)
    let ?p = "if stores_tx b then process_char (ucast (ub_wdata b)) t else Inr t"
    have b: "\<not> ub_rst b" "\<not> (m_prev_tx_valid t \<and> stores_tx b)" "no_reset es" "spaced (stores_tx b) es"
      using Cons.prems by (auto simp: Bus)
    show ?thesis
    proof (cases ?p)
      case (Inl x)
      then have "per_tick_update t (uart_cycle b u) = Inl x" using per_tick_wired [OF b(1,2), of u] by simp
      then show ?thesis using Inl by (simp add: Bus)
    next
      case (Inr s)
      then obtain q u1 where step: "per_tick_update t (uart_cycle b u) = Inr (with_io q (stores_tx b) s, u1)"
        using per_tick_wired [OF b(1,2), of u] by auto
      have "res_map (\<lambda>x. screen_of (fst x)) (hw_run es (with_io q (stores_tx b) s) u1) = res_map screen_of (wired_run es s)"
        using Cons.IH [of "with_io q (stores_tx b) s" u1] b(3,4) by (simp add: screen_wired)
      then show ?thesis using step Inr
        by (cases "hw_run es (with_io q (stores_tx b) s) u1") (auto simp: Bus)
    qed
  next
    case (Press c)
    then show ?thesis using Cons.prems Cons.IH [of "enqueue_char c t" u] by (simp add: with_io_self(2) screen_wired)
  next
    case (Turn d)
    moreover have "m_prev_tx_valid (scroll d t) = m_prev_tx_valid t"
      by (simp add: scroll_def scroll_up_def scroll_down_def Let_def)
    ultimately show ?thesis using Cons.prems Cons.IH [of "scroll d t" u] by simp
  qed
qed simp

theorem screen_follows_stores_witness:
  "res_map (\<lambda>x. screen_of (fst x))
     (hw_run [Bus (bus_write ADDR_TXDATA 72), Press 104, Bus bus_idle, Bus (bus_write ADDR_TXDATA 105)] (terminal_new 80 25 256 7 1) uart_zero) =
   res_map screen_of (res_bind (process_char 72 (terminal_new 80 25 256 7 1)) (process_char 105))"
proof -
  let ?es = "[Bus (bus_write ADDR_TXDATA 72), Press 104, Bus bus_idle, Bus (bus_write ADDR_TXDATA 105)]"
  have st: "stores_tx (bus_write ADDR_TXDATA w)" "\<not> stores_tx bus_idle" for w
    by (simp_all add: stores_tx_def bus_write_def bus_idle_def uart_we_def)
  have "no_reset ?es" "spaced (m_prev_tx_valid (terminal_new 80 25 256 7 1)) ?es"
    using st by (simp_all add: bus_idle_def bus_write_def terminal_new_def push_blank_row_def)
  from screen_follows_stores [OF this, of uart_zero]
  have "res_map (\<lambda>x. screen_of (fst x)) (hw_run ?es (terminal_new 80 25 256 7 1) uart_zero) =
      res_map screen_of (wired_run ?es (terminal_new 80 25 256 7 1))" .
  moreover have "wired_run ?es t = res_bind (process_char 72 t) (process_char 105)" for t
  proof -
    have "res_bind (process_char 105 s) (wired_run []) = process_char 105 s" for s by (cases "process_char 105 s") simp_all
    then show ?thesis using st by (cases "process_char 72 t") (simp_all add: bus_write_def)
  qed
  ultimately show ?thesis by simp
qed

end
