(* ===== verification/Rtl_Csr.thy ===== *)
theory Rtl_Csr
  imports Prelude
begin

text \<open>
  Privilege and traps of the processor (\<open>rtl/cpu/priv\<close>, types of \<open>rtl/cotm32_priv_pkg.sv\<close>): the
  control and status registers, the privilege mode, the trap and sleep flags, and the units
  that choose the exception or interrupt to take.  A \<open>_cycle\<close> is one rising clock edge.
\<close>

type_synonym u2 = "2 word"
type_synonym u12 = "12 word"

section \<open>Types of the package\<close>

definition PRIV_U :: u2 where "PRIV_U = 0"
definition PRIV_M :: u2 where "PRIV_M = 3"

lemma PRIV_distinct [simp]: "PRIV_U \<noteq> PRIV_M" "PRIV_M \<noteq> PRIV_U"
  by (simp_all add: PRIV_U_def PRIV_M_def)

definition TRAP_CAUSE_INST_ADDR_MISALIGNED :: u32 where "TRAP_CAUSE_INST_ADDR_MISALIGNED = 0"
definition TRAP_CAUSE_INST_ACCESS_FAULT :: u32 where "TRAP_CAUSE_INST_ACCESS_FAULT = 1"
definition TRAP_CAUSE_ILLEGAL_INST :: u32 where "TRAP_CAUSE_ILLEGAL_INST = 2"
definition TRAP_CAUSE_BREAKPOINT :: u32 where "TRAP_CAUSE_BREAKPOINT = 3"
definition TRAP_CAUSE_LOAD_ADDR_MISALIGNED :: u32 where "TRAP_CAUSE_LOAD_ADDR_MISALIGNED = 4"
definition TRAP_CAUSE_LOAD_ACCESS_FAULT :: u32 where "TRAP_CAUSE_LOAD_ACCESS_FAULT = 5"
definition TRAP_CAUSE_STORE_ADDR_MISALIGNED :: u32 where "TRAP_CAUSE_STORE_ADDR_MISALIGNED = 6"
definition TRAP_CAUSE_STORE_ACCESS_FAULT :: u32 where "TRAP_CAUSE_STORE_ACCESS_FAULT = 7"
definition TRAP_CAUSE_ECALL_U :: u32 where "TRAP_CAUSE_ECALL_U = 8"
definition TRAP_CAUSE_ECALL_M :: u32 where "TRAP_CAUSE_ECALL_M = 11"
definition TRAP_CAUSE_M_SOFTWARE_INTERRUPT :: u32 where "TRAP_CAUSE_M_SOFTWARE_INTERRUPT = 0x80000003"
definition TRAP_CAUSE_M_TIMER_INTERRUPT :: u32 where "TRAP_CAUSE_M_TIMER_INTERRUPT = 0x80000007"
definition TRAP_CAUSE_M_EXTERNAL_INTERRUPT :: u32 where "TRAP_CAUSE_M_EXTERNAL_INTERRUPT = 0x8000000b"

lemmas trap_cause_defs = TRAP_CAUSE_INST_ADDR_MISALIGNED_def TRAP_CAUSE_INST_ACCESS_FAULT_def TRAP_CAUSE_ILLEGAL_INST_def
  TRAP_CAUSE_BREAKPOINT_def TRAP_CAUSE_LOAD_ADDR_MISALIGNED_def TRAP_CAUSE_LOAD_ACCESS_FAULT_def
  TRAP_CAUSE_STORE_ADDR_MISALIGNED_def TRAP_CAUSE_STORE_ACCESS_FAULT_def TRAP_CAUSE_ECALL_U_def TRAP_CAUSE_ECALL_M_def
  TRAP_CAUSE_M_SOFTWARE_INTERRUPT_def TRAP_CAUSE_M_TIMER_INTERRUPT_def TRAP_CAUSE_M_EXTERNAL_INTERRUPT_def

definition ZICSR_CSR_MSTATUS :: u12 where [simp]: "ZICSR_CSR_MSTATUS = 0x300"
definition ZICSR_CSR_MIE :: u12 where [simp]: "ZICSR_CSR_MIE = 0x304"
definition ZICSR_CSR_MTVEC :: u12 where [simp]: "ZICSR_CSR_MTVEC = 0x305"
definition ZICSR_CSR_MSCRATCH :: u12 where [simp]: "ZICSR_CSR_MSCRATCH = 0x340"
definition ZICSR_CSR_MEPC :: u12 where [simp]: "ZICSR_CSR_MEPC = 0x341"
definition ZICSR_CSR_MCAUSE :: u12 where [simp]: "ZICSR_CSR_MCAUSE = 0x342"
definition ZICSR_CSR_MTVAL :: u12 where [simp]: "ZICSR_CSR_MTVAL = 0x343"
definition ZICSR_CSR_MIP :: u12 where [simp]: "ZICSR_CSR_MIP = 0x344"

datatype zicsr_op = ZICSR_CSR_OP_NONE | ZICSR_CSR_OP_RW | ZICSR_CSR_OP_RS | ZICSR_CSR_OP_RC

text \<open>Fields of \<open>mstatus\<close>, \<open>mie\<close> and \<open>mip\<close>, at their places in the packed structures.\<close>

definition put_bit :: "nat \<Rightarrow> bool \<Rightarrow> u32 \<Rightarrow> u32" where
  "put_bit n b w = (if b then set_bit n w else unset_bit n w)"

definition get_mpp :: "u32 \<Rightarrow> u2" where "get_mpp w = ucast (drop_bit 11 w)"

definition put_mpp :: "u2 \<Rightarrow> u32 \<Rightarrow> u32" where "put_mpp p w = put_bit 11 (bit p 0) (put_bit 12 (bit p 1) w)"

section \<open>The register file of the CSRs\<close>

record csr_regs =
  cs_mstatus :: u32
  cs_mie :: u32
  cs_mtvec :: u32
  cs_mscratch :: u32
  cs_mepc :: u32
  cs_mcause :: u32
  cs_mtval :: u32
  cs_mip :: u32

record csr_in =
  ci_rst :: bool
  ci_we :: bool
  ci_op :: zicsr_op
  ci_addr :: u12
  ci_wdata :: u32
  ci_pc :: u32
  ci_priv :: u2
  ci_mret :: bool
  ci_trap_req :: bool
  ci_cause :: u32
  ci_tval :: u32
  ci_mtip :: bool
  ci_meip :: bool

definition csr_mem_of :: "csr_regs \<Rightarrow> u12 \<Rightarrow> u32 option" where
  "csr_mem_of c a =
     (if a = ZICSR_CSR_MSTATUS then Some (cs_mstatus c) else if a = ZICSR_CSR_MIE then Some (cs_mie c)
      else if a = ZICSR_CSR_MTVEC then Some (cs_mtvec c) else if a = ZICSR_CSR_MSCRATCH then Some (cs_mscratch c)
      else if a = ZICSR_CSR_MEPC then Some (cs_mepc c) else if a = ZICSR_CSR_MCAUSE then Some (cs_mcause c)
      else if a = ZICSR_CSR_MTVAL then Some (cs_mtval c) else if a = ZICSR_CSR_MIP then Some (cs_mip c) else None)"

definition csr_rdata :: "csr_regs \<Rightarrow> u12 \<Rightarrow> u32" where
  "csr_rdata c a = (case csr_mem_of c a of None \<Rightarrow> 0 | Some w \<Rightarrow> w)"

definition csr_accessible :: "csr_regs \<Rightarrow> u12 \<Rightarrow> u2 \<Rightarrow> bool \<Rightarrow> bool" where
  "csr_accessible c a priv write \<longleftrightarrow>
     csr_mem_of c a \<noteq> None \<and> \<not> (ucast (drop_bit 8 a) :: u2) > priv \<and> \<not> (write \<and> (ucast (drop_bit 10 a) :: u2) = 3)"

definition csr_illegal :: "csr_regs \<Rightarrow> zicsr_op \<Rightarrow> u12 \<Rightarrow> u2 \<Rightarrow> bool \<Rightarrow> bool" where
  "csr_illegal c op a priv we \<longleftrightarrow> op \<noteq> ZICSR_CSR_OP_NONE \<and> \<not> csr_accessible c a priv we"

definition csr_wval :: "csr_regs \<Rightarrow> zicsr_op \<Rightarrow> u12 \<Rightarrow> u32 \<Rightarrow> u32" where
  "csr_wval c op a w =
     (case op of ZICSR_CSR_OP_RW \<Rightarrow> w | ZICSR_CSR_OP_RS \<Rightarrow> csr_rdata c a OR w | ZICSR_CSR_OP_RC \<Rightarrow> csr_rdata c a AND NOT w
      | ZICSR_CSR_OP_NONE \<Rightarrow> 0)"

definition csr_store :: "u12 \<Rightarrow> u32 \<Rightarrow> csr_regs \<Rightarrow> csr_regs" where
  "csr_store a w c =
     (if a = ZICSR_CSR_MSTATUS then c\<lparr>cs_mstatus := w\<rparr> else if a = ZICSR_CSR_MIE then c\<lparr>cs_mie := w\<rparr>
      else if a = ZICSR_CSR_MTVEC then c\<lparr>cs_mtvec := w\<rparr> else if a = ZICSR_CSR_MSCRATCH then c\<lparr>cs_mscratch := w\<rparr>
      else if a = ZICSR_CSR_MEPC then c\<lparr>cs_mepc := w\<rparr> else if a = ZICSR_CSR_MCAUSE then c\<lparr>cs_mcause := w\<rparr>
      else if a = ZICSR_CSR_MTVAL then c\<lparr>cs_mtval := w\<rparr> else if a = ZICSR_CSR_MIP then c\<lparr>cs_mip := w\<rparr> else c)"

definition csr_zero :: csr_regs where
  "csr_zero = \<lparr>cs_mstatus = 0, cs_mie = 0, cs_mtvec = 0, cs_mscratch = 0, cs_mepc = 0, cs_mcause = 0, cs_mtval = 0, cs_mip = 0\<rparr>"

definition csr_cycle :: "csr_in \<Rightarrow> csr_regs \<Rightarrow> csr_regs" where
  "csr_cycle i c =
     (if ci_rst i then csr_zero
      else let c1 =
          (if ci_trap_req i then
             c\<lparr>cs_mepc := ci_pc i, cs_mcause := ci_cause i, cs_mtval := ci_tval i,
               cs_mstatus := put_mpp (ci_priv i) (put_bit 3 False (put_bit 7 (bit (cs_mstatus c) 3) (cs_mstatus c)))\<rparr>
           else if ci_mret i then
             c\<lparr>cs_mstatus := put_mpp PRIV_U (put_bit 7 True (put_bit 3 (bit (cs_mstatus c) 7) (cs_mstatus c)))\<rparr>
           else if ci_we i \<and> csr_accessible c (ci_addr i) (ci_priv i) (ci_we i) then
             csr_store (ci_addr i) (csr_wval c (ci_op i) (ci_addr i) (ci_wdata i)) c
           else c)
        in c1\<lparr>cs_mip := put_bit 11 (ci_meip i) (put_bit 7 (ci_mtip i) (cs_mip c1))\<rparr>)"

section \<open>Privilege, trap mode and sleep\<close>

definition priv_cycle :: "bool \<Rightarrow> bool \<Rightarrow> bool \<Rightarrow> u32 \<Rightarrow> u2 \<Rightarrow> u2" where
  "priv_cycle rst trap_req trap_mret mstatus priv =
     (if rst then PRIV_M else if trap_req then PRIV_M else if trap_mret then get_mpp mstatus else priv)"

definition trap_mode_cycle :: "bool \<Rightarrow> bool \<Rightarrow> bool \<Rightarrow> bool \<Rightarrow> bool" where
  "trap_mode_cycle rst trap_req trap_mret m =
     (if rst then False else if trap_req then True else if trap_mret then False else m)"

definition wfi_cycle :: "bool \<Rightarrow> bool \<Rightarrow> bool \<Rightarrow> bool \<Rightarrow> bool \<Rightarrow> bool" where
  "wfi_cycle rst wfi_req trap_req interrupt_req sleep =
     (if rst then False else if \<not> sleep \<and> wfi_req \<and> \<not> trap_req then True
      else if sleep \<and> interrupt_req then False else sleep)"

section \<open>Choosing a trap\<close>

record exc_flags =
  xf_inst_addr_misaligned :: bool
  xf_inst_access_fault :: bool
  xf_illegal_inst :: bool
  xf_ebreak :: bool
  xf_load_addr_misaligned :: bool
  xf_load_access_fault :: bool
  xf_store_addr_misaligned :: bool
  xf_store_access_fault :: bool
  xf_ecall :: bool

text \<open>The result is \<open>None\<close> without a request, otherwise cause and trap value.\<close>

definition exception_dispatch :: "bool \<Rightarrow> u32 \<Rightarrow> u32 \<Rightarrow> u32 \<Rightarrow> u2 \<Rightarrow> exc_flags \<Rightarrow> (u32 \<times> u32) option" where
  "exception_dispatch valid pc inst ls_addr priv f =
     (if \<not> valid then None
      else if xf_inst_access_fault f then Some (TRAP_CAUSE_INST_ACCESS_FAULT, pc)
      else if xf_illegal_inst f then Some (TRAP_CAUSE_ILLEGAL_INST, inst)
      else if xf_inst_addr_misaligned f then Some (TRAP_CAUSE_INST_ADDR_MISALIGNED, pc)
      else if xf_ecall f then
        Some (if priv = PRIV_U then TRAP_CAUSE_ECALL_U else if priv = PRIV_M then TRAP_CAUSE_ECALL_M else TRAP_CAUSE_ILLEGAL_INST, 0)
      else if xf_ebreak f then Some (TRAP_CAUSE_BREAKPOINT, 0)
      else if xf_load_access_fault f then Some (TRAP_CAUSE_LOAD_ACCESS_FAULT, ls_addr)
      else if xf_store_access_fault f then Some (TRAP_CAUSE_STORE_ACCESS_FAULT, ls_addr)
      else if xf_load_addr_misaligned f then Some (TRAP_CAUSE_LOAD_ADDR_MISALIGNED, ls_addr)
      else if xf_store_addr_misaligned f then Some (TRAP_CAUSE_STORE_ADDR_MISALIGNED, ls_addr)
      else None)"

definition interrupt_dispatch :: "bool \<Rightarrow> csr_regs \<Rightarrow> u32 option" where
  "interrupt_dispatch valid c =
     (let eip = bit (cs_mie c) 11 \<and> bit (cs_mip c) 11; sip = bit (cs_mie c) 3 \<and> bit (cs_mip c) 3;
          tip = bit (cs_mie c) 7 \<and> bit (cs_mip c) 7
      in if \<not> valid \<or> \<not> bit (cs_mstatus c) 3 then None
         else if eip then Some TRAP_CAUSE_M_EXTERNAL_INTERRUPT
         else if sip then Some TRAP_CAUSE_M_SOFTWARE_INTERRUPT
         else if tip then Some TRAP_CAUSE_M_TIMER_INTERRUPT
         else None)"

section \<open>Facts\<close>

lemma bit_put_bit: "bit (put_bit n b w) m \<longleftrightarrow> (if m = n \<and> n < 32 then b else bit w m)"
  by (auto simp: put_bit_def bit_simps possible_bit_word dest: bit_imp_le_length)

lemma get_put_mpp [simp]: "get_mpp (put_mpp p w) = p"
proof (rule bit_word_eqI)
  fix n assume "n < LENGTH(2)"
  then have "n = 0 \<or> n = 1" by auto
  then show "bit (get_mpp (put_mpp p w)) n = bit p n"
    by (auto simp: get_mpp_def put_mpp_def bit_simps bit_put_bit)
qed

lemma get_mpp_put_bit [simp]: "n \<noteq> 11 \<Longrightarrow> n \<noteq> 12 \<Longrightarrow> get_mpp (put_bit n b w) = get_mpp w"
  by (rule bit_word_eqI) (auto simp: get_mpp_def bit_simps bit_put_bit)

lemma bit_put_mpp: "m \<noteq> 11 \<Longrightarrow> m \<noteq> 12 \<Longrightarrow> bit (put_mpp p w) m = bit w m"
  by (simp add: put_mpp_def bit_put_bit)

text \<open>Only machine mode reaches a CSR: their addresses all carry privilege 3.\<close>

lemma csr_needs_machine: "csr_accessible c a priv we \<Longrightarrow> priv = PRIV_M"
proof -
  assume "csr_accessible c a priv we"
  then have "(3 :: u2) \<le> priv" unfolding csr_accessible_def csr_mem_of_def by (auto split: if_splits)
  moreover have "priv \<le> (3 :: u2)" using unsigned_less [where 'a = nat and w = priv] by (simp add: word_le_nat_alt)
  ultimately show ?thesis by (simp add: PRIV_M_def)
qed

lemma csr_machine_access: "csr_mem_of c a \<noteq> None \<Longrightarrow> csr_accessible c a PRIV_M we"
  by (auto simp: csr_accessible_def csr_mem_of_def PRIV_M_def split: if_splits)

end
