(* ===== verification/Rtl_Mem.thy ===== *)
theory Rtl_Mem
  imports Rtl_Csr Rtl_Clint Rtl_Uart
begin

text \<open>
  The memory stage of the processor: the load-store unit (\<open>rtl/cpu/core/lsu.sv\<close>), the data memory
  (\<open>data_mem.sv\<close>) and the part of \<open>processor_core.sv\<close> between the EX/MEM and the MEM/WB register,
  where every effect of an instruction on memory, devices, CSRs and privilege happens.  The
  signals that come out of the EX/MEM register are an input.
\<close>

section \<open>The load-store unit\<close>

datatype lsu_op = LSU_NONE | LSU_LOAD_B | LSU_LOAD_H | LSU_LOAD_W | LSU_LOAD_BU | LSU_LOAD_HU
  | LSU_STORE_B | LSU_STORE_H | LSU_STORE_W

datatype mem_src = LSU_MEM_SRC_UNKNOWN | LSU_MEM_SRC_IMEM | LSU_MEM_SRC_CLINT | LSU_MEM_SRC_UART | LSU_MEM_SRC_DMEM

definition is_load :: "lsu_op \<Rightarrow> bool" where
  "is_load op \<longleftrightarrow> op \<in> {LSU_LOAD_B, LSU_LOAD_H, LSU_LOAD_W, LSU_LOAD_BU, LSU_LOAD_HU}"

definition is_store :: "lsu_op \<Rightarrow> bool" where
  "is_store op \<longleftrightarrow> op \<in> {LSU_STORE_B, LSU_STORE_H, LSU_STORE_W}"

text \<open>The memory an address belongs to, and the offset in it; the ROM starts at 0.\<close>

definition lsu_src :: "u32 \<Rightarrow> mem_src \<times> u32" where
  "lsu_src a =
     (if a \<le> 0x00001fff then (LSU_MEM_SRC_IMEM, a)
      else if 0x02000000 \<le> a \<and> a \<le> 0x0200ffff then (LSU_MEM_SRC_CLINT, a - 0x02000000)
      else if 0x10000000 \<le> a \<and> a \<le> 0x100000ff then (LSU_MEM_SRC_UART, a - 0x10000000)
      else if 0x80000000 \<le> a \<and> a \<le> 0x8000ffff then (LSU_MEM_SRC_DMEM, a - 0x80000000)
      else (LSU_MEM_SRC_UNKNOWN, 0))"

definition lsu_extend :: "lsu_op \<Rightarrow> u32 \<Rightarrow> u32" where
  "lsu_extend op w =
     (case op of LSU_LOAD_B \<Rightarrow> scast (ucast w :: u8) | LSU_LOAD_H \<Rightarrow> scast (ucast w :: u16) | LSU_LOAD_BU \<Rightarrow> ucast (ucast w :: u8)
      | LSU_LOAD_HU \<Rightarrow> ucast (ucast w :: u16) | _ \<Rightarrow> w)"

definition lsu_wdata :: "lsu_op \<Rightarrow> u32 \<Rightarrow> u32" where
  "lsu_wdata op w = (case op of LSU_STORE_B \<Rightarrow> ucast (ucast w :: u8) | LSU_STORE_H \<Rightarrow> ucast (ucast w :: u16) | _ \<Rightarrow> w)"

text \<open>The byte strobes, as the number of low bytes that are written.\<close>

definition lsu_wstrb :: "lsu_op \<Rightarrow> nat" where
  "lsu_wstrb op = (case op of LSU_STORE_B \<Rightarrow> 1 | LSU_STORE_H \<Rightarrow> 2 | LSU_STORE_W \<Rightarrow> 4 | _ \<Rightarrow> 0)"

definition lsu_misaligned :: "lsu_op \<Rightarrow> u32 \<Rightarrow> bool" where
  "lsu_misaligned op a \<longleftrightarrow>
     op \<in> {LSU_LOAD_H, LSU_LOAD_HU, LSU_STORE_H} \<and> take_bit 1 a \<noteq> 0 \<or> op \<in> {LSU_LOAD_W, LSU_STORE_W} \<and> take_bit 2 a \<noteq> 0"

definition lsu_load_fault :: "lsu_op \<Rightarrow> u2 \<Rightarrow> mem_src \<Rightarrow> bool" where
  "lsu_load_fault op priv src \<longleftrightarrow> is_load op \<and>
     (if priv = PRIV_M then src \<notin> {LSU_MEM_SRC_IMEM, LSU_MEM_SRC_CLINT, LSU_MEM_SRC_UART, LSU_MEM_SRC_DMEM}
      else if priv = PRIV_U then src \<notin> {LSU_MEM_SRC_IMEM, LSU_MEM_SRC_DMEM} else True)"

definition lsu_store_fault :: "lsu_op \<Rightarrow> u2 \<Rightarrow> mem_src \<Rightarrow> bool" where
  "lsu_store_fault op priv src \<longleftrightarrow> is_store op \<and>
     (if priv = PRIV_M then src \<notin> {LSU_MEM_SRC_CLINT, LSU_MEM_SRC_UART, LSU_MEM_SRC_DMEM}
      else if priv = PRIV_U then src \<noteq> LSU_MEM_SRC_DMEM else True)"

section \<open>The data memory\<close>

text \<open>\<open>mem_bytes\<close>; an index beyond its 65536 elements reads 0 and writes nothing.\<close>

type_synonym dmem = "u32 \<Rightarrow> u8"

definition dmem_byte :: "dmem \<Rightarrow> u32 \<Rightarrow> u8" where
  "dmem_byte m i = (if i < 65536 then m i else 0)"

definition dmem_rdata :: "dmem \<Rightarrow> u32 \<Rightarrow> u32" where
  "dmem_rdata m a = ucast (dmem_byte m a) OR push_bit 8 (ucast (dmem_byte m (a + 1)))
     OR push_bit 16 (ucast (dmem_byte m (a + 2))) OR push_bit 24 (ucast (dmem_byte m (a + 3)))"

fun dmem_write :: "nat \<Rightarrow> u32 \<Rightarrow> u32 \<Rightarrow> dmem \<Rightarrow> dmem" where
  "dmem_write 0 a w m = m"
| "dmem_write (Suc n) a w m = (dmem_write n a w m)
     (a + of_nat n := if a + of_nat n < 65536 then ucast (drop_bit (8 * n) w) else m (a + of_nat n))"

section \<open>The stage\<close>

text \<open>What the EX/MEM register holds.\<close>

record mem_in =
  mi_valid :: bool
  mi_alu_out :: u32
  mi_rs1 :: u32
  mi_rs2 :: u32
  mi_lsu_op :: lsu_op
  mi_csr_we :: bool
  mi_csr_imm :: bool
  mi_csr_addr :: u12
  mi_csr_op :: zicsr_op
  mi_csr_zimm :: u32
  mi_pc :: u32
  mi_inst :: u32
  mi_inst_addr_misaligned :: bool
  mi_inst_access_fault :: bool
  mi_illegal_inst :: bool
  mi_ebreak :: bool
  mi_ecall :: bool
  mi_mret :: bool
  mi_wfi :: bool

text \<open>The processor state the stage owns, and what the ROM and the devices drive.\<close>

record hart =
  h_csr :: csr_regs
  h_priv :: u2
  h_trap_mode :: bool
  h_sleep :: bool
  h_dmem :: dmem

record mem_env =
  me_rdata_imem :: u32
  me_rdata_clint :: u32
  me_rdata_uart :: u32
  me_mtip :: bool
  me_meip :: bool

definition mem_csr_illegal :: "mem_in \<Rightarrow> hart \<Rightarrow> bool" where
  "mem_csr_illegal i h = csr_illegal (h_csr h) (mi_csr_op i) (mi_csr_addr i) (h_priv h) (mi_csr_we i \<and> mi_valid i)"

definition mem_flags :: "mem_in \<Rightarrow> hart \<Rightarrow> exc_flags" where
  "mem_flags i h =
     (let op = mi_lsu_op i; a = mi_alu_out i; src = fst (lsu_src a)
      in \<lparr>xf_inst_addr_misaligned = mi_inst_addr_misaligned i, xf_inst_access_fault = mi_inst_access_fault i,
          xf_illegal_inst = mi_illegal_inst i \<or> mem_csr_illegal i h, xf_ebreak = mi_ebreak i,
          xf_load_addr_misaligned = is_load op \<and> lsu_misaligned op a, xf_load_access_fault = lsu_load_fault op (h_priv h) src,
          xf_store_addr_misaligned = is_store op \<and> lsu_misaligned op a, xf_store_access_fault = lsu_store_fault op (h_priv h) src,
          xf_ecall = mi_ecall i\<rparr>)"

definition mem_exception :: "mem_in \<Rightarrow> hart \<Rightarrow> (u32 \<times> u32) option" where
  "mem_exception i h = exception_dispatch (mi_valid i) (mi_pc i) (mi_inst i) (mi_alu_out i) (h_priv h) (mem_flags i h)"

definition mem_interrupt :: "mem_in \<Rightarrow> hart \<Rightarrow> u32 option" where
  "mem_interrupt i h = interrupt_dispatch (mi_valid i) (h_csr h)"

text \<open>The merged trap request: exceptions first.\<close>

definition mem_trap :: "mem_in \<Rightarrow> hart \<Rightarrow> (u32 \<times> u32) option" where
  "mem_trap i h =
     (case mem_exception i h of Some ct \<Rightarrow> Some ct
      | None \<Rightarrow> (case mem_interrupt i h of Some c \<Rightarrow> Some (c, 0) | None \<Rightarrow> None))"

definition mem_rdata :: "mem_in \<Rightarrow> mem_env \<Rightarrow> hart \<Rightarrow> u32" where
  "mem_rdata i e h =
     (let (src, off) = lsu_src (mi_alu_out i)
      in lsu_extend (mi_lsu_op i)
        (case src of LSU_MEM_SRC_IMEM \<Rightarrow> me_rdata_imem e | LSU_MEM_SRC_CLINT \<Rightarrow> me_rdata_clint e | LSU_MEM_SRC_UART \<Rightarrow> me_rdata_uart e
         | LSU_MEM_SRC_DMEM \<Rightarrow> dmem_rdata (h_dmem h) off | LSU_MEM_SRC_UNKNOWN \<Rightarrow> 0))"

text \<open>The bus cycles that the devices see; reads of the UART do not look at the trap request.\<close>

definition mem_clint_bus :: "bool \<Rightarrow> mem_in \<Rightarrow> hart \<Rightarrow> clint_bus" where
  "mem_clint_bus rst i h =
     (let (src, off) = lsu_src (mi_alu_out i)
      in \<lparr>cb_rst = rst, cb_we = is_store (mi_lsu_op i) \<and> mem_trap i h = None \<and> src = LSU_MEM_SRC_CLINT,
          cb_addr = ucast off, cb_wdata = lsu_wdata (mi_lsu_op i) (mi_rs2 i)\<rparr>)"

definition mem_uart_bus :: "bool \<Rightarrow> mem_in \<Rightarrow> hart \<Rightarrow> uart_bus" where
  "mem_uart_bus rst i h =
     (let (src, off) = lsu_src (mi_alu_out i)
      in \<lparr>ub_rst = rst, ub_re = is_load (mi_lsu_op i) \<and> src = LSU_MEM_SRC_UART,
          ub_we = is_store (mi_lsu_op i) \<and> mem_trap i h = None \<and> src = LSU_MEM_SRC_UART,
          ub_addr = ucast off, ub_wdata = lsu_wdata (mi_lsu_op i) (mi_rs2 i)\<rparr>)"

definition mem_csr_in :: "mem_in \<Rightarrow> mem_env \<Rightarrow> hart \<Rightarrow> csr_in" where
  "mem_csr_in i e h =
     \<lparr>ci_rst = False, ci_we = mi_csr_we i \<and> mi_valid i, ci_op = mi_csr_op i, ci_addr = mi_csr_addr i,
      ci_wdata = (if mi_csr_imm i then mi_csr_zimm i else mi_rs1 i), ci_pc = mi_pc i, ci_priv = h_priv h, ci_mret = mi_mret i,
      ci_trap_req = (mem_trap i h \<noteq> None), ci_cause = (case mem_trap i h of Some (c, _) \<Rightarrow> c | None \<Rightarrow> 0),
      ci_tval = (case mem_trap i h of Some (_, v) \<Rightarrow> v | None \<Rightarrow> 0), ci_mtip = me_mtip e, ci_meip = me_meip e\<rparr>"

definition mem_dmem :: "mem_in \<Rightarrow> hart \<Rightarrow> dmem" where
  "mem_dmem i h =
     (let (src, off) = lsu_src (mi_alu_out i)
      in if is_store (mi_lsu_op i) \<and> mem_trap i h = None \<and> src = LSU_MEM_SRC_DMEM \<and> mi_valid i
         then dmem_write (lsu_wstrb (mi_lsu_op i)) off (lsu_wdata (mi_lsu_op i) (mi_rs2 i)) (h_dmem h) else h_dmem h)"

text \<open>The clock edge; the reset line is low.\<close>

definition mem_cycle :: "mem_in \<Rightarrow> mem_env \<Rightarrow> hart \<Rightarrow> hart" where
  "mem_cycle i e h =
     \<lparr>h_csr = csr_cycle (mem_csr_in i e h) (h_csr h),
      h_priv = priv_cycle False (mem_trap i h \<noteq> None) (mi_mret i) (cs_mstatus (h_csr h)) (h_priv h),
      h_trap_mode = trap_mode_cycle False (mem_trap i h \<noteq> None) (mi_mret i) (h_trap_mode h),
      h_sleep = wfi_cycle False (mi_wfi i) (mem_trap i h \<noteq> None) (mem_interrupt i h \<noteq> None) (h_sleep h),
      h_dmem = mem_dmem i h\<rparr>"

end
