(* ===== verification/Rtl_Exec.thy ===== *)
theory Rtl_Exec
  imports Prelude "HOL-Library.Signed_Division"
begin

text \<open>
  The execute stage: the arithmetic unit (\<open>rtl/cpu/core/alu.sv\<close>), the branch unit (\<open>bu.sv\<close>), the
  multiplier and divider (\<open>mu.sv\<close>), and the forwarding and hazard units (\<open>rtl/cpu/pipeline\<close>).
\<close>

section \<open>Arithmetic and branches\<close>

datatype alu_ops = ALU_ADD | ALU_SUB | ALU_OR | ALU_AND | ALU_XOR | ALU_SLT | ALU_SLTU | ALU_SLL | ALU_SRL | ALU_SRA

fun alu :: "alu_ops \<Rightarrow> u32 \<Rightarrow> u32 \<Rightarrow> u32" where
  "alu ALU_ADD a b = a + b"
| "alu ALU_SUB a b = a - b"
| "alu ALU_OR a b = a OR b"
| "alu ALU_AND a b = a AND b"
| "alu ALU_XOR a b = a XOR b"
| "alu ALU_SLT a b = of_bool (sint a < sint b)"
| "alu ALU_SLTU a b = of_bool (a < b)"
| "alu ALU_SLL a b = push_bit (unat (take_bit 5 b)) a"
| "alu ALU_SRL a b = drop_bit (unat (take_bit 5 b)) a"
| "alu ALU_SRA a b = signed_drop_bit (unat (take_bit 5 b)) a"

datatype bu_ops = BU_NEVER | BU_ALWAYS | BU_EQ | BU_NE | BU_LT | BU_GE | BU_LTU | BU_GEU

fun bu_cond :: "bu_ops \<Rightarrow> u32 \<Rightarrow> u32 \<Rightarrow> bool" where
  "bu_cond BU_ALWAYS a b \<longleftrightarrow> True"
| "bu_cond BU_NEVER a b \<longleftrightarrow> False"
| "bu_cond BU_EQ a b \<longleftrightarrow> a = b"
| "bu_cond BU_NE a b \<longleftrightarrow> a \<noteq> b"
| "bu_cond BU_LT a b \<longleftrightarrow> sint a < sint b"
| "bu_cond BU_GE a b \<longleftrightarrow> sint a \<ge> sint b"
| "bu_cond BU_LTU a b \<longleftrightarrow> a < b"
| "bu_cond BU_GEU a b \<longleftrightarrow> a \<ge> b"

definition bu :: "bool \<Rightarrow> u32 \<Rightarrow> u32 \<Rightarrow> bu_ops \<Rightarrow> bool" where
  "bu be a b op \<longleftrightarrow> be \<and> bu_cond op a b"

section \<open>Multiplication and division\<close>

datatype mu_ops = MU_NOP | MU_MUL | MU_MULH | MU_MULHU | MU_MULHSU | MU_DIV | MU_DIVU | MU_REM | MU_REMU

record mu_regs =
  mr_busy :: bool
  mr_timer :: int
  mr_a :: u32
  mr_b :: u32

fun mu_latency :: "mu_ops \<Rightarrow> int" where
  "mu_latency MU_NOP = 0"
| "mu_latency MU_MUL = 4" | "mu_latency MU_MULH = 4" | "mu_latency MU_MULHU = 4" | "mu_latency MU_MULHSU = 4"
| "mu_latency MU_DIV = 12" | "mu_latency MU_DIVU = 12" | "mu_latency MU_REM = 12" | "mu_latency MU_REMU = 12"

definition mu_start :: "mu_ops \<Rightarrow> mu_regs \<Rightarrow> bool" where "mu_start op r \<longleftrightarrow> \<not> mr_busy r \<and> op \<noteq> MU_NOP"

definition mu_busy :: "mu_ops \<Rightarrow> mu_regs \<Rightarrow> bool" where "mu_busy op r \<longleftrightarrow> mr_busy r \<or> mu_start op r"

definition mu_done :: "mu_regs \<Rightarrow> bool" where "mu_done r \<longleftrightarrow> mr_busy r \<and> mr_timer r = 1"

definition mu_cycle :: "bool \<Rightarrow> mu_ops \<Rightarrow> u32 \<Rightarrow> u32 \<Rightarrow> mu_regs \<Rightarrow> mu_regs" where
  "mu_cycle rst op a b r =
     (if rst then \<lparr>mr_busy = False, mr_timer = 0, mr_a = 0, mr_b = 0\<rparr>
      else if mu_start op r then \<lparr>mr_busy = True, mr_timer = mu_latency op, mr_a = a, mr_b = b\<rparr>
      else if mr_busy r then r\<lparr>mr_timer := mr_timer r - 1, mr_busy := (mr_timer r \<noteq> 1)\<rparr>
      else r)"

text \<open>
  The special quotients and remainders of the latched operands; without one the plain operators of the language,
  which truncate towards zero.
\<close>

definition mu_special :: "mu_ops \<Rightarrow> u32 \<Rightarrow> u32 \<Rightarrow> u32 option" where
  "mu_special op a b =
     (case op of
        MU_DIV \<Rightarrow> if b = 0 then Some (- 1) else if a = 0x80000000 \<and> b = - 1 then Some a else None
      | MU_REM \<Rightarrow> if b = 0 then Some a else if a = 0x80000000 \<and> b = - 1 then Some 0 else None
      | MU_DIVU \<Rightarrow> if b = 0 then Some (- 1) else None
      | MU_REMU \<Rightarrow> if b = 0 then Some a else None
      | _ \<Rightarrow> None)"

text \<open>
  The 64-bit products.  An operand cast to unsigned makes a whole expression of the language unsigned, so the
  operands of \<open>p_su\<close> are extended with zeros like those of \<open>p_uu\<close>.
\<close>

definition p_ss :: "u32 \<Rightarrow> u32 \<Rightarrow> u64" where "p_ss a b = scast a * scast b"
definition p_uu :: "u32 \<Rightarrow> u32 \<Rightarrow> u64" where "p_uu a b = ucast a * ucast b"
definition p_su :: "u32 \<Rightarrow> u32 \<Rightarrow> u64" where "p_su a b = ucast a * ucast b"

definition mu_out :: "mu_ops \<Rightarrow> mu_regs \<Rightarrow> u32" where
  "mu_out op r =
     (let a = mr_a r; b = mr_b r
      in case op of
           MU_NOP \<Rightarrow> 0
         | MU_MUL \<Rightarrow> ucast (p_ss a b)
         | MU_MULH \<Rightarrow> ucast (drop_bit 32 (p_ss a b))
         | MU_MULHU \<Rightarrow> ucast (drop_bit 32 (p_uu a b))
         | MU_MULHSU \<Rightarrow> ucast (drop_bit 32 (p_su a b))
         | _ \<Rightarrow> (case mu_special op a b of Some v \<Rightarrow> v
             | None \<Rightarrow> (case op of MU_DIV \<Rightarrow> word_of_int (sint a sdiv sint b) | MU_DIVU \<Rightarrow> word_of_int (uint a div uint b)
                 | MU_REM \<Rightarrow> word_of_int (sint a smod sint b) | _ \<Rightarrow> word_of_int (uint a mod uint b))))"

section \<open>What the instruction set asks for\<close>

text \<open>The M extension of the RISC-V instruction set, over the integers.\<close>

fun rv32m :: "mu_ops \<Rightarrow> u32 \<Rightarrow> u32 \<Rightarrow> u32" where
  "rv32m MU_NOP a b = 0"
| "rv32m MU_MUL a b = word_of_int (sint a * sint b)"
| "rv32m MU_MULH a b = word_of_int (sint a * sint b div 2 ^ 32)"
| "rv32m MU_MULHU a b = word_of_int (uint a * uint b div 2 ^ 32)"
| "rv32m MU_MULHSU a b = word_of_int (sint a * uint b div 2 ^ 32)"
| "rv32m MU_DIV a b = (if b = 0 then - 1 else word_of_int (sint a sdiv sint b))"
| "rv32m MU_DIVU a b = (if b = 0 then - 1 else word_of_int (uint a div uint b))"
| "rv32m MU_REM a b = (if b = 0 then a else word_of_int (sint a smod sint b))"
| "rv32m MU_REMU a b = (if b = 0 then a else word_of_int (uint a mod uint b))"

section \<open>The unit against the instruction set\<close>

lemma high_word: "ucast (drop_bit 32 (word_of_int k :: u64)) = (word_of_int (k div 2 ^ 32) :: u32)"
proof (rule bit_word_eqI)
  fix n assume n: "n < LENGTH(32)"
  have "bit (k div 2 ^ 32) n = bit k (32 + n)" by (simp only: drop_bit_eq_div [symmetric] bit_drop_bit_eq o_apply)
  then show "bit (ucast (drop_bit 32 (word_of_int k :: u64)) :: u32) n = bit (word_of_int (k div 2 ^ 32) :: u32) n"
    using n by (simp add: bit_simps)
qed

lemma low_word: "ucast (word_of_int k :: u64) = (word_of_int k :: u32)"
  by (rule bit_word_eqI) (auto simp: bit_simps)

lemma products: "p_ss a b = word_of_int (sint a * sint b)" "p_uu a b = word_of_int (uint a * uint b)"
  "p_su a b = word_of_int (uint a * uint b)"
  by (simp_all add: p_ss_def p_uu_def p_su_def)

lemma uint_of_sint: "uint (a :: u32) = sint a + (if sint a < 0 then 2 ^ 32 else 0)"
proof -
  have r: "- (2 ^ 31) \<le> sint a" "sint a < 2 ^ 31" using sint_ge [of a] sint_lt [of a] by simp_all
  have "uint a = sint a mod 2 ^ 32" by (simp add: uint_sint take_bit_eq_mod)
  moreover have "sint a mod 2 ^ 32 = (sint a + 2 ^ 32) mod 2 ^ 32" by simp
  ultimately show ?thesis using r by (cases "sint a < 0") (simp_all add: mod_pos_pos_trivial del: mod_add_self2)
qed

lemma mulhsu_high:
  fixes a b :: u32
  shows "word_of_int (uint a * uint b div 2 ^ 32) = word_of_int (sint a * uint b div 2 ^ 32) + (if sint a < 0 then b else 0)"
proof (cases "sint a < 0")
  case True
  then have "uint a * uint b = sint a * uint b + uint b * 2 ^ 32" using uint_of_sint [of a] by (simp add: algebra_simps)
  then have "uint a * uint b div 2 ^ 32 = sint a * uint b div 2 ^ 32 + uint b" by simp
  then show ?thesis using True by simp
qed (simp add: uint_of_sint [of a])

lemma overflow_division:
  "sint (0x80000000 :: u32) sdiv sint (- 1 :: u32) = 2 ^ 31" "sint (0x80000000 :: u32) smod sint (- 1 :: u32) = 0"
  by (simp_all add: signed_divide_int_def signed_modulo_int_def)

lemma product_words:
  "ucast (p_ss a b) = (word_of_int (sint a * sint b) :: u32)"
  "ucast (drop_bit 32 (p_ss a b)) = (word_of_int (sint a * sint b div 2 ^ 32) :: u32)"
  "ucast (drop_bit 32 (p_uu a b)) = (word_of_int (uint a * uint b div 2 ^ 32) :: u32)"
  "ucast (drop_bit 32 (p_su a b)) = word_of_int (sint a * uint b div 2 ^ 32) + (if sint a < 0 then b else 0)"
  unfolding products by (rule low_word high_word high_word [THEN trans, OF mulhsu_high])+

lemma mu_out_result:
  assumes "mr_a r = a" "mr_b r = b"
  shows "mu_out op r = rv32m op a b + (if op = MU_MULHSU \<and> sint a < 0 then b else 0)"
  using assms overflow_division
  by (cases op) (auto simp: mu_out_def Let_def product_words mu_special_def)

section \<open>How long it takes\<close>

text \<open>The unit over cycles in which the operation stays applied and the operands may change.\<close>

fun mu_run :: "mu_ops \<Rightarrow> (u32 \<times> u32) list \<Rightarrow> mu_regs \<Rightarrow> mu_regs" where
  "mu_run op [] r = r"
| "mu_run op ((a, b) # ins) r = mu_run op ins (mu_cycle False op a b r)"

lemma mu_run_busy:
  "\<lbrakk>mr_busy r; int (length ins) < mr_timer r\<rbrakk> \<Longrightarrow> mu_run op ins r = r\<lparr>mr_timer := mr_timer r - int (length ins)\<rparr>"
proof (induction ins arbitrary: r)
  case (Cons ab ins)
  obtain a b where ab: "ab = (a, b)" by fastforce
  have "mu_cycle False op a b r = r\<lparr>mr_timer := mr_timer r - 1\<rparr>"
    using Cons.prems by (simp add: mu_cycle_def mu_start_def)
  then show ?case using Cons.prems Cons.IH [of "r\<lparr>mr_timer := mr_timer r - 1\<rparr>"] by (simp add: ab)
qed simp

lemma mu_run_started:
  assumes "\<not> mr_busy r" "op \<noteq> MU_NOP" "int (length ins) < mu_latency op"
  shows "mu_run op ((a, b) # ins) r = \<lparr>mr_busy = True, mr_timer = mu_latency op - int (length ins), mr_a = a, mr_b = b\<rparr>"
proof -
  let ?s = "\<lparr>mr_busy = True, mr_timer = mu_latency op, mr_a = a, mr_b = b\<rparr>"
  have "mu_cycle False op a b r = ?s" using assms by (simp add: mu_cycle_def mu_start_def)
  then show ?thesis using mu_run_busy [of ?s ins op] assms(3) by simp
qed

text \<open>
  C33: The multiplier and divider computes the M extension: applied to an idle unit, an operation is
  done after exactly its latency, 4 or 12 cycles, not before, and its result is that of the
  instruction set for the operands of the first cycle, division by zero and overflow included,
  whatever the operand lines carry later.  The one exception is \<open>MULHSU\<close> of a negative first
  operand, whose result is too large by the second operand.
\<close>

theorem mu_computes_rv32m:
  assumes "\<not> mr_busy r" "op \<noteq> MU_NOP" "length ins + 1 = nat (mu_latency op)"
  shows "mu_done (mu_run op ((a, b) # ins) r) \<and>
    mu_out op (mu_run op ((a, b) # ins) r) = rv32m op a b + (if op = MU_MULHSU \<and> sint a < 0 then b else 0) \<and>
    (\<forall>k \<le> length ins. \<not> mu_done (mu_run op (take k ((a, b) # ins)) r))"
proof -
  have lat: "int (length ins) = mu_latency op - 1" using assms(3) by simp
  then have run: "mu_run op ((a, b) # ins) r = \<lparr>mr_busy = True, mr_timer = 1, mr_a = a, mr_b = b\<rparr>"
    using mu_run_started [OF assms(1,2), of ins a b] by simp
  have "\<not> mu_done (mu_run op (take k ((a, b) # ins)) r)" if "k \<le> length ins" for k
  proof (cases k)
    case 0
    then show ?thesis using assms(1) by (simp add: mu_done_def)
  next
    case (Suc j)
    then show ?thesis using that lat mu_run_started [OF assms(1,2), of "take j ins" a b] by (simp add: mu_done_def)
  qed
  then show ?thesis unfolding run using mu_out_result [of "\<lparr>mr_busy = True, mr_timer = 1, mr_a = a, mr_b = b\<rparr>" a b op]
    by (simp add: mu_done_def)
qed

theorem mu_computes_rv32m_witness:
  "mu_out MU_MULHSU (mu_run MU_MULHSU ((- 1, 5) # replicate 3 (0, 0)) \<lparr>mr_busy = False, mr_timer = 0, mr_a = 0, mr_b = 0\<rparr>) = 4 \<and>
   rv32m MU_MULHSU (- 1) 5 = - 1"
  using mu_computes_rv32m [of "\<lparr>mr_busy = False, mr_timer = 0, mr_a = 0, mr_b = 0\<rparr>" MU_MULHSU "replicate 3 (0, 0)" "- 1" 5] by simp

section \<open>Forwarding\<close>

text \<open>
  \<open>fwd_unit.sv\<close>: where an operand comes from.  The arguments are the source register in the
  execute stage and, for each of the two later stages, destination, write enable and validity.
\<close>

datatype fwd = PIPE_FWD_SRC_NONE | PIPE_FWD_SRC_EXMEM | PIPE_FWD_SRC_MEMWB

definition fwd_unit :: "5 word \<Rightarrow> 5 word \<times> bool \<times> bool \<Rightarrow> 5 word \<times> bool \<times> bool \<Rightarrow> fwd" where
  "fwd_unit rs exmem memwb =
     (case (exmem, memwb) of ((rd1, we1, v1), (rd2, we2, v2)) \<Rightarrow>
        if we1 \<and> v1 \<and> rd1 \<noteq> 0 \<and> rd1 = rs then PIPE_FWD_SRC_EXMEM
        else if we2 \<and> v2 \<and> rd2 \<noteq> 0 \<and> rd2 = rs then PIPE_FWD_SRC_MEMWB
        else PIPE_FWD_SRC_NONE)"

definition ex_rs_fwd :: "fwd \<Rightarrow> u32 \<Rightarrow> u32 \<Rightarrow> u32 \<Rightarrow> u32" where
  "ex_rs_fwd f ex_rs mem_wb wb = (case f of PIPE_FWD_SRC_NONE \<Rightarrow> ex_rs | PIPE_FWD_SRC_EXMEM \<Rightarrow> mem_wb | PIPE_FWD_SRC_MEMWB \<Rightarrow> wb)"

text \<open>The register file (\<open>register_file.sv\<close>): a read sees the write of the same cycle.\<close>

type_synonym regfile = "5 word \<Rightarrow> u32"

definition rf_write :: "5 word \<times> bool \<Rightarrow> u32 \<Rightarrow> regfile \<Rightarrow> regfile" where
  "rf_write rdwe v rf = (case rdwe of (rd, we) \<Rightarrow> if we \<and> rd \<noteq> 0 then rf(rd := v) else rf)"

definition rf_read :: "5 word \<times> bool \<Rightarrow> u32 \<Rightarrow> regfile \<Rightarrow> 5 word \<Rightarrow> u32" where
  "rf_read rdwe v rf rs =
     (case rdwe of (rd, we) \<Rightarrow> if rs = 0 then 0 else if we \<and> rd \<noteq> 0 \<and> rd = rs then v else rf rs)"

text \<open>
  Note: Forwarding gives the execute stage the current value of its operand.  Let an instruction read
  a register in the decode stage while \<open>old\<close> writes back, and let two instructions be ahead of
  it in the next cycle.  Its operand is then the register after the writes of all three, in
  program order.
\<close>

theorem forwarding_is_current:
  assumes w: "exmem = (rd1, we1, v1)" "memwb = (rd2, we2, v2)"
  shows "ex_rs_fwd (fwd_unit rs exmem memwb) (rf_read old v rf rs) mem_wb wb =
    rf_read (0, False) 0 (rf_write (rd1, we1 \<and> v1) mem_wb (rf_write (rd2, we2 \<and> v2) wb (rf_write old v rf))) rs"
  by (cases old) (auto simp: fwd_unit_def ex_rs_fwd_def rf_read_def rf_write_def w)

theorem forwarding_is_current_witness:
  "ex_rs_fwd (fwd_unit 5 (7, True, True) (5, True, True)) (rf_read (5, True) 1 (\<lambda>_. 0) 5) 2 3 = 3"
  using forwarding_is_current [of "(7, True, True)" 7 True True "(5, True, True)" 5 True True 5 "(5, True)" 1 "\<lambda>_. 0" 2 3]
  by (simp add: rf_read_def rf_write_def)

end
