(* ===== verification/Rtl_Decode.thy ===== *)
theory Rtl_Decode
  imports Rtl_Mem Rtl_Exec
begin

text \<open>
  The control unit (\<open>rtl/cpu/core/cu.sv\<close>) and the sign extension of immediates (\<open>sign_ext.sv\<close>): what
  the decode stage makes of an instruction word.
\<close>

section \<open>Names of the instruction formats\<close>

definition OP_CREG :: "7 word" where [simp]: "OP_CREG = 0x33"
definition OP_CIMM :: "7 word" where [simp]: "OP_CIMM = 0x13"
definition OP_JALR :: "7 word" where [simp]: "OP_JALR = 0x67"
definition OP_LOAD :: "7 word" where [simp]: "OP_LOAD = 0x03"
definition OP_STORE :: "7 word" where [simp]: "OP_STORE = 0x23"
definition OP_BRANCH :: "7 word" where [simp]: "OP_BRANCH = 0x63"
definition OP_LUI :: "7 word" where [simp]: "OP_LUI = 0x37"
definition OP_AUIPC :: "7 word" where [simp]: "OP_AUIPC = 0x17"
definition OP_JAL :: "7 word" where [simp]: "OP_JAL = 0x6f"
definition OP_MSCMEM :: "7 word" where [simp]: "OP_MSCMEM = 0x0f"
definition OP_SYSTEM :: "7 word" where [simp]: "OP_SYSTEM = 0x73"

definition INST_EXACT_ECALL :: u32 where "INST_EXACT_ECALL = 0x00000073"
definition INST_EXACT_EBREAK :: u32 where "INST_EXACT_EBREAK = 0x00100073"
definition INST_EXACT_WFI :: u32 where "INST_EXACT_WFI = 0x10500073"
definition INST_EXACT_MRET :: u32 where "INST_EXACT_MRET = 0x30200073"

datatype imm_sel = IMM_I | IMM_S | IMM_B | IMM_U | IMM_J
datatype alu_a_src = ALU_A_RS1 | ALU_A_PC
datatype alu_b_src = ALU_B_RS2 | ALU_B_IMM
datatype wb_sel = REG_WB_ZERO | REG_WB_ALU | REG_WB_MU | REG_WB_PC4 | REG_WB_LSU | REG_WB_CSR
datatype csr_data = ZICSR_DATA_RS1 | ZICSR_DATA_IMM

section \<open>Fields of an instruction word\<close>

definition inst_opcode :: "u32 \<Rightarrow> 7 word" where "inst_opcode w = ucast w"
definition inst_rd :: "u32 \<Rightarrow> 5 word" where "inst_rd w = ucast (drop_bit 7 w)"
definition inst_funct3 :: "u32 \<Rightarrow> 3 word" where "inst_funct3 w = ucast (drop_bit 12 w)"
definition inst_rs1 :: "u32 \<Rightarrow> 5 word" where "inst_rs1 w = ucast (drop_bit 15 w)"
definition inst_rs2 :: "u32 \<Rightarrow> 5 word" where "inst_rs2 w = ucast (drop_bit 20 w)"
definition inst_funct7 :: "u32 \<Rightarrow> 7 word" where "inst_funct7 w = ucast (drop_bit 25 w)"
definition inst_csr :: "u32 \<Rightarrow> u12" where "inst_csr w = ucast (drop_bit 20 w)"

text \<open>\<open>field lo len w\<close> is \<open>w[lo +: len]\<close>.\<close>

definition field :: "nat \<Rightarrow> nat \<Rightarrow> u32 \<Rightarrow> u32" where "field lo len w = take_bit len (drop_bit lo w)"

fun sign_ext :: "u32 \<Rightarrow> imm_sel \<Rightarrow> u32" where
  "sign_ext w IMM_I = scast (ucast (field 20 12 w) :: 12 word)"
| "sign_ext w IMM_S = scast (ucast (push_bit 5 (field 25 7 w) OR field 7 5 w) :: 12 word)"
| "sign_ext w IMM_B = scast (ucast (push_bit 12 (field 31 1 w) OR push_bit 11 (field 7 1 w) OR push_bit 5 (field 25 6 w)
     OR push_bit 1 (field 8 4 w)) :: 13 word)"
| "sign_ext w IMM_U = push_bit 12 (field 12 20 w)"
| "sign_ext w IMM_J = scast (ucast (push_bit 20 (field 31 1 w) OR push_bit 12 (field 12 8 w) OR push_bit 11 (field 20 1 w)
     OR push_bit 1 (field 21 10 w)) :: 21 word)"

section \<open>The control unit\<close>

text \<open>
  Its outputs.  The block that computes them is combinational, but gives some of them no value for
  some instructions: those keep the value they had, so the previous outputs are an argument.  The local
  flag \<open>invalid\<close> is taken to start as 0 each time the block is evaluated, as Verilator translates it.
\<close>

record ctrl =
  cu_alu_op :: alu_ops
  cu_alu_a_sel :: alu_a_src
  cu_alu_b_sel :: alu_b_src
  cu_bu_be :: bool
  cu_bu_op :: bu_ops
  cu_regfile_we :: bool
  cu_rd_addr :: "5 word"
  cu_rs1_addr :: "5 word"
  cu_rs2_addr :: "5 word"
  cu_imm_sel :: imm_sel
  cu_lsu_ls :: lsu_op
  cu_reg_wb_sel :: wb_sel
  cu_mu_op :: mu_ops
  cu_csr_we :: bool
  cu_csr_data_sel :: csr_data
  cu_csr_addr :: u12
  cu_csr_op :: zicsr_op
  cu_csr_zimm :: u32
  cu_t_illegal_inst :: bool
  cu_t_ecall :: bool
  cu_t_ebreak :: bool
  cu_trap_mret :: bool
  cu_wfi_req :: bool

text \<open>The tables of operations by \<open>funct7\<close> and \<open>funct3\<close>; \<open>None\<close> is an invalid pair.\<close>

definition alu_f7f3 :: "7 word \<Rightarrow> 3 word \<Rightarrow> alu_ops option" where
  "alu_f7f3 f7 f3 =
     (if f7 = 0 \<and> f3 = 0 then Some ALU_ADD else if f7 = 0x20 \<and> f3 = 0 then Some ALU_SUB
      else if f7 = 0 \<and> f3 = 1 then Some ALU_SLL else if f7 = 0 \<and> f3 = 2 then Some ALU_SLT
      else if f7 = 0 \<and> f3 = 3 then Some ALU_SLTU else if f7 = 0 \<and> f3 = 4 then Some ALU_XOR
      else if f7 = 0 \<and> f3 = 5 then Some ALU_SRL else if f7 = 0x20 \<and> f3 = 5 then Some ALU_SRA
      else if f7 = 0 \<and> f3 = 6 then Some ALU_OR else if f7 = 0 \<and> f3 = 7 then Some ALU_AND else None)"

definition mu_f7f3 :: "7 word \<Rightarrow> 3 word \<Rightarrow> mu_ops option" where
  "mu_f7f3 f7 f3 =
     (if f7 \<noteq> 1 then None
      else if f3 = 0 then Some MU_MUL else if f3 = 1 then Some MU_MULH else if f3 = 2 then Some MU_MULHSU
      else if f3 = 3 then Some MU_MULHU else if f3 = 4 then Some MU_DIV else if f3 = 5 then Some MU_DIVU
      else if f3 = 6 then Some MU_REM else Some MU_REMU)"

text \<open>The immediate operations, with the flag \<open>invalid\<close>.\<close>

definition f7f3_to_cimm_op :: "7 word \<Rightarrow> 3 word \<Rightarrow> alu_ops \<times> bool" where
  "f7f3_to_cimm_op f7 f3 =
     (if f3 = 0 then (ALU_ADD, False) else if f3 = 1 then (ALU_SLL, f7 \<noteq> 0) else if f3 = 2 then (ALU_SLT, False)
      else if f3 = 3 then (ALU_SLTU, False) else if f3 = 4 then (ALU_XOR, False)
      else if f3 = 5 then (if f7 = 0 then (ALU_SRL, False) else if f7 = 0x20 then (ALU_SRA, False) else (ALU_SRL, True))
      else if f3 = 6 then (ALU_OR, False) else (ALU_AND, False))"

definition f3_to_lsu_l :: "3 word \<Rightarrow> lsu_op \<times> bool" where
  "f3_to_lsu_l f3 =
     (if f3 = 0 then (LSU_LOAD_B, False) else if f3 = 1 then (LSU_LOAD_H, False) else if f3 = 2 then (LSU_LOAD_W, False)
      else if f3 = 4 then (LSU_LOAD_BU, False) else if f3 = 5 then (LSU_LOAD_HU, False) else (LSU_NONE, True))"

definition f3_to_lsu_s :: "3 word \<Rightarrow> lsu_op \<times> bool" where
  "f3_to_lsu_s f3 =
     (if f3 = 0 then (LSU_STORE_B, False) else if f3 = 1 then (LSU_STORE_H, False) else if f3 = 2 then (LSU_STORE_W, False)
      else (LSU_NONE, True))"

definition f3_to_bu_op :: "3 word \<Rightarrow> bu_ops \<times> bool" where
  "f3_to_bu_op f3 =
     (if f3 = 0 then (BU_EQ, False) else if f3 = 1 then (BU_NE, False) else if f3 = 4 then (BU_LT, False)
      else if f3 = 5 then (BU_GE, False) else if f3 = 6 then (BU_LTU, False) else if f3 = 7 then (BU_GEU, False)
      else (BU_NEVER, True))"

text \<open>The default values at the top of the block.\<close>

definition cu_defaults :: "u32 \<Rightarrow> ctrl \<Rightarrow> ctrl" where
  "cu_defaults w c = c\<lparr>cu_csr_addr := inst_csr w, cu_csr_zimm := ucast (inst_rs1 w), cu_bu_be := False, cu_regfile_we := False,
     cu_lsu_ls := LSU_NONE, cu_csr_we := False, cu_csr_op := ZICSR_CSR_OP_NONE, cu_mu_op := MU_NOP, cu_t_illegal_inst := False,
     cu_t_ecall := False, cu_t_ebreak := False, cu_trap_mret := False, cu_wfi_req := False\<rparr>"

definition cu_creg :: "u32 \<Rightarrow> ctrl \<Rightarrow> ctrl" where
  "cu_creg w c =
     (let c1 = c\<lparr>cu_rd_addr := inst_rd w, cu_rs1_addr := inst_rs1 w, cu_rs2_addr := inst_rs2 w, cu_alu_a_sel := ALU_A_RS1,
            cu_alu_b_sel := ALU_B_RS2, cu_alu_op := ALU_ADD, cu_mu_op := MU_NOP, cu_regfile_we := True\<rparr>
      in case alu_f7f3 (inst_funct7 w) (inst_funct3 w) of
           Some op \<Rightarrow> c1\<lparr>cu_alu_op := op, cu_reg_wb_sel := REG_WB_ALU\<rparr>
         | None \<Rightarrow> (case mu_f7f3 (inst_funct7 w) (inst_funct3 w) of
             Some op \<Rightarrow> c1\<lparr>cu_mu_op := op, cu_reg_wb_sel := REG_WB_MU\<rparr>
           | None \<Rightarrow> c1\<lparr>cu_t_illegal_inst := True\<rparr>))"

definition cu_cimm :: "u32 \<Rightarrow> ctrl \<Rightarrow> ctrl" where
  "cu_cimm w c =
     (let (op, invalid) = f7f3_to_cimm_op (inst_funct7 w) (inst_funct3 w)
      in c\<lparr>cu_rd_addr := inst_rd w, cu_rs1_addr := inst_rs1 w, cu_alu_a_sel := ALU_A_RS1, cu_alu_b_sel := ALU_B_IMM,
           cu_imm_sel := IMM_I, cu_alu_op := op, cu_t_illegal_inst := invalid, cu_reg_wb_sel := REG_WB_ALU, cu_regfile_we := True\<rparr>)"

definition cu_load :: "u32 \<Rightarrow> ctrl \<Rightarrow> ctrl" where
  "cu_load w c =
     (let (op, invalid) = f3_to_lsu_l (inst_funct3 w)
      in c\<lparr>cu_rd_addr := inst_rd w, cu_rs1_addr := inst_rs1 w, cu_alu_a_sel := ALU_A_RS1, cu_alu_b_sel := ALU_B_IMM,
           cu_imm_sel := IMM_I, cu_alu_op := ALU_ADD, cu_lsu_ls := op, cu_t_illegal_inst := invalid, cu_reg_wb_sel := REG_WB_LSU,
           cu_regfile_we := True\<rparr>)"

definition cu_store :: "u32 \<Rightarrow> ctrl \<Rightarrow> ctrl" where
  "cu_store w c =
     (let (op, invalid) = f3_to_lsu_s (inst_funct3 w)
      in c\<lparr>cu_rs1_addr := inst_rs1 w, cu_rs2_addr := inst_rs2 w, cu_alu_a_sel := ALU_A_RS1, cu_alu_b_sel := ALU_B_IMM,
           cu_imm_sel := IMM_S, cu_alu_op := ALU_ADD, cu_lsu_ls := op, cu_t_illegal_inst := invalid\<rparr>)"

definition cu_branch :: "u32 \<Rightarrow> ctrl \<Rightarrow> ctrl" where
  "cu_branch w c =
     (let (op, invalid) = f3_to_bu_op (inst_funct3 w)
      in c\<lparr>cu_rs1_addr := inst_rs1 w, cu_rs2_addr := inst_rs2 w, cu_alu_a_sel := ALU_A_PC, cu_alu_b_sel := ALU_B_IMM,
           cu_imm_sel := IMM_B, cu_alu_op := ALU_ADD, cu_bu_op := op, cu_t_illegal_inst := invalid, cu_bu_be := True\<rparr>)"

text \<open>The CSR instructions by \<open>funct3\<close>.\<close>

definition cu_zicsr :: "u32 \<Rightarrow> ctrl \<Rightarrow> ctrl" where
  "cu_zicsr w c =
     (let c1 = c\<lparr>cu_rd_addr := inst_rd w, cu_reg_wb_sel := REG_WB_CSR, cu_regfile_we := True\<rparr>; f3 = inst_funct3 w; rs1 = inst_rs1 w
      in if f3 = 1 then c1\<lparr>cu_rs1_addr := rs1, cu_csr_we := True, cu_csr_op := ZICSR_CSR_OP_RW, cu_csr_data_sel := ZICSR_DATA_RS1\<rparr>
         else if f3 = 2 then c1\<lparr>cu_rs1_addr := rs1, cu_csr_we := (rs1 \<noteq> 0), cu_csr_op := ZICSR_CSR_OP_RS, cu_csr_data_sel := ZICSR_DATA_RS1\<rparr>
         else if f3 = 3 then c1\<lparr>cu_rs1_addr := rs1, cu_csr_we := (rs1 \<noteq> 0), cu_csr_op := ZICSR_CSR_OP_RC, cu_csr_data_sel := ZICSR_DATA_RS1\<rparr>
         else if f3 = 5 then c1\<lparr>cu_csr_we := True, cu_csr_op := ZICSR_CSR_OP_RW, cu_csr_data_sel := ZICSR_DATA_IMM\<rparr>
         else if f3 = 6 then c1\<lparr>cu_csr_we := (cu_csr_zimm c \<noteq> 0), cu_csr_op := ZICSR_CSR_OP_RS, cu_csr_data_sel := ZICSR_DATA_IMM\<rparr>
         else if f3 = 7 then c1\<lparr>cu_csr_we := (cu_csr_zimm c \<noteq> 0), cu_csr_op := ZICSR_CSR_OP_RC, cu_csr_data_sel := ZICSR_DATA_IMM\<rparr>
         else c1\<lparr>cu_csr_we := False, cu_regfile_we := False, cu_t_illegal_inst := True\<rparr>)"

definition cu_system :: "u32 \<Rightarrow> u2 \<Rightarrow> ctrl \<Rightarrow> ctrl" where
  "cu_system w priv c =
     (if w = INST_EXACT_ECALL then c\<lparr>cu_t_ecall := True\<rparr>
      else if w = INST_EXACT_EBREAK then c\<lparr>cu_t_ebreak := True\<rparr>
      else if w = INST_EXACT_WFI then (if priv = PRIV_M then c\<lparr>cu_wfi_req := True\<rparr> else c\<lparr>cu_t_illegal_inst := True\<rparr>)
      else if w = INST_EXACT_MRET then (if priv = PRIV_M then c\<lparr>cu_trap_mret := True\<rparr> else c\<lparr>cu_t_illegal_inst := True\<rparr>)
      else cu_zicsr w c)"

definition cu :: "u32 \<Rightarrow> u2 \<Rightarrow> ctrl \<Rightarrow> ctrl" where
  "cu w priv old =
     (let c = cu_defaults w old; op = inst_opcode w
      in if op = OP_CREG then cu_creg w c
         else if op = OP_CIMM then cu_cimm w c
         else if op = OP_JALR then
           c\<lparr>cu_rd_addr := inst_rd w, cu_rs1_addr := inst_rs1 w, cu_alu_a_sel := ALU_A_RS1, cu_alu_b_sel := ALU_B_IMM, cu_imm_sel := IMM_I,
             cu_alu_op := ALU_ADD, cu_bu_op := BU_ALWAYS, cu_bu_be := True, cu_reg_wb_sel := REG_WB_PC4, cu_regfile_we := True\<rparr>
         else if op = OP_LOAD then cu_load w c
         else if op = OP_STORE then cu_store w c
         else if op = OP_BRANCH then cu_branch w c
         else if op = OP_LUI then
           c\<lparr>cu_rd_addr := inst_rd w, cu_rs1_addr := 0, cu_alu_a_sel := ALU_A_RS1, cu_alu_b_sel := ALU_B_IMM, cu_imm_sel := IMM_U,
             cu_alu_op := ALU_ADD, cu_reg_wb_sel := REG_WB_ALU, cu_regfile_we := True\<rparr>
         else if op = OP_AUIPC then
           c\<lparr>cu_rd_addr := inst_rd w, cu_alu_a_sel := ALU_A_PC, cu_alu_b_sel := ALU_B_IMM, cu_imm_sel := IMM_U,
             cu_alu_op := ALU_ADD, cu_reg_wb_sel := REG_WB_ALU, cu_regfile_we := True\<rparr>
         else if op = OP_JAL then
           c\<lparr>cu_rd_addr := inst_rd w, cu_alu_a_sel := ALU_A_PC, cu_alu_b_sel := ALU_B_IMM, cu_imm_sel := IMM_J,
             cu_alu_op := ALU_ADD, cu_bu_op := BU_ALWAYS, cu_bu_be := True, cu_reg_wb_sel := REG_WB_PC4, cu_regfile_we := True\<rparr>
         else if op = OP_MSCMEM then c
         else if op = OP_SYSTEM then cu_system w priv c
         else c\<lparr>cu_t_illegal_inst := True\<rparr>)"

text \<open>What the control unit never does in user mode: ask for sleep or for the return from a trap.\<close>

lemma cu_parts_priv [simp]:
  "cu_trap_mret (cu_creg w c) = cu_trap_mret c" "cu_wfi_req (cu_creg w c) = cu_wfi_req c"
  "cu_trap_mret (cu_cimm w c) = cu_trap_mret c" "cu_wfi_req (cu_cimm w c) = cu_wfi_req c"
  "cu_trap_mret (cu_load w c) = cu_trap_mret c" "cu_wfi_req (cu_load w c) = cu_wfi_req c"
  "cu_trap_mret (cu_store w c) = cu_trap_mret c" "cu_wfi_req (cu_store w c) = cu_wfi_req c"
  "cu_trap_mret (cu_branch w c) = cu_trap_mret c" "cu_wfi_req (cu_branch w c) = cu_wfi_req c"
  by (simp_all add: cu_creg_def cu_cimm_def cu_load_def cu_store_def cu_branch_def Let_def split: option.split prod.split)

lemma cu_zicsr_priv [simp]: "cu_trap_mret (cu_zicsr w c) = cu_trap_mret c" "cu_wfi_req (cu_zicsr w c) = cu_wfi_req c"
  by (simp_all add: cu_zicsr_def Let_def)

lemma cu_user: "\<not> cu_trap_mret (cu w PRIV_U old)" "\<not> cu_wfi_req (cu w PRIV_U old)"
  by (simp_all add: cu_def cu_system_def Let_def) (simp_all add: cu_defaults_def)

end
