(* ===== verification/Rtl_Core.thy ===== *)
theory Rtl_Core
  imports Rtl_Decode
begin

text \<open>
  One instruction at a time through all stages of the processor (\<open>processor_core.sv\<close>): fetched word, control
  unit, operands, execute units, memory stage, write-back and next program counter.  The overlap
  of instructions in the pipeline is left out.
\<close>

section \<open>The state\<close>

text \<open>Registers are numbered; \<open>x0\<close> reads as 0 and is never written.\<close>

record machine =
  mc_regs :: "nat \<Rightarrow> u32"
  mc_pc :: u32
  mc_hart :: hart

definition reg_of :: "machine \<Rightarrow> nat \<Rightarrow> u32" where
  "reg_of m r = (if r = 0 then 0 else mc_regs m r)"

definition set_reg_of :: "nat \<Rightarrow> u32 \<Rightarrow> (nat \<Rightarrow> u32) \<Rightarrow> nat \<Rightarrow> u32" where
  "set_reg_of r w f = (if r = 0 then f else f(r := w))"

section \<open>The stages\<close>

text \<open>Decode: the operands.  Execute: the inputs of the arithmetic unit and its output.\<close>

definition rs1_of :: "ctrl \<Rightarrow> machine \<Rightarrow> u32" where "rs1_of c m = reg_of m (unat (cu_rs1_addr c))"
definition rs2_of :: "ctrl \<Rightarrow> machine \<Rightarrow> u32" where "rs2_of c m = reg_of m (unat (cu_rs2_addr c))"

definition alu_out :: "u32 \<Rightarrow> ctrl \<Rightarrow> machine \<Rightarrow> u32" where
  "alu_out w c m =
     alu (cu_alu_op c) (case cu_alu_a_sel c of ALU_A_RS1 \<Rightarrow> rs1_of c m | ALU_A_PC \<Rightarrow> mc_pc m)
       (case cu_alu_b_sel c of ALU_B_RS2 \<Rightarrow> rs2_of c m | ALU_B_IMM \<Rightarrow> sign_ext w (cu_imm_sel c))"

definition take_branch :: "ctrl \<Rightarrow> machine \<Rightarrow> bool" where
  "take_branch c m = bu (cu_bu_be c) (rs1_of c m) (rs2_of c m) (cu_bu_op c)"

text \<open>The multiplier's output when it is done with the operands it latched.\<close>

definition mu_result :: "ctrl \<Rightarrow> machine \<Rightarrow> u32" where
  "mu_result c m = mu_out (cu_mu_op c) \<lparr>mr_busy = True, mr_timer = 1, mr_a = rs1_of c m, mr_b = rs2_of c m\<rparr>"

text \<open>What the instruction brings into the memory stage; fetching outside the ROM or unaligned sets a flag.\<close>

definition mem_in_of :: "u32 \<Rightarrow> ctrl \<Rightarrow> machine \<Rightarrow> mem_in" where
  "mem_in_of w c m =
     \<lparr>mi_valid = True, mi_alu_out = alu_out w c m, mi_rs1 = rs1_of c m, mi_rs2 = rs2_of c m, mi_lsu_op = cu_lsu_ls c,
      mi_csr_we = cu_csr_we c, mi_csr_imm = (cu_csr_data_sel c = ZICSR_DATA_IMM), mi_csr_addr = cu_csr_addr c,
      mi_csr_op = cu_csr_op c, mi_csr_zimm = cu_csr_zimm c, mi_pc = mc_pc m, mi_inst = w,
      mi_inst_addr_misaligned = (take_bit 2 (mc_pc m) \<noteq> 0), mi_inst_access_fault = (0x1fff < mc_pc m),
      mi_illegal_inst = cu_t_illegal_inst c, mi_ebreak = cu_t_ebreak c, mi_ecall = cu_t_ecall c,
      mi_mret = cu_trap_mret c, mi_wfi = cu_wfi_req c\<rparr>"

text \<open>The write-back multiplexer.\<close>

definition wb_value :: "u32 \<Rightarrow> ctrl \<Rightarrow> mem_env \<Rightarrow> machine \<Rightarrow> u32" where
  "wb_value w c e m =
     (case cu_reg_wb_sel c of
        REG_WB_ZERO \<Rightarrow> 0
      | REG_WB_ALU \<Rightarrow> alu_out w c m
      | REG_WB_MU \<Rightarrow> mu_result c m
      | REG_WB_PC4 \<Rightarrow> mc_pc m + 4
      | REG_WB_LSU \<Rightarrow> mem_rdata (mem_in_of w c m) e (mc_hart m)
      | REG_WB_CSR \<Rightarrow> csr_rdata (h_csr (mc_hart m)) (cu_csr_addr c))"

text \<open>The fetch unit: the trap vector, and the next program counter of an instruction that does not trap.\<close>

definition trap_vector :: "csr_regs \<Rightarrow> u32" where "trap_vector c = cs_mtvec c AND NOT 3"

definition next_pc :: "u32 \<Rightarrow> ctrl \<Rightarrow> machine \<Rightarrow> u32" where
  "next_pc w c m =
     (if cu_trap_mret c then cs_mepc (h_csr (mc_hart m)) else if take_branch c m then alu_out w c m else mc_pc m + 4)"

text \<open>
  One step: the instruction goes through the memory stage.  A trap replaces it; while the processor
  sleeps, the instruction behind \<open>wfi\<close> is held there without being written back; otherwise it is completed.  The input of
  a step is what the devices drive and what the control unit's outputs were before.
\<close>

type_synonym step_in = "mem_env \<times> ctrl"

definition ctrl_of :: "u32 \<Rightarrow> step_in \<Rightarrow> machine \<Rightarrow> ctrl" where
  "ctrl_of w ei m = cu w (h_priv (mc_hart m)) (snd ei)"

definition exec_word :: "u32 \<Rightarrow> step_in \<Rightarrow> machine \<Rightarrow> machine" where
  "exec_word w ei m =
     (let c = ctrl_of w ei m; i = mem_in_of w c m; e = fst ei; h' = mem_cycle i e (mc_hart m)
      in if mem_trap i (mc_hart m) \<noteq> None then m\<lparr>mc_pc := trap_vector (h_csr (mc_hart m)), mc_hart := h'\<rparr>
         else if h_sleep (mc_hart m) then m\<lparr>mc_hart := h'\<rparr>
         else m\<lparr>mc_regs := (if cu_regfile_we c then set_reg_of (unat (cu_rd_addr c)) (wb_value w c e m) (mc_regs m) else mc_regs m),
                mc_pc := next_pc w c m, mc_hart := h'\<rparr>)"

text \<open>Whether an instruction traps, with cause and trap value.\<close>

definition trap_of :: "u32 \<Rightarrow> step_in \<Rightarrow> machine \<Rightarrow> (u32 \<times> u32) option" where
  "trap_of w ei m = mem_trap (mem_in_of w (ctrl_of w ei m) m) (mc_hart m)"

text \<open>A run: the ROM gives the word at an address.\<close>

type_synonym rom = "u32 \<Rightarrow> u32"

fun run_rom :: "rom \<Rightarrow> step_in list \<Rightarrow> machine \<Rightarrow> machine" where
  "run_rom rom [] m = m"
| "run_rom rom (ei # eis) m = run_rom rom eis (exec_word (rom (mc_pc m)) ei m)"

lemma run_rom_append: "run_rom rom (es @ es') m = run_rom rom es' (run_rom rom es m)"
  by (induction es arbitrary: m) simp_all

lemma mem_in_of_sel [simp]:
  "mi_valid (mem_in_of w c m)" "mi_alu_out (mem_in_of w c m) = alu_out w c m" "mi_rs1 (mem_in_of w c m) = rs1_of c m"
  "mi_rs2 (mem_in_of w c m) = rs2_of c m" "mi_lsu_op (mem_in_of w c m) = cu_lsu_ls c" "mi_csr_we (mem_in_of w c m) = cu_csr_we c"
  "mi_csr_imm (mem_in_of w c m) \<longleftrightarrow> cu_csr_data_sel c = ZICSR_DATA_IMM" "mi_csr_addr (mem_in_of w c m) = cu_csr_addr c"
  "mi_csr_op (mem_in_of w c m) = cu_csr_op c" "mi_csr_zimm (mem_in_of w c m) = cu_csr_zimm c" "mi_pc (mem_in_of w c m) = mc_pc m"
  "mi_inst (mem_in_of w c m) = w" "mi_inst_addr_misaligned (mem_in_of w c m) \<longleftrightarrow> take_bit 2 (mc_pc m) \<noteq> 0"
  "mi_inst_access_fault (mem_in_of w c m) \<longleftrightarrow> 0x1fff < mc_pc m" "mi_illegal_inst (mem_in_of w c m) = cu_t_illegal_inst c"
  "mi_ebreak (mem_in_of w c m) = cu_t_ebreak c" "mi_ecall (mem_in_of w c m) = cu_t_ecall c"
  "mi_mret (mem_in_of w c m) = cu_trap_mret c" "mi_wfi (mem_in_of w c m) = cu_wfi_req c"
  by (simp_all add: mem_in_of_def)

end
