(* ===== verification/Rtl_Isolation.thy ===== *)
theory Rtl_Isolation
  imports Rtl_Core
begin

text \<open>
  What the memory stage guarantees the kernel about programs in user mode, and what it does not.
\<close>

section \<open>Privileged instructions\<close>

text \<open>
  What the EX/MEM register can hold while the processor runs in user mode: the flags for sleep
  and return come from the control unit, and a bubble carries no memory operation.
\<close>

definition from_user_code :: "mem_in \<Rightarrow> bool" where
  "from_user_code i \<longleftrightarrow> (\<exists>w old. mi_wfi i = cu_wfi_req (cu w PRIV_U old) \<and> mi_mret i = cu_trap_mret (cu w PRIV_U old)) \<and>
     (\<not> mi_valid i \<longrightarrow> mi_lsu_op i = LSU_NONE)"

lemma from_user_codeD:
  assumes "from_user_code i"
  shows "\<not> mi_mret i" "\<not> mi_wfi i" "is_load (mi_lsu_op i) \<or> is_store (mi_lsu_op i) \<Longrightarrow> mi_valid i"
  using assms cu_user by (auto simp: from_user_code_def is_load_def is_store_def)

section \<open>Traps of a user program\<close>

lemma exception_is_trap: "mem_exception i h \<noteq> None \<Longrightarrow> mem_trap i h \<noteq> None"
  by (auto simp: mem_trap_def split: option.split)

lemma fault_is_trap:
  assumes "mi_valid i"
  shows "lsu_load_fault (mi_lsu_op i) (h_priv h) (fst (lsu_src (mi_alu_out i))) \<Longrightarrow> mem_trap i h \<noteq> None"
    "lsu_store_fault (mi_lsu_op i) (h_priv h) (fst (lsu_src (mi_alu_out i))) \<Longrightarrow> mem_trap i h \<noteq> None"
    "mem_csr_illegal i h \<Longrightarrow> mem_trap i h \<noteq> None"
  using assms by (intro exception_is_trap; simp add: mem_exception_def exception_dispatch_def mem_flags_def Let_def)+

lemma user_csr_illegal:
  "\<lbrakk>h_priv h = PRIV_U; mi_csr_op i \<noteq> ZICSR_CSR_OP_NONE\<rbrakk> \<Longrightarrow> mem_csr_illegal i h"
  using csr_needs_machine [of "h_csr h" "mi_csr_addr i" PRIV_U] by (auto simp: mem_csr_illegal_def csr_illegal_def)

lemma user_device_fault:
  assumes "h_priv h = PRIV_U" "fst (lsu_src (mi_alu_out i)) \<in> {LSU_MEM_SRC_CLINT, LSU_MEM_SRC_UART}"
  shows "is_load (mi_lsu_op i) \<Longrightarrow> lsu_load_fault (mi_lsu_op i) (h_priv h) (fst (lsu_src (mi_alu_out i)))"
    "is_store (mi_lsu_op i) \<Longrightarrow> lsu_store_fault (mi_lsu_op i) (h_priv h) (fst (lsu_src (mi_alu_out i)))"
  using assms by (auto simp: lsu_load_fault_def lsu_store_fault_def)

lemma mem_clint_we:
  "cb_we (mem_clint_bus rst i h) \<longleftrightarrow> is_store (mi_lsu_op i) \<and> mem_trap i h = None \<and> fst (lsu_src (mi_alu_out i)) = LSU_MEM_SRC_CLINT"
  "ub_we (mem_uart_bus rst i h) \<longleftrightarrow> is_store (mi_lsu_op i) \<and> mem_trap i h = None \<and> fst (lsu_src (mi_alu_out i)) = LSU_MEM_SRC_UART"
  by (simp_all add: mem_clint_bus_def mem_uart_bus_def split: prod.split)

text \<open>The interrupt lines as the CSR file latches them.\<close>

definition latch_mip :: "mem_env \<Rightarrow> csr_regs \<Rightarrow> csr_regs" where
  "latch_mip e c = c\<lparr>cs_mip := put_bit 11 (me_meip e) (put_bit 7 (me_mtip e) (cs_mip c))\<rparr>"

text \<open>The CSRs after a trap was taken.\<close>

definition trapped_csr :: "u32 \<Rightarrow> u32 \<Rightarrow> u32 \<Rightarrow> u2 \<Rightarrow> csr_regs \<Rightarrow> csr_regs" where
  "trapped_csr pc cause tval priv c = c\<lparr>cs_mepc := pc, cs_mcause := cause, cs_mtval := tval,
     cs_mstatus := put_mpp priv (put_bit 3 False (put_bit 7 (bit (cs_mstatus c) 3) (cs_mstatus c)))\<rparr>"

lemma mem_cycle_trap:
  assumes "mem_trap i h = Some (cause, tval)"
  shows "mem_cycle i e h = h\<lparr>h_csr := latch_mip e (trapped_csr (mi_pc i) cause tval (h_priv h) (h_csr h)), h_priv := PRIV_M,
    h_trap_mode := True, h_sleep := (if h_sleep h \<and> mem_interrupt i h \<noteq> None then False else h_sleep h)\<rparr>"
  using assms
  by (simp add: mem_cycle_def mem_csr_in_def csr_cycle_def priv_cycle_def trap_mode_cycle_def wfi_cycle_def mem_dmem_def
      latch_mip_def trapped_csr_def Let_def split: prod.split)

lemma trapped_csr_fields:
  "get_mpp (cs_mstatus (trapped_csr pc cause tval priv c)) = priv" "\<not> bit (cs_mstatus (trapped_csr pc cause tval priv c)) 3"
  "bit (cs_mstatus (trapped_csr pc cause tval priv c)) 7 \<longleftrightarrow> bit (cs_mstatus c) 3"
  by (simp_all add: trapped_csr_def bit_put_mpp bit_put_bit)

text \<open>The memory stage, whatever it holds while the processor is in user mode.\<close>

lemma user_stage_isolated:
  assumes u: "h_priv h = PRIV_U" and i: "from_user_code i" and h'_def: "h' = mem_cycle i e h"
  shows "\<not> cb_we (mem_clint_bus rst i h) \<and> \<not> ub_we (mem_uart_bus rst i h) \<and>
    (mi_valid i \<and> mi_csr_op i \<noteq> ZICSR_CSR_OP_NONE \<longrightarrow> mem_trap i h \<noteq> None) \<and>
    (fst (lsu_src (mi_alu_out i)) \<in> {LSU_MEM_SRC_CLINT, LSU_MEM_SRC_UART} \<and> (is_load (mi_lsu_op i) \<or> is_store (mi_lsu_op i)) \<longrightarrow>
      mem_trap i h \<noteq> None) \<and>
    (case mem_trap i h of
       None \<Rightarrow> h_csr h' = latch_mip e (h_csr h) \<and> h_priv h' = PRIV_U
     | Some (cause, tval) \<Rightarrow> h_csr h' = latch_mip e (trapped_csr (mi_pc i) cause tval PRIV_U (h_csr h)) \<and>
         h_priv h' = PRIV_M \<and> h_dmem h' = h_dmem h)"
proof -
  note d = from_user_codeD [OF i]
  have dev: "mem_trap i h \<noteq> None"
    if "fst (lsu_src (mi_alu_out i)) \<in> {LSU_MEM_SRC_CLINT, LSU_MEM_SRC_UART}" "is_load (mi_lsu_op i) \<or> is_store (mi_lsu_op i)"
    using user_device_fault [OF u that(1)] fault_is_trap(1,2) [OF d(3) [OF that(2)]] that(2) by blast
  have csr: "mem_trap i h \<noteq> None" if "mi_valid i" "mi_csr_op i \<noteq> ZICSR_CSR_OP_NONE"
    using fault_is_trap(3) [OF that(1)] user_csr_illegal [OF u that(2)] by blast
  have "\<not> cb_we (mem_clint_bus rst i h)" "\<not> ub_we (mem_uart_bus rst i h)"
    unfolding mem_clint_we using dev by auto
  moreover have "case mem_trap i h of None \<Rightarrow> h_csr h' = latch_mip e (h_csr h) \<and> h_priv h' = PRIV_U
     | Some (cause, tval) \<Rightarrow> h_csr h' = latch_mip e (trapped_csr (mi_pc i) cause tval PRIV_U (h_csr h)) \<and>
         h_priv h' = PRIV_M \<and> h_dmem h' = h_dmem h"
  proof (cases "mem_trap i h")
    case None
    have "\<not> csr_accessible (h_csr h) (mi_csr_addr i) PRIV_U (mi_csr_we i \<and> mi_valid i)"
      using csr_needs_machine [of "h_csr h" "mi_csr_addr i" PRIV_U] by auto
    then show ?thesis using None d(1) u
      by (simp add: h'_def mem_cycle_def mem_csr_in_def csr_cycle_def priv_cycle_def latch_mip_def Let_def)
  next
    case (Some ct)
    then show ?thesis using mem_cycle_trap [of i h "fst ct" "snd ct" e] u by (simp add: h'_def split: prod.split)
  qed
  ultimately show ?thesis using dev csr by blast
qed

text \<open>
  C18: The hardware isolates user programs.  Whatever instruction word a user program executes, no
  device register is written; without a trap the CSRs keep everything but the latched interrupt
  lines and the processor stays in user mode; a trap writes no memory and no register and goes to
  the kernel's vector in machine mode with the interrupts off, the program's counter and mode
  saved and \<open>mtvec\<close>, \<open>mie\<close> and \<open>mscratch\<close> as the kernel set them.  CSR accesses and accesses to
  devices always trap.
\<close>

theorem user_mode_isolated:
  assumes u: "h_priv (mc_hart m) = PRIV_U" and i: "i = mem_in_of w (ctrl_of w ei m) m" and h: "h = mc_hart m" and m': "m' = exec_word w ei m"
  shows "\<not> cb_we (mem_clint_bus rst i h) \<and> \<not> ub_we (mem_uart_bus rst i h) \<and>
    (cu_csr_op (ctrl_of w ei m) \<noteq> ZICSR_CSR_OP_NONE \<longrightarrow> trap_of w ei m \<noteq> None) \<and>
    (fst (lsu_src (mi_alu_out i)) \<in> {LSU_MEM_SRC_CLINT, LSU_MEM_SRC_UART} \<and> (is_load (mi_lsu_op i) \<or> is_store (mi_lsu_op i)) \<longrightarrow>
      trap_of w ei m \<noteq> None) \<and>
    (case trap_of w ei m of
       None \<Rightarrow> h_csr (mc_hart m') = latch_mip (fst ei) (h_csr h) \<and> h_priv (mc_hart m') = PRIV_U
     | Some (cause, tval) \<Rightarrow> h_csr (mc_hart m') = latch_mip (fst ei) (trapped_csr (mc_pc m) cause tval PRIV_U (h_csr h)) \<and>
         h_priv (mc_hart m') = PRIV_M \<and> h_dmem (mc_hart m') = h_dmem h \<and> mc_regs m' = mc_regs m \<and> mc_pc m' = trap_vector (h_csr h))"
proof -
  have fu: "from_user_code i" using u unfolding from_user_code_def i ctrl_of_def by auto
  have t: "trap_of w ei m = mem_trap i h" by (simp add: trap_of_def i h)
  have "mc_hart m' = mem_cycle i (fst ei) h" by (simp add: m' exec_word_def i h Let_def)
  moreover have "mem_trap i h \<noteq> None \<Longrightarrow> mc_regs m' = mc_regs m \<and> mc_pc m' = trap_vector (h_csr h)"
    by (simp add: m' exec_word_def i h Let_def)
  ultimately show ?thesis
    using user_stage_isolated [OF u [folded h] fu refl, of rst "fst ei"] unfolding t by (auto simp: i split: option.splits)
qed

section \<open>A read that the trap does not stop\<close>

text \<open>
  C37: The read strobe of the UART does not depend on the trap request: a user program that loads
  from \<open>RXDATA\<close> takes an access fault, yet the load removes the typed character that was waiting
  for the kernel.
\<close>

theorem faulting_read_eats_character:
  assumes "h_priv h = PRIV_U" "mi_valid i" "is_load (mi_lsu_op i)" "mi_alu_out i = 0x10000004"
  shows "mem_trap i h \<noteq> None \<and> pending (uart_cycle (mem_uart_bus False i h) u) = []"
proof -
  have src: "lsu_src (mi_alu_out i) = (LSU_MEM_SRC_UART, 4)" by (simp add: assms(4) lsu_src_def)
  then have "mem_trap i h \<noteq> None"
    using assms(3) by (intro fault_is_trap(1) [OF assms(2)] user_device_fault(1) [OF assms(1)]) simp_all
  then show ?thesis using assms(3) src
    by (simp add: mem_uart_bus_def uart_cycle_def uart_re_def uart_we_def pending_def Let_def)
qed

section \<open>Concrete instructions\<close>

definition no_inst :: mem_in where
  "no_inst = \<lparr>mi_valid = True, mi_alu_out = 0, mi_rs1 = 0, mi_rs2 = 0, mi_lsu_op = LSU_NONE, mi_csr_we = False, mi_csr_imm = False,
     mi_csr_addr = 0, mi_csr_op = ZICSR_CSR_OP_NONE, mi_csr_zimm = 0, mi_pc = 0, mi_inst = 0x13, mi_inst_addr_misaligned = False,
     mi_inst_access_fault = False, mi_illegal_inst = False, mi_ebreak = False, mi_ecall = False, mi_mret = False, mi_wfi = False\<rparr>"

definition demo_hart :: "u2 \<Rightarrow> hart" where
  "demo_hart p = \<lparr>h_csr = csr_zero\<lparr>cs_mtvec := 0x100, cs_mstatus := 8\<rparr>, h_priv = p, h_trap_mode = False, h_sleep = False, h_dmem = (\<lambda>_. 0)\<rparr>"

definition demo_mem_env :: mem_env where
  "demo_mem_env = \<lparr>me_rdata_imem = 0, me_rdata_clint = 0, me_rdata_uart = 0, me_mtip = True, me_meip = False\<rparr>"

theorem faulting_read_eats_character_witness:
  "mem_trap (no_inst\<lparr>mi_lsu_op := LSU_LOAD_W, mi_alu_out := 0x10000004\<rparr>) (demo_hart PRIV_U) \<noteq> None \<and>
   pending \<lparr>tx_data = 0, tx_valid = False, rx_data = 104, rx_valid = True\<rparr> = [104] \<and>
   pending (uart_cycle (mem_uart_bus False (no_inst\<lparr>mi_lsu_op := LSU_LOAD_W, mi_alu_out := 0x10000004\<rparr>) (demo_hart PRIV_U))
     \<lparr>tx_data = 0, tx_valid = False, rx_data = 104, rx_valid = True\<rparr>) = []"
  using faulting_read_eats_character [of "demo_hart PRIV_U" "no_inst\<lparr>mi_lsu_op := LSU_LOAD_W, mi_alu_out := 0x10000004\<rparr>"
      "\<lparr>tx_data = 0, tx_valid = False, rx_data = 104, rx_valid = True\<rparr>"]
  by (simp add: demo_hart_def no_inst_def is_load_def pending_def)

end
