(* ===== verification/Asm.thy ===== *)
theory Asm
  imports Rtl_Isolation Kernel_Sys
begin

text \<open>
  The assembly of the boot code (\<open>sw/bootc/entry.s\<close>, \<open>context.s\<close>, \<open>trap_entry.s\<close>) and its machine code: the
  32-bit words of the RISC-V manual.  The decode stage of the hardware takes each word apart again.
\<close>

section \<open>Instructions\<close>

text \<open>
  Registers are numbered as in \<open>x0\<close>, \<dots>, \<open>x31\<close>.  The operands stand in the order of the assembler:
  \<open>LW rd off rs1\<close> is \<open>lw rd, off(rs1)\<close>, \<open>SW rs2 off rs1\<close> is \<open>sw rs2, off(rs1)\<close>.
\<close>

datatype instr =
    LW nat u32 nat
  | SW nat u32 nat
  | ADDI nat nat u32
  | CSRRW nat u12 nat
  | CSRRS nat u12 nat
  | AUIPC nat u32
  | JALR nat nat u32
  | MRET

text \<open>The pseudo instructions; \<open>la\<close> and \<open>call\<close> are two instructions at an address, the first adds the high part of the distance.\<close>

definition CSRW :: "u12 \<Rightarrow> nat \<Rightarrow> instr" where [simp]: "CSRW csr rs = CSRRW 0 csr rs"
definition CSRR :: "nat \<Rightarrow> u12 \<Rightarrow> instr" where [simp]: "CSRR rd csr = CSRRS rd csr 0"
definition MV :: "nat \<Rightarrow> nat \<Rightarrow> instr" where [simp]: "MV rd rs = ADDI rd rs 0"

definition pcrel_hi :: "u32 \<Rightarrow> u32" where "pcrel_hi d = push_bit 12 (drop_bit 12 (d + 0x800))"
definition pcrel_lo :: "u32 \<Rightarrow> u32" where "pcrel_lo d = d - pcrel_hi d"

definition LA :: "u32 \<Rightarrow> nat \<Rightarrow> u32 \<Rightarrow> instr list" where
  "LA pc rd w = [AUIPC rd (pcrel_hi (w - pc)), ADDI rd rd (pcrel_lo (w - pc))]"

definition CALL :: "u32 \<Rightarrow> u32 \<Rightarrow> instr list" where
  "CALL pc w = [AUIPC 1 (pcrel_hi (w - pc)), JALR 1 1 (pcrel_lo (w - pc))]"

definition ra :: nat where [simp]: "ra = 1"
definition sp :: nat where [simp]: "sp = 2"
definition t0 :: nat where [simp]: "t0 = 5"
definition t1 :: nat where [simp]: "t1 = 6"
definition a0 :: nat where [simp]: "a0 = 10"

section \<open>The programs\<close>

text \<open>\<open>base\<close> is the address of the first instruction.\<close>

definition start_code :: "u32 \<Rightarrow> u32 \<Rightarrow> u32 \<Rightarrow> instr list" where
  "start_code base estack entry_fn = LA base sp estack @ CALL (base + 8) entry_fn"

definition enter_context :: "instr list" where
  "enter_context =
    [LW t0 128 a0, LW t1 132 a0, CSRW ZICSR_CSR_MEPC t1, CSRW ZICSR_CSR_MSTATUS t0,
     LW 1 4 a0, LW 2 8 a0, LW 3 12 a0, LW 4 16 a0, LW 5 20 a0, LW 6 24 a0, LW 7 28 a0, LW 8 32 a0, LW 9 36 a0,
     LW 11 44 a0, LW 12 48 a0, LW 13 52 a0, LW 14 56 a0, LW 15 60 a0, LW 16 64 a0, LW 17 68 a0, LW 18 72 a0, LW 19 76 a0,
     LW 20 80 a0, LW 21 84 a0, LW 22 88 a0, LW 23 92 a0, LW 24 96 a0, LW 25 100 a0, LW 26 104 a0, LW 27 108 a0,
     LW 28 112 a0, LW 29 116 a0, LW 30 120 a0, LW 31 124 a0,
     LW a0 40 a0, MRET]"

text \<open>\<open>trap_entry\<close> up to and with the call of the C handler, and from its return on.\<close>

definition trap_entry_save :: "u32 \<Rightarrow> u32 \<Rightarrow> instr list" where
  "trap_entry_save base handler =
    [CSRRW sp ZICSR_CSR_MSCRATCH sp, ADDI sp sp (- 144),
     SW 1 4 sp, SW 3 12 sp, SW 4 16 sp, SW 5 20 sp, SW 6 24 sp, SW 7 28 sp, SW 8 32 sp, SW 9 36 sp, SW 10 40 sp,
     SW 11 44 sp, SW 12 48 sp, SW 13 52 sp, SW 14 56 sp, SW 15 60 sp, SW 16 64 sp, SW 17 68 sp, SW 18 72 sp, SW 19 76 sp,
     SW 20 80 sp, SW 21 84 sp, SW 22 88 sp, SW 23 92 sp, SW 24 96 sp, SW 25 100 sp, SW 26 104 sp, SW 27 108 sp,
     SW 28 112 sp, SW 29 116 sp, SW 30 120 sp, SW 31 124 sp,
     CSRR t0 ZICSR_CSR_MSCRATCH, SW t0 8 sp,
     CSRR t0 ZICSR_CSR_MSTATUS, SW t0 128 sp,
     CSRR t0 ZICSR_CSR_MEPC, SW t0 132 sp,
     CSRR t0 ZICSR_CSR_MCAUSE, SW t0 136 sp,
     MV a0 sp] @ CALL (base + 164) handler"

definition trap_entry_restore :: "instr list" where
  "trap_entry_restore =
    [LW t0 8 sp, CSRW ZICSR_CSR_MSCRATCH t0,
     LW t0 128 sp, CSRW ZICSR_CSR_MSTATUS t0,
     LW t0 132 sp, CSRW ZICSR_CSR_MEPC t0,
     LW 1 4 sp, LW 3 12 sp, LW 4 16 sp, LW 5 20 sp, LW 6 24 sp, LW 7 28 sp, LW 8 32 sp, LW 9 36 sp, LW 10 40 sp,
     LW 11 44 sp, LW 12 48 sp, LW 13 52 sp, LW 14 56 sp, LW 15 60 sp, LW 16 64 sp, LW 17 68 sp, LW 18 72 sp, LW 19 76 sp,
     LW 20 80 sp, LW 21 84 sp, LW 22 88 sp, LW 23 92 sp, LW 24 96 sp, LW 25 100 sp, LW 26 104 sp, LW 27 108 sp,
     LW 28 112 sp, LW 29 116 sp, LW 30 120 sp, LW 31 124 sp,
     ADDI sp sp 144, CSRRW sp ZICSR_CSR_MSCRATCH sp, MRET]"

section \<open>Machine code\<close>

text \<open>The I format, and the encoding of each instruction.\<close>

definition enc_i :: "7 word \<Rightarrow> 3 word \<Rightarrow> 5 word \<Rightarrow> 5 word \<Rightarrow> 12 word \<Rightarrow> u32" where
  "enc_i op f3 rd rs1 imm = ucast op OR push_bit 7 (ucast rd) OR push_bit 12 (ucast f3) OR push_bit 15 (ucast rs1) OR push_bit 20 (ucast imm)"

definition enc_s :: "7 word \<Rightarrow> 3 word \<Rightarrow> 5 word \<Rightarrow> 5 word \<Rightarrow> 12 word \<Rightarrow> u32" where
  "enc_s op f3 rs1 rs2 imm = ucast op OR push_bit 7 (ucast (take_bit 5 imm)) OR push_bit 12 (ucast f3) OR push_bit 15 (ucast rs1)
     OR push_bit 20 (ucast rs2) OR push_bit 25 (ucast (drop_bit 5 imm))"

definition enc_u :: "7 word \<Rightarrow> 5 word \<Rightarrow> u32 \<Rightarrow> u32" where
  "enc_u op rd hi = ucast op OR push_bit 7 (ucast rd) OR push_bit 12 (drop_bit 12 hi)"

fun encode :: "instr \<Rightarrow> u32" where
  "encode (LW rd off rs1) = enc_i OP_LOAD 2 (of_nat rd) (of_nat rs1) (ucast off)"
| "encode (SW rs2 off rs1) = enc_s OP_STORE 2 (of_nat rs1) (of_nat rs2) (ucast off)"
| "encode (ADDI rd rs1 imm) = enc_i OP_CIMM 0 (of_nat rd) (of_nat rs1) (ucast imm)"
| "encode (CSRRW rd csr rs1) = enc_i OP_SYSTEM 1 (of_nat rd) (of_nat rs1) csr"
| "encode (CSRRS rd csr rs1) = enc_i OP_SYSTEM 2 (of_nat rd) (of_nat rs1) csr"
| "encode (AUIPC rd hi) = enc_u OP_AUIPC (of_nat rd) hi"
| "encode (JALR rd rs1 imm) = enc_i OP_JALR 0 (of_nat rd) (of_nat rs1) (ucast imm)"
| "encode MRET = INST_EXACT_MRET"

text \<open>Operands the formats can hold: registers below 32, signed 12-bit immediates, high parts.\<close>

definition imm12 :: "u32 \<Rightarrow> bool" where "imm12 w \<longleftrightarrow> scast (ucast w :: 12 word) = w"

fun instr_ok :: "instr \<Rightarrow> bool" where
  "instr_ok (LW rd off rs1) \<longleftrightarrow> rd < 32 \<and> rs1 < 32 \<and> imm12 off"
| "instr_ok (SW rs2 off rs1) \<longleftrightarrow> rs2 < 32 \<and> rs1 < 32 \<and> imm12 off"
| "instr_ok (ADDI rd rs1 imm) \<longleftrightarrow> rd < 32 \<and> rs1 < 32 \<and> imm12 imm"
| "instr_ok (CSRRW rd csr rs1) \<longleftrightarrow> rd < 32 \<and> rs1 < 32"
| "instr_ok (CSRRS rd csr rs1) \<longleftrightarrow> rd < 32 \<and> rs1 < 32"
| "instr_ok (AUIPC rd hi) \<longleftrightarrow> rd < 32 \<and> take_bit 12 hi = 0"
| "instr_ok (JALR rd rs1 imm) \<longleftrightarrow> rd < 32 \<and> rs1 < 32 \<and> imm12 imm"
| "instr_ok MRET \<longleftrightarrow> True"

text \<open>The ROM holds the instructions from an address on, which can be fetched.\<close>

definition fetch_ok :: "u32 \<Rightarrow> bool" where "fetch_ok a \<longleftrightarrow> a \<le> 0x1fff \<and> take_bit 2 a = 0"

fun placed :: "rom \<Rightarrow> u32 \<Rightarrow> instr list \<Rightarrow> bool" where
  "placed rom a [] \<longleftrightarrow> True"
| "placed rom a (i # is) \<longleftrightarrow> fetch_ok a \<and> rom a = encode i \<and> placed rom (a + 4) is"

lemma placed_append: "placed rom a (is @ js) \<longleftrightarrow> placed rom a is \<and> placed rom (a + of_nat (4 * length is)) js"
  by (induction "is" arbitrary: a) (auto simp: algebra_simps)

section \<open>Decoding the machine code\<close>

lemma enc_i_fields:
  "inst_opcode (enc_i op f3 rd rs1 imm) = op" "inst_rd (enc_i op f3 rd rs1 imm) = rd" "inst_funct3 (enc_i op f3 rd rs1 imm) = f3"
  "inst_rs1 (enc_i op f3 rd rs1 imm) = rs1" "inst_csr (enc_i op f3 rd rs1 imm) = imm" "sign_ext (enc_i op f3 rd rs1 imm) IMM_I = scast imm"
proof -
  show "inst_opcode (enc_i op f3 rd rs1 imm) = op"
    by (rule bit_word_eqI) (auto simp: inst_opcode_def enc_i_def bit_simps)
  show "inst_rd (enc_i op f3 rd rs1 imm) = rd"
    by (rule bit_word_eqI) (auto simp: inst_rd_def enc_i_def bit_simps dest: bit_imp_le_length)
  show "inst_funct3 (enc_i op f3 rd rs1 imm) = f3"
    by (rule bit_word_eqI) (auto simp: inst_funct3_def enc_i_def bit_simps dest: bit_imp_le_length)
  show "inst_rs1 (enc_i op f3 rd rs1 imm) = rs1"
    by (rule bit_word_eqI) (auto simp: inst_rs1_def enc_i_def bit_simps dest: bit_imp_le_length)
  show c: "inst_csr (enc_i op f3 rd rs1 imm) = imm"
    by (rule bit_word_eqI) (auto simp: inst_csr_def enc_i_def bit_simps dest: bit_imp_le_length)
  have "ucast (field 20 12 w) = inst_csr w" for w
    by (rule bit_word_eqI) (auto simp: field_def inst_csr_def bit_simps)
  then show "sign_ext (enc_i op f3 rd rs1 imm) IMM_I = scast imm" using c by simp
qed

lemma enc_s_fields:
  "inst_opcode (enc_s op f3 rs1 rs2 imm) = op" "inst_funct3 (enc_s op f3 rs1 rs2 imm) = f3" "inst_rs1 (enc_s op f3 rs1 rs2 imm) = rs1"
  "inst_rs2 (enc_s op f3 rs1 rs2 imm) = rs2" "sign_ext (enc_s op f3 rs1 rs2 imm) IMM_S = scast imm"
proof -
  show "inst_opcode (enc_s op f3 rs1 rs2 imm) = op"
    by (rule bit_word_eqI) (auto simp: inst_opcode_def enc_s_def bit_simps)
  show "inst_funct3 (enc_s op f3 rs1 rs2 imm) = f3"
    by (rule bit_word_eqI) (auto simp: inst_funct3_def enc_s_def bit_simps dest: bit_imp_le_length)
  show "inst_rs1 (enc_s op f3 rs1 rs2 imm) = rs1"
    by (rule bit_word_eqI) (auto simp: inst_rs1_def enc_s_def bit_simps dest: bit_imp_le_length)
  show "inst_rs2 (enc_s op f3 rs1 rs2 imm) = rs2"
    by (rule bit_word_eqI) (auto simp: inst_rs2_def enc_s_def bit_simps dest: bit_imp_le_length)
  have "(ucast (push_bit 5 (field 25 7 (enc_s op f3 rs1 rs2 imm)) OR field 7 5 (enc_s op f3 rs1 rs2 imm)) :: 12 word) = imm"
  proof (rule bit_word_eqI)
    fix n :: nat assume "n < LENGTH(12)"
    then have n: "n < 12" by simp
    have f: "bit (field 25 7 w) k \<longleftrightarrow> k < 7 \<and> bit w (25 + k)" "bit (field 7 5 w) k \<longleftrightarrow> k < 5 \<and> bit w (7 + k)" for w k
      by (auto simp: field_def bit_simps)
    have hi: "bit (enc_s op f3 rs1 rs2 imm) (25 + k) \<longleftrightarrow> bit imm (5 + k)" if "k < 7" for k
      using that by (auto simp: enc_s_def bit_simps dest: bit_imp_le_length)
    have lo: "bit (enc_s op f3 rs1 rs2 imm) (7 + k) \<longleftrightarrow> bit imm k" if "k < 5" for k
      using that by (auto simp: enc_s_def bit_simps dest: bit_imp_le_length)
    show "bit (ucast (push_bit 5 (field 25 7 (enc_s op f3 rs1 rs2 imm)) OR field 7 5 (enc_s op f3 rs1 rs2 imm)) :: 12 word) n = bit imm n"
    proof (cases "n < 5")
      case True
      then show ?thesis using lo [of n] n by (simp add: bit_simps f)
    next
      case False
      then have "n - 5 < 7" using n by arith
      then show ?thesis using hi [of "n - 5"] n False by (simp add: bit_simps f)
    qed
  qed
  then show "sign_ext (enc_s op f3 rs1 rs2 imm) IMM_S = scast imm" by simp
qed

lemma enc_u_fields:
  "inst_opcode (enc_u op rd hi) = op" "inst_rd (enc_u op rd hi) = rd" "take_bit 12 hi = 0 \<Longrightarrow> sign_ext (enc_u op rd hi) IMM_U = hi"
proof -
  show "inst_opcode (enc_u op rd hi) = op"
    by (rule bit_word_eqI) (auto simp: inst_opcode_def enc_u_def bit_simps)
  show "inst_rd (enc_u op rd hi) = rd"
    by (rule bit_word_eqI) (auto simp: inst_rd_def enc_u_def bit_simps dest: bit_imp_le_length)
  assume z: "take_bit 12 hi = 0"
  have "\<not> bit hi n" if "n < 12" for n using arg_cong [OF z, of "\<lambda>x. bit x n"] that by (simp add: bit_simps)
  then have low: "n < 12 \<Longrightarrow> \<not> bit hi n" for n .
  show "sign_ext (enc_u op rd hi) IMM_U = hi"
  proof (rule bit_word_eqI)
    fix n :: nat assume n: "n < LENGTH(32)"
    have "bit (sign_ext (enc_u op rd hi) IMM_U) n \<longleftrightarrow> 12 \<le> n \<and> bit (enc_u op rd hi) n"
      using n by (auto simp: field_def bit_simps)
    also have "\<dots> \<longleftrightarrow> 12 \<le> n \<and> bit hi n"
      using n by (auto simp: enc_u_def bit_simps dest: bit_imp_le_length)
    finally show "bit (sign_ext (enc_u op rd hi) IMM_U) n = bit hi n" using low [of n] by auto
  qed
qed

text \<open>The two parts of a distance.\<close>

lemma pcrel_parts: "pcrel_hi d + pcrel_lo d = d" "take_bit 12 (pcrel_hi d) = 0"
  by (simp_all add: pcrel_lo_def pcrel_hi_def take_bit_push_bit)

lemma imm12_range:
  assumes "- 2048 \<le> sint w" "sint w < 2048"
  shows "imm12 w"
proof -
  have "sint (ucast w :: 12 word) = signed_take_bit 11 (uint w)" by transfer simp
  also have "\<dots> = signed_take_bit 11 (sint w)" unfolding sint_uint by (rule bit_eqI) (simp add: bit_signed_take_bit_iff min_def)
  also have "\<dots> = sint w" using assms by (simp add: signed_take_bit_int_eq_self)
  finally have "word_of_int (sint (ucast w :: 12 word)) = w" by simp
  then show ?thesis unfolding imm12_def scast_eq .
qed

lemma pcrel_lo_imm12: "imm12 (pcrel_lo d)"
proof -
  let ?x = "d + 0x800"
  have "pcrel_hi d = ?x - take_bit 12 ?x" using bits_ident [of 12 ?x] by (simp add: pcrel_hi_def algebra_simps)
  then have lo: "pcrel_lo d = take_bit 12 ?x - 0x800" by (simp add: pcrel_lo_def)
  have t: "0 \<le> uint (take_bit 12 ?x)" "uint (take_bit 12 ?x) < 4096"
    using take_bit_int_less_exp [of 12 "uint ?x"] by (simp_all add: unsigned_take_bit_eq)
  have "take_bit 12 ?x - 0x800 = word_of_int (uint (take_bit 12 ?x) - 2048)" by simp
  then have "sint (take_bit 12 ?x - 0x800) = uint (take_bit 12 ?x) - 2048"
    using t by (simp only: sint_sbintrunc') (simp add: signed_take_bit_int_eq_self)
  then show ?thesis unfolding lo using t by (intro imm12_range) simp_all
qed

end
