(* ===== verification/Asm_Isa.thy ===== *)
theory Asm_Isa
  imports Asm
begin

text \<open>
  What single instructions do in machine mode with interrupts off: a small instruction-set
  semantics without devices and interrupt lines, and the proof that the hardware's stages
  implement it on the machine code, whatever the devices drive.
\<close>

section \<open>Words in memory\<close>

text \<open>The aligned word addresses of the data memory.\<close>

definition in_ram :: "u32 \<Rightarrow> bool" where
  "in_ram a \<longleftrightarrow> 0x80000000 \<le> a \<and> a \<le> 0x8000fffc \<and> take_bit 2 a = 0"

definition load_word :: "dmem \<Rightarrow> u32 \<Rightarrow> u32" where
  "load_word d a = dmem_rdata d (a - 0x80000000)"

definition store_word :: "u32 \<Rightarrow> u32 \<Rightarrow> dmem \<Rightarrow> dmem" where
  "store_word a w d = dmem_write 4 (a - 0x80000000) w d"

lemma in_ram_unat:
  assumes "in_ram a"
  obtains k where "unat (a - 0x80000000) = 4 * k" "k < 16384"
proof -
  have r: "0x80000000 \<le> a" "a \<le> 0x8000fffc" "take_bit 2 a = 0" using assms by (simp_all add: in_ram_def)
  have o: "unat (a - 0x80000000) = unat a - 0x80000000" using r(1) by (simp add: unat_sub)
  have "unat a mod 4 = 0" using unat_take_bit_mod [of 2 a] r(3) by simp
  moreover have "0x80000000 \<le> unat a" "unat a \<le> 0x8000fffc" using r(1,2) by (simp_all add: word_le_nat_alt)
  ultimately have "unat (a - 0x80000000) = 4 * ((unat a - 0x80000000) div 4)" "(unat a - 0x80000000) div 4 < 16384"
    unfolding o by presburger+
  then show thesis by (rule that)
qed

lemma byte_index:
  assumes "in_ram a" "j < 4"
  shows "unat (a - 0x80000000 + of_nat j) = unat (a - 0x80000000) + j" "a - 0x80000000 + of_nat j < 65536"
proof -
  obtain k where k: "unat (a - 0x80000000) = 4 * k" "k < 16384" using in_ram_unat [OF assms(1)] .
  show u: "unat (a - 0x80000000 + of_nat j) = unat (a - 0x80000000) + j" using k assms(2) by (intro u32_shift_unat) simp
  show "a - 0x80000000 + of_nat j < 65536" using u k assms(2) by (simp add: word_less_nat_alt)
qed

lemma bit_byte: "bit (ucast (ucast (drop_bit n t) :: u8) :: u32) i \<longleftrightarrow> i < 8 \<and> bit (t :: u32) (n + i)"
  by (auto simp: bit_simps dest: bit_imp_le_length)

lemma word_of_bytes:
  "ucast (ucast (drop_bit 0 w) :: u8) OR push_bit 8 (ucast (ucast (drop_bit 8 w) :: u8)) OR
   push_bit 16 (ucast (ucast (drop_bit 16 w) :: u8)) OR push_bit 24 (ucast (ucast (drop_bit 24 w) :: u8)) = (w :: u32)" (is "?v = w")
proof (rule bit_word_eqI)
  fix n :: nat assume "n < LENGTH(32)"
  then have n: "n < 32" by simp
  then have "n < 8 \<or> 8 \<le> n \<and> n < 16 \<or> 16 \<le> n \<and> n < 24 \<or> 24 \<le> n \<and> n < 32" by arith
  then show "bit ?v n = bit w n" unfolding bit_or_iff bit_push_bit_iff bit_byte using n by auto
qed

lemma small_offsets:
  assumes "i < 4" "j < 4" shows "(of_nat i :: u32) = of_nat j \<longleftrightarrow> i = j"
proof -
  have "unat (of_nat i :: u32) = i" "unat (of_nat j :: u32) = j" using assms by (simp_all add: unat_of_nat)
  then show ?thesis by metis
qed

lemma dmem_write_at:
  "\<lbrakk>j < n; n \<le> 4\<rbrakk> \<Longrightarrow> dmem_write n b w d (b + of_nat j) =
     (if b + of_nat j < 65536 then ucast (drop_bit (8 * j) w) else d (b + of_nat j))"
proof (induction n)
  case (Suc n)
  then show ?case using small_offsets [of n j] by (cases "j = n") auto
qed simp

lemma dmem_write_byte:
  assumes "in_ram a" "j < 4"
  shows "dmem_byte (store_word a w d) (a - 0x80000000 + of_nat j) = ucast (drop_bit (8 * j) w)"
  using byte_index(2) [OF assms] dmem_write_at [of j 4 "a - 0x80000000" w d] assms(2) unfolding store_word_def dmem_byte_def by simp

lemma load_store_same: "in_ram a \<Longrightarrow> load_word (store_word a w d) a = w"
  using dmem_write_byte [of a 0 w d] dmem_write_byte [of a 1 w d] dmem_write_byte [of a 2 w d] dmem_write_byte [of a 3 w d]
  using word_of_bytes [of w] by (simp add: load_word_def dmem_rdata_def)

lemma store_word_elsewhere:
  assumes "\<forall>j < 4. x \<noteq> a - 0x80000000 + of_nat j"
  shows "store_word a w d x = d x"
  using assms by (simp add: store_word_def eval_nat_numeral All_less_Suc)

lemma load_store_other:
  assumes a: "in_ram a" and b: "in_ram b" and ne: "a \<noteq> b"
  shows "load_word (store_word a w d) b = load_word d b"
proof -
  obtain k where k: "unat (a - 0x80000000) = 4 * k" "k < 16384" using in_ram_unat [OF a] .
  obtain l where l: "unat (b - 0x80000000) = 4 * l" "l < 16384" using in_ram_unat [OF b] .
  have "a - 0x80000000 \<noteq> b - 0x80000000" using ne by simp
  then have kl: "k \<noteq> l" using k(1) l(1) by (auto simp: word_unat_eq_iff)
  have "store_word a w d (b - 0x80000000 + of_nat i) = d (b - 0x80000000 + of_nat i)" if i: "i < 4" for i
  proof (rule store_word_elsewhere, intro allI impI)
    fix j :: nat assume j: "j < 4"
    have "4 * l + i \<noteq> 4 * k + j" using kl i j by presburger
    then show "b - 0x80000000 + of_nat i \<noteq> a - 0x80000000 + of_nat j"
      using byte_index(1) [OF a j] byte_index(1) [OF b i] k(1) l(1) by metis
  qed
  from this [of 0] this [of 1] this [of 2] this [of 3] show ?thesis
    by (simp add: load_word_def dmem_rdata_def dmem_byte_def)
qed

section \<open>What the hardware makes of an instruction\<close>

text \<open>
  The machine in machine mode with interrupts off: registers, program counter, CSRs without the
  interrupt lines, memory.
\<close>

record cpu =
  c_regs :: "nat \<Rightarrow> u32"
  c_pc :: u32
  c_csr :: csr_regs
  c_ram :: dmem

definition no_mip :: "csr_regs \<Rightarrow> csr_regs" where "no_mip c = c\<lparr>cs_mip := 0\<rparr>"

definition cpu_of :: "machine \<Rightarrow> cpu" where
  "cpu_of m = \<lparr>c_regs = mc_regs m, c_pc = mc_pc m, c_csr = no_mip (h_csr (mc_hart m)), c_ram = h_dmem (mc_hart m)\<rparr>"

definition c_reg :: "cpu \<Rightarrow> nat \<Rightarrow> u32" where "c_reg s r = (if r = 0 then 0 else c_regs s r)"

definition set_c_reg :: "nat \<Rightarrow> u32 \<Rightarrow> cpu \<Rightarrow> cpu" where "set_c_reg r w s = s\<lparr>c_regs := set_reg_of r w (c_regs s)\<rparr>"

definition isa_csr :: "u12 \<Rightarrow> csr_regs \<Rightarrow> u32 option" where
  "isa_csr a c = (if a = ZICSR_CSR_MIP then None else csr_mem_of c a)"

text \<open>
  One instruction as the processor runs it in machine mode with interrupts off, which is what straight-line code is
  run with below; \<open>None\<close> where it would trap, switch interrupts on or leave machine mode.  The target of a jump is
  what \<open>cu.sv\<close> makes of it, with bit 0.
\<close>

fun isa :: "instr \<Rightarrow> cpu \<Rightarrow> cpu option" where
  "isa (LW rd off rs1) s = (let a = c_reg s rs1 + off in
     if in_ram a then Some ((set_c_reg rd (load_word (c_ram s) a) s)\<lparr>c_pc := c_pc s + 4\<rparr>) else None)"
| "isa (SW rs2 off rs1) s = (let a = c_reg s rs1 + off in
     if in_ram a then Some (s\<lparr>c_ram := store_word a (c_reg s rs2) (c_ram s), c_pc := c_pc s + 4\<rparr>) else None)"
| "isa (ADDI rd rs1 imm) s = Some ((set_c_reg rd (c_reg s rs1 + imm) s)\<lparr>c_pc := c_pc s + 4\<rparr>)"
| "isa (CSRRW rd csr rs1) s = (case isa_csr csr (c_csr s) of None \<Rightarrow> None | Some v \<Rightarrow>
     if csr = ZICSR_CSR_MSTATUS \<and> bit (c_reg s rs1) 3 then None
     else Some ((set_c_reg rd v s)\<lparr>c_csr := csr_store csr (c_reg s rs1) (c_csr s), c_pc := c_pc s + 4\<rparr>))"
| "isa (CSRRS rd csr rs1) s = (case isa_csr csr (c_csr s) of None \<Rightarrow> None | Some v \<Rightarrow>
     if rs1 \<noteq> 0 then None else Some ((set_c_reg rd v s)\<lparr>c_pc := c_pc s + 4\<rparr>))"
| "isa (AUIPC rd hi) s = Some ((set_c_reg rd (c_pc s + hi) s)\<lparr>c_pc := c_pc s + 4\<rparr>)"
| "isa (JALR rd rs1 imm) s = Some ((set_c_reg rd (c_pc s + 4) s)\<lparr>c_pc := c_reg s rs1 + imm\<rparr>)"
| "isa MRET s = None"

definition calm :: "machine \<Rightarrow> bool" where
  "calm m \<longleftrightarrow> h_priv (mc_hart m) = PRIV_M \<and> \<not> bit (cs_mstatus (h_csr (mc_hart m))) 3 \<and> \<not> h_sleep (mc_hart m)"

section \<open>Words through the stages\<close>

text \<open>What the control unit makes of the encoded instructions.\<close>

lemma cu_encode:
  "cu (encode (LW rd off rs1)) p old = (cu_defaults (encode (LW rd off rs1)) old)\<lparr>cu_rd_addr := of_nat rd, cu_rs1_addr := of_nat rs1,
     cu_alu_a_sel := ALU_A_RS1, cu_alu_b_sel := ALU_B_IMM, cu_imm_sel := IMM_I, cu_alu_op := ALU_ADD, cu_lsu_ls := LSU_LOAD_W,
     cu_t_illegal_inst := False, cu_reg_wb_sel := REG_WB_LSU, cu_regfile_we := True\<rparr>"
  "cu (encode (SW rs2 off rs1)) p old = (cu_defaults (encode (SW rs2 off rs1)) old)\<lparr>cu_rs1_addr := of_nat rs1, cu_rs2_addr := of_nat rs2,
     cu_alu_a_sel := ALU_A_RS1, cu_alu_b_sel := ALU_B_IMM, cu_imm_sel := IMM_S, cu_alu_op := ALU_ADD, cu_lsu_ls := LSU_STORE_W,
     cu_t_illegal_inst := False\<rparr>"
  "cu (encode (ADDI rd rs1 imm)) p old = (cu_defaults (encode (ADDI rd rs1 imm)) old)\<lparr>cu_rd_addr := of_nat rd, cu_rs1_addr := of_nat rs1,
     cu_alu_a_sel := ALU_A_RS1, cu_alu_b_sel := ALU_B_IMM, cu_imm_sel := IMM_I, cu_alu_op := ALU_ADD, cu_t_illegal_inst := False,
     cu_reg_wb_sel := REG_WB_ALU, cu_regfile_we := True\<rparr>"
  "cu (encode (AUIPC rd hi)) p old = (cu_defaults (encode (AUIPC rd hi)) old)\<lparr>cu_rd_addr := of_nat rd, cu_alu_a_sel := ALU_A_PC,
     cu_alu_b_sel := ALU_B_IMM, cu_imm_sel := IMM_U, cu_alu_op := ALU_ADD, cu_reg_wb_sel := REG_WB_ALU, cu_regfile_we := True\<rparr>"
  "cu (encode (JALR rd rs1 imm)) p old = (cu_defaults (encode (JALR rd rs1 imm)) old)\<lparr>cu_rd_addr := of_nat rd, cu_rs1_addr := of_nat rs1,
     cu_alu_a_sel := ALU_A_RS1, cu_alu_b_sel := ALU_B_IMM, cu_imm_sel := IMM_I, cu_alu_op := ALU_ADD, cu_bu_op := BU_ALWAYS,
     cu_bu_be := True, cu_reg_wb_sel := REG_WB_PC4, cu_regfile_we := True\<rparr>"
  by (simp_all add: cu_def enc_i_fields enc_s_fields enc_u_fields cu_load_def f3_to_lsu_l_def cu_store_def f3_to_lsu_s_def cu_cimm_def
      f7f3_to_cimm_op_def)

lemma enc_system_exact:
  "f3 \<noteq> 0 \<Longrightarrow> enc_i OP_SYSTEM f3 rd rs1 imm \<notin> {INST_EXACT_ECALL, INST_EXACT_EBREAK, INST_EXACT_WFI, INST_EXACT_MRET}"
proof -
  have "inst_funct3 w = 0" if "w \<in> {INST_EXACT_ECALL, INST_EXACT_EBREAK, INST_EXACT_WFI, INST_EXACT_MRET}" for w
    using that by (auto simp: INST_EXACT_ECALL_def INST_EXACT_EBREAK_def INST_EXACT_WFI_def INST_EXACT_MRET_def inst_funct3_def)
  then show "f3 \<noteq> 0 \<Longrightarrow> ?thesis" using enc_i_fields(3) [of OP_SYSTEM f3 rd rs1 imm] by metis
qed

lemma cu_encode_csr:
  "cu (encode (CSRRW rd csr rs1)) p old = (cu_defaults (encode (CSRRW rd csr rs1)) old)\<lparr>cu_rd_addr := of_nat rd, cu_reg_wb_sel := REG_WB_CSR,
     cu_regfile_we := True, cu_rs1_addr := of_nat rs1, cu_csr_we := True, cu_csr_op := ZICSR_CSR_OP_RW, cu_csr_data_sel := ZICSR_DATA_RS1\<rparr>"
  "cu (encode (CSRRS rd csr rs1)) p old = (cu_defaults (encode (CSRRS rd csr rs1)) old)\<lparr>cu_rd_addr := of_nat rd, cu_reg_wb_sel := REG_WB_CSR,
     cu_regfile_we := True, cu_rs1_addr := of_nat rs1, cu_csr_we := (of_nat rs1 \<noteq> (0 :: 5 word)), cu_csr_op := ZICSR_CSR_OP_RS,
     cu_csr_data_sel := ZICSR_DATA_RS1\<rparr>"
  using enc_system_exact [of 1 "of_nat rd" "of_nat rs1" csr] enc_system_exact [of 2 "of_nat rd" "of_nat rs1" csr]
  by (simp_all add: cu_def cu_system_def enc_i_fields cu_zicsr_def Let_def)

lemma cu_mret: "cu INST_EXACT_MRET PRIV_M old = (cu_defaults INST_EXACT_MRET old)\<lparr>cu_trap_mret := True\<rparr>"
  by (simp add: cu_def cu_system_def inst_opcode_def INST_EXACT_ECALL_def INST_EXACT_EBREAK_def INST_EXACT_WFI_def INST_EXACT_MRET_def)

lemma cu_ecall: "cu INST_EXACT_ECALL p old = (cu_defaults INST_EXACT_ECALL old)\<lparr>cu_t_ecall := True\<rparr>"
  by (simp add: cu_def cu_system_def inst_opcode_def INST_EXACT_ECALL_def)

lemma cu_defaults_sel [simp]:
  "cu_csr_addr (cu_defaults w c) = inst_csr w" "\<not> cu_bu_be (cu_defaults w c)" "\<not> cu_regfile_we (cu_defaults w c)"
  "cu_lsu_ls (cu_defaults w c) = LSU_NONE" "\<not> cu_csr_we (cu_defaults w c)" "cu_csr_op (cu_defaults w c) = ZICSR_CSR_OP_NONE"
  "\<not> cu_t_illegal_inst (cu_defaults w c)" "\<not> cu_t_ecall (cu_defaults w c)" "\<not> cu_t_ebreak (cu_defaults w c)"
  "\<not> cu_trap_mret (cu_defaults w c)" "\<not> cu_wfi_req (cu_defaults w c)"
  by (simp_all add: cu_defaults_def)

section \<open>The memory stage in machine mode\<close>

lemma calm_no_interrupt: "calm m \<Longrightarrow> mem_interrupt i (mc_hart m) = None"
  by (simp add: calm_def mem_interrupt_def interrupt_dispatch_def Let_def)

lemma ram_src: "in_ram a \<Longrightarrow> lsu_src a = (LSU_MEM_SRC_DMEM, a - 0x80000000)"
proof -
  assume "in_ram a"
  then have r: "0x80000000 \<le> unat a" "unat a \<le> 0x8000fffc" by (simp_all add: in_ram_def word_le_nat_alt)
  then show ?thesis by (simp add: lsu_src_def word_le_nat_alt)
qed

text \<open>An instruction without exception flags whose memory access and CSR access are legal.\<close>

lemma mem_trap_none:
  assumes c: "calm m" and i: "mi_inst_addr_misaligned i = False" "mi_inst_access_fault i = False" "mi_illegal_inst i = False"
    "mi_ebreak i = False" "mi_ecall i = False"
    and ls: "mi_lsu_op i = LSU_NONE \<or> mi_lsu_op i \<in> {LSU_LOAD_W, LSU_STORE_W} \<and> in_ram (mi_alu_out i)"
    and csr: "mi_csr_op i = ZICSR_CSR_OP_NONE \<or> csr_mem_of (h_csr (mc_hart m)) (mi_csr_addr i) \<noteq> None"
  shows "mem_trap i (mc_hart m) = None"
proof -
  have p: "h_priv (mc_hart m) = PRIV_M" using c by (simp add: calm_def)
  have "\<not> mem_csr_illegal i (mc_hart m)"
    using csr csr_machine_access by (auto simp: mem_csr_illegal_def csr_illegal_def p)
  moreover have "\<not> lsu_misaligned (mi_lsu_op i) (mi_alu_out i) \<and> \<not> lsu_load_fault (mi_lsu_op i) PRIV_M (fst (lsu_src (mi_alu_out i)))
      \<and> \<not> lsu_store_fault (mi_lsu_op i) PRIV_M (fst (lsu_src (mi_alu_out i)))"
    using ls ram_src by (auto simp: lsu_misaligned_def lsu_load_fault_def lsu_store_fault_def is_load_def is_store_def in_ram_def)
  ultimately have "mem_exception i (mc_hart m) = None"
    using i p by (simp add: mem_exception_def exception_dispatch_def mem_flags_def Let_def)
  then show ?thesis using calm_no_interrupt [OF c] by (simp add: mem_trap_def)
qed

lemma no_mip_simps [simp]:
  "no_mip (c\<lparr>cs_mip := x\<rparr>) = no_mip c" "cs_mstatus (no_mip c) = cs_mstatus c" "cs_mscratch (no_mip c) = cs_mscratch c"
  "cs_mepc (no_mip c) = cs_mepc c" "cs_mcause (no_mip c) = cs_mcause c" "cs_mtvec (no_mip c) = cs_mtvec c"
  "no_mip (no_mip c) = no_mip c"
  by (simp_all add: no_mip_def)

lemma csr_no_mip:
  "isa_csr a (no_mip c) = isa_csr a c"
  "a \<noteq> ZICSR_CSR_MIP \<Longrightarrow> no_mip (csr_store a w c) = csr_store a w (no_mip c)"
  "a \<noteq> ZICSR_CSR_MIP \<Longrightarrow> csr_mem_of (no_mip c) a = csr_mem_of c a"
  by (auto simp: isa_csr_def csr_mem_of_def csr_store_def no_mip_def)

text \<open>The state after a clock edge without trap and without return from a trap.\<close>

lemma mem_cycle_no_trap:
  assumes "mem_trap i h = None" "\<not> mi_mret i" "\<not> mi_wfi i" "\<not> h_sleep h" "mi_valid i"
  shows "mem_cycle i e h = h\<lparr>h_csr := latch_mip e
      (if mi_csr_we i \<and> csr_accessible (h_csr h) (mi_csr_addr i) (h_priv h) True
       then csr_store (mi_csr_addr i) (csr_wval (h_csr h) (mi_csr_op i) (mi_csr_addr i) (if mi_csr_imm i then mi_csr_zimm i else mi_rs1 i)) (h_csr h)
       else h_csr h),
    h_dmem := mem_dmem i h\<rparr>"
  using assms
  by (auto simp: mem_cycle_def mem_csr_in_def csr_cycle_def priv_cycle_def trap_mode_cycle_def wfi_cycle_def latch_mip_def Let_def)

lemma cpu_of_sel [simp]:
  "c_reg (cpu_of m) r = reg_of m r" "c_regs (cpu_of m) = mc_regs m" "c_pc (cpu_of m) = mc_pc m"
  "c_csr (cpu_of m) = no_mip (h_csr (mc_hart m))" "c_ram (cpu_of m) = h_dmem (mc_hart m)"
  by (simp_all add: c_reg_def cpu_of_def reg_of_def)

section \<open>The hardware implements it\<close>

text \<open>A legal word that raises no flag, as seen without interrupt lines.\<close>

definition legal :: "u32 \<Rightarrow> step_in \<Rightarrow> machine \<Rightarrow> bool" where
  "legal w ei m \<longleftrightarrow> (let c = ctrl_of w ei m in
     \<not> cu_t_illegal_inst c \<and> \<not> cu_t_ecall c \<and> \<not> cu_t_ebreak c \<and> \<not> cu_trap_mret c \<and> \<not> cu_wfi_req c \<and>
     (cu_lsu_ls c = LSU_NONE \<or> cu_lsu_ls c \<in> {LSU_LOAD_W, LSU_STORE_W} \<and> in_ram (alu_out w c m)) \<and>
     (cu_csr_op c = ZICSR_CSR_OP_NONE \<and> \<not> cu_csr_we c \<or>
      cu_csr_op c \<noteq> ZICSR_CSR_OP_NONE \<and> cu_csr_data_sel c = ZICSR_DATA_RS1 \<and> csr_mem_of (h_csr (mc_hart m)) (cu_csr_addr c) \<noteq> None))"

lemma legal_exec:
  assumes c: "calm m" and f: "fetch_ok (mc_pc m)" and l: "legal w ei m" and cc: "cc = ctrl_of w ei m"
  shows "trap_of w ei m = None"
    "exec_word w ei m = m\<lparr>mc_regs := (if cu_regfile_we cc then set_reg_of (unat (cu_rd_addr cc)) (wb_value w cc (fst ei) m) (mc_regs m) else mc_regs m),
       mc_pc := next_pc w cc m, mc_hart := (mc_hart m)\<lparr>h_csr := latch_mip (fst ei)
         (if cu_csr_we cc then csr_store (cu_csr_addr cc) (csr_wval (h_csr (mc_hart m)) (cu_csr_op cc) (cu_csr_addr cc) (rs1_of cc m)) (h_csr (mc_hart m))
          else h_csr (mc_hart m)), h_dmem := mem_dmem (mem_in_of w cc m) (mc_hart m)\<rparr>\<rparr>"
proof -
  have t: "mem_trap (mem_in_of w cc m) (mc_hart m) = None"
    by (rule mem_trap_none [OF c]) (use f l in \<open>auto simp: legal_def Let_def fetch_ok_def cc\<close>)
  then show "trap_of w ei m = None" by (simp add: trap_of_def cc)
  have acc: "csr_accessible (h_csr (mc_hart m)) (cu_csr_addr cc) (h_priv (mc_hart m)) True" if "cu_csr_we cc"
    using that l c csr_machine_access [of "h_csr (mc_hart m)" "cu_csr_addr cc"] by (auto simp: legal_def Let_def calm_def cc)
  have "\<not> h_sleep (mc_hart m)" "\<not> cu_trap_mret cc" "\<not> cu_wfi_req cc" "cu_csr_we cc \<Longrightarrow> cu_csr_data_sel cc = ZICSR_DATA_RS1"
    using c l by (auto simp: calm_def legal_def Let_def cc)
  then show "exec_word w ei m = m\<lparr>mc_regs := (if cu_regfile_we cc then set_reg_of (unat (cu_rd_addr cc)) (wb_value w cc (fst ei) m) (mc_regs m) else mc_regs m),
       mc_pc := next_pc w cc m, mc_hart := (mc_hart m)\<lparr>h_csr := latch_mip (fst ei)
         (if cu_csr_we cc then csr_store (cu_csr_addr cc) (csr_wval (h_csr (mc_hart m)) (cu_csr_op cc) (cu_csr_addr cc) (rs1_of cc m)) (h_csr (mc_hart m))
          else h_csr (mc_hart m)), h_dmem := mem_dmem (mem_in_of w cc m) (mc_hart m)\<rparr>\<rparr>"
    using mem_cycle_no_trap [of "mem_in_of w cc m" "mc_hart m" "fst ei"] t acc
    unfolding exec_word_def Let_def cc [symmetric] by auto
qed

lemma cpu_of_update:
  "cpu_of (m\<lparr>mc_regs := f, mc_pc := a, mc_hart := (mc_hart m)\<lparr>h_csr := latch_mip e cs, h_dmem := d\<rparr>\<rparr>) =
   \<lparr>c_regs = f, c_pc = a, c_csr = no_mip cs, c_ram = d\<rparr>"
  by (simp add: cpu_of_def latch_mip_def)

lemma calm_update:
  "calm m \<Longrightarrow> \<not> bit (cs_mstatus cs) 3 \<Longrightarrow> calm (m\<lparr>mc_regs := f, mc_pc := a, mc_hart := (mc_hart m)\<lparr>h_csr := latch_mip e cs, h_dmem := d\<rparr>\<rparr>)"
  by (simp add: calm_def latch_mip_def)

definition implements :: "u32 \<Rightarrow> step_in \<Rightarrow> machine \<Rightarrow> cpu \<Rightarrow> bool" where
  "implements w ei m s \<longleftrightarrow> trap_of w ei m = None \<and> cpu_of (exec_word w ei m) = s \<and> calm (exec_word w ei m)"

lemma reg5: "r < 32 \<Longrightarrow> unat (of_nat r :: 5 word) = r"
  by (simp add: unat_of_nat)

lemma imm12_scast: "imm12 w \<Longrightarrow> scast (ucast w :: 12 word) = w"
  by (simp add: imm12_def)

text \<open>Instructions that do not touch the CSRs.\<close>

lemma plain_implements:
  assumes c: "calm m" and f: "fetch_ok (mc_pc m)" and l: "legal w ei m" and cc: "cc = ctrl_of w ei m" and we: "\<not> cu_csr_we cc"
    and s: "s = (cpu_of m)\<lparr>c_regs := (if cu_regfile_we cc then set_reg_of (unat (cu_rd_addr cc)) (wb_value w cc (fst ei) m) (mc_regs m) else mc_regs m),
       c_pc := next_pc w cc m, c_ram := mem_dmem (mem_in_of w cc m) (mc_hart m)\<rparr>"
  shows "implements w ei m s"
proof -
  have "\<not> bit (cs_mstatus (h_csr (mc_hart m))) 3" using c by (simp add: calm_def)
  then show ?thesis
    unfolding implements_def legal_exec(2) [OF c f l cc] cpu_of_update using legal_exec(1) [OF c f l cc] we calm_update [OF c] s
    by (auto intro!: cpu.equality)
qed

text \<open>The control signals of each instruction, as far as the stages look at them.\<close>

definition no_flags :: "ctrl \<Rightarrow> bool" where
  "no_flags c \<longleftrightarrow> \<not> cu_t_illegal_inst c \<and> \<not> cu_t_ecall c \<and> \<not> cu_t_ebreak c \<and> \<not> cu_trap_mret c \<and> \<not> cu_wfi_req c"

definition no_csr :: "ctrl \<Rightarrow> bool" where "no_csr c \<longleftrightarrow> cu_csr_op c = ZICSR_CSR_OP_NONE \<and> \<not> cu_csr_we c"

lemmas signal_simps = no_flags_def no_csr_def reg5 imm12_scast

lemma decode_lw:
  assumes "instr_ok (LW rd off rs1)" "w = encode (LW rd off rs1)" "c = cu w p old"
  shows "no_flags c" "no_csr c" "\<not> cu_bu_be c" "cu_lsu_ls c = LSU_LOAD_W" "cu_regfile_we c" "unat (cu_rd_addr c) = rd" "unat (cu_rs1_addr c) = rs1"
    "cu_alu_op c = ALU_ADD" "cu_alu_a_sel c = ALU_A_RS1" "cu_alu_b_sel c = ALU_B_IMM" "cu_reg_wb_sel c = REG_WB_LSU"
    "sign_ext w (cu_imm_sel c) = off"
proof -
  show "sign_ext w (cu_imm_sel c) = off"
    unfolding assms(3) assms(2) cu_encode(1) using assms(1) by (simp add: imm12_scast enc_i_fields del: OP_LOAD_def sign_ext.simps)
qed (use assms(1) in \<open>simp_all add: assms(3) assms(2) cu_encode signal_simps del: encode.simps\<close>)

lemma decode_sw:
  assumes "instr_ok (SW rs2 off rs1)" "w = encode (SW rs2 off rs1)" "c = cu w p old"
  shows "no_flags c" "no_csr c" "\<not> cu_bu_be c" "cu_lsu_ls c = LSU_STORE_W" "\<not> cu_regfile_we c" "unat (cu_rs1_addr c) = rs1" "unat (cu_rs2_addr c) = rs2"
    "cu_alu_op c = ALU_ADD" "cu_alu_a_sel c = ALU_A_RS1" "cu_alu_b_sel c = ALU_B_IMM" "sign_ext w (cu_imm_sel c) = off"
proof -
  show "sign_ext w (cu_imm_sel c) = off"
    unfolding assms(3) assms(2) cu_encode(2) using assms(1) by (simp add: imm12_scast enc_s_fields del: OP_STORE_def sign_ext.simps)
qed (use assms(1) in \<open>simp_all add: assms(3) assms(2) cu_encode signal_simps del: encode.simps\<close>)

lemma decode_addi:
  assumes "instr_ok (ADDI rd rs1 imm)" "w = encode (ADDI rd rs1 imm)" "c = cu w p old"
  shows "no_flags c" "no_csr c" "\<not> cu_bu_be c" "cu_lsu_ls c = LSU_NONE" "cu_regfile_we c" "unat (cu_rd_addr c) = rd" "unat (cu_rs1_addr c) = rs1"
    "cu_alu_op c = ALU_ADD" "cu_alu_a_sel c = ALU_A_RS1" "cu_alu_b_sel c = ALU_B_IMM" "cu_reg_wb_sel c = REG_WB_ALU"
    "sign_ext w (cu_imm_sel c) = imm"
proof -
  show "sign_ext w (cu_imm_sel c) = imm"
    unfolding assms(3) assms(2) cu_encode(3) using assms(1) by (simp add: imm12_scast enc_i_fields del: OP_CIMM_def sign_ext.simps)
qed (use assms(1) in \<open>simp_all add: assms(3) assms(2) cu_encode signal_simps del: encode.simps\<close>)

lemma decode_auipc:
  assumes "instr_ok (AUIPC rd hi)" "w = encode (AUIPC rd hi)" "c = cu w p old"
  shows "no_flags c" "no_csr c" "\<not> cu_bu_be c" "cu_lsu_ls c = LSU_NONE" "cu_regfile_we c" "unat (cu_rd_addr c) = rd"
    "cu_alu_op c = ALU_ADD" "cu_alu_a_sel c = ALU_A_PC" "cu_alu_b_sel c = ALU_B_IMM" "cu_reg_wb_sel c = REG_WB_ALU"
    "sign_ext w (cu_imm_sel c) = hi"
proof -
  show "sign_ext w (cu_imm_sel c) = hi"
    unfolding assms(3) assms(2) cu_encode(4) using assms(1) enc_u_fields(3) [of hi OP_AUIPC "of_nat rd"] by (simp del: OP_AUIPC_def sign_ext.simps)
qed (use assms(1) in \<open>simp_all add: assms(3) assms(2) cu_encode signal_simps del: encode.simps\<close>)

lemma decode_jalr:
  assumes "instr_ok (JALR rd rs1 imm)" "w = encode (JALR rd rs1 imm)" "c = cu w p old"
  shows "no_flags c" "no_csr c" "cu_bu_be c" "cu_bu_op c = BU_ALWAYS" "cu_lsu_ls c = LSU_NONE" "cu_regfile_we c" "unat (cu_rd_addr c) = rd"
    "unat (cu_rs1_addr c) = rs1" "cu_alu_op c = ALU_ADD" "cu_alu_a_sel c = ALU_A_RS1" "cu_alu_b_sel c = ALU_B_IMM" "cu_reg_wb_sel c = REG_WB_PC4"
    "sign_ext w (cu_imm_sel c) = imm"
proof -
  show "sign_ext w (cu_imm_sel c) = imm"
    unfolding assms(3) assms(2) cu_encode(5) using assms(1) by (simp add: imm12_scast enc_i_fields del: OP_JALR_def sign_ext.simps)
qed (use assms(1) in \<open>simp_all add: assms(3) assms(2) cu_encode signal_simps del: encode.simps\<close>)

lemma decode_csr:
  assumes "i = CSRRW rd csr rs1 \<or> i = CSRRS rd csr rs1" "instr_ok i" "w = encode i" "c = cu w p old"
  shows "no_flags c" "\<not> cu_bu_be c" "cu_lsu_ls c = LSU_NONE" "cu_regfile_we c" "unat (cu_rd_addr c) = rd" "unat (cu_rs1_addr c) = rs1"
    "cu_csr_addr c = csr" "cu_csr_data_sel c = ZICSR_DATA_RS1" "cu_reg_wb_sel c = REG_WB_CSR" "cu_csr_op c \<noteq> ZICSR_CSR_OP_NONE"
    "i = CSRRW rd csr rs1 \<Longrightarrow> cu_csr_op c = ZICSR_CSR_OP_RW \<and> cu_csr_we c"
    "i = CSRRS rd csr rs1 \<Longrightarrow> cu_csr_op c = ZICSR_CSR_OP_RS \<and> (cu_csr_we c \<longleftrightarrow> rs1 \<noteq> 0)"
proof -
  have "cu_csr_addr c = inst_csr (encode i)" using assms(1) by (auto simp: assms(4) assms(3) cu_encode_csr simp del: encode.simps)
  then show "cu_csr_addr c = csr" using assms(1) by (auto simp: enc_i_fields simp del: OP_SYSTEM_def)
  have "rs1 < 32" using assms(1,2) by auto
  then have "(of_nat rs1 :: 5 word) \<noteq> 0 \<longleftrightarrow> rs1 \<noteq> 0" using reg5 [of rs1] by (auto simp: word_unat_eq_iff)
  then show "i = CSRRS rd csr rs1 \<Longrightarrow> cu_csr_op c = ZICSR_CSR_OP_RS \<and> (cu_csr_we c \<longleftrightarrow> rs1 \<noteq> 0)"
    by (auto simp: assms(4) assms(3) cu_encode_csr signal_simps simp del: encode.simps)
qed (use assms(1,2) in \<open>auto simp: assms(4) assms(3) cu_encode_csr signal_simps simp del: encode.simps\<close>)

text \<open>Each instruction.\<close>

lemma legal_plain:
  assumes "c = ctrl_of w ei m" "no_flags c" "no_csr c"
    "cu_lsu_ls c = LSU_NONE \<or> cu_lsu_ls c \<in> {LSU_LOAD_W, LSU_STORE_W} \<and> in_ram (alu_out w c m)"
  shows "legal w ei m"
  using assms by (simp add: legal_def Let_def no_flags_def no_csr_def)

lemmas stage_simps = alu_out_def rs1_of_def rs2_of_def wb_value_def next_pc_def take_branch_def bu_def

lemma isa_plain:
  assumes c: "calm m" "fetch_ok (mc_pc m)" and ok: "instr_ok i" and s: "isa i (cpu_of m) = Some s"
    and i: "case i of CSRRW rd csr rs1 \<Rightarrow> False | CSRRS rd csr rs1 \<Rightarrow> False | _ \<Rightarrow> True"
  shows "implements (encode i) ei m s"
proof -
  define w where "w = encode i"
  define cc where "cc = ctrl_of w ei m"
  then have cu: "cc = cu w (h_priv (mc_hart m)) (snd ei)" by (simp add: ctrl_of_def)
  have fin: "implements w ei m s" if "no_flags cc" "no_csr cc"
      "cu_lsu_ls cc = LSU_NONE \<or> cu_lsu_ls cc \<in> {LSU_LOAD_W, LSU_STORE_W} \<and> in_ram (alu_out w cc m)"
      "s = (cpu_of m)\<lparr>c_regs := (if cu_regfile_we cc then set_reg_of (unat (cu_rd_addr cc)) (wb_value w cc (fst ei) m) (mc_regs m) else mc_regs m),
        c_pc := next_pc w cc m, c_ram := mem_dmem (mem_in_of w cc m) (mc_hart m)\<rparr>"
    using plain_implements [OF c legal_plain [OF cc_def that(1-3)] cc_def _ that(4)] that(2) by (simp add: no_csr_def)
  have nodmem: "cu_lsu_ls cc = LSU_NONE \<or> cu_lsu_ls cc = LSU_LOAD_W \<Longrightarrow> mem_dmem (mem_in_of w cc m) (mc_hart m) = h_dmem (mc_hart m)"
    by (auto simp: mem_dmem_def is_store_def split: prod.split)
  have "implements w ei m s"
  proof (cases i)
    case (LW rd off rs1)
    note d = decode_lw [OF ok [unfolded LW] w_def [unfolded LW] cu]
    have a: "in_ram (reg_of m rs1 + off)" "s = (set_c_reg rd (load_word (h_dmem (mc_hart m)) (reg_of m rs1 + off)) (cpu_of m))\<lparr>c_pc := mc_pc m + 4\<rparr>"
      using s LW by (auto simp: Let_def split: if_splits)
    have out: "alu_out w cc m = reg_of m rs1 + off" using d by (simp add: stage_simps)
    have "wb_value w cc (fst ei) m = load_word (h_dmem (mc_hart m)) (reg_of m rs1 + off)"
      using d out ram_src [OF a(1)] by (simp add: wb_value_def mem_rdata_def lsu_extend_def load_word_def)
    then show ?thesis using d a out by (intro fin) (auto simp: next_pc_def take_branch_def bu_def nodmem set_c_reg_def no_flags_def intro!: cpu.equality)
  next
    case (SW rs2 off rs1)
    note d = decode_sw [OF ok [unfolded SW] w_def [unfolded SW] cu]
    have a: "in_ram (reg_of m rs1 + off)" "s = (cpu_of m)\<lparr>c_ram := store_word (reg_of m rs1 + off) (reg_of m rs2) (h_dmem (mc_hart m)), c_pc := mc_pc m + 4\<rparr>"
      using s SW by (auto simp: Let_def split: if_splits)
    have out: "alu_out w cc m = reg_of m rs1 + off" using d by (simp add: stage_simps)
    have "trap_of w ei m = None"
      using legal_exec(1) [OF c legal_plain [OF cc_def d(1,2)] cc_def] d(4) a(1) out by simp
    then have "mem_dmem (mem_in_of w cc m) (mc_hart m) = store_word (reg_of m rs1 + off) (reg_of m rs2) (h_dmem (mc_hart m))"
      using d(4,7) out ram_src [OF a(1)]
      by (simp add: mem_dmem_def is_store_def store_word_def lsu_wdata_def lsu_wstrb_def trap_of_def cc_def rs2_of_def del: dmem_write.simps)
    then show ?thesis using d a out by (intro fin) (auto simp: next_pc_def take_branch_def bu_def no_flags_def intro!: cpu.equality)
  next
    case (ADDI rd rs1 imm)
    note d = decode_addi [OF ok [unfolded ADDI] w_def [unfolded ADDI] cu]
    show ?thesis using d s ADDI by (intro fin) (auto simp: stage_simps nodmem set_c_reg_def no_flags_def intro!: cpu.equality)
  next
    case (AUIPC rd hi)
    note d = decode_auipc [OF ok [unfolded AUIPC] w_def [unfolded AUIPC] cu]
    show ?thesis using d s AUIPC by (intro fin) (auto simp: stage_simps nodmem set_c_reg_def no_flags_def intro!: cpu.equality)
  next
    case (JALR rd rs1 imm)
    note d = decode_jalr [OF ok [unfolded JALR] w_def [unfolded JALR] cu]
    show ?thesis using d s JALR by (intro fin) (auto simp: stage_simps nodmem set_c_reg_def no_flags_def intro!: cpu.equality)
  qed (use s i in auto)
  then show ?thesis by (simp add: w_def)
qed

text \<open>The CSRs after a CSR instruction that reads \<open>v\<close>.\<close>

definition csr_after :: "instr \<Rightarrow> u32 \<Rightarrow> u32 \<Rightarrow> csr_regs \<Rightarrow> csr_regs" where
  "csr_after i v x c = (case i of CSRRW rd csr rs1 \<Rightarrow> csr_store csr x c
     | CSRRS rd csr rs1 \<Rightarrow> (if rs1 = 0 then c else csr_store csr (v OR x) c) | _ \<Rightarrow> c)"

lemma csr_instr_exec:
  assumes c: "calm m" "fetch_ok (mc_pc m)" and ok: "instr_ok i" and i: "i = CSRRW rd csr rs1 \<or> i = CSRRS rd csr rs1"
    and a: "isa_csr csr (h_csr (mc_hart m)) = Some v"
  shows "trap_of (encode i) ei m = None"
    "exec_word (encode i) ei m = m\<lparr>mc_regs := set_reg_of rd v (mc_regs m), mc_pc := mc_pc m + 4,
      mc_hart := (mc_hart m)\<lparr>h_csr := latch_mip (fst ei) (csr_after i v (reg_of m rs1) (h_csr (mc_hart m))), h_dmem := h_dmem (mc_hart m)\<rparr>\<rparr>"
proof -
  define w where "w = encode i"
  define cc where "cc = ctrl_of w ei m"
  then have cu: "cc = cu w (h_priv (mc_hart m)) (snd ei)" by (simp add: ctrl_of_def)
  note d = decode_csr [OF i ok w_def cu]
  let ?h = "h_csr (mc_hart m)"
  have mem_of: "csr_mem_of ?h csr = Some v" using a by (simp add: isa_csr_def split: if_splits)
  have l: "legal w ei m" using d mem_of by (simp add: legal_def cc_def [symmetric] Let_def no_flags_def)
  have v: "wb_value w cc (fst ei) m = v" using d(7,9) mem_of by (simp add: wb_value_def csr_rdata_def)
  have pc: "next_pc w cc m = mc_pc m + 4" using d(1,2) by (simp add: next_pc_def take_branch_def bu_def no_flags_def)
  have mem: "mem_dmem (mem_in_of w cc m) (mc_hart m) = h_dmem (mc_hart m)"
    using d(3) by (simp add: mem_dmem_def is_store_def split: prod.split)
  have st: "(if cu_csr_we cc then csr_store (cu_csr_addr cc) (csr_wval ?h (cu_csr_op cc) (cu_csr_addr cc) (rs1_of cc m)) ?h else ?h) =
      csr_after i v (reg_of m rs1) ?h"
    using i d(6,7,11,12) mem_of by (auto simp: csr_after_def csr_wval_def csr_rdata_def rs1_of_def)
  show "trap_of (encode i) ei m = None" using legal_exec(1) [OF c l cc_def] by (simp add: w_def)
  show "exec_word (encode i) ei m = m\<lparr>mc_regs := set_reg_of rd v (mc_regs m), mc_pc := mc_pc m + 4,
      mc_hart := (mc_hart m)\<lparr>h_csr := latch_mip (fst ei) (csr_after i v (reg_of m rs1) ?h), h_dmem := h_dmem (mc_hart m)\<rparr>\<rparr>"
    unfolding w_def [symmetric] legal_exec(2) [OF c l cc_def] v pc mem st using d(4,5) by simp
qed

lemma isa_csr_instr:
  assumes c: "calm m" "fetch_ok (mc_pc m)" and ok: "instr_ok i" and s: "isa i (cpu_of m) = Some s"
    and i: "i = CSRRW rd csr rs1 \<or> i = CSRRS rd csr rs1"
  shows "implements (encode i) ei m s"
proof -
  let ?h = "h_csr (mc_hart m)"
  obtain v where v: "isa_csr csr ?h = Some v" using s i by (auto simp: csr_no_mip split: option.splits if_splits)
  then have a: "csr \<noteq> ZICSR_CSR_MIP" "i = CSRRS rd csr rs1 \<Longrightarrow> rs1 = 0" "i = CSRRW rd csr rs1 \<Longrightarrow> csr = ZICSR_CSR_MSTATUS \<Longrightarrow> \<not> bit (reg_of m rs1) 3"
    using s i by (auto simp: csr_no_mip isa_csr_def split: option.splits if_splits)
  note x = csr_instr_exec [OF c ok i v, of ei]
  have "\<not> bit (cs_mstatus (csr_after i v (reg_of m rs1) ?h)) 3" using a(2,3) i c(1)
    by (auto simp: csr_after_def csr_store_def calm_def split: if_splits)
  then have "calm (exec_word (encode i) ei m)" unfolding x(2) by (rule calm_update [OF c(1)])
  moreover have "cpu_of (exec_word (encode i) ei m) = s"
    unfolding x(2) cpu_of_update using s i v a(1,2)
    by (auto simp: csr_no_mip csr_after_def set_c_reg_def split: option.splits if_splits intro!: cpu.equality)
  ultimately show ?thesis using x(1) by (simp add: implements_def)
qed

lemma isa_implemented:
  assumes "calm m" "fetch_ok (mc_pc m)" "instr_ok i" "isa i (cpu_of m) = Some s"
  shows "implements (encode i) ei m s"
proof (cases "\<exists>rd csr rs1. i = CSRRW rd csr rs1 \<or> i = CSRRS rd csr rs1")
  case True
  then show ?thesis using isa_csr_instr [OF assms] by blast
next
  case False
  then show ?thesis by (intro isa_plain [OF assms]) (cases i; simp)
qed

lemma exec_mret:
  assumes "calm m" "fetch_ok (mc_pc m)"
  shows "exec_word INST_EXACT_MRET e m = m\<lparr>mc_pc := cs_mepc (h_csr (mc_hart m)), mc_hart := (mc_hart m)\<lparr>
    h_csr := latch_mip (fst e) ((h_csr (mc_hart m))\<lparr>cs_mstatus := put_mpp PRIV_U (put_bit 7 True
      (put_bit 3 (bit (cs_mstatus (h_csr (mc_hart m))) 7) (cs_mstatus (h_csr (mc_hart m)))))\<rparr>),
    h_priv := get_mpp (cs_mstatus (h_csr (mc_hart m))), h_trap_mode := False\<rparr>\<rparr>"
proof -
  define c where "c = ctrl_of INST_EXACT_MRET e m"
  have c: "c = (cu_defaults INST_EXACT_MRET (snd e))\<lparr>cu_trap_mret := True\<rparr>"
    unfolding c_def ctrl_of_def using assms(1) by (simp add: calm_def cu_mret)
  have t: "mem_trap (mem_in_of INST_EXACT_MRET c m) (mc_hart m) = None"
    by (rule mem_trap_none [OF assms(1)]) (use assms(2) in \<open>simp_all add: c fetch_ok_def not_less\<close>)
  show ?thesis using t assms(1)
    by (simp add: exec_word_def c_def [symmetric] mem_cycle_def mem_csr_in_def csr_cycle_def priv_cycle_def trap_mode_cycle_def wfi_cycle_def
        mem_dmem_def is_store_def latch_mip_def next_pc_def calm_def c Let_def split: prod.split)
qed

section \<open>The RISC-V manual's semantics\<close>

text \<open>
  The instructions of the boot assembly as the RISC-V manual defines them, in machine mode, on registers, program counter,
  CSRs, memory and privilege mode; \<open>None\<close> where the manual asks for an exception, where a load or store
  leaves the data memory, and where a CSR field would be given a value the manual does not let it hold (\<open>mip\<close>, which the
  interrupt lines write, is not accessed either).  \<open>jalr\<close> clears bit 0 of its target; \<open>mret\<close> goes back to
  the mode in \<open>MPP\<close>.
\<close>

definition csr_keeps :: "u12 \<Rightarrow> u32 \<Rightarrow> bool" where
  "csr_keeps csr w \<longleftrightarrow> (csr = ZICSR_CSR_MEPC \<longrightarrow> take_bit 2 w = 0) \<and> (csr = ZICSR_CSR_MSTATUS \<longrightarrow> get_mpp w \<in> {PRIV_U, PRIV_M})"

fun riscv :: "instr \<Rightarrow> cpu \<times> u2 \<Rightarrow> (cpu \<times> u2) option" where
  "riscv (LW rd off rs1) (s, p) = (let a = c_reg s rs1 + off in
     if in_ram a then Some ((set_c_reg rd (load_word (c_ram s) a) s)\<lparr>c_pc := c_pc s + 4\<rparr>, p) else None)"
| "riscv (SW rs2 off rs1) (s, p) = (let a = c_reg s rs1 + off in
     if in_ram a then Some (s\<lparr>c_ram := store_word a (c_reg s rs2) (c_ram s), c_pc := c_pc s + 4\<rparr>, p) else None)"
| "riscv (ADDI rd rs1 imm) (s, p) = Some ((set_c_reg rd (c_reg s rs1 + imm) s)\<lparr>c_pc := c_pc s + 4\<rparr>, p)"
| "riscv (CSRRW rd csr rs1) (s, p) = (case isa_csr csr (c_csr s) of None \<Rightarrow> None | Some v \<Rightarrow>
     if csr_keeps csr (c_reg s rs1) then
       Some ((set_c_reg rd v s)\<lparr>c_csr := csr_store csr (c_reg s rs1) (c_csr s), c_pc := c_pc s + 4\<rparr>, p)
     else None)"
| "riscv (CSRRS rd csr rs1) (s, p) = (case isa_csr csr (c_csr s) of None \<Rightarrow> None | Some v \<Rightarrow>
     if rs1 = 0 then Some ((set_c_reg rd v s)\<lparr>c_pc := c_pc s + 4\<rparr>, p)
     else if csr_keeps csr (v OR c_reg s rs1) then
       Some ((set_c_reg rd v s)\<lparr>c_csr := csr_store csr (v OR c_reg s rs1) (c_csr s), c_pc := c_pc s + 4\<rparr>, p)
     else None)"
| "riscv (AUIPC rd hi) (s, p) = Some ((set_c_reg rd (c_pc s + hi) s)\<lparr>c_pc := c_pc s + 4\<rparr>, p)"
| "riscv (JALR rd rs1 imm) (s, p) = (let t = (c_reg s rs1 + imm) AND NOT 1 in
     if bit t 1 then None else Some ((set_c_reg rd (c_pc s + 4) s)\<lparr>c_pc := t\<rparr>, p))"
| "riscv MRET (s, p) = (let st = cs_mstatus (c_csr s) in
     if take_bit 2 (cs_mepc (c_csr s)) = 0 \<and> get_mpp st \<in> {PRIV_U, PRIV_M} then
       Some (s\<lparr>c_pc := cs_mepc (c_csr s),
         c_csr := (c_csr s)\<lparr>cs_mstatus := put_mpp PRIV_U (put_bit 7 True (put_bit 3 (bit st 7) st))\<rparr>\<rparr>, get_mpp st)
     else None)"

definition odd_jump :: "instr \<Rightarrow> cpu \<Rightarrow> bool" where
  "odd_jump i s \<longleftrightarrow> (case i of JALR rd rs1 imm \<Rightarrow> bit (c_reg s rs1 + imm) 0 | _ \<Rightarrow> False)"

definition riscv_of :: "machine \<Rightarrow> cpu \<times> u2" where "riscv_of m = (cpu_of m, h_priv (mc_hart m))"

lemma riscv_csr:
  assumes c: "calm m" "fetch_ok (mc_pc m)" and ok: "instr_ok i" and r: "riscv i (riscv_of m) = Some sp'"
    and i: "i = CSRRW rd csr rs1 \<or> i = CSRRS rd csr rs1"
  shows "trap_of (encode i) ei m = None \<and> riscv_of (exec_word (encode i) ei m) = sp'"
proof -
  obtain v where v: "isa_csr csr (h_csr (mc_hart m)) = Some v"
    using r i by (auto simp: riscv_of_def csr_no_mip split: option.splits)
  then have "csr \<noteq> ZICSR_CSR_MIP" by (auto simp: isa_csr_def)
  then have "riscv_of (exec_word (encode i) ei m) = sp'"
    unfolding riscv_of_def csr_instr_exec(2) [OF c ok i v] cpu_of_update using r i v
    by (auto simp: riscv_of_def csr_no_mip csr_after_def set_c_reg_def split: if_splits intro!: cpu.equality)
  then show ?thesis using csr_instr_exec(1) [OF c ok i v] by simp
qed

lemma riscv_mret:
  assumes c: "calm m" "fetch_ok (mc_pc m)" and r: "riscv MRET (riscv_of m) = Some sp'"
  shows "trap_of (encode MRET) ei m = None \<and> riscv_of (exec_word (encode MRET) ei m) = sp'"
proof -
  have "ctrl_of INST_EXACT_MRET ei m = (cu_defaults INST_EXACT_MRET (snd ei))\<lparr>cu_trap_mret := True\<rparr>"
    unfolding ctrl_of_def using c(1) by (simp add: calm_def cu_mret)
  then have "trap_of INST_EXACT_MRET ei m = None"
    unfolding trap_of_def by (intro mem_trap_none [OF c(1)]) (use c(2) in \<open>simp_all add: fetch_ok_def not_less\<close>)
  then show ?thesis using r exec_mret [OF c, of ei]
    by (auto simp: riscv_of_def cpu_of_def no_mip_def latch_mip_def Let_def split: if_splits)
qed

lemma riscv_isa:
  assumes r: "riscv i (s, p) = Some sp'" and i: "\<forall>rd csr rs1. i \<noteq> CSRRW rd csr rs1 \<and> i \<noteq> CSRRS rd csr rs1" "i \<noteq> MRET"
  shows "isa i s = Some ((fst sp')\<lparr>c_pc := c_pc (fst sp') + (if odd_jump i s then 1 else 0)\<rparr>) \<and> snd sp' = p"
proof -
  have jump: "(t AND NOT 1) + (if bit t 0 then 1 else 0) = (t :: u32)" for t
  proof -
    have "t AND 1 = (if bit t 0 then 1 else 0)" by (simp add: and_one_eq bit_0 odd_iff_mod_2_eq_one)
    moreover have "(t AND NOT 1) + (t AND 1) = (t AND NOT 1) OR (t AND 1)"
      by (rule disjunctive_add_eq_or) (rule bit_word_eqI, auto simp: bit_simps)
    moreover have "(t AND NOT 1) OR (t AND 1) = t" by (rule bit_word_eqI) (auto simp: bit_simps)
    ultimately show ?thesis by simp
  qed
  have even: "t AND - 2 = t" if "\<not> bit t 0" for t :: u32 using jump [of t] that by simp
  have odd: "(t AND - 2) + 1 = t" if "bit t 0" for t :: u32 using jump [of t] that by simp
  show ?thesis using r i by (cases i) (auto simp: odd_jump_def set_c_reg_def Let_def even odd split: if_splits)
qed

text \<open>
  C10: In machine mode with interrupts off the hardware runs the machine code of the boot assembly's instructions as the
  RISC-V manual says, \<open>mret\<close> included: the 32-bit word, taken apart by the control unit and
  sent through operands, arithmetic, memory stage and write-back, does not trap and has on
  registers, program counter, CSRs, memory and privilege mode exactly the effect of \<open>riscv\<close>, whatever the devices drive,
  whichever interrupts are pending and whatever the control unit's outputs were before.  The one exception is a
  \<open>jalr\<close> to an odd target, whose bit 0 the hardware does not clear: it goes on one byte further.
\<close>

theorem machine_code_as_isa:
  assumes c: "calm m" "fetch_ok (mc_pc m)" and ok: "instr_ok i" and r: "riscv i (riscv_of m) = Some (s, p)"
  shows "trap_of (encode i) ei m = None \<and>
    riscv_of (exec_word (encode i) ei m) = (s\<lparr>c_pc := c_pc s + (if odd_jump i (cpu_of m) then 1 else 0)\<rparr>, p)"
proof (cases "\<exists>rd csr rs1. i = CSRRW rd csr rs1 \<or> i = CSRRS rd csr rs1")
  case True
  then obtain rd csr rs1 where i: "i = CSRRW rd csr rs1 \<or> i = CSRRS rd csr rs1" by blast
  then have "\<not> odd_jump i (cpu_of m)" by (auto simp: odd_jump_def)
  then show ?thesis using riscv_csr [OF c ok r i, of ei] by simp
next
  case False
  show ?thesis
  proof (cases "i = MRET")
    case True
    then show ?thesis using riscv_mret [OF c, of "(s, p)" ei] r by (simp add: odd_jump_def)
  next
    case plain: False
    have "isa i (cpu_of m) = Some (s\<lparr>c_pc := c_pc s + (if odd_jump i (cpu_of m) then 1 else 0)\<rparr>)" "p = h_priv (mc_hart m)"
      using riscv_isa [of i "cpu_of m" "h_priv (mc_hart m)" "(s, p)"] r False plain by (auto simp: riscv_of_def)
    then show ?thesis using isa_implemented [OF c ok] c(1) by (auto simp: implements_def riscv_of_def calm_def)
  qed
qed

section \<open>Straight-line code\<close>

fun isa_run :: "instr list \<Rightarrow> cpu \<Rightarrow> cpu option" where
  "isa_run [] s = Some s"
| "isa_run (i # is) s = (case isa i s of None \<Rightarrow> None | Some s' \<Rightarrow> isa_run is s')"

lemma isa_run_append: "isa_run (is @ js) s = (case isa_run is s of None \<Rightarrow> None | Some s' \<Rightarrow> isa_run js s')"
  by (induction "is" arbitrary: s) (auto split: option.split)

definition falls :: "instr \<Rightarrow> bool" where "falls i \<longleftrightarrow> (case i of JALR rd rs1 imm \<Rightarrow> False | MRET \<Rightarrow> False | _ \<Rightarrow> True)"

lemma falls_pc: "falls i \<Longrightarrow> isa i s = Some s' \<Longrightarrow> c_pc s' = c_pc s + 4"
  by (cases i) (auto simp: falls_def set_c_reg_def Let_def split: if_splits option.splits)

text \<open>A block runs on the machine as on the instruction-set view; its last instruction may jump.\<close>

lemma run_block:
  assumes "placed rom (mc_pc m) is" "isa_run is (cpu_of m) = Some s" "calm m" "length es = length is"
    "\<forall>i \<in> set (butlast is). falls i" "\<forall>i \<in> set is. instr_ok i"
  shows "cpu_of (run_rom rom es m) = s \<and> calm (run_rom rom es m)"
  using assms
proof (induction "is" arbitrary: m es)
  case (Cons i js)
  from Cons.prems(4) obtain e fs where es: "es = e # fs" "length fs = length js" by (cases es) auto
  from Cons.prems(2) obtain s1 where s1: "isa i (cpu_of m) = Some s1" "isa_run js s1 = Some s" by (auto split: option.splits)
  have code: "fetch_ok (mc_pc m)" "rom (mc_pc m) = encode i" "placed rom (mc_pc m + 4) js" using Cons.prems(1) by simp_all
  let ?m1 = "exec_word (rom (mc_pc m)) e m"
  have m1: "cpu_of ?m1 = s1" "calm ?m1"
    using isa_implemented [OF Cons.prems(3) code(1) _ s1(1), of e] Cons.prems(6) code(2) by (simp_all add: implements_def)
  have run: "run_rom rom es m = run_rom rom fs ?m1" by (simp add: es(1))
  show ?case
  proof (cases "js = []")
    case True
    then show ?thesis using run es(2) m1 s1(2) by simp
  next
    case False
    then have f: "falls i" "\<forall>j \<in> set (butlast js). falls j" using Cons.prems(5) by auto
    have "mc_pc ?m1 = mc_pc m + 4" using falls_pc [OF f(1) s1(1)] m1(1) by (metis cpu_of_sel(3))
    then show ?thesis using Cons.IH [of ?m1 fs] code(3) m1 s1(2) es(2) f(2) Cons.prems(6) unfolding run by simp
  qed
qed simp

end
