(* ===== verification/Asm_Trap.thy ===== *)
theory Asm_Trap
  imports Asm_Isa
begin

text \<open>
  The assembly of \<open>enter_context\<close> and \<open>trap_entry\<close> executed: frames in memory, the blocks that store
  and load registers, the return from a trap.
\<close>

section \<open>Frames in memory\<close>

text \<open>The 36 words of a frame lie in the data memory.\<close>

definition frame_ok :: "u32 \<Rightarrow> bool" where
  "frame_ok b \<longleftrightarrow> 0x80000000 \<le> b \<and> b \<le> 0x8000ff70 \<and> take_bit 2 b = 0"

definition slot :: "u32 \<Rightarrow> nat \<Rightarrow> u32" where "slot b k = b + of_nat (4 * k)"

definition frame_word :: "dmem \<Rightarrow> u32 \<Rightarrow> nat \<Rightarrow> u32" where "frame_word d b k = load_word d (slot b k)"

definition context_at :: "dmem \<Rightarrow> u32 \<Rightarrow> cpu_context" where
  "context_at d b = \<lparr>ctx_regs = map (frame_word d b) [0..<32], ctx_mstatus = frame_word d b 32, ctx_pc = frame_word d b 33\<rparr>"

definition frame_at :: "dmem \<Rightarrow> u32 \<Rightarrow> trap_frame" where
  "frame_at d b = \<lparr>tf_ctx = context_at d b, tf_mcause = frame_word d b 34\<rparr>"

lemma slot_unat:
  assumes "frame_ok b" "k < 36"
  shows "unat (slot b k) = unat b + 4 * k"
proof -
  have "unat b \<le> 0x8000ff70" using assms(1) by (simp add: frame_ok_def word_le_nat_alt)
  then show ?thesis using assms(2) unfolding slot_def by (intro u32_shift_unat) simp
qed

lemma slot_in_ram:
  assumes b: "frame_ok b" and k: "k < 36"
  shows "in_ram (slot b k)"
proof -
  have r: "0x80000000 \<le> unat b" "unat b \<le> 0x8000ff70" "unat b mod 4 = 0"
    using b unat_take_bit_mod [of 2 b] by (simp_all add: frame_ok_def word_le_nat_alt)
  have "unat (slot b k) mod 4 = 0" unfolding slot_unat [OF b k] using r(3) by presburger
  then have "unat (take_bit 2 (slot b k)) = 0" unfolding unat_take_bit_mod by simp
  then have "take_bit 2 (slot b k) = 0" by (rule unat_eq_zero [THEN iffD1])
  then show ?thesis using slot_unat [OF b k] r(1,2) k by (simp add: in_ram_def word_le_nat_alt)
qed

lemma slot_inj: "\<lbrakk>frame_ok b; k < 36; l < 36\<rbrakk> \<Longrightarrow> slot b k = slot b l \<longleftrightarrow> k = l"
  using slot_unat [of b k] slot_unat [of b l] by (metis add_left_cancel mult_cancel1 zero_neq_numeral)

lemma frame_word_store:
  "\<lbrakk>frame_ok b; k < 36; l < 36\<rbrakk> \<Longrightarrow> frame_word (store_word (slot b l) w d) b k = (if k = l then w else frame_word d b k)"
  using slot_in_ram slot_inj by (auto simp: frame_word_def load_store_same load_store_other)

text \<open>Bytes outside the frame.\<close>

definition outside :: "u32 \<Rightarrow> u32 \<Rightarrow> bool" where
  "outside b x \<longleftrightarrow> unat x + 0x80000000 < unat b \<or> unat b + 144 \<le> unat x + 0x80000000"

lemma store_word_outside:
  assumes b: "frame_ok b" and k: "k < 36" and x: "outside b x"
  shows "store_word (slot b k) w d x = d x"
proof (rule store_word_elsewhere, intro allI impI notI)
  fix j :: nat assume j: "j < 4" "x = slot b k - 0x80000000 + of_nat j"
  have "0x80000000 \<le> slot b k" using slot_in_ram [OF b k] by (simp add: in_ram_def)
  then have "unat (slot b k - 0x80000000) = unat b + 4 * k - 0x80000000" using slot_unat [OF b k] by (simp add: unat_sub)
  then have "unat x = unat b + 4 * k - 0x80000000 + j" using byte_index(1) [OF slot_in_ram [OF b k] j(1)] j(2) by simp
  moreover have "0x80000000 \<le> unat b" using b by (simp add: frame_ok_def word_le_nat_alt)
  ultimately show False using x j(1) k by (auto simp: outside_def)
qed

section \<open>Storing and loading registers\<close>

definition store_regs :: "u32 \<Rightarrow> (nat \<Rightarrow> u32) \<Rightarrow> nat list \<Rightarrow> dmem \<Rightarrow> dmem" where
  "store_regs b f rs d = fold (\<lambda>r. store_word (slot b r) (f r)) rs d"

lemma store_regs_word:
  "\<lbrakk>frame_ok b; k < 36; \<forall>r \<in> set rs. r < 36\<rbrakk> \<Longrightarrow>
   frame_word (store_regs b f rs d) b k = (if k \<in> set rs then f k else frame_word d b k)"
  by (induction rs arbitrary: d) (auto simp: store_regs_def frame_word_store)

lemma store_regs_outside:
  "\<lbrakk>frame_ok b; outside b x; \<forall>r \<in> set rs. r < 36\<rbrakk> \<Longrightarrow> store_regs b f rs d x = d x"
  by (induction rs arbitrary: d) (auto simp: store_regs_def store_word_outside)

lemma isa_run_stores:
  assumes "frame_ok (c_reg s base)"
  shows "\<forall>r \<in> set rs. r < 36 \<Longrightarrow> isa_run (map (\<lambda>r. SW r (of_nat (4 * r)) base) rs) s =
    Some (s\<lparr>c_ram := store_regs (c_reg s base) (c_reg s) rs (c_ram s), c_pc := c_pc s + of_nat (4 * length rs)\<rparr>)"
  using assms
proof (induction rs arbitrary: s)
  case (Cons r rs)
  have "in_ram (slot (c_reg s base) r)" using Cons.prems by (intro slot_in_ram) simp_all
  then have step: "isa (SW r (of_nat (4 * r)) base) s =
      Some (s\<lparr>c_ram := store_word (slot (c_reg s base) r) (c_reg s r) (c_ram s), c_pc := c_pc s + 4\<rparr>)" (is "_ = Some ?s")
    by (simp add: slot_def)
  have same: "c_reg ?s x = c_reg s x" for x by (simp add: c_reg_def)
  have fok: "frame_ok (c_reg ?s base)" unfolding same by (rule Cons.prems(2))
  have "\<forall>r \<in> set rs. r < 36" using Cons.prems(1) by simp
  from Cons.IH [OF this fok] show ?case
    unfolding list.map isa_run.simps step option.case same [abs_def] by (simp add: store_regs_def)
qed (simp add: store_regs_def)

definition load_regs :: "u32 \<Rightarrow> dmem \<Rightarrow> nat list \<Rightarrow> (nat \<Rightarrow> u32) \<Rightarrow> nat \<Rightarrow> u32" where
  "load_regs b d rs f x = (if x \<in> set rs then frame_word d b x else f x)"

lemma isa_run_loads:
  assumes "frame_ok (c_reg s base)" "base \<notin> set rs"
  shows "\<forall>r \<in> set rs. 0 < r \<and> r < 36 \<Longrightarrow> isa_run (map (\<lambda>r. LW r (of_nat (4 * r)) base) rs) s =
    Some (s\<lparr>c_regs := load_regs (c_reg s base) (c_ram s) rs (c_regs s), c_pc := c_pc s + of_nat (4 * length rs)\<rparr>)"
  using assms
proof (induction rs arbitrary: s)
  case (Cons r rs)
  have "in_ram (slot (c_reg s base) r)" using Cons.prems by (intro slot_in_ram) simp_all
  then have step: "isa (LW r (of_nat (4 * r)) base) s =
      Some (s\<lparr>c_regs := (c_regs s)(r := frame_word (c_ram s) (c_reg s base) r), c_pc := c_pc s + 4\<rparr>)" (is "_ = Some ?s")
    using Cons.prems(1) by (simp add: set_c_reg_def set_reg_of_def frame_word_def slot_def)
  have base: "c_reg ?s base = c_reg s base" using Cons.prems(3) by (auto simp: c_reg_def)
  have "frame_ok (c_reg ?s base)" "base \<notin> set rs" "\<forall>r \<in> set rs. 0 < r \<and> r < 36"
    unfolding base using Cons.prems by simp_all
  from Cons.IH [OF this(3,1,2)] show ?case unfolding list.map isa_run.simps step option.case base
    by (auto simp: load_regs_def fun_eq_iff intro!: cpu.equality)
qed (auto simp: load_regs_def fun_eq_iff intro!: cpu.equality)

section \<open>The programs on the instruction-set view\<close>

lemma slot_numeral:
  "slot b 2 = b + 8" "slot b 10 = b + 40" "slot b 32 = b + 128" "slot b 33 = b + 132" "slot b 34 = b + 136"
  by (simp_all add: slot_def)

lemma frame_in_ram:
  assumes "frame_ok b"
  shows "in_ram (b + 8)" "in_ram (b + 40)" "in_ram (b + 128)" "in_ram (b + 132)" "in_ram (b + 136)"
  using slot_in_ram [OF assms, of 2] slot_in_ram [OF assms, of 10] slot_in_ram [OF assms, of 32] slot_in_ram [OF assms, of 33]
    slot_in_ram [OF assms, of 34] unfolding slot_numeral by simp_all

text \<open>The registers that both blocks move: all but \<open>sp\<close>.\<close>

definition block_regs :: "nat list" where "block_regs = 1 # [3..<32]"

lemma block_regs_set: "set block_regs = {1..<32} - {2}"
  by (auto simp: block_regs_def simp del: upt_rec_numeral)

lemma block_regs_all: "\<forall>r \<in> set block_regs. 0 < r \<and> r < 36" "\<forall>r \<in> set block_regs. r < 36" "2 \<notin> set block_regs" "length block_regs = 30"
  by (simp_all add: block_regs_set) (simp add: block_regs_def)

lemma upt_3_32: "[3..<32] = [3, 4, 5, 6, 7, 8, 9, 10, 11, 12, 13, 14, 15, 16, 17, 18, 19, 20, 21, 22, 23, 24, 25, 26, 27, 28, 29, 30, 31 :: nat]"
  by (simp add: upt_rec)

definition save_head :: "instr list" where
  "save_head = [CSRRW sp ZICSR_CSR_MSCRATCH sp, ADDI sp sp (- 144)]"

definition save_tail :: "u32 \<Rightarrow> u32 \<Rightarrow> instr list" where
  "save_tail base h = [CSRR t0 ZICSR_CSR_MSCRATCH, SW t0 8 sp, CSRR t0 ZICSR_CSR_MSTATUS, SW t0 128 sp, CSRR t0 ZICSR_CSR_MEPC, SW t0 132 sp,
     CSRR t0 ZICSR_CSR_MCAUSE, SW t0 136 sp, MV a0 sp] @ CALL (base + 164) h"

lemma trap_entry_save_blocks:
  "trap_entry_save base h = save_head @ map (\<lambda>r. SW r (of_nat (4 * r)) sp) block_regs @ save_tail base h"
  by (simp add: trap_entry_save_def save_head_def save_tail_def block_regs_def upt_3_32)

definition restore_head :: "instr list" where
  "restore_head = [LW t0 8 sp, CSRW ZICSR_CSR_MSCRATCH t0, LW t0 128 sp, CSRW ZICSR_CSR_MSTATUS t0, LW t0 132 sp, CSRW ZICSR_CSR_MEPC t0]"

definition restore_tail :: "instr list" where
  "restore_tail = [ADDI sp sp 144, CSRRW sp ZICSR_CSR_MSCRATCH sp]"

lemma trap_entry_restore_blocks:
  "trap_entry_restore = (restore_head @ map (\<lambda>r. LW r (of_nat (4 * r)) sp) block_regs @ restore_tail) @ [MRET]"
  by (simp add: trap_entry_restore_def restore_head_def restore_tail_def block_regs_def upt_3_32)

definition enter_head :: "instr list" where
  "enter_head = [LW t0 128 a0, LW t1 132 a0, CSRW ZICSR_CSR_MEPC t1, CSRW ZICSR_CSR_MSTATUS t0]"

definition enter_regs :: "nat list" where "enter_regs = [1..<10] @ [11..<32]"

lemma enter_regs_all: "set enter_regs = {1..<32} - {10}" "\<forall>r \<in> set enter_regs. 0 < r \<and> r < 36" "10 \<notin> set enter_regs" "length enter_regs = 30"
  by (auto simp: enter_regs_def simp del: upt_rec_numeral)

definition enter_tail :: "instr list" where "enter_tail = [LW a0 40 a0]"

lemma enter_context_blocks:
  "enter_context = (enter_head @ map (\<lambda>r. LW r (of_nat (4 * r)) a0) enter_regs @ enter_tail) @ [MRET]"
  by (simp add: enter_context_def enter_head_def enter_tail_def enter_regs_def upt_rec)

text \<open>Looking up and storing CSRs.\<close>

lemma isa_csr_names [simp]:
  "isa_csr 0x340 c = Some (cs_mscratch c)" "isa_csr 0x300 c = Some (cs_mstatus c)" "isa_csr 0x341 c = Some (cs_mepc c)"
  "isa_csr 0x342 c = Some (cs_mcause c)"
  "csr_store 0x340 w c = c\<lparr>cs_mscratch := w\<rparr>" "csr_store 0x300 w c = c\<lparr>cs_mstatus := w\<rparr>" "csr_store 0x341 w c = c\<lparr>cs_mepc := w\<rparr>"
  by (simp_all add: isa_csr_def csr_mem_of_def csr_store_def)

lemmas isa_simps = set_c_reg_def set_reg_of_def c_reg_def Let_def

lemma isa_save_head:
  "isa_run save_head s = Some (s\<lparr>c_regs := (c_regs s)(2 := cs_mscratch (c_csr s) - 144),
     c_csr := (c_csr s)\<lparr>cs_mscratch := c_regs s 2\<rparr>, c_pc := c_pc s + 8\<rparr>)"
  by (simp add: save_head_def isa_simps)

lemma isa_save_tail:
  assumes "frame_ok (c_regs s 2)" "c_pc s = base + 128"
  shows "isa_run (save_tail base h) s = Some (s\<lparr>c_regs := (c_regs s)(5 := cs_mcause (c_csr s), 10 := c_regs s 2, 1 := c_pc s + 44), c_pc := h,
    c_ram := store_word (slot (c_regs s 2) 34) (cs_mcause (c_csr s)) (store_word (slot (c_regs s 2) 33) (cs_mepc (c_csr s))
      (store_word (slot (c_regs s 2) 32) (cs_mstatus (c_csr s)) (store_word (slot (c_regs s 2) 2) (cs_mscratch (c_csr s)) (c_ram s))))\<rparr>)"
  using frame_in_ram [OF assms(1)] assms(2) pcrel_parts(1) [of "h - (base + 164)"]
  by (auto simp: save_tail_def CALL_def isa_simps slot_numeral add.assoc intro!: cpu.equality)

text \<open>The saving half: the frame lies below the kernel's stack pointer, which was in \<open>mscratch\<close>.\<close>

lemma isa_save:
  assumes b: "b = cs_mscratch (c_csr s) - 144" "frame_ok b" and pc: "c_pc s = base"
  shows "\<exists>d. isa_run (trap_entry_save base h) s =
      Some \<lparr>c_regs = (c_regs s)(2 := b, 5 := cs_mcause (c_csr s), 10 := b, 1 := c_pc s + 172), c_pc = h,
        c_csr = (c_csr s)\<lparr>cs_mscratch := c_regs s 2\<rparr>, c_ram = d\<rparr> \<and>
    (\<forall>k. 0 < k \<longrightarrow> k < 32 \<longrightarrow> frame_word d b k = c_regs s k) \<and> frame_word d b 0 = frame_word (c_ram s) b 0 \<and>
    frame_word d b 32 = cs_mstatus (c_csr s) \<and> frame_word d b 33 = cs_mepc (c_csr s) \<and> frame_word d b 34 = cs_mcause (c_csr s) \<and>
    (\<forall>x. outside b x \<longrightarrow> d x = c_ram s x)"
proof -
  let ?s1 = "s\<lparr>c_regs := (c_regs s)(2 := b), c_csr := (c_csr s)\<lparr>cs_mscratch := c_regs s 2\<rparr>, c_pc := c_pc s + 8\<rparr>"
  let ?d = "store_regs b (c_reg ?s1) block_regs (c_ram s)"
  let ?s2 = "?s1\<lparr>c_ram := ?d, c_pc := c_pc s + 128\<rparr>"
  let ?d' = "store_word (slot b 34) (cs_mcause (c_csr s)) (store_word (slot b 33) (cs_mepc (c_csr s))
    (store_word (slot b 32) (cs_mstatus (c_csr s)) (store_word (slot b 2) (c_regs s 2) ?d)))"
  have base: "c_reg ?s1 sp = b" by (simp add: c_reg_def)
  have "isa_run (map (\<lambda>r. SW r (of_nat (4 * r)) sp) block_regs) ?s1 = Some ?s2"
    using isa_run_stores [of ?s1 sp block_regs] b(2) block_regs_all(2,4) unfolding base by simp
  then have "isa_run (trap_entry_save base h) s = isa_run (save_tail base h) ?s2"
    unfolding trap_entry_save_blocks isa_run_append isa_save_head b(1) [symmetric] by simp
  moreover have "frame_ok (c_regs ?s2 2)" using b(2) by simp
  moreover have "frame_word ?d b k = (if k \<in> {1..<32} - {2} then c_regs s k else frame_word (c_ram s) b k)" if "k < 36" for k
    using store_regs_word [OF b(2) that block_regs_all(2)] by (auto simp: block_regs_set c_reg_def)
  moreover have "?d x = c_ram s x" if "outside b x" for x by (rule store_regs_outside [OF b(2) that block_regs_all(2)])
  moreover have "isa_run (save_tail base h) ?s2 = Some \<lparr>c_regs = (c_regs s)(2 := b, 5 := cs_mcause (c_csr s), 10 := b, 1 := c_pc s + 172),
      c_pc = h, c_csr = (c_csr s)\<lparr>cs_mscratch := c_regs s 2\<rparr>,
      c_ram = ?d'\<rparr>"
    using isa_save_tail [of ?s2 base h] b(2) pc by (auto intro!: cpu.equality)
  ultimately show ?thesis using b(2)
    by (intro exI [of _ ?d'] conjI) (auto simp: frame_word_store store_word_outside)
qed

lemma isa_restore_head:
  assumes b: "frame_ok (c_regs s 2)" and st: "\<not> bit (frame_word (c_ram s) (c_regs s 2) 32) 3"
  shows "isa_run restore_head s = Some (s\<lparr>c_regs := (c_regs s)(5 := frame_word (c_ram s) (c_regs s 2) 33),
    c_csr := (c_csr s)\<lparr>cs_mscratch := frame_word (c_ram s) (c_regs s 2) 2, cs_mstatus := frame_word (c_ram s) (c_regs s 2) 32,
      cs_mepc := frame_word (c_ram s) (c_regs s 2) 33\<rparr>, c_pc := c_pc s + 24\<rparr>)"
  using frame_in_ram [OF b] st by (auto simp: restore_head_def isa_simps slot_numeral frame_word_def intro!: cpu.equality)

lemma isa_restore_tail:
  "isa_run restore_tail s = Some (s\<lparr>c_regs := (c_regs s)(2 := cs_mscratch (c_csr s)),
     c_csr := (c_csr s)\<lparr>cs_mscratch := c_regs s 2 + 144\<rparr>, c_pc := c_pc s + 8\<rparr>)"
  by (auto simp: restore_tail_def isa_simps intro!: cpu.equality)

text \<open>The restoring half up to \<open>mret\<close>.\<close>

lemma isa_restore:
  assumes b: "b = c_regs s 2" "frame_ok b" and st: "\<not> bit (frame_word (c_ram s) b 32) 3"
  shows "\<exists>s'. isa_run (restore_head @ map (\<lambda>r. LW r (of_nat (4 * r)) sp) block_regs @ restore_tail) s = Some s' \<and>
    (\<forall>k. 0 < k \<longrightarrow> k < 32 \<longrightarrow> c_regs s' k = frame_word (c_ram s) b k) \<and>
    c_csr s' = (c_csr s)\<lparr>cs_mscratch := b + 144, cs_mstatus := frame_word (c_ram s) b 32, cs_mepc := frame_word (c_ram s) b 33\<rparr> \<and>
    c_ram s' = c_ram s \<and> c_pc s' = c_pc s + 152"
proof -
  let ?d = "c_ram s"
  let ?s1 = "s\<lparr>c_regs := (c_regs s)(5 := frame_word ?d b 33), c_csr := (c_csr s)\<lparr>cs_mscratch := frame_word ?d b 2,
    cs_mstatus := frame_word ?d b 32, cs_mepc := frame_word ?d b 33\<rparr>, c_pc := c_pc s + 24\<rparr>"
  let ?s2 = "?s1\<lparr>c_regs := load_regs b ?d block_regs (c_regs ?s1), c_pc := c_pc s + 144\<rparr>"
  have base: "c_reg ?s1 sp = b" by (simp add: c_reg_def b(1))
  have "isa_run restore_head s = Some ?s1" using isa_restore_head [of s] b st by simp
  moreover have "isa_run (map (\<lambda>r. LW r (of_nat (4 * r)) sp) block_regs) ?s1 = Some ?s2"
    using isa_run_loads [of ?s1 sp block_regs] b(2) block_regs_all unfolding base by simp
  ultimately show ?thesis using b(1) block_regs_all(3)
    by (auto simp: isa_run_append isa_restore_tail load_regs_def block_regs_set)
qed

text \<open>\<open>enter_context\<close> up to \<open>mret\<close>; the base register is loaded last.\<close>

lemma isa_enter:
  assumes b: "b = c_regs s 10" "frame_ok b" and st: "\<not> bit (frame_word (c_ram s) b 32) 3"
  shows "\<exists>s'. isa_run (enter_head @ map (\<lambda>r. LW r (of_nat (4 * r)) a0) enter_regs @ enter_tail) s = Some s' \<and>
    (\<forall>k. 0 < k \<longrightarrow> k < 32 \<longrightarrow> c_regs s' k = frame_word (c_ram s) b k) \<and>
    c_csr s' = (c_csr s)\<lparr>cs_mepc := frame_word (c_ram s) b 33, cs_mstatus := frame_word (c_ram s) b 32\<rparr> \<and>
    c_ram s' = c_ram s"
proof -
  let ?d = "c_ram s" and ?rs = enter_regs
  let ?s1 = "s\<lparr>c_regs := (c_regs s)(5 := frame_word ?d b 32, 6 := frame_word ?d b 33),
    c_csr := (c_csr s)\<lparr>cs_mepc := frame_word ?d b 33, cs_mstatus := frame_word ?d b 32\<rparr>, c_pc := c_pc s + 16\<rparr>"
  let ?s2 = "?s1\<lparr>c_regs := load_regs b ?d ?rs (c_regs ?s1), c_pc := c_pc s + 136\<rparr>"
  have base: "c_reg ?s1 a0 = b" by (simp add: c_reg_def b(1))
  have "isa_run enter_head s = Some ?s1"
    using frame_in_ram [OF b(2)] st b(1) by (auto simp: enter_head_def isa_simps slot_numeral frame_word_def intro!: cpu.equality)
  moreover have "isa_run (map (\<lambda>r. LW r (of_nat (4 * r)) a0) ?rs) ?s1 = Some ?s2"
    using isa_run_loads [of ?s1 a0 ?rs] b(2) enter_regs_all(2-4) unfolding base by simp
  moreover have "isa_run enter_tail ?s2 = Some (?s2\<lparr>c_regs := (c_regs ?s2)(10 := frame_word ?d b 10), c_pc := c_pc s + 140\<rparr>)"
    using frame_in_ram [OF b(2)] b(1) by (auto simp: enter_tail_def isa_simps slot_numeral frame_word_def load_regs_def enter_regs_all(1) intro!: cpu.equality)
  ultimately show ?thesis by (auto simp: isa_run_append load_regs_def enter_regs_all(1))
qed

end
