(* ===== verification/Asm_Switch.thy ===== *)
theory Asm_Switch
  imports Asm_Trap Kernel_Trap
begin

text \<open>
  From the trap of a running program through the assembly and the C handler back to a running
  program: what the kernel's model calls a context is what the processor then runs.
\<close>

section \<open>Returning from a trap\<close>

text \<open>The processor runs a context: what it finds there are its registers, its mode and its interrupts.\<close>

definition runs_context :: "cpu_context \<Rightarrow> machine \<Rightarrow> bool" where
  "runs_context ctx m \<longleftrightarrow> (\<forall>k \<in> {1..<32}. mc_regs m k = ctx_regs ctx ! k) \<and> mc_pc m = ctx_pc ctx \<and>
     h_priv (mc_hart m) = get_mpp (ctx_mstatus ctx) \<and> (bit (cs_mstatus (h_csr (mc_hart m))) 3 \<longleftrightarrow> bit (ctx_mstatus ctx) 7) \<and>
     \<not> h_trap_mode (mc_hart m) \<and> \<not> h_sleep (mc_hart m)"

lemma mret_runs_context:
  assumes c: "calm m" "fetch_ok (mc_pc m)" and r: "\<forall>k \<in> {1..<32}. mc_regs m k = ctx_regs ctx ! k" "cs_mepc (h_csr (mc_hart m)) = ctx_pc ctx"
    "cs_mstatus (h_csr (mc_hart m)) = ctx_mstatus ctx"
  shows "runs_context ctx (exec_word INST_EXACT_MRET e m)"
  using assms by (simp add: exec_mret [OF c] runs_context_def latch_mip_def bit_put_mpp bit_put_bit calm_def)

lemma falls_blocks:
  "\<forall>i \<in> set (restore_head @ map (\<lambda>r. LW r (of_nat (4 * r)) sp) block_regs @ restore_tail). falls i"
  "\<forall>i \<in> set (enter_head @ map (\<lambda>r. LW r (of_nat (4 * r)) a0) enter_regs @ enter_tail). falls i"
  "\<forall>i \<in> set (butlast (trap_entry_save base h)). falls i"
  by (auto simp: restore_head_def restore_tail_def enter_head_def enter_tail_def trap_entry_save_def CALL_def falls_def butlast_append)

lemma imm12_small:
  "r < 36 \<Longrightarrow> imm12 (of_nat (4 * r))" "imm12 (- 144)" "imm12 144" "imm12 0"
proof -
  have "sint (of_nat (4 * r) :: u32) = 4 * int r" if "r < 36"
    unfolding signed_of_nat using that by (simp add: signed_take_bit_int_eq_self)
  then show "r < 36 \<Longrightarrow> imm12 (of_nat (4 * r))" by (intro imm12_range) simp_all
qed (simp_all add: imm12_range)

lemma numeral_slots: "(8 :: u32) = of_nat (4 * 2)" "(40 :: u32) = of_nat (4 * 10)" "(128 :: u32) = of_nat (4 * 32)"
  "(132 :: u32) = of_nat (4 * 33)" "(136 :: u32) = of_nat (4 * 34)"
  by simp_all

lemma imm12_slots: "imm12 8" "imm12 40" "imm12 128" "imm12 132" "imm12 136"
  unfolding numeral_slots by (rule imm12_small(1), simp)+

lemma blocks_ok:
  "\<forall>i \<in> set (restore_head @ map (\<lambda>r. LW r (of_nat (4 * r)) sp) block_regs @ restore_tail). instr_ok i"
  "\<forall>i \<in> set (enter_head @ map (\<lambda>r. LW r (of_nat (4 * r)) a0) enter_regs @ enter_tail). instr_ok i"
  "\<forall>i \<in> set (trap_entry_save base h). instr_ok i"
proof -
  have r: "\<forall>r \<in> set block_regs. r < 32 \<and> r < 36" "\<forall>r \<in> set enter_regs. r < 32 \<and> r < 36"
    by (auto simp: block_regs_set enter_regs_all(1))
  show "\<forall>i \<in> set (restore_head @ map (\<lambda>r. LW r (of_nat (4 * r)) sp) block_regs @ restore_tail). instr_ok i"
    using r imm12_small imm12_slots by (auto simp: restore_head_def restore_tail_def)
  show "\<forall>i \<in> set (enter_head @ map (\<lambda>r. LW r (of_nat (4 * r)) a0) enter_regs @ enter_tail). instr_ok i"
    using r imm12_small imm12_slots by (auto simp: enter_head_def enter_tail_def)
  show "\<forall>i \<in> set (trap_entry_save base h). instr_ok i"
    using r imm12_small imm12_slots pcrel_lo_imm12 pcrel_parts(2) unfolding trap_entry_save_blocks
    by (auto simp: save_head_def save_tail_def CALL_def)
qed

lemma falls_run_pc: "\<lbrakk>isa_run is s0 = Some s; \<forall>i \<in> set is. falls i\<rbrakk> \<Longrightarrow> c_pc s = c_pc s0 + of_nat (4 * length is)"
  by (induction "is" arbitrary: s0) (auto simp: falls_pc add.assoc split: option.splits)

text \<open>A block of straight-line code followed by \<open>mret\<close>.\<close>

lemma run_block_mret:
  assumes p: "placed rom (mc_pc m) (is @ [MRET])" and r: "isa_run is (cpu_of m) = Some s" and c: "calm m"
    and es: "length es = length (is @ [MRET])" and f: "\<forall>i \<in> set is. falls i" and ok: "\<forall>i \<in> set is. instr_ok i"
  shows "\<exists>m1 e. run_rom rom es m = exec_word INST_EXACT_MRET e m1 \<and> cpu_of m1 = s \<and> calm m1 \<and> fetch_ok (mc_pc m1)"
proof -
  obtain es' e where e: "es = es' @ [e]" "length es' = length is" using es by (cases es rule: rev_cases) auto
  let ?m1 = "run_rom rom es' m"
  have pl: "placed rom (mc_pc m) is" "fetch_ok (mc_pc m + of_nat (4 * length is))" "rom (mc_pc m + of_nat (4 * length is)) = INST_EXACT_MRET"
    using p by (simp_all add: placed_append)
  have m1: "cpu_of ?m1 = s" "calm ?m1" using run_block [OF pl(1) r c e(2)] f ok by (meson in_set_butlastD)+
  have "mc_pc ?m1 = mc_pc m + of_nat (4 * length is)" using falls_run_pc [OF r f] m1(1) by (metis cpu_of_sel(3))
  then show ?thesis using m1 pl(2,3) unfolding e(1) run_rom_append by (intro exI [of _ ?m1] exI [of _ e]) simp
qed

section \<open>Entering a context\<close>

text \<open>
  C26: \<open>enter_context\<close> resumes exactly the context it is given: from a frame in memory the processor
  ends up with its 31 registers, its program counter, its privilege mode and its interrupt
  enable, whatever interrupts are pending meanwhile; memory and the kernel's \<open>mscratch\<close> are
  untouched.
\<close>

theorem enter_context_resumes:
  assumes c: "calm m" and p: "placed rom (mc_pc m) enter_context" and es: "length es = length enter_context"
    and b: "frame_ok (mc_regs m 10)" and st: "\<not> bit (ctx_mstatus (context_at (h_dmem (mc_hart m)) (mc_regs m 10))) 3"
    and m'_def: "m' = run_rom rom es m"
  shows "runs_context (context_at (h_dmem (mc_hart m)) (mc_regs m 10)) m' \<and>
    h_dmem (mc_hart m') = h_dmem (mc_hart m) \<and> cs_mscratch (h_csr (mc_hart m')) = cs_mscratch (h_csr (mc_hart m))"
proof -
  let ?b = "mc_regs m 10" and ?d = "h_dmem (mc_hart m)"
  obtain s where s: "isa_run (enter_head @ map (\<lambda>r. LW r (of_nat (4 * r)) a0) enter_regs @ enter_tail) (cpu_of m) = Some s"
    "\<forall>k. 0 < k \<longrightarrow> k < 32 \<longrightarrow> c_regs s k = frame_word ?d ?b k"
    "c_csr s = (no_mip (h_csr (mc_hart m)))\<lparr>cs_mepc := frame_word ?d ?b 33, cs_mstatus := frame_word ?d ?b 32\<rparr>" "c_ram s = ?d"
    using isa_enter [of ?b "cpu_of m"] b st by (auto simp: context_at_def)
  obtain m1 e where m1: "m' = exec_word INST_EXACT_MRET e m1" "cpu_of m1 = s" "calm m1" "fetch_ok (mc_pc m1)"
    unfolding m'_def
    using run_block_mret [OF p [unfolded enter_context_blocks] s(1) c es [unfolded enter_context_blocks] falls_blocks(2) blocks_ok(2)] by blast
  have csr: "no_mip (h_csr (mc_hart m1)) = (no_mip (h_csr (mc_hart m)))\<lparr>cs_mepc := frame_word ?d ?b 33, cs_mstatus := frame_word ?d ?b 32\<rparr>"
    using s(3) unfolding m1(2) [symmetric] by simp
  have f: "cs_mepc (h_csr (mc_hart m1)) = frame_word ?d ?b 33" "cs_mstatus (h_csr (mc_hart m1)) = frame_word ?d ?b 32"
    "cs_mscratch (h_csr (mc_hart m1)) = cs_mscratch (h_csr (mc_hart m))"
    using arg_cong [OF csr, of cs_mepc] arg_cong [OF csr, of cs_mstatus] arg_cong [OF csr, of cs_mscratch] by simp_all
  have "runs_context (context_at ?d ?b) m'" unfolding m1(1)
    by (rule mret_runs_context [OF m1(3,4)]) (use s(2) f m1(2) in \<open>auto simp: context_at_def\<close>)
  moreover have "h_dmem (mc_hart m') = ?d" "cs_mscratch (h_csr (mc_hart m')) = cs_mscratch (h_csr (mc_hart m))"
    using exec_mret [OF m1(3,4), of e] s(4) f(3) m1(1,2) by (auto simp: latch_mip_def)
  ultimately show ?thesis by blast
qed

section \<open>A trap from the first to the last instruction\<close>

text \<open>
  What \<open>trap_entry\<close> hands to the C handler for the program interrupted in \<open>m\<close>; the word of \<open>x0\<close>, which is
  never written, holds what the stack held.
\<close>

definition interrupted :: "u32 \<Rightarrow> u32 \<Rightarrow> machine \<Rightarrow> trap_frame" where
  "interrupted w0 cause m =
     \<lparr>tf_ctx = \<lparr>ctx_regs = w0 # map (mc_regs m) [1..<32],
        ctx_mstatus = cs_mstatus (trapped_csr (mc_pc m) cause 0 (h_priv (mc_hart m)) (h_csr (mc_hart m))), ctx_pc = mc_pc m\<rparr>,
      tf_mcause = cause\<rparr>"

text \<open>
  What the calling convention promises of the compiled handler: called with the frame's
  address in \<open>a0\<close> and \<open>sp\<close>, it does to the frame and to the kernel's state what its source does, keeps \<open>sp\<close> and
  the CSRs of the trap, and returns to \<open>ra\<close>.
\<close>

definition compiled_handler :: "(machine \<times> 's \<Rightarrow> machine \<times> 's) \<Rightarrow> (trap_frame \<Rightarrow> 's \<Rightarrow> (cpu_context \<times> 's) krun) \<Rightarrow> bool" where
  "compiled_handler call h \<longleftrightarrow> (\<forall>m s ctx s' b. calm m \<longrightarrow> frame_ok b \<longrightarrow> mc_regs m a0 = b \<longrightarrow> mc_regs m sp = b \<longrightarrow>
     h (frame_at (h_dmem (mc_hart m)) b) s = krun_return (ctx, s') \<longrightarrow>
     (\<exists>m'. call (m, s) = (m', s') \<and> calm m' \<and> mc_pc m' = mc_regs m ra \<and> mc_regs m' sp = b \<and>
        (\<forall>k \<in> {1..<32}. frame_word (h_dmem (mc_hart m')) b k = ctx_regs ctx ! k) \<and>
        frame_word (h_dmem (mc_hart m')) b 32 = ctx_mstatus ctx \<and> frame_word (h_dmem (mc_hart m')) b 33 = ctx_pc ctx))"

text \<open>
  The handling of a trap: the trapping instruction and the first half of \<open>trap_entry\<close>, the call, the
  second half.
\<close>

definition handle_trap :: "rom \<Rightarrow> (machine \<times> 's \<Rightarrow> machine \<times> 's) \<Rightarrow> step_in list \<Rightarrow> step_in list \<Rightarrow> machine \<times> 's \<Rightarrow> machine \<times> 's" where
  "handle_trap rom call es1 es2 ms =
     (let (m2, s2) = call (run_rom rom es1 (fst ms), snd ms) in (run_rom rom es2 m2, s2))"

text \<open>An exception is no interrupt; only an interrupt wakes the processor.\<close>

definition can_wake :: "machine \<Rightarrow> bool" where
  "can_wake m \<longleftrightarrow> h_sleep (mc_hart m) \<longrightarrow> interrupt_dispatch True (h_csr (mc_hart m)) \<noteq> None"

lemma interrupt_can_wake:
  assumes "trap_of w e m = Some (cause, tval)" "sint cause < 0"
  shows "can_wake m"
proof -
  let ?i = "mem_in_of w (ctrl_of w e m) m"
  have "0 \<le> sint c" if "mem_exception ?i (mc_hart m) = Some (c, v)" for c v
    using that unfolding mem_exception_def exception_dispatch_def
    by (auto simp: TRAP_CAUSE_INST_ACCESS_FAULT_def TRAP_CAUSE_ILLEGAL_INST_def TRAP_CAUSE_INST_ADDR_MISALIGNED_def TRAP_CAUSE_ECALL_U_def
        TRAP_CAUSE_ECALL_M_def TRAP_CAUSE_BREAKPOINT_def TRAP_CAUSE_LOAD_ACCESS_FAULT_def TRAP_CAUSE_STORE_ACCESS_FAULT_def
        TRAP_CAUSE_LOAD_ADDR_MISALIGNED_def TRAP_CAUSE_STORE_ADDR_MISALIGNED_def split: if_splits)
  then have "mem_exception ?i (mc_hart m) = None" using assms by (fastforce simp: trap_of_def mem_trap_def split: option.splits)
  then have "mem_interrupt ?i (mc_hart m) \<noteq> None" using assms(1) by (auto simp: trap_of_def mem_trap_def split: option.splits)
  then show ?thesis by (simp add: can_wake_def mem_interrupt_def)
qed

lemma trap_instr:
  assumes t: "trap_of w e m = Some (cause, tval)" and awake: "can_wake m"
  shows "calm (exec_word w e m)"
    "cpu_of (exec_word w e m) = \<lparr>c_regs = mc_regs m, c_pc = trap_vector (h_csr (mc_hart m)),
       c_csr = no_mip (trapped_csr (mc_pc m) cause tval (h_priv (mc_hart m)) (h_csr (mc_hart m))), c_ram = h_dmem (mc_hart m)\<rparr>"
proof -
  let ?i = "mem_in_of w (ctrl_of w e m) m"
  have t': "mem_trap ?i (mc_hart m) = Some (cause, tval)" using t by (simp add: trap_of_def)
  have x: "exec_word w e m = m\<lparr>mc_pc := trap_vector (h_csr (mc_hart m)), mc_hart := mem_cycle ?i (fst e) (mc_hart m)\<rparr>"
    using t' by (simp add: exec_word_def Let_def)
  note cyc = mem_cycle_trap [OF t', of "fst e"]
  have "h_sleep (mc_hart m) \<longrightarrow> mem_interrupt ?i (mc_hart m) \<noteq> None" using awake by (simp add: can_wake_def mem_interrupt_def)
  then show "calm (exec_word w e m)" unfolding x cyc using trapped_csr_fields(2) by (auto simp: calm_def latch_mip_def)
  show "cpu_of (exec_word w e m) = \<lparr>c_regs = mc_regs m, c_pc = trap_vector (h_csr (mc_hart m)),
       c_csr = no_mip (trapped_csr (mc_pc m) cause tval (h_priv (mc_hart m)) (h_csr (mc_hart m))), c_ram = h_dmem (mc_hart m)\<rparr>"
    unfolding x cyc by (simp add: cpu_of_def latch_mip_def)
qed

text \<open>An exception that is taken asleep leaves the processor asleep, with the interrupts off that could wake it.\<close>

lemma exception_leaves_asleep:
  assumes t: "trap_of w e m = Some (cause, tval)" and stuck: "\<not> can_wake m"
  shows "h_sleep (mc_hart (exec_word w e m)) \<and> \<not> can_wake (exec_word w e m)"
proof -
  let ?i = "mem_in_of w (ctrl_of w e m) m"
  have t': "mem_trap ?i (mc_hart m) = Some (cause, tval)" using t by (simp add: trap_of_def)
  have x: "exec_word w e m = m\<lparr>mc_pc := trap_vector (h_csr (mc_hart m)), mc_hart := mem_cycle ?i (fst e) (mc_hart m)\<rparr>"
    using t' by (simp add: exec_word_def Let_def)
  have "h_sleep (mc_hart m)" "mem_interrupt ?i (mc_hart m) = None" using stuck by (simp_all add: can_wake_def mem_interrupt_def)
  then have "h_sleep (mc_hart (exec_word w e m))" unfolding x mem_cycle_trap [OF t', of "fst e"] by simp
  moreover have "interrupt_dispatch True (h_csr (mc_hart (exec_word w e m))) = None"
    unfolding x mem_cycle_trap [OF t', of "fst e"] using trapped_csr_fields(2) by (auto simp: interrupt_dispatch_def latch_mip_def Let_def)
  ultimately show ?thesis by (simp add: can_wake_def)
qed

lemma trapped_csr_simps [simp]:
  "cs_mscratch (trapped_csr pc cause tval priv c) = cs_mscratch c" "cs_mepc (trapped_csr pc cause tval priv c) = pc"
  "cs_mcause (trapped_csr pc cause tval priv c) = cause"
  by (simp_all add: trapped_csr_def)

lemma trapped_csr_mstatus: "cs_mstatus (trapped_csr pc cause tval priv c) = cs_mstatus (trapped_csr pc cause 0 priv c)"
  by (simp add: trapped_csr_def)

text \<open>From the trap to the call of the handler.\<close>

lemma run_trap_entry:
  assumes t: "trap_of (rom (mc_pc m)) e m = Some (cause, tval)" and awake: "can_wake m"
    and p: "placed rom (trap_vector (h_csr (mc_hart m))) (trap_entry_save (trap_vector (h_csr (mc_hart m))) hf)"
    and b: "b = cs_mscratch (h_csr (mc_hart m)) - 144" "frame_ok b"
    and es: "length es = length (trap_entry_save 0 0)"
  shows "\<exists>m1. run_rom rom (e # es) m = m1 \<and> calm m1 \<and> mc_regs m1 a0 = b \<and> mc_regs m1 sp = b \<and> mc_pc m1 = hf \<and>
    mc_regs m1 ra = trap_vector (h_csr (mc_hart m)) + 172 \<and>
    frame_at (h_dmem (mc_hart m1)) b = interrupted (frame_word (h_dmem (mc_hart m)) b 0) cause m \<and>
    (\<forall>x. outside b x \<longrightarrow> h_dmem (mc_hart m1) x = h_dmem (mc_hart m) x)"
proof -
  let ?c = "h_csr (mc_hart m)"
  let ?v = "trap_vector ?c"
  let ?m0 = "exec_word (rom (mc_pc m)) e m"
  note m0 = trap_instr [OF t awake]
  let ?s = "cpu_of ?m0"
  have fields: "c_regs ?s = mc_regs m" "c_pc ?s = ?v" "c_ram ?s = h_dmem (mc_hart m)"
    "cs_mscratch (c_csr ?s) = cs_mscratch ?c" "cs_mcause (c_csr ?s) = cause" "cs_mepc (c_csr ?s) = mc_pc m"
    "cs_mstatus (c_csr ?s) = cs_mstatus (trapped_csr (mc_pc m) cause tval (h_priv (mc_hart m)) ?c)"
    unfolding m0(2) by simp_all
  have pc: "mc_pc ?m0 = ?v" using fields(2) by simp
  have len: "length es = length (trap_entry_save ?v hf)" using es by (simp add: trap_entry_save_def CALL_def)
  obtain d where d: "isa_run (trap_entry_save ?v hf) ?s = Some \<lparr>c_regs = (mc_regs m)(2 := b, 5 := cause, 10 := b, 1 := ?v + 172),
      c_pc = hf, c_csr = (c_csr ?s)\<lparr>cs_mscratch := mc_regs m 2\<rparr>, c_ram = d\<rparr>"
    "\<forall>k. 0 < k \<longrightarrow> k < 32 \<longrightarrow> frame_word d b k = mc_regs m k" "frame_word d b 0 = frame_word (h_dmem (mc_hart m)) b 0"
    "frame_word d b 32 = cs_mstatus (trapped_csr (mc_pc m) cause tval (h_priv (mc_hart m)) ?c)"
    "frame_word d b 33 = mc_pc m" "frame_word d b 34 = cause" "\<forall>x. outside b x \<longrightarrow> d x = h_dmem (mc_hart m) x"
    using isa_save [of b ?s ?v hf, unfolded fields, OF b refl] by blast
  let ?m1 = "run_rom rom es ?m0"
  have m1: "cpu_of ?m1 = \<lparr>c_regs = (mc_regs m)(2 := b, 5 := cause, 10 := b, 1 := ?v + 172),
      c_pc = hf, c_csr = (c_csr ?s)\<lparr>cs_mscratch := mc_regs m 2\<rparr>, c_ram = d\<rparr>" "calm ?m1"
    using run_block [OF p [folded pc] d(1) [folded pc] m0(1) len [folded pc] falls_blocks(3) blocks_ok(3)] by (simp_all add: pc)
  have v: "mc_regs ?m1 = (mc_regs m)(2 := b, 5 := cause, 10 := b, 1 := ?v + 172)" "mc_pc ?m1 = hf" "h_dmem (mc_hart ?m1) = d"
    using m1(1) by (simp_all add: cpu_of_def)
  have "map (frame_word d b) [0..<32] = frame_word (h_dmem (mc_hart m)) b 0 # map (mc_regs m) [1..<32]"
  proof -
    have "[0..<32] = 0 # [1..<32 :: nat]" by (simp add: upt_conv_Cons)
    then show ?thesis using d(2,3) by simp
  qed
  then have "frame_at d b = interrupted (frame_word (h_dmem (mc_hart m)) b 0) cause m"
    using d(4-6) trapped_csr_mstatus [of "mc_pc m" cause tval "h_priv (mc_hart m)" ?c]
    by (simp add: frame_at_def context_at_def interrupted_def)
  then show ?thesis using m1(2) v d(7) by (intro exI [of _ ?m1]) simp
qed

text \<open>From the return of the handler to the resumed program.\<close>

lemma run_trap_exit:
  assumes c: "calm m" and p: "placed rom (mc_pc m) trap_entry_restore" and b: "b = mc_regs m sp" "frame_ok b"
    and ctx: "\<forall>k \<in> {1..<32}. frame_word (h_dmem (mc_hart m)) b k = ctx_regs ctx ! k"
      "frame_word (h_dmem (mc_hart m)) b 32 = ctx_mstatus ctx" "frame_word (h_dmem (mc_hart m)) b 33 = ctx_pc ctx"
    and st: "\<not> bit (ctx_mstatus ctx) 3" and es: "length es = length trap_entry_restore"
  shows "runs_context ctx (run_rom rom es m) \<and> cs_mscratch (h_csr (mc_hart (run_rom rom es m))) = b + 144"
proof -
  obtain s where s: "isa_run (restore_head @ map (\<lambda>r. LW r (of_nat (4 * r)) sp) block_regs @ restore_tail) (cpu_of m) = Some s"
    "\<forall>k. 0 < k \<longrightarrow> k < 32 \<longrightarrow> c_regs s k = frame_word (h_dmem (mc_hart m)) b k"
    "c_csr s = (no_mip (h_csr (mc_hart m)))\<lparr>cs_mscratch := b + 144, cs_mstatus := ctx_mstatus ctx, cs_mepc := ctx_pc ctx\<rparr>"
    using isa_restore [of b "cpu_of m"] b st ctx(2,3) by auto
  obtain m1 e where m1: "run_rom rom es m = exec_word INST_EXACT_MRET e m1" "cpu_of m1 = s" "calm m1" "fetch_ok (mc_pc m1)"
    using run_block_mret [OF p [unfolded trap_entry_restore_blocks] s(1) c es [unfolded trap_entry_restore_blocks] falls_blocks(1) blocks_ok(1)]
    by blast
  have csr: "no_mip (h_csr (mc_hart m1)) = (no_mip (h_csr (mc_hart m)))\<lparr>cs_mscratch := b + 144, cs_mstatus := ctx_mstatus ctx, cs_mepc := ctx_pc ctx\<rparr>"
    using s(3) unfolding m1(2) [symmetric] by simp
  have f: "cs_mepc (h_csr (mc_hart m1)) = ctx_pc ctx" "cs_mstatus (h_csr (mc_hart m1)) = ctx_mstatus ctx" "cs_mscratch (h_csr (mc_hart m1)) = b + 144"
    using arg_cong [OF csr, of cs_mepc] arg_cong [OF csr, of cs_mstatus] arg_cong [OF csr, of cs_mscratch] by simp_all
  have "runs_context ctx (exec_word INST_EXACT_MRET e m1)"
    by (rule mret_runs_context [OF m1(3,4)]) (use s(2) ctx(1) f m1(2) in auto)
  moreover have "cs_mscratch (h_csr (mc_hart (exec_word INST_EXACT_MRET e m1))) = b + 144"
    using exec_mret [OF m1(3,4), of e] f(3) by (simp add: latch_mip_def)
  ultimately show ?thesis using m1(1) by simp
qed

lemma run_trap:
  assumes t: "trap_of (rom (mc_pc m)) e m = Some (cause, tval)" and awake: "can_wake m"
    and p: "placed rom (trap_vector (h_csr (mc_hart m))) (trap_entry_save (trap_vector (h_csr (mc_hart m))) hf @ trap_entry_restore)"
    and b: "b = cs_mscratch (h_csr (mc_hart m)) - 144" "frame_ok b"
    and es: "length es1 = length (trap_entry_save 0 0)" "length es2 = length trap_entry_restore"
    and h: "compiled_handler call h" "h (interrupted (frame_word (h_dmem (mc_hart m)) b 0) cause m) s = krun_return (ctx, s')"
    and st: "\<not> bit (ctx_mstatus ctx) 3"
  shows "\<exists>m'. handle_trap rom call (e # es1) es2 (m, s) = (m', s') \<and> runs_context ctx m' \<and>
    cs_mscratch (h_csr (mc_hart m')) = cs_mscratch (h_csr (mc_hart m))"
proof -
  let ?v = "trap_vector (h_csr (mc_hart m))"
  have p1: "placed rom ?v (trap_entry_save ?v hf)" and p2: "placed rom (?v + 172) trap_entry_restore"
    using p by (simp_all add: placed_append) (simp add: trap_entry_save_def CALL_def)
  let ?m1 = "run_rom rom (e # es1) m"
  have m1: "calm ?m1" "mc_regs ?m1 a0 = b" "mc_regs ?m1 sp = b" "mc_regs ?m1 ra = ?v + 172"
    "frame_at (h_dmem (mc_hart ?m1)) b = interrupted (frame_word (h_dmem (mc_hart m)) b 0) cause m"
    using run_trap_entry [OF t awake p1 b es(1)] by blast+
  obtain m2 where m2: "call (?m1, s) = (m2, s')" "calm m2" "mc_pc m2 = mc_regs ?m1 ra" "mc_regs m2 sp = b"
    "\<forall>k \<in> {1..<32}. frame_word (h_dmem (mc_hart m2)) b k = ctx_regs ctx ! k"
    "frame_word (h_dmem (mc_hart m2)) b 32 = ctx_mstatus ctx" "frame_word (h_dmem (mc_hart m2)) b 33 = ctx_pc ctx"
    using h(1) [unfolded compiled_handler_def, rule_format, OF m1(1) b(2) m1(2,3) h(2) [folded m1(5)]] by blast
  have "placed rom (mc_pc m2) trap_entry_restore" unfolding m2(3) m1(4) by (rule p2)
  from run_trap_exit [OF m2(2) this m2(4) [symmetric] b(2) m2(5-7) st es(2)]
  show ?thesis using m2(1) b(1) by (simp add: handle_trap_def)
qed

text \<open>
  C4: A trap runs the kernel's handler on the interrupted program and then the context the handler
  leaves.  Whatever instruction traps, in whichever mode and however the devices behave meanwhile,
  running the machine code of \<open>trap_entry\<close> gives the C handler exactly the program's registers,
  program counter, mode and interrupt enable, and when its model returns a context, whose saved
  \<open>mstatus\<close> keeps interrupts off until \<open>mret\<close>, the processor
  goes on with that context; \<open>mscratch\<close> points to the kernel's stack again, ready for the next trap.
  The processor is awake, or sleeps and has an enabled interrupt pending, which wakes it: an exception that is
  taken asleep without one leaves it asleep.
\<close>

theorem trap_runs_handler:
  assumes t: "trap_of (rom (mc_pc m)) e m = Some (cause, tval)" and awake: "can_wake m"
    and p: "placed rom (trap_vector (h_csr (mc_hart m))) (trap_entry_save (trap_vector (h_csr (mc_hart m))) hf @ trap_entry_restore)"
    and b: "b = cs_mscratch (h_csr (mc_hart m)) - 144" "frame_ok b"
    and es: "length es1 = length (trap_entry_save 0 0)" "length es2 = length trap_entry_restore"
    and h: "compiled_handler call h" "h (interrupted (frame_word (h_dmem (mc_hart m)) b 0) cause m) s = krun_return (ctx, s')"
    and st: "\<not> bit (ctx_mstatus ctx) 3"
  shows "\<exists>m'. handle_trap rom call (e # es1) es2 (m, s) = (m', s') \<and> runs_context ctx m' \<and>
    cs_mscratch (h_csr (mc_hart m')) = cs_mscratch (h_csr (mc_hart m))"
  by (rule run_trap [OF assms])

section \<open>The reset vector\<close>

text \<open>Note: \<open>_start\<close> calls the C code with the stack at \<open>_estack\<close>.\<close>

lemma start_enters_c:
  assumes "calm m" "placed rom (mc_pc m) (start_code (mc_pc m) estack entry_fn)" "length es = 4"
  shows "mc_pc (run_rom rom es m) = entry_fn \<and> mc_regs (run_rom rom es m) sp = estack \<and>
    mc_regs (run_rom rom es m) ra = mc_pc m + 16 \<and> h_dmem (mc_hart (run_rom rom es m)) = h_dmem (mc_hart m)"
proof -
  let ?c = "start_code (mc_pc m) estack entry_fn"
  have "isa_run ?c (cpu_of m) = Some ((cpu_of m)\<lparr>c_regs := (mc_regs m)(2 := estack, 1 := mc_pc m + 16), c_pc := entry_fn\<rparr>)"
    using pcrel_parts(1) [of "estack - mc_pc m"] pcrel_parts(1) [of "entry_fn - (mc_pc m + 8)"]
    by (auto simp: start_code_def LA_def CALL_def set_c_reg_def set_reg_of_def c_reg_def algebra_simps intro!: cpu.equality)
  moreover have "\<forall>i \<in> set (butlast ?c). falls i" "\<forall>i \<in> set ?c. instr_ok i" "length es = length ?c"
    using assms(3) pcrel_lo_imm12 pcrel_parts(2) by (auto simp: start_code_def LA_def CALL_def falls_def)
  ultimately have "cpu_of (run_rom rom es m) = (cpu_of m)\<lparr>c_regs := (mc_regs m)(2 := estack, 1 := mc_pc m + 16), c_pc := entry_fn\<rparr>"
    using run_block [OF assms(2) _ assms(1)] by blast
  then show ?thesis by (simp add: cpu_of_def)
qed

end
