(* ===== verification/Asm_Kernel.thy ===== *)
theory Asm_Kernel
  imports Asm_Switch
begin

text \<open>
  The kernel's handler behind the assembly: what a timer tick and a system call look like to the
  program on the processor.  At the end the concrete machine of the witnesses.
\<close>

section \<open>Timer ticks and system calls on the machine\<close>

lemma interrupted_ctx:
  "k \<in> {1..<32} \<Longrightarrow> ctx_regs (tf_ctx (interrupted w0 cause m)) ! k = mc_regs m k"
  "ctx_pc (tf_ctx (interrupted w0 cause m)) = mc_pc m"
  "get_mpp (ctx_mstatus (tf_ctx (interrupted w0 cause m))) = h_priv (mc_hart m)"
  "bit (ctx_mstatus (tf_ctx (interrupted w0 cause m))) 7 \<longleftrightarrow> bit (cs_mstatus (h_csr (mc_hart m))) 3"
  "\<not> bit (ctx_mstatus (tf_ctx (interrupted w0 cause m))) 3"
  "tf_mcause (interrupted w0 cause m) = cause"
  using trapped_csr_fields by (auto simp: interrupted_def nth_Cons split: nat.split)

text \<open>The same program goes on: registers, program counter, mode and interrupt enable are as they were, and the processor is awake.\<close>

definition same_program :: "machine \<Rightarrow> machine \<Rightarrow> bool" where
  "same_program m m' \<longleftrightarrow> (\<forall>k \<in> {1..<32}. mc_regs m' k = mc_regs m k) \<and> mc_pc m' = mc_pc m \<and> h_priv (mc_hart m') = h_priv (mc_hart m) \<and>
     (bit (cs_mstatus (h_csr (mc_hart m'))) 3 \<longleftrightarrow> bit (cs_mstatus (h_csr (mc_hart m))) 3) \<and> \<not> h_sleep (mc_hart m')"

lemma runs_interrupted: "runs_context (tf_ctx (interrupted w0 cause m)) m' \<Longrightarrow> same_program m m'"
  unfolding runs_context_def same_program_def by (simp add: interrupted_ctx)

text \<open>
  C8: A timer interrupt that does not end the quantum, while no task is blocked on the timer, cannot be
  seen by the program it interrupts, be it running or asleep in \<open>wfi\<close>: after the trap, the assembly and the
  handler the processor is awake and goes on with the
  interrupted instruction, all registers, the mode and the interrupt enable as they were; the
  kernel has counted one tick and moved the deadline, and \<open>mscratch\<close> holds the kernel's stack again.
\<close>

theorem timer_tick_transparent:
  assumes t: "trap_of (rom (mc_pc m)) e m = Some (TRAP_CAUSE_M_TIMER_INTERRUPT, tval)"
    and p: "placed rom (trap_vector (h_csr (mc_hart m))) (trap_entry_save (trap_vector (h_csr (mc_hart m))) hf @ trap_entry_restore)"
    and b: "b = cs_mscratch (h_csr (mc_hart m)) - 144" "frame_ok b"
    and es: "length es1 = length (trap_entry_save 0 0)" "length es2 = length trap_entry_restore"
    and h: "compiled_handler call (trap_handler io bytes)"
    and r: "tick_ready (sys_k s) c" "1 < t_time_slice (tasks (sys_k s) ! c)" "t_time_slice (tasks (sys_k s) ! c) < W32"
  shows "\<exists>m'. handle_trap rom call (e # es1) es2 (m, s) = (m', ticked c s) \<and> same_program m m' \<and>
    cs_mscratch (h_csr (mc_hart m')) = cs_mscratch (h_csr (mc_hart m))"
proof -
  let ?f = "interrupted (frame_word (h_dmem (mc_hart m)) b 0) TRAP_CAUSE_M_TIMER_INTERRUPT m"
  have neg: "sint TRAP_CAUSE_M_TIMER_INTERRUPT < 0" "TRAP_CAUSE_M_TIMER_INTERRUPT AND 0x7fffffff = 7"
    by (simp_all add: TRAP_CAUSE_M_TIMER_INTERRUPT_def)
  then have "trap_handler io bytes ?f s = handle_interrupt Interrupt_M_TIMER (tf_ctx ?f) s"
    by (simp add: trap_handler_def interrupted_ctx interrupt_of_def)
  also have "\<dots> = krun_return (tf_ctx ?f, ticked c s)"
    unfolding tick_step [OF r(1)] using r(2,3) by (simp add: sub32_exact)
  finally have "\<exists>m'. handle_trap rom call (e # es1) es2 (m, s) = (m', ticked c s) \<and> runs_context (tf_ctx ?f) m' \<and>
      cs_mscratch (h_csr (mc_hart m')) = cs_mscratch (h_csr (mc_hart m))"
    by (rule run_trap [OF t interrupt_can_wake [OF t neg(1)] p b es h]) (rule interrupted_ctx(5))
  then show ?thesis using runs_interrupted by blast
qed

text \<open>The trap an \<open>ecall\<close> raises.\<close>

lemma ecall_trap:
  assumes "h_priv (mc_hart m) = PRIV_U" "fetch_ok (mc_pc m)"
  shows "trap_of INST_EXACT_ECALL e m = Some (TRAP_CAUSE_ECALL_U, 0)"
proof -
  have c: "ctrl_of INST_EXACT_ECALL e m = (cu_defaults INST_EXACT_ECALL (snd e))\<lparr>cu_t_ecall := True\<rparr>"
    by (simp add: ctrl_of_def cu_ecall)
  have "\<not> 0x1fff < mc_pc m" using assms(2) by (simp add: fetch_ok_def not_less)
  then show ?thesis using assms
    by (simp add: trap_of_def c mem_trap_def mem_exception_def exception_dispatch_def mem_flags_def mem_csr_illegal_def csr_illegal_def
        lsu_load_fault_def lsu_store_fault_def is_load_def is_store_def fetch_ok_def Let_def)
qed

text \<open>
  C9: An \<open>ecall\<close> of a user program is the kernel's system call: \<open>dispatch_syscall\<close> gets the program's
  registers with the program counter at the \<open>ecall\<close>, pending interrupts have to wait, and the
  processor goes on with the context the system call returns.
\<close>

theorem ecall_runs_syscall:
  assumes i: "rom (mc_pc m) = INST_EXACT_ECALL" "fetch_ok (mc_pc m)" "h_priv (mc_hart m) = PRIV_U" and awake: "\<not> h_sleep (mc_hart m)"
    and p: "placed rom (trap_vector (h_csr (mc_hart m))) (trap_entry_save (trap_vector (h_csr (mc_hart m))) hf @ trap_entry_restore)"
    and b: "b = cs_mscratch (h_csr (mc_hart m)) - 144" "frame_ok b"
    and es: "length es1 = length (trap_entry_save 0 0)" "length es2 = length trap_entry_restore"
    and h: "compiled_handler call (trap_handler io bytes)"
    and r: "dispatch_syscall io bytes (tf_ctx (interrupted (frame_word (h_dmem (mc_hart m)) b 0) TRAP_CAUSE_ECALL_U m)) s = krun_return (ctx, s')"
    and st: "\<not> bit (ctx_mstatus ctx) 3"
  shows "\<exists>m'. handle_trap rom call (e # es1) es2 (m, s) = (m', s') \<and> runs_context ctx m' \<and>
    cs_mscratch (h_csr (mc_hart m')) = cs_mscratch (h_csr (mc_hart m))"
proof (rule run_trap [OF _ _ p b es h _ st])
  show "can_wake m" using awake by (simp add: can_wake_def)
next
  show "trap_of (rom (mc_pc m)) e m = Some (TRAP_CAUSE_ECALL_U, 0)" unfolding i(1) by (rule ecall_trap [OF i(3,2)])
next
  have "\<not> sint TRAP_CAUSE_ECALL_U < 0" "TRAP_CAUSE_ECALL_U AND 0x7fffffff = 8"
    by (simp_all add: TRAP_CAUSE_ECALL_U_def)
  then show "trap_handler io bytes (interrupted (frame_word (h_dmem (mc_hart m)) b 0) TRAP_CAUSE_ECALL_U m) s = krun_return (ctx, s')"
    using r by (simp add: trap_handler_def interrupted_ctx)
qed

section \<open>A concrete machine\<close>

text \<open>A ROM that holds instructions from an address on, and zeros elsewhere.\<close>

fun rom_of :: "u32 \<Rightarrow> instr list \<Rightarrow> rom" where
  "rom_of a [] x = 0"
| "rom_of a (i # is) x = (if x = a then encode i else rom_of (a + 4) is x)"

text \<open>A handler that does to frame and kernel state what the model of the C code does, and nothing else.\<close>

definition ideal_call :: "(trap_frame \<Rightarrow> 's \<Rightarrow> (cpu_context \<times> 's) krun) \<Rightarrow> machine \<times> 's \<Rightarrow> machine \<times> 's" where
  "ideal_call h ms =
     (let m = fst ms; d = h_dmem (mc_hart m); b = mc_regs m sp
      in case h (frame_at d b) (snd ms) of
           Some (Inr (ctx, s')) \<Rightarrow>
             (m\<lparr>mc_pc := mc_regs m ra, mc_hart := (mc_hart m)\<lparr>h_dmem := store_word (slot b 33) (ctx_pc ctx)
               (store_word (slot b 32) (ctx_mstatus ctx) (store_regs b (\<lambda>k. ctx_regs ctx ! k) [1..<32] d))\<rparr>\<rparr>, s')
         | _ \<Rightarrow> ms)"

lemma ideal_compiled: "compiled_handler (ideal_call h) h"
  unfolding compiled_handler_def
proof (intro allI impI)
  fix m s ctx s' b
  assume c: "calm m" and b: "frame_ok b" "mc_regs m a0 = b" "mc_regs m sp = b"
    and h: "h (frame_at (h_dmem (mc_hart m)) b) s = krun_return (ctx, s')"
  let ?d = "store_word (slot b 33) (ctx_pc ctx) (store_word (slot b 32) (ctx_mstatus ctx)
    (store_regs b (\<lambda>k. ctx_regs ctx ! k) [1..<32] (h_dmem (mc_hart m))))"
  let ?m = "m\<lparr>mc_pc := mc_regs m ra, mc_hart := (mc_hart m)\<lparr>h_dmem := ?d\<rparr>\<rparr>"
  have "ideal_call h (m, s) = (?m, s')"
    using h b(3) by (simp add: ideal_call_def Let_def krun_return_def del: upt_rec_numeral)
  moreover have "\<forall>k \<in> {1..<32}. frame_word ?d b k = ctx_regs ctx ! k" "frame_word ?d b 32 = ctx_mstatus ctx" "frame_word ?d b 33 = ctx_pc ctx"
    using b(1) by (simp_all add: frame_word_store store_regs_word del: upt_rec_numeral)
  moreover have "calm ?m" using c by (simp add: calm_def)
  ultimately show "\<exists>m'. ideal_call h (m, s) = (m', s') \<and> calm m' \<and> mc_pc m' = mc_regs m ra \<and> mc_regs m' sp = b \<and>
      (\<forall>k \<in> {1..<32}. frame_word (h_dmem (mc_hart m')) b k = ctx_regs ctx ! k) \<and>
      frame_word (h_dmem (mc_hart m')) b 32 = ctx_mstatus ctx \<and> frame_word (h_dmem (mc_hart m')) b 33 = ctx_pc ctx"
    using b(3) by (intro exI [of _ ?m]) simp
qed

text \<open>
  The trap code at address \<open>0x100\<close>, the handler at \<open>0x2000\<close>, one instruction of the program at \<open>0x1000\<close>;
  the kernel's stack ends at \<open>0x80008090\<close>, a timer interrupt is pending.
\<close>

definition demo_rom :: "u32 \<Rightarrow> rom" where
  "demo_rom w = (rom_of 0x100 (trap_entry_save 0x100 0x1800 @ trap_entry_restore))(0x1000 := w)"

definition demo_machine :: machine where
  "demo_machine = \<lparr>mc_regs = of_nat, mc_pc = 0x1000,
     mc_hart = \<lparr>h_csr = csr_zero\<lparr>cs_mtvec := 0x100, cs_mstatus := 8, cs_mie := 0x80, cs_mip := 0x80, cs_mscratch := 0x80008090\<rparr>,
       h_priv = PRIV_U, h_trap_mode = False, h_sleep = False, h_dmem = (\<lambda>_. 0)\<rparr>\<rparr>"

definition demo_ctrl :: ctrl where
  "demo_ctrl = \<lparr>cu_alu_op = ALU_ADD, cu_alu_a_sel = ALU_A_RS1, cu_alu_b_sel = ALU_B_RS2, cu_bu_be = False, cu_bu_op = BU_NEVER,
     cu_regfile_we = False, cu_rd_addr = 0, cu_rs1_addr = 0, cu_rs2_addr = 0, cu_imm_sel = IMM_I, cu_lsu_ls = LSU_NONE,
     cu_reg_wb_sel = REG_WB_ZERO, cu_mu_op = MU_NOP, cu_csr_we = False, cu_csr_data_sel = ZICSR_DATA_RS1, cu_csr_addr = 0,
     cu_csr_op = ZICSR_CSR_OP_NONE, cu_csr_zimm = 0, cu_t_illegal_inst = False, cu_t_ecall = False, cu_t_ebreak = False,
     cu_trap_mret = False, cu_wfi_req = False\<rparr>"

definition demo_in :: step_in where "demo_in = (demo_mem_env, demo_ctrl)"

text \<open>A list placed in its ROM; the address stays below the end of the ROM.\<close>

lemma rom_of_other: "\<lbrakk>unat a + 4 * length is < 2 ^ 32; unat x < unat a \<or> unat a + 4 * length is \<le> unat x\<rbrakk> \<Longrightarrow> rom_of a is x = 0"
proof (induction "is" arbitrary: a)
  case (Cons i js)
  have a4: "unat (a + 4) = unat a + 4" using Cons.prems(1) u32_shift_unat [of a 4] by simp
  then show ?case using Cons.IH [of "a + 4"] Cons.prems by (auto simp: word_unat_eq_iff)
qed simp

lemma rom_of_placed:
  "\<lbrakk>take_bit 2 a = 0; unat a + 4 * length is \<le> 0x2000; \<forall>x. unat a \<le> unat x \<and> unat x < unat a + 4 * length is \<longrightarrow> rom x = rom_of a is x\<rbrakk> \<Longrightarrow>
   placed rom a is"
proof (induction "is" arbitrary: a)
  case (Cons i js)
  have a4: "unat (a + 4) = unat a + 4" using Cons.prems(2) u32_shift_unat [of a 4] by simp
  have t: "take_bit 2 (a + 4) = 0"
  proof -
    have "unat a mod 4 = 0" using unat_take_bit_mod [of 2 a] Cons.prems(1) by simp
    then have "unat (take_bit 2 (a + 4)) = 0" unfolding unat_take_bit_mod a4 by simp
    then show ?thesis by (rule unat_eq_zero [THEN iffD1])
  qed
  have "rom x = rom_of (a + 4) js x" if "unat (a + 4) \<le> unat x" "unat x < unat (a + 4) + 4 * length js" for x
    using Cons.prems(3) [rule_format, of x] that a4 by auto
  then have "placed rom (a + 4) js" using Cons.IH [OF t] Cons.prems(2) a4 by auto
  moreover have "rom a = encode i" using Cons.prems(3) [rule_format, of a] by simp
  ultimately show ?case using Cons.prems(1,2) by (simp add: fetch_ok_def word_le_nat_alt)
qed simp

lemma demo_placed:
  "placed (demo_rom w) (trap_vector (h_csr (mc_hart demo_machine)))
     (trap_entry_save (trap_vector (h_csr (mc_hart demo_machine))) 0x1800 @ trap_entry_restore)"
proof -
  have v: "trap_vector (h_csr (mc_hart demo_machine)) = 0x100" by (simp add: demo_machine_def trap_vector_def)
  show ?thesis unfolding v
    by (rule rom_of_placed) (auto simp: demo_rom_def trap_entry_save_def trap_entry_restore_def CALL_def simp del: rom_of.simps)
qed

lemma demo_machine_simps:
  "demo_rom w (mc_pc demo_machine) = w" "fetch_ok (mc_pc demo_machine)" "h_priv (mc_hart demo_machine) = PRIV_U" "\<not> h_sleep (mc_hart demo_machine)"
  "0x80008000 = cs_mscratch (h_csr (mc_hart demo_machine)) - 144" "frame_ok 0x80008000"
  by (simp_all add: demo_rom_def demo_machine_def frame_ok_def fetch_ok_def)

text \<open>Witnesses: a context entered from memory, a trap with a handler that only returns, a tick, a system call.\<close>

definition entering :: machine where
  "entering = demo_machine\<lparr>mc_pc := 0x100, mc_regs := (\<lambda>_. 0x80001000),
     mc_hart := \<lparr>h_csr = csr_zero, h_priv = PRIV_M, h_trap_mode = False, h_sleep = False, h_dmem = store_word (slot 0x80001000 33) 0x1000 (\<lambda>_. 0)\<rparr>\<rparr>"

lemma zero_word [simp]: "frame_word (\<lambda>_. 0) b k = 0"
  by (simp add: frame_word_def load_word_def dmem_rdata_def dmem_byte_def)

lemma entering_frame: "frame_ok 0x80001000" "mc_regs entering 10 = 0x80001000"
  "k < 36 \<Longrightarrow> frame_word (h_dmem (mc_hart entering)) 0x80001000 k = (if k = 33 then 0x1000 else 0)"
proof -
  show f: "frame_ok 0x80001000" by (simp add: frame_ok_def)
  show "mc_regs entering 10 = 0x80001000" by (simp add: entering_def)
  show "k < 36 \<Longrightarrow> frame_word (h_dmem (mc_hart entering)) 0x80001000 k = (if k = 33 then 0x1000 else 0)"
    by (simp add: entering_def frame_word_store [OF f])
qed

theorem enter_context_resumes_witness:
  "mc_pc (run_rom (rom_of 0x100 enter_context) (replicate 36 demo_in) entering) = 0x1000 \<and>
   mc_regs (run_rom (rom_of 0x100 enter_context) (replicate 36 demo_in) entering) 7 = 0 \<and>
   h_priv (mc_hart (run_rom (rom_of 0x100 enter_context) (replicate 36 demo_in) entering)) = PRIV_U"
proof -
  have "calm entering" by (simp add: calm_def entering_def csr_zero_def)
  moreover have "placed (rom_of 0x100 enter_context) (mc_pc entering) enter_context"
    by (rule rom_of_placed) (simp_all add: entering_def enter_context_def)
  moreover have "length (replicate 36 demo_in) = length enter_context" by (simp add: enter_context_def)
  moreover have "\<not> bit (ctx_mstatus (context_at (h_dmem (mc_hart entering)) (mc_regs entering 10))) 3"
    unfolding entering_frame(2) by (simp add: context_at_def entering_frame(3))
  ultimately have "runs_context (context_at (h_dmem (mc_hart entering)) (mc_regs entering 10))
      (run_rom (rom_of 0x100 enter_context) (replicate 36 demo_in) entering)"
    using enter_context_resumes [of entering "rom_of 0x100 enter_context" "replicate 36 demo_in"] entering_frame(1,2) by auto
  then show ?thesis
    unfolding runs_context_def entering_frame(2)
    by (simp add: context_at_def entering_frame(3) get_mpp_def PRIV_U_def del: upt_rec_numeral)
qed

theorem machine_code_as_isa_witness:
  "trap_of (encode (ADDI 7 10 16)) demo_in entering = None \<and> mc_regs (exec_word (encode (ADDI 7 10 16)) demo_in entering) 7 = 0x80001010"
proof -
  define w m where "w = encode (ADDI 7 10 16)" and "m = exec_word w demo_in entering"
  have c: "calm entering" "fetch_ok (mc_pc entering)" by (simp_all add: calm_def entering_def csr_zero_def fetch_ok_def)
  have ok: "instr_ok (ADDI 7 10 16)" by (simp add: imm12_def)
  define s where "s = (cpu_of entering)\<lparr>c_regs := (mc_regs entering)(7 := 0x80001010), c_pc := mc_pc entering + 4\<rparr>"
  have s: "riscv (ADDI 7 10 16) (riscv_of entering) = Some (s, PRIV_M)"
    using entering_frame(2) c(1) by (simp add: s_def riscv_of_def set_c_reg_def set_reg_of_def reg_of_def calm_def)
  have r: "trap_of w demo_in entering = None" "riscv_of m = (s, PRIV_M)"
    using machine_code_as_isa [OF c ok s, of demo_in] unfolding w_def [symmetric] m_def [symmetric] by (simp_all add: odd_jump_def)
  have "mc_regs m = c_regs s" using r(2) cpu_of_sel(2) [of m] by (simp add: riscv_of_def)
  then show ?thesis using r(1) unfolding w_def [symmetric] m_def [symmetric] s_def by simp
qed

lemma demo_lengths:
  "length (replicate 43 demo_in) = length (trap_entry_save 0 0)" "length (replicate 39 demo_in) = length trap_entry_restore"
  by (simp_all add: trap_entry_save_def trap_entry_restore_def CALL_def)

lemma demo_timer_trap: "trap_of (demo_rom (encode (ADDI 0 0 0)) (mc_pc demo_machine)) demo_in demo_machine = Some (TRAP_CAUSE_M_TIMER_INTERRUPT, 0)"
proof -
  have "imm12 0" by (simp add: imm12_def)
  note d = decode_addi [of 0 0 0, simplified instr_ok.simps, OF _ refl refl]
  let ?c = "ctrl_of (encode (ADDI 0 0 0)) demo_in demo_machine"
  have c: "no_flags ?c" "no_csr ?c" "cu_lsu_ls ?c = LSU_NONE"
    unfolding ctrl_of_def using d \<open>imm12 0\<close> by simp_all
  then show ?thesis unfolding demo_machine_simps(1)
    by (simp add: trap_of_def no_flags_def no_csr_def mem_trap_def mem_exception_def exception_dispatch_def mem_flags_def mem_csr_illegal_def
        csr_illegal_def lsu_load_fault_def lsu_store_fault_def is_load_def is_store_def Let_def)
      (simp add: demo_machine_def mem_interrupt_def interrupt_dispatch_def csr_zero_def)
qed

lemma demo_can_wake: "can_wake demo_machine"
  using demo_machine_simps(4) by (simp add: can_wake_def)

theorem trap_runs_handler_witness:
  "\<exists>m'. handle_trap (demo_rom (encode (ADDI 0 0 0))) (ideal_call (\<lambda>f s. krun_return (tf_ctx f, s))) (demo_in # replicate 43 demo_in)
     (replicate 39 demo_in) (demo_machine, ()) = (m', ()) \<and> mc_pc m' = 0x1000 \<and> mc_regs m' 17 = 17"
proof -
  let ?h = "\<lambda>f s. krun_return (tf_ctx f, s) :: (cpu_context \<times> unit) krun"
  have h: "?h f () = krun_return (tf_ctx f, ())" for f by simp
  obtain m' where m': "handle_trap (demo_rom (encode (ADDI 0 0 0))) (ideal_call (\<lambda>f s. krun_return (tf_ctx f, s))) (demo_in # replicate 43 demo_in)
      (replicate 39 demo_in) (demo_machine, ()) = (m', ())"
    "runs_context (tf_ctx (interrupted (frame_word (h_dmem (mc_hart demo_machine)) 0x80008000 0) TRAP_CAUSE_M_TIMER_INTERRUPT demo_machine)) m'"
    using trap_runs_handler [OF demo_timer_trap demo_can_wake demo_placed demo_machine_simps(5,6) demo_lengths
        ideal_compiled [of ?h] h interrupted_ctx(5)] by blast
  have "same_program demo_machine m'" by (rule runs_interrupted [OF m'(2)])
  then show ?thesis using m'(1) by (auto simp: same_program_def demo_machine_def)
qed

text \<open>The same program asleep.\<close>

definition sleeping_machine :: machine where
  "sleeping_machine = demo_machine\<lparr>mc_hart := (mc_hart demo_machine)\<lparr>h_sleep := True\<rparr>\<rparr>"

lemma sleeping_simps:
  "mc_pc sleeping_machine = mc_pc demo_machine" "h_csr (mc_hart sleeping_machine) = h_csr (mc_hart demo_machine)"
  "mc_regs sleeping_machine = mc_regs demo_machine"
  by (simp_all add: sleeping_machine_def)

lemma sleeping_trap: "trap_of (demo_rom (encode (ADDI 0 0 0)) (mc_pc sleeping_machine)) demo_in sleeping_machine = Some (TRAP_CAUSE_M_TIMER_INTERRUPT, 0)"
proof -
  let ?w = "demo_rom (encode (ADDI 0 0 0)) (mc_pc demo_machine)"
  have c: "ctrl_of ?w demo_in sleeping_machine = ctrl_of ?w demo_in demo_machine" by (simp add: ctrl_of_def sleeping_machine_def)
  have "mem_in_of ?w (ctrl_of ?w demo_in demo_machine) sleeping_machine = mem_in_of ?w (ctrl_of ?w demo_in demo_machine) demo_machine"
    by (simp add: mem_in_of_def alu_out_def rs1_of_def rs2_of_def reg_of_def sleeping_simps cong: alu_a_src.case_cong alu_b_src.case_cong)
  moreover have ex: "mem_exception i (mc_hart sleeping_machine) = mem_exception i (mc_hart demo_machine)"
    and it: "mem_interrupt i (mc_hart sleeping_machine) = mem_interrupt i (mc_hart demo_machine)" for i
    by (simp_all add: sleeping_machine_def mem_exception_def mem_interrupt_def mem_flags_def mem_csr_illegal_def)
  have "mem_trap i (mc_hart sleeping_machine) = mem_trap i (mc_hart demo_machine)" for i
    by (simp only: mem_trap_def ex it)
  ultimately show ?thesis using demo_timer_trap unfolding trap_of_def sleeping_simps c by simp
qed

theorem timer_tick_transparent_witness:
  "\<exists>m'. handle_trap (demo_rom (encode (ADDI 0 0 0))) (ideal_call (trap_handler quiet_port (\<lambda>_. 0))) (demo_in # replicate 43 demo_in)
     (replicate 39 demo_in) (sleeping_machine, demo_sys (demo_kernel 5)) = (m', ticked 2 (demo_sys (demo_kernel 5))) \<and>
     h_sleep (mc_hart sleeping_machine) \<and> \<not> h_sleep (mc_hart m') \<and> mc_pc m' = 0x1000 \<and> mc_regs m' 17 = 17"
proof -
  have r: "tick_ready (sys_k (demo_sys (demo_kernel 5))) 2"
    using demo_slots(3) [of 5] by (simp add: tick_ready_def demo_sys_def blocked_slot_def wakes_def demo_unblocked)
  have n: "1 < t_time_slice (tasks (sys_k (demo_sys (demo_kernel 5))) ! 2)" "t_time_slice (tasks (sys_k (demo_sys (demo_kernel 5))) ! 2) < W32"
    by (simp_all add: demo_sys_def demo_task_def W32_def)
  obtain m' where "handle_trap (demo_rom (encode (ADDI 0 0 0))) (ideal_call (trap_handler quiet_port (\<lambda>_. 0))) (demo_in # replicate 43 demo_in)
      (replicate 39 demo_in) (sleeping_machine, demo_sys (demo_kernel 5)) = (m', ticked 2 (demo_sys (demo_kernel 5)))"
    "same_program sleeping_machine m'"
    using timer_tick_transparent [OF sleeping_trap demo_placed [folded sleeping_simps(2)] demo_machine_simps(5) [folded sleeping_simps(2)]
        demo_machine_simps(6) demo_lengths ideal_compiled r n] by blast
  moreover have "h_sleep (mc_hart sleeping_machine)" by (simp add: sleeping_machine_def)
  ultimately show ?thesis by (auto simp: same_program_def sleeping_simps) (simp_all add: demo_machine_def)
qed

text \<open>A user program that has put a character into \<open>a0\<close> and the code of \<open>putc\<close> into \<open>a7\<close>.\<close>

definition putc_machine :: machine where
  "putc_machine = demo_machine\<lparr>mc_regs := of_nat(10 := 72, 17 := SyscallCode_PUTC)\<rparr>"

lemma putc_machine_simps: "mc_pc putc_machine = mc_pc demo_machine" "mc_hart putc_machine = mc_hart demo_machine"
  by (simp_all add: putc_machine_def)

lemma quiet_putc: "putc_uart quiet_port c u = (SyscallStatus_DONE, u @ [c])"
proof -
  obtain n where n: "MAX_SPIN_ITER = Suc n" unfolding MAX_SPIN_ITER_def by (metis Suc_pred zero_less_numeral)
  show ?thesis unfolding putc_uart_def n by (simp add: quiet_port_def)
qed

lemma quiet_dispatch_putc:
  assumes "reg ctx 17 = SyscallCode_PUTC"
  shows "dispatch_syscall quiet_port bytes ctx s = krun_return (adv_pc ctx, s\<lparr>sys_uart := sys_uart s @ [ucast (reg ctx 10)]\<rparr>)"
  unfolding dispatch_syscall_def Let_def assms k_putc_def quiet_putc
  by (simp add: krun_simps SyscallCode_EXIT_def SyscallCode_YIELD_def SyscallCode_FREE_def SyscallCode_MALLOC_def SyscallCode_PUTC_def)

theorem ecall_runs_syscall_witness:
  "\<exists>m' s'. handle_trap (demo_rom INST_EXACT_ECALL) (ideal_call (trap_handler quiet_port (\<lambda>_. 0))) (demo_in # replicate 43 demo_in)
     (replicate 39 demo_in) (putc_machine, demo_sys (demo_kernel 5)) = (m', s') \<and> mc_pc m' = 0x1004 \<and> sys_uart s' = [72]"
proof -
  let ?f = "interrupted (frame_word (h_dmem (mc_hart putc_machine)) 0x80008000 0) TRAP_CAUSE_ECALL_U putc_machine"
  note simps = demo_machine_simps(1) [of INST_EXACT_ECALL, folded putc_machine_simps(1)] demo_machine_simps(2) [folded putc_machine_simps(1)]
    demo_machine_simps(3-6) [folded putc_machine_simps(2)]
  have a: "reg (tf_ctx ?f) 17 = SyscallCode_PUTC" "reg (tf_ctx ?f) 10 = 72" by (simp_all add: interrupted_ctx(1) putc_machine_def)
  have st: "\<not> bit (ctx_mstatus (adv_pc (tf_ctx ?f))) 3" using interrupted_ctx(5) by (simp add: adv_pc_def)
  obtain m' where "handle_trap (demo_rom INST_EXACT_ECALL) (ideal_call (trap_handler quiet_port (\<lambda>_. 0))) (demo_in # replicate 43 demo_in)
      (replicate 39 demo_in) (putc_machine, demo_sys (demo_kernel 5)) =
      (m', (demo_sys (demo_kernel 5))\<lparr>sys_uart := sys_uart (demo_sys (demo_kernel 5)) @ [ucast (reg (tf_ctx ?f) 10)]\<rparr>)"
    "runs_context (adv_pc (tf_ctx ?f)) m'"
    using ecall_runs_syscall [OF simps(1-4) demo_placed [folded putc_machine_simps(2)] simps(5,6) demo_lengths
        ideal_compiled quiet_dispatch_putc [OF a(1)] st] by blast
  then show ?thesis using a(2) by (auto simp: demo_sys_def runs_context_def adv_pc_def interrupted_ctx(2) putc_machine_simps demo_machine_def)
qed

text \<open>A user program that stores into the timer's compare register.\<close>

definition meddling :: machine where "meddling = demo_machine\<lparr>mc_regs := of_nat(5 := 0x02004000)\<rparr>"

theorem user_mode_isolated_witness:
  "\<not> cb_we (mem_clint_bus False (mem_in_of (encode (SW 0 0 5)) (ctrl_of (encode (SW 0 0 5)) demo_in meddling) meddling) (mc_hart meddling)) \<and>
   trap_of (encode (SW 0 0 5)) demo_in meddling \<noteq> None \<and> mc_pc (exec_word (encode (SW 0 0 5)) demo_in meddling) = 0x100"
proof -
  define w where "w = encode (SW 0 0 5)"
  define c where "c = ctrl_of w demo_in meddling"
  let ?i = "mem_in_of w c meddling"
  have ok: "instr_ok (SW 0 0 5)" by (simp add: imm12_def)
  have "c = cu w (h_priv (mc_hart meddling)) demo_ctrl" by (simp add: c_def ctrl_of_def demo_in_def)
  note d = decode_sw [OF ok w_def this]
  have "mc_regs meddling 5 = 0x02004000" by (simp add: meddling_def)
  then have "mi_alu_out ?i = 0x02004000" using d(6,8-11) by (simp add: alu_out_def rs1_of_def reg_of_def)
  then have s: "fst (lsu_src (mi_alu_out ?i)) = LSU_MEM_SRC_CLINT" "is_store (mi_lsu_op ?i)"
    using d(4) by (simp_all add: lsu_src_def is_store_def)
  have u: "h_priv (mc_hart meddling) = PRIV_U" by (simp add: meddling_def demo_machine_def)
  note iso = user_mode_isolated [where w = w and ei = demo_in and rst = False and m = meddling, OF u refl refl refl, folded c_def]
  have t: "trap_of w demo_in meddling \<noteq> None" "\<not> cb_we (mem_clint_bus False ?i (mc_hart meddling))" using iso s by blast+
  then have "mc_pc (exec_word w demo_in meddling) = trap_vector (h_csr (mc_hart meddling))" using iso by (auto split: option.splits)
  moreover have "trap_vector (h_csr (mc_hart meddling)) = 0x100" by (simp add: meddling_def demo_machine_def trap_vector_def)
  ultimately show ?thesis using t unfolding c_def w_def by (simp del: encode.simps)
qed

end
