(* ===== verification/Spec2Isabelle.thy ===== *)
theory Spec2Isabelle
  imports Simulator_Props Drawer_Props Panel_Props Panel_Faithful Kernel_Heap_Props Kernel_Queue_Props Kernel_Boot User_Syscall
    Rtl_Clint_Props Rtl_Screen Asm_Kernel
begin

text \<open>
  cotm32 is a small RISC-V computer: its hardware in SystemVerilog (\<open>rtl/\<close>), a simulator of it in
  C++ (\<open>sim/\<close>) that Verilator links with the translated hardware, and the software that runs on it,
  a preemptive kernel with a user program in C and assembly (\<open>sw/bootc/\<close>).  This library models the
  simulator, the software and the parts of the hardware the software meets, and proves what makes
  them correct, each alone and together.

  \<^bold>\<open>How the parts interact.\<close>  \<open>main\<close> loads an ELF file into the memories of the \<open>VerilatedContainer\<close>
  and enters the window loop.  Every frame the \<open>TimeController\<close> decides how many clock cycles to
  run; each cycle drives the hardware model, dumps a waveform step when the \<open>DumpController\<close> asked
  for one, and lets the \<open>TermController\<close> look at the UART's ports: bytes sent by the program become
  cells of a terminal, typed characters go to the receiver.  Drawers show the state through views.
  On the other side of the UART the kernel's trap handler serves timer interrupts and system
  calls; its scheduler switches between \<open>idle\<close> and the user program, whose memory comes from
  heaps nested in the kernel's heap.  Between the processor and the C code stands the assembly of
  \<open>trap_entry.s\<close>, which turns the registers of an interrupted program into the handler's argument
  and what the handler leaves there into the registers of the program that goes on.

  \<^bold>\<open>Theories of the simulator.\<close>
  \<^item> \<open>Prelude\<close>: the result type (an error or a value), its binding, word abbreviations, the macros of
    \<open>include/compare.hpp\<close>.
  \<^item> \<open>Ring_Buffer\<close>: \<open>include/struct/ring_buffer.hpp\<close>.  References are slot indices, so that an
    assignment through a reference copies into the slot, as in C++.  A locale states what a bounded
    queue promises; the ring buffer interprets it.
  \<^item> \<open>Terminal\<close>, \<open>Terminal_Inv\<close>, \<open>Terminal_Erase\<close>, \<open>Terminal_Props\<close>, \<open>Terminal_Bounds\<close>,
    \<open>Terminal_Reach\<close>, \<open>Terminal_Io\<close>:
    \<open>controllers/term_controller\<close>.  The byte interpreter with its three states, one definition per
    escape sequence; the invariant of terminals whose cursor is on a stored row, and what holds of every reachable
    terminal, also after an erase-scrollback below the first row; cell-level effects; the UART side.
  \<^item> \<open>Cotm32_Defs\<close>, \<open>Name_Utils\<close>: \<open>cotm32_defs.hpp\<close> and \<open>name_utils.cpp\<close>.
  \<^item> \<open>Verilated\<close>, \<open>Verilated_Props\<close>: \<open>verilated_container\<close>.  Lifecycle, waveform dump, byte access
    through the memory map.
  \<^item> \<open>Views\<close>, \<open>Pipeline_View\<close>, \<open>Views_Props\<close>: the read-only windows into the hardware (\<open>views/\<close>).
  \<^item> \<open>Elf\<close>, \<open>Elf_Props\<close>: \<open>load_elf.cpp\<close> with its stream position and error state.
  \<^item> \<open>Time_Control\<close>, \<open>Dump_Control\<close>: the two controllers.
  \<^item> \<open>Display_Format\<close>, \<open>Panel\<close>: the conversions of \<open>printf\<close>, the items a window draws, and drawings as
    functions from a state to items and a state; \<open>draw_utils.cpp\<close>.  A locale states what sequencing
    drawings preserves.
  \<^item> \<open>Panel_Pipeline\<close>, \<open>Panel_State\<close>, \<open>Mem_Drawer\<close>, \<open>Sidebar\<close>: the eight windows of the sidebar
    (\<open>drawers/\<close>); \<open>Panel_Faithful\<close> and \<open>Panel_Props\<close> hold what they show and what drawing them does.
  \<^item> \<open>Windows\<close>, \<open>Drawer_Props\<close>: the time, dump and terminal windows, what they draw and what they do to
    the controllers.
  \<^item> \<open>Simulator\<close>, \<open>Simulator_Props\<close>: \<open>simulator\<close>, \<open>imgui_renderer\<close>, \<open>sdl_window\<close>, \<open>main\<close>: every listener,
    the frame, and the whole program.

  \<^bold>\<open>Theories of the software.\<close>
  \<^item> \<open>Kernel_Heap\<close>: \<open>kernel/heap.c\<close>, block headers as a map from addresses, every addition wrapping at
    32 bits.  \<open>Kernel_Heap_Inv\<close> relates memory to a list of blocks, \<open>Kernel_Heap_Alloc\<close> and
    \<open>Kernel_Heap_Free\<close> show that allocation is first fit and that freeing joins neighbours;
    \<open>Kernel_Heap_Live\<close> states the allocator's contract as a locale, \<open>Kernel_Heap_Props\<close> interprets
    it; \<open>Kernel_Heap_Frame\<close> shows that a heap inside a block of another one does not disturb it.
  \<^item> \<open>Kernel_Task\<close>: \<open>kernel/task.c\<close>, \<open>context.c\<close>, the constants of \<open>csr.h\<close> and \<open>trap/enums.h\<close>.  The record
    \<open>kernel\<close> holds the static variables of all kernel files.
  \<^item> \<open>Kernel_Sched\<close>: \<open>kernel/scheduler.c\<close>.  \<open>Kernel_Queue\<close> relates the linked ready queue to a list,
    \<open>Kernel_Ready\<close> states the queue's contract as a locale and interprets it, \<open>Kernel_Queue_Props\<close>
    and \<open>Kernel_Sched_Props\<close> hold its properties, \<open>Kernel_Wake\<close> the waiting for interrupts.
  \<^item> \<open>Clint\<close>: \<open>clint.h\<close> and \<open>lib/cstr.c\<close>.
  \<^item> \<open>Kernel_Sys\<close>: \<open>sys/ksys.c\<close>, \<open>sys/ksys_dispatch.c\<close>, \<open>trap_handler.c\<close>, \<open>kernel/kernel.c\<close>.
    \<open>Kernel_Switch\<close> is about context switches, \<open>Kernel_Trap\<close> about quanta and blocking calls.
  \<^item> \<open>Kernel_Duo\<close>, \<open>Kernel_Duo_Traps\<close>, \<open>Kernel_Boot\<close>: the kernel as shipped, with its two tasks.  The
    four shapes its state can have, every trap from one shape to the next, and the path from the
    reset, with any contents of the memory, through \<open>entry\<close> and \<open>kernel_main\<close> to the first shape.
  \<^item> \<open>User_Entry\<close>, \<open>User_Syscall\<close>: \<open>user/entry.c\<close> and \<open>user/syscall.c\<close>.

  \<^bold>\<open>Theories of the hardware and the assembly.\<close>
  \<^item> \<open>Rtl_Clint\<close>, \<open>Rtl_Clint_Props\<close>: \<open>rtl/peripheral/clint.sv\<close> cycle by cycle, and the driver of \<open>clint.h\<close>
    on it.
  \<^item> \<open>Rtl_Uart\<close>, \<open>Rtl_Screen\<close>: \<open>rtl/peripheral/uart/uart_term.sv\<close> and its closed loop with the terminal
    controller, in both directions.
  \<^item> \<open>Rtl_Csr\<close>: the CSR file, privilege mode, sleep and trap selection (\<open>rtl/cpu/priv/\<close>).
  \<^item> \<open>Rtl_Mem\<close>: load-store unit, data memory and the memory stage of \<open>processor_core.sv\<close>, where traps
    are taken.
  \<^item> \<open>Rtl_Exec\<close>: \<open>alu.sv\<close>, \<open>bu.sv\<close>, \<open>mu.sv\<close>, \<open>fwd_unit.sv\<close>, \<open>register_file.sv\<close>.
  \<^item> \<open>Rtl_Decode\<close>: the control unit \<open>cu.sv\<close> and \<open>sign_ext.sv\<close>.  \<open>Rtl_Core\<close>: a fetched word through all stages of
    \<open>processor_core.sv\<close>, one instruction at a time (\<open>exec_word\<close>); while the processor sleeps, the instruction
    behind \<open>wfi\<close> is held in the memory stage until an interrupt replaces it.  \<open>Rtl_Isolation\<close>: what a user
    program can do there.
  \<^item> \<open>Asm\<close>: \<open>entry.s\<close>, \<open>context.s\<close>, \<open>trap_entry.s\<close> as instructions, and the 32-bit words the RISC-V manual
    gives them.  \<open>Asm_Isa\<close> states the manual's semantics of these instructions (\<open>riscv\<close>) and proves that in machine mode with
    interrupts off the hardware implements it on the words; the part that stays in that mode (\<open>isa\<close>) is what
    \<open>Asm_Trap\<close> executes the blocks of the assembly on, \<open>Asm_Switch\<close> puts trap, assembly and handler together, \<open>Asm_Kernel\<close> instantiates the handler
    with the kernel's.

  \<^bold>\<open>What the properties show.\<close>  The terminal keeps its cursor in the viewport and can fault only in
  the erase commands and when it prints on a row that an erase-scrollback has removed; the loader writes the parts of the file that the program
  headers describe (not the zeros behind them); the container behaves like its three-phase lifecycle, and \<open>main\<close> never breaks
  it; frames spend their time budget; drawing the windows leaves the hardware alone, what they print
  determines what they show, and the trap window's use of a freed string is pinned down.  Clients of the heap always get disjoint aligned regions;
  the ready queue is a stable sort; a task keeps the processor for exactly its quantum; blocked
  calls are repeated after the wake-up; and the shipped kernel never panics or hangs, whatever the
  order of interrupts and system calls, apart from the misuses that are stated as such: the
  wrap-around of a request close to 4 GiB, the double free, a string that is never sent.  Across the
  layers: a trap hands the interrupted program to the C handler and resumes exactly the context
  it leaves, so that a timer tick inside a quantum is invisible to the program, running or asleep, and an \<open>ecall\<close> is
  the kernel's system call; user programs cannot reach devices or CSRs; typed characters arrive
  in order and stored bytes appear on the screen; the timer neither drifts nor fires early.  Several
  properties pin down behaviour that is not what the code means to do (erase commands, the ready
  queue when the running task outranks its head, the backspace on an empty line, an exception taken asleep, a jump to an odd address); the findings of
  the manifest name them.

  \<^bold>\<open>Loops and totality.\<close>  Loops over data are structural recursions, the scheduler's search has a
  termination proof (it looks at nine entries at most), the terminal's and the container's
  operations are total functions.  Loops that the code may never leave are partial functions whose
  value \<open>None\<close> is not returning: the search of \<open>alloc_heap\<close> (the block list can become cyclic), the
  search of \<open>push_ready_task\<close>, \<open>get_time\<close>, the loops of \<open>k_puts\<close>, the window loop over a finite
  list of frames.  For each of them it is proved when a value is returned.  The only bound is that
  of \<open>k_putc\<close>, 1024 reads of the status register, which is the code's own.

  \<^bold>\<open>Parameters.\<close>  The hardware model that Verilator generates is the pair \<open>eval\<close> and \<open>final\<close>, its
  associative arrays answer absent keys by \<open>absent\<close>; the floating-point arithmetic, the printing of a
  period and the clock of the time controller, the answers of the user-interface widgets, and the result of opening a file
  are arguments.  The kernel's UART is a record of three register accesses, its clock a function
  from accesses to times, the entry points of the tasks addresses.  The words in the ROM are a
  function, and what the devices drive while an instruction runs, and the values of those outputs of the
  control unit that an instruction leaves as they were, are a list of inputs.  The compiled C handler is a parameter of the theorems about traps,
  of which the calling convention is assumed (\<open>compiled_handler\<close>): it does to frame and state what its
  source does, keeps the stack pointer and returns.

  \<^bold>\<open>Not modelled.\<close>  Creating and destroying the SDL window, the OpenGL context and the ImGui context, and
  presenting a finished frame, which the program only calls; positions and sizes on the screen and the
  look of interactive widgets; of the hardware the overlap of instructions in the pipeline with its
  stalls and flushes, the bytes of the ROM, and the wiring of the top level.
\<close>

end
